(* ===== verification/Kanban_Prelude.thy ===== *)
theory Kanban_Prelude
  imports Main "HOL-Library.Word" "HOL-Library.Char_ord" "HOL-Library.List_Lexorder"
begin

text \<open>
  Shared vocabulary of the development: the string functions of the Rust standard library that
  the service uses (decimal rendering with zero padding, splitting, prefix and suffix tests,
  lower-casing), the width checks of the SQL integer types, the update/delete/select
  combinators that model SQL statements over a table held as a list of rows, and the generic
  lemmas about them. Strings are byte strings (\<open>char list\<close>), as \<open>str::len\<close> counts bytes.
\<close>

named_theorems run_simps \<open>evaluation rules of the effect combinators\<close>
named_theorems keeps_intros \<open>rules that push a database property through a handler\<close>

section \<open>Integers at their width\<close>

type_synonym u128 = "128 word"
type_synonym u64 = "64 word"

definition i32_ok :: "int \<Rightarrow> bool" where
  "i32_ok x \<longleftrightarrow> - (2 ^ 31) \<le> x \<and> x < 2 ^ 31"

definition i64_ok :: "int \<Rightarrow> bool" where
  "i64_ok x \<longleftrightarrow> - (2 ^ 63) \<le> x \<and> x < 2 ^ 63"

text \<open>The Rust casts \<open>as i32\<close>, \<open>as u32\<close> and \<open>as u64\<close>: two's complement truncation.\<close>

definition as_i32 :: "int \<Rightarrow> int" where
  "as_i32 x = (x + 2 ^ 31) mod 2 ^ 32 - 2 ^ 31"

definition as_u32 :: "int \<Rightarrow> int" where
  "as_u32 x = x mod 2 ^ 32"

definition wrap_i64 :: "int \<Rightarrow> int" where
  "wrap_i64 x = (x + 2 ^ 63) mod 2 ^ 64 - 2 ^ 63"

definition as_u64 :: "int \<Rightarrow> int" where
  "as_u64 x = x mod 2 ^ 64"

lemma as_i32_ok [simp]: "i32_ok x \<Longrightarrow> as_i32 x = x"
  by (simp add: i32_ok_def as_i32_def)

lemma wrap_i64_ok [simp]: "i64_ok x \<Longrightarrow> wrap_i64 x = x"
  by (simp add: i64_ok_def wrap_i64_def)

lemma as_i32_range: "i32_ok (as_i32 x)"
  using pos_mod_bound [of "2 ^ 32" "x + 2 ^ 31"] pos_mod_sign [of "2 ^ 32" "x + 2 ^ 31"]
  by (simp add: i32_ok_def as_i32_def)

lemma as_u64_id [simp]: "0 \<le> x \<Longrightarrow> x < 2 ^ 64 \<Longrightarrow> as_u64 x = x"
  by (simp add: as_u64_def)

section \<open>Strings\<close>

text \<open>Decimal rendering of a natural number, most significant digit first.\<close>

definition digit_char :: "nat \<Rightarrow> char" where
  "digit_char d = char_of (48 + d)"

fun show_nat :: "nat \<Rightarrow> string" where
  "show_nat n = (if n < 10 then [digit_char n] else show_nat (n div 10) @ [digit_char (n mod 10)])"

declare show_nat.simps [simp del]

definition show_int :: "int \<Rightarrow> string" where
  "show_int i = (if i < 0 then CHR ''-'' # show_nat (nat (- i)) else show_nat (nat i))"

text \<open>\<open>{:0w}\<close>: zero padding to a minimal width, after the sign.\<close>

definition pad0 :: "nat \<Rightarrow> string \<Rightarrow> string" where
  "pad0 w s = replicate (w - length s) (CHR ''0'') @ s"

definition show_int_pad :: "nat \<Rightarrow> int \<Rightarrow> string" where
  "show_int_pad w i =
     (if i < 0 then CHR ''-'' # pad0 (w - 1) (show_nat (nat (- i))) else pad0 w (show_nat (nat i)))"

text \<open>\<open>str::split(c)\<close> on a single character: always at least one part.\<close>

fun split_on :: "char \<Rightarrow> string \<Rightarrow> string list" where
  "split_on c [] = [[]]"
| "split_on c (x # xs) =
     (if x = c then [] # split_on c xs
      else (case split_on c xs of [] \<Rightarrow> [[x]] | p # ps \<Rightarrow> (x # p) # ps))"

fun strip_prefix :: "string \<Rightarrow> string \<Rightarrow> string option" where
  "strip_prefix [] s = Some s"
| "strip_prefix (p # ps) [] = None"
| "strip_prefix (p # ps) (x # xs) = (if p = x then strip_prefix ps xs else None)"

definition ends_with :: "string \<Rightarrow> string \<Rightarrow> bool" where
  "ends_with s suf \<longleftrightarrow> strip_prefix (rev suf) (rev s) \<noteq> None"

fun contains_str :: "string \<Rightarrow> string \<Rightarrow> bool" where
  "contains_str pat [] = (pat = [])"
| "contains_str pat (x # xs) = (strip_prefix pat (x # xs) \<noteq> None \<or> contains_str pat xs)"

text \<open>ASCII lower-casing; the texts it is applied to are compared with ASCII patterns only.\<close>

definition lower_char :: "char \<Rightarrow> char" where
  "lower_char c = (let n = (of_char c :: nat) in if 65 \<le> n \<and> n \<le> 90 then char_of (n + 32) else c)"

definition to_lower :: "string \<Rightarrow> string" where
  "to_lower s = map lower_char s"

definition ws_char :: "char \<Rightarrow> bool" where
  "ws_char c \<longleftrightarrow> (of_char c :: nat) \<in> {9, 10, 11, 12, 13, 32}"

definition trim :: "string \<Rightarrow> string" where
  "trim s = rev (dropWhile ws_char (rev (dropWhile ws_char s)))"

lemma strip_prefix_Some: "strip_prefix p s = Some r \<longleftrightarrow> s = p @ r"
  by (induction p s rule: strip_prefix.induct) auto

lemma strip_prefix_append [simp]: "strip_prefix p (p @ r) = Some r"
  by (simp add: strip_prefix_Some)

lemma ends_with_iff: "ends_with s suf \<longleftrightarrow> (\<exists>r. s = r @ suf)"
  by (auto simp: ends_with_def strip_prefix_Some dest: rev_rev_ident [THEN trans, OF sym, OF arg_cong [of _ _ rev]])


section \<open>Decimal digits\<close>

definition digit_val :: "char \<Rightarrow> nat" where
  "digit_val c = of_char c - 48"

definition is_digit :: "char \<Rightarrow> bool" where
  "is_digit c \<longleftrightarrow> 48 \<le> (of_char c :: nat) \<and> (of_char c :: nat) \<le> 57"

definition read_nat :: "string \<Rightarrow> nat" where
  "read_nat s = foldl (\<lambda>a c. 10 * a + digit_val c) 0 s"

lemma digit_val_char [simp]: "d < 10 \<Longrightarrow> digit_val (digit_char d) = d"
  by (simp add: digit_val_def digit_char_def)

lemma is_digit_char [simp]: "d < 10 \<Longrightarrow> is_digit (digit_char d)"
  by (simp add: is_digit_def digit_char_def)

lemma show_nat_digits: "\<forall>c \<in> set (show_nat n). is_digit c"
proof (induction n rule: show_nat.induct)
  case (1 n)
  then show ?case by (subst show_nat.simps) auto
qed

lemma read_show_nat [simp]: "read_nat (show_nat n) = n"
proof (induction n rule: show_nat.induct)
  case (1 n)
  then show ?case by (subst show_nat.simps) (auto simp: read_nat_def)
qed

lemma read_nat_zeros [simp]: "read_nat (replicate k (CHR ''0'') @ s) = read_nat s"
  by (induction k) (auto simp: read_nat_def digit_val_def)

lemma read_pad0 [simp]: "read_nat (pad0 w s) = read_nat s"
  by (simp add: pad0_def)

lemma pad0_digits: "\<forall>c \<in> set s. is_digit c \<Longrightarrow> \<forall>c \<in> set (pad0 w s). is_digit c"
  by (auto simp: pad0_def is_digit_def)

lemma length_pad0: "w \<le> length (pad0 w s)"
  by (simp add: pad0_def)

lemma not_digit_dash [simp]: "\<not> is_digit (CHR ''-'')"
  by (simp add: is_digit_def)

text \<open>
  A decimal suffix after a dash determines both parts: the renderings \<open>prefix-seq\<close> of two
  sequence numbers differ whenever the numbers do, whatever the prefixes are.
\<close>

lemma dash_suffix_inject:
  assumes "p @ CHR ''-'' # s = q @ CHR ''-'' # t"
    and "\<forall>c \<in> set s. is_digit c" and "\<forall>c \<in> set t. is_digit c"
  shows "p = q \<and> s = t"
proof -
  have a: "rev s @ CHR ''-'' # rev p = rev t @ CHR ''-'' # rev q"
    using arg_cong [OF assms(1), of rev] by simp
  have tw: "takeWhile is_digit (rev u @ CHR ''-'' # rev v) = rev u"
    if "\<forall>c \<in> set u. is_digit c" for u v
    by (subst takeWhile_append2) (use that in auto)
  have "rev s = rev t"
    using tw [OF assms(2), of p] tw [OF assms(3), of q] a by simp
  with a show ?thesis by simp
qed

section \<open>Tables as lists of rows\<close>

text \<open>
  \<open>UPDATE t SET f WHERE p\<close>, \<open>DELETE FROM t WHERE p\<close> and the number of affected rows. A row
  order is kept, so an unordered SELECT reads rows in insertion order.
\<close>

definition upd_rows :: "('r \<Rightarrow> bool) \<Rightarrow> ('r \<Rightarrow> 'r) \<Rightarrow> 'r list \<Rightarrow> 'r list" where
  "upd_rows p f rows = map (\<lambda>r. if p r then f r else r) rows"

definition del_rows :: "('r \<Rightarrow> bool) \<Rightarrow> 'r list \<Rightarrow> 'r list" where
  "del_rows p rows = filter (\<lambda>r. \<not> p r) rows"

definition cnt_rows :: "('r \<Rightarrow> bool) \<Rightarrow> 'r list \<Rightarrow> nat" where
  "cnt_rows p rows = length (filter p rows)"

lemma length_upd_rows [simp]: "length (upd_rows p f rows) = length rows"
  by (simp add: upd_rows_def)

lemma set_upd_rows: "set (upd_rows p f rows) = (\<lambda>r. if p r then f r else r) ` set rows"
  by (simp add: upd_rows_def)

lemma set_del_rows [simp]: "set (del_rows p rows) = {r \<in> set rows. \<not> p r}"
  by (simp add: del_rows_def)

lemma map_upd_rows_same [simp]:
  "(\<And>r. p r \<Longrightarrow> k (f r) = k r) \<Longrightarrow> map k (upd_rows p f rows) = map k rows"
  by (simp add: upd_rows_def)

lemma upd_rows_Nil [simp]: "upd_rows p f [] = []"
  by (simp add: upd_rows_def)

lemma upd_rows_Cons [simp]:
  "upd_rows p f (r # rs) = (if p r then f r else r) # upd_rows p f rs"
  by (simp add: upd_rows_def)

lemma filter_upd_rows:
  "(\<And>r. p r \<Longrightarrow> q (f r) = q r) \<Longrightarrow> filter q (upd_rows p f rows) = upd_rows p f (filter q rows)"
  by (induction rows) auto

lemma filter_upd_rows_other:
  "(\<And>r. p r \<Longrightarrow> \<not> q r \<and> \<not> q (f r)) \<Longrightarrow> filter q (upd_rows p f rows) = filter q rows"
  by (induction rows) auto

lemma cnt_rows_0: "cnt_rows p rows = 0 \<longleftrightarrow> (\<forall>r \<in> set rows. \<not> p r)"
  by (simp add: cnt_rows_def filter_empty_conv)

lemma find_Some_set: "List.find p xs = Some x \<Longrightarrow> x \<in> set xs \<and> p x"
  by (auto simp: find_Some_iff)

lemma find_upd_rows:
  "(\<And>r. p r \<Longrightarrow> q (f r) = q r) \<Longrightarrow>
   List.find q (upd_rows p f rows) = map_option (\<lambda>r. if p r then f r else r) (List.find q rows)"
  by (induction rows) auto

lemma find_distinct_key:
  assumes "distinct (map k rows)" and "r \<in> set rows" and "p r" and "\<And>s. p s \<Longrightarrow> k s = c"
  shows "List.find p rows = Some r"
  using assms(1,2)
proof (induction rows)
  case Nil
  then show ?case by simp
next
  case (Cons x rows)
  have kr: "k r = c" using assms(3,4) by blast
  show ?case
  proof (cases "p x")
    case True
    then have "k x = k r" using assms(4) kr by simp
    then have "x = r" using Cons.prems by (auto simp: image_iff)
    with True show ?thesis by simp
  next
    case False
    with Cons.prems assms(3) have "r \<in> set rows" by auto
    with Cons False show ?thesis by simp
  qed
qed

lemma distinct_key: "distinct (map f xs) \<Longrightarrow> x \<in> set xs \<Longrightarrow> y \<in> set xs \<Longrightarrow> f x = f y \<Longrightarrow> x = y"
  by (auto simp: distinct_map dest: inj_onD)

text \<open>\<open>ORDER BY\<close>: insertion sort by a total preorder, stable on ties.\<close>

fun insert_by :: "('a \<Rightarrow> 'a \<Rightarrow> bool) \<Rightarrow> 'a \<Rightarrow> 'a list \<Rightarrow> 'a list" where
  "insert_by le x [] = [x]"
| "insert_by le x (y # ys) = (if le x y then x # y # ys else y # insert_by le x ys)"

definition sort_rows :: "('a \<Rightarrow> 'a \<Rightarrow> bool) \<Rightarrow> 'a list \<Rightarrow> 'a list" where
  "sort_rows le xs = foldr (insert_by le) xs []"

lemma mset_insert_by [simp]: "set (insert_by le x xs) = insert x (set xs)"
  by (induction xs) auto

lemma length_insert_by [simp]: "length (insert_by le x xs) = Suc (length xs)"
  by (induction xs) auto

lemma sort_rows_Nil [simp]: "sort_rows le [] = []"
  by (simp add: sort_rows_def)

lemma sort_rows_Cons [simp]: "sort_rows le (x # xs) = insert_by le x (sort_rows le xs)"
  by (simp add: sort_rows_def)

lemma set_sort_rows [simp]: "set (sort_rows le xs) = set xs"
  by (induction xs) auto

lemma length_sort_rows [simp]: "length (sort_rows le xs) = length xs"
  by (induction xs) auto

lemma distinct_insert_by [simp]: "distinct (map f (insert_by le x xs)) \<longleftrightarrow> f x \<notin> f ` set xs \<and> distinct (map f xs)"
  by (induction xs) auto

lemma distinct_sort_rows [simp]: "distinct (map f (sort_rows le xs)) = distinct (map f xs)"
  by (induction xs) auto

lemma sorted_insert_by:
  assumes "sorted_wrt le xs" and "\<And>a b. le a b \<or> le b a" and "\<And>a b c. le a b \<Longrightarrow> le b c \<Longrightarrow> le a c"
  shows "sorted_wrt le (insert_by le x xs)"
  using assms(1)
proof (induction xs)
  case Nil
  then show ?case by simp
next
  case (Cons y ys)
  then show ?case using assms(2,3) by auto
qed

lemma sorted_sort_rows:
  assumes "\<And>a b. le a b \<or> le b a" and "\<And>a b c. le a b \<Longrightarrow> le b c \<Longrightarrow> le a c"
  shows "sorted_wrt le (sort_rows le xs)"
proof (induction xs)
  case Nil
  show ?case by simp
next
  case (Cons x xs)
  show ?case
    unfolding sort_rows_Cons by (rule sorted_insert_by [OF Cons assms])
qed

end
