(* ===== verification/Visibility.thy ===== *)
theory Visibility
  imports Kanban_Prelude
begin

text \<open>
  \<open>src/services/visibility.rs\<close>: the two representations of a board's visibility, the protobuf
  enum value and the text stored in Postgres.
\<close>

definition proto_to_db :: "int \<Rightarrow> string" where
  "proto_to_db v = (if v = 2 then ''internal'' else if v = 3 then ''public'' else ''private'')"

definition db_to_proto :: "string \<Rightarrow> int" where
  "db_to_proto s = (if s = ''internal'' then 2 else if s = ''public'' then 3 else 1)"

definition is_public_or_internal :: "string \<Rightarrow> bool" where
  "is_public_or_internal s \<longleftrightarrow> s = ''public'' \<or> s = ''internal''"

definition is_public :: "string \<Rightarrow> bool" where
  "is_public s \<longleftrightarrow> s = ''public''"

text \<open>
  The two representations agree and fail safe: every stored text that the code writes reads
  back as itself, an enum value outside the three defined ones is stored as private, and only the
  texts \<open>internal\<close> and \<open>public\<close> open a board, \<open>public\<close> alone to anonymous readers.
\<close>

theorem visibility_fail_safe:
  "proto_to_db (db_to_proto (proto_to_db v)) = proto_to_db v
   \<and> (proto_to_db v = ''private'' \<longleftrightarrow> v \<noteq> 2 \<and> v \<noteq> 3)
   \<and> (is_public_or_internal s \<longleftrightarrow> db_to_proto s \<noteq> 1)
   \<and> (is_public s \<longleftrightarrow> db_to_proto s = 3)
   \<and> (is_public (proto_to_db v) \<longleftrightarrow> v = 3)"
  by (simp add: proto_to_db_def db_to_proto_def is_public_or_internal_def is_public_def)

end
