(* ===== verification/Cutover.thy ===== *)
theory Cutover
  imports Kanban_Prelude
begin

text \<open>
  \<open>src/realtime/cutover.rs\<close>: the state machine of one board subscription, from snapshot replay
  to the live JetStream tail, with the ring buffer that drops repeated event ids. The ring buffer
  offers the interface \<open>dedup_window\<close>; the tracker is shown to refine a specification that keeps
  the whole history of emitted ids and consults its last entries.
\<close>

section \<open>BoundedSet\<close>

record bounded_set =
  capacity :: nat
  queue :: "string list"
  id_set :: "string set"

definition bs_new :: "nat \<Rightarrow> bounded_set" where
  "bs_new c = \<lparr>capacity = c, queue = [], id_set = {}\<rparr>"

definition bs_insert :: "bounded_set \<Rightarrow> string \<Rightarrow> bool \<times> bounded_set" where
  "bs_insert b k =
     (if k \<in> id_set b then (False, b)
      else
        (let b1 = (if capacity b \<le> length (queue b)
                   then (case queue b of
                           [] \<Rightarrow> b
                         | oldest # rest \<Rightarrow> b\<lparr>queue := rest, id_set := id_set b - {oldest}\<rparr>)
                   else b)
         in (True, b1\<lparr>queue := queue b1 @ [k], id_set := insert k (id_set b1)\<rparr>)))"

text \<open>The queue and the hash set hold the same ids, each once, and stay within the capacity.\<close>

definition bs_inv :: "bounded_set \<Rightarrow> bool" where
  "bs_inv b \<longleftrightarrow> distinct (queue b) \<and> id_set b = set (queue b) \<and> length (queue b) \<le> max 1 (capacity b)"

section \<open>The interface of a deduplication window\<close>

definition recent :: "nat \<Rightarrow> 'a list \<Rightarrow> 'a list" where
  "recent c h = drop (length h - c) h"

lemma recent_short: "length h \<le> c \<Longrightarrow> recent c h = h"
  by (simp add: recent_def)

lemma length_recent: "length (recent c h) = min c (length h)"
  by (simp add: recent_def)

lemma recent_snoc: "0 < c \<Longrightarrow>
    recent c (h @ [k]) = drop (if c \<le> length (recent c h) then 1 else 0) (recent c h) @ [k]"
  by (auto simp: recent_def min_def Suc_diff_le)

text \<open>
  The operations a client calls: insertion, which reports whether the key was new, and the
  contents of the window, oldest first.
\<close>

locale dedup_window =
  fixes ins :: "'s \<Rightarrow> 'k \<Rightarrow> bool \<times> 's"
    and win :: "'s \<Rightarrow> 'k list"
    and cap :: "'s \<Rightarrow> nat"
    and inv :: "'s \<Rightarrow> bool"
  assumes ins_dup: "inv s \<Longrightarrow> k \<in> set (win s) \<Longrightarrow> ins s k = (False, s)"
    and ins_new: "inv s \<Longrightarrow> k \<notin> set (win s) \<Longrightarrow>
      fst (ins s k) \<and> inv (snd (ins s k)) \<and> cap (snd (ins s k)) = cap s
      \<and> win (snd (ins s k)) = drop (if cap s \<le> length (win s) then 1 else 0) (win s) @ [k]"
    and inv_distinct: "inv s \<Longrightarrow> distinct (win s)"
begin

text \<open>A window tracks a history when it holds its last \<open>cap\<close> keys.\<close>

definition tracks :: "'s \<Rightarrow> 'k list \<Rightarrow> bool" where
  "tracks s h \<longleftrightarrow> inv s \<and> 0 < cap s \<and> win s = recent (cap s) h"

lemma tracks_ins_dup:
  "tracks s h \<Longrightarrow> k \<in> set (recent (cap s) h) \<Longrightarrow> ins s k = (False, s)"
  by (simp add: tracks_def ins_dup)

lemma tracks_ins_new:
  assumes "tracks s h" and "k \<notin> set (recent (cap s) h)"
  shows "\<exists>s'. ins s k = (True, s') \<and> tracks s' (h @ [k]) \<and> cap s' = cap s"
proof -
  have s: "inv s" "0 < cap s" "win s = recent (cap s) h" "k \<notin> set (win s)"
    using assms by (simp_all add: tracks_def)
  note new = ins_new [OF s(1,4)]
  obtain s' where s': "ins s k = (True, s')" using new by (cases "ins s k") auto
  have "win s' = recent (cap s) (h @ [k])"
    using new s' s(3) recent_snoc [OF s(2), of h k] by simp
  then show ?thesis using new s' s(2) by (simp add: tracks_def)
qed

end

lemma bs_inv_new: "bs_inv (bs_new c)"
  by (simp add: bs_inv_def bs_new_def)

interpretation bs: dedup_window bs_insert queue capacity bs_inv
proof
  fix s :: bounded_set and k
  show "bs_inv s \<Longrightarrow> k \<in> set (queue s) \<Longrightarrow> bs_insert s k = (False, s)"
    by (simp add: bs_inv_def bs_insert_def)
  show "bs_inv s \<Longrightarrow> k \<notin> set (queue s) \<Longrightarrow>
      fst (bs_insert s k) \<and> bs_inv (snd (bs_insert s k)) \<and> capacity (snd (bs_insert s k)) = capacity s
      \<and> queue (snd (bs_insert s k))
          = drop (if capacity s \<le> length (queue s) then 1 else 0) (queue s) @ [k]"
    by (cases "queue s") (auto simp: bs_inv_def bs_insert_def Let_def)
  show "bs_inv s \<Longrightarrow> distinct (queue s)"
    by (simp add: bs_inv_def)
qed

section \<open>CutoverTracker\<close>

datatype phase = Replay | Live (resume_seq: u64)

datatype outcome = Emit | Drop | OutOfOrder

record tracker =
  t_phase :: phase
  seen_ids :: bounded_set
  last_live_seq :: "u64 option"

definition DEFAULT_SEEN_CAPACITY :: nat where
  "DEFAULT_SEEN_CAPACITY = 1024"

definition with_capacity :: "nat \<Rightarrow> tracker" where
  "with_capacity c = \<lparr>t_phase = Replay, seen_ids = bs_new c, last_live_seq = None\<rparr>"

definition tracker_new :: tracker where
  "tracker_new = with_capacity DEFAULT_SEEN_CAPACITY"

definition observe_replay :: "tracker \<Rightarrow> string \<Rightarrow> outcome \<times> tracker" where
  "observe_replay t event_id =
     (case bs_insert (seen_ids t) event_id of
        (True, s) \<Rightarrow> (Emit, t\<lparr>seen_ids := s\<rparr>)
      | (False, s) \<Rightarrow> (Drop, t\<lparr>seen_ids := s\<rparr>))"

definition saturating_add_u64 :: "u64 \<Rightarrow> u64 \<Rightarrow> u64" where
  "saturating_add_u64 a b = (if 2 ^ 64 \<le> unat a + unat b then - 1 else a + b)"

definition cutover_to_live :: "tracker \<Rightarrow> u64 \<Rightarrow> tracker" where
  "cutover_to_live t last_replay_nats_seq =
     (if t_phase t = Replay
      then t\<lparr>t_phase := Live (saturating_add_u64 last_replay_nats_seq 1),
             last_live_seq := Some last_replay_nats_seq\<rparr>
      else t)"

definition observe_live :: "tracker \<Rightarrow> string \<Rightarrow> u64 \<Rightarrow> outcome \<times> tracker" where
  "observe_live t event_id nats_seq =
     (if t_phase t = Replay then (OutOfOrder, t)
      else if (case last_live_seq t of Some last_seq \<Rightarrow> nats_seq \<le> last_seq | None \<Rightarrow> False)
      then (OutOfOrder, t)
      else
        (case bs_insert (seen_ids t) event_id of
           (False, s) \<Rightarrow> (Drop, t\<lparr>seen_ids := s\<rparr>)
         | (True, s) \<Rightarrow> (Emit, t\<lparr>seen_ids := s, last_live_seq := Some nats_seq\<rparr>)))"

section \<open>Runs\<close>

datatype obs = ObsReplay string | ObsCutover u64 | ObsLive string u64

text \<open>One call of the subscription handler; a cutover has no outcome.\<close>

fun obs_step :: "tracker \<Rightarrow> obs \<Rightarrow> outcome option \<times> tracker" where
  "obs_step t (ObsReplay k) = (let (r, t') = observe_replay t k in (Some r, t'))"
| "obs_step t (ObsCutover n) = (None, cutover_to_live t n)"
| "obs_step t (ObsLive k n) = (let (r, t') = observe_live t k n in (Some r, t'))"

fun obs_run :: "tracker \<Rightarrow> obs list \<Rightarrow> outcome option list" where
  "obs_run t [] = []"
| "obs_run t (x # xs) = (let (r, t') = obs_step t x in r # obs_run t' xs)"

text \<open>
  The specification: the ids emitted so far, in order, and the sequence number that the next
  live event must exceed (\<open>None\<close> before the cutover).
\<close>

record cutover_spec =
  window :: nat
  emitted :: "string list"
  floor_seq :: "u64 option"

definition offer :: "cutover_spec \<Rightarrow> string \<Rightarrow> outcome \<times> cutover_spec" where
  "offer s k = (if k \<in> set (recent (window s) (emitted s)) then (Drop, s)
                else (Emit, s\<lparr>emitted := emitted s @ [k]\<rparr>))"

fun spec_step :: "cutover_spec \<Rightarrow> obs \<Rightarrow> outcome option \<times> cutover_spec" where
  "spec_step s (ObsReplay k) = (let (r, s') = offer s k in (Some r, s'))"
| "spec_step s (ObsCutover n) =
     (None, if floor_seq s = None then s\<lparr>floor_seq := Some n\<rparr> else s)"
| "spec_step s (ObsLive k n) =
     (case floor_seq s of
        None \<Rightarrow> (Some OutOfOrder, s)
      | Some f \<Rightarrow>
          if n \<le> f then (Some OutOfOrder, s)
          else (case offer s k of
                  (Emit, s') \<Rightarrow> (Some Emit, s'\<lparr>floor_seq := Some n\<rparr>)
                | (r, s') \<Rightarrow> (Some r, s')))"

fun spec_run :: "cutover_spec \<Rightarrow> obs list \<Rightarrow> outcome option list" where
  "spec_run s [] = []"
| "spec_run s (x # xs) = (let (r, s') = spec_step s x in r # spec_run s' xs)"

definition spec_init :: "nat \<Rightarrow> cutover_spec" where
  "spec_init c = \<lparr>window = c, emitted = [], floor_seq = None\<rparr>"

definition refines :: "tracker \<Rightarrow> cutover_spec \<Rightarrow> bool" where
  "refines t s \<longleftrightarrow> bs.tracks (seen_ids t) (emitted s) \<and> capacity (seen_ids t) = window s
     \<and> last_live_seq t = floor_seq s \<and> (t_phase t = Replay \<longleftrightarrow> floor_seq s = None)"

lemma refines_init: "0 < c \<Longrightarrow> refines (with_capacity c) (spec_init c)"
  by (simp add: refines_def with_capacity_def spec_init_def bs.tracks_def bs_inv_new)
     (simp add: bs_new_def recent_def)

lemma refines_offer:
  assumes "bs.tracks b h" and "capacity b = window s" and "emitted s = h"
  obtains (dup) "bs_insert b k = (False, b)" "offer s k = (Drop, s)"
    | (fresh) b' where "bs_insert b k = (True, b')" "offer s k = (Emit, s\<lparr>emitted := h @ [k]\<rparr>)"
        "bs.tracks b' (h @ [k])" "capacity b' = capacity b"
  using bs.tracks_ins_dup [OF assms(1), of k] bs.tracks_ins_new [OF assms(1), of k] assms(2,3)
  by (cases "k \<in> set (recent (capacity b) h)") (auto simp: offer_def)

lemma refines_step:
  assumes "refines t s"
  shows "fst (obs_step t x) = fst (spec_step s x) \<and> refines (snd (obs_step t x)) (snd (spec_step s x))"
proof -
  have r: "bs.tracks (seen_ids t) (emitted s)" "capacity (seen_ids t) = window s"
    "last_live_seq t = floor_seq s" "t_phase t = Replay \<longleftrightarrow> floor_seq s = None"
    using assms by (simp_all add: refines_def)
  show ?thesis
  proof (cases x)
    case (ObsReplay k)
    show ?thesis
      by (rule refines_offer [OF r(1,2) refl, of k])
        (use r ObsReplay in \<open>auto simp: observe_replay_def refines_def\<close>)
  next
    case (ObsCutover n)
    then show ?thesis using r by (auto simp: cutover_to_live_def refines_def)
  next
    case (ObsLive k n)
    show ?thesis
    proof (cases "floor_seq s")
      case None
      then show ?thesis using r ObsLive by (auto simp: observe_live_def refines_def)
    next
      case (Some f)
      show ?thesis
        by (rule refines_offer [OF r(1,2) refl, of k])
          (use r ObsLive Some in \<open>auto simp: observe_live_def refines_def\<close>)
    qed
  qed
qed

lemma refines_run: "refines t s \<Longrightarrow> obs_run t xs = spec_run s xs"
proof (induction xs arbitrary: t s)
  case Nil
  then show ?case by simp
next
  case (Cons x xs)
  from refines_step [OF Cons.prems, of x] Cons.IH show ?case
    by (auto simp: case_prod_beta Let_def)
qed

section \<open>What a client sees\<close>

fun obs_id :: "obs \<Rightarrow> string" where
  "obs_id (ObsReplay k) = k"
| "obs_id (ObsCutover n) = []"
| "obs_id (ObsLive k n) = k"

text \<open>The ids forwarded to the client, and the sequence numbers of the forwarded live events.\<close>

definition emitted_ids :: "outcome option list \<Rightarrow> obs list \<Rightarrow> string list" where
  "emitted_ids rs xs = map (obs_id \<circ> snd) (filter (\<lambda>(r, x). r = Some Emit) (zip rs xs))"

fun live_seqs :: "outcome option list \<Rightarrow> obs list \<Rightarrow> u64 list" where
  "live_seqs (Some Emit # rs) (ObsLive k n # xs) = n # live_seqs rs xs"
| "live_seqs (r # rs) (x # xs) = live_seqs rs xs"
| "live_seqs _ _ = []"

definition spaced :: "nat \<Rightarrow> 'a list \<Rightarrow> bool" where
  "spaced c h \<longleftrightarrow> (\<forall>as k bs cs. h = as @ k # bs @ k # cs \<longrightarrow> c \<le> length bs)"

lemma spacedD: "spaced c (as @ k # bs @ k # cs) \<Longrightarrow> c \<le> length bs"
  unfolding spaced_def
  by (drule spec [of _ as], drule spec [of _ k], drule spec [of _ bs], drule spec [of _ cs]) simp

lemma spaced_Nil: "spaced c []"
  by (simp add: spaced_def)

lemma not_in_recent:
  assumes "k \<notin> set (recent c (as @ k # bs))" shows "c \<le> length bs"
proof (rule ccontr)
  assume "\<not> c \<le> length bs"
  then have "recent c (as @ k # bs) = drop (Suc (length as + length bs) - c) as @ k # bs"
    by (auto simp: recent_def)
  with assms show False by simp
qed

lemma spaced_snoc:
  assumes "spaced c h" and "k \<notin> set (recent c h)"
  shows "spaced c (h @ [k])"
  unfolding spaced_def
proof (intro allI impI)
  fix as j bs cs
  assume eq: "h @ [k] = as @ j # bs @ j # cs"
  show "c \<le> length bs"
  proof (cases cs rule: rev_cases)
    case Nil
    with eq have "h = as @ j # bs" "k = j" by auto
    with assms(2) show ?thesis by (auto intro: not_in_recent)
  next
    case (snoc ds d)
    with eq have "h = as @ j # bs @ j # ds" by simp
    with assms(1) show ?thesis by (auto simp: spaced_def)
  qed
qed

lemma spec_step_spaced:
  assumes "spaced (window s) (emitted s)"
  shows "spaced (window (snd (spec_step s x))) (emitted (snd (spec_step s x)))
    \<and> window (snd (spec_step s x)) = window s
    \<and> emitted (snd (spec_step s x)) = emitted s @ emitted_ids [fst (spec_step s x)] [x]"
  using assms by (cases x) (auto simp: offer_def emitted_ids_def spaced_snoc split: option.splits)

lemma emitted_ids_Cons: "emitted_ids (r # rs) (x # xs) = emitted_ids [r] [x] @ emitted_ids rs xs"
  by (simp add: emitted_ids_def)

lemma spec_run_spaced:
  "spaced (window s) (emitted s) \<Longrightarrow> spaced (window s) (emitted s @ emitted_ids (spec_run s xs) xs)"
proof (induction xs arbitrary: s)
  case Nil
  then show ?case by (simp add: emitted_ids_def)
next
  case (Cons x xs)
  note st = spec_step_spaced [OF Cons.prems, of x]
  let ?r = "fst (spec_step s x)" and ?s = "snd (spec_step s x)"
  have run: "spec_run s (x # xs) = ?r # spec_run ?s xs" by (simp add: case_prod_beta)
  have "spaced (window ?s) (emitted ?s @ emitted_ids (spec_run ?s xs) xs)"
    using Cons.IH st by blast
  then show ?case
    unfolding run by (subst emitted_ids_Cons) (use st in simp)
qed

lemma spec_run_live:
  "(\<forall>n \<in> set (live_seqs (spec_run s xs) xs). \<forall>f. floor_seq s = Some f \<longrightarrow> f < n)
   \<and> sorted_wrt (<) (live_seqs (spec_run s xs) xs)"
proof (induction xs arbitrary: s)
  case Nil
  then show ?case by simp
next
  case (Cons x xs)
  note IH = Cons.IH [of "snd (spec_step s x)"]
  show ?case
  proof (cases x)
    case (ObsLive k n)
    then show ?thesis using IH
      by (auto simp: offer_def Let_def split: option.splits if_splits intro: order.strict_trans)
  qed (use IH in \<open>auto simp: offer_def Let_def case_prod_beta split: option.splits if_splits\<close>)
qed

lemma tracker_run: "obs_run tracker_new xs = spec_run (spec_init 1024) xs"
  unfolding tracker_new_def DEFAULT_SEEN_CAPACITY_def by (rule refines_run [OF refines_init]) simp


text \<open>
  C6. The tracker is a window over its history: on every sequence of calls, a fresh tracker of
  the default capacity answers exactly as the specification that drops an id when it is among the
  last 1024 emitted ones, refuses live events before the cutover, and lets a live event through
  only if its sequence number exceeds the cutover point and every live event let through before.
\<close>

theorem cutover_refines_window:
  "obs_run tracker_new xs = spec_run (spec_init 1024) xs"
  by (rule tracker_run)

text \<open>
  C23. No duplicates within the window: between two emissions of the same event id, to replay or
  live, at least \<open>c\<close> other events were emitted, for a tracker of capacity \<open>c\<close>; with the default
  capacity the first 1025 emitted ids are pairwise different.
\<close>

theorem cutover_no_duplicates:
  assumes "0 < c" and "emitted_ids (obs_run (with_capacity c) xs) xs = as @ k # bs @ k # cs"
  shows "c \<le> length bs"
proof -
  have "obs_run (with_capacity c) xs = spec_run (spec_init c) xs"
    by (rule refines_run [OF refines_init [OF assms(1)]])
  moreover have "spaced c (emitted_ids (spec_run (spec_init c) xs) xs)"
    using spec_run_spaced [of "spec_init c" xs] by (simp add: spec_init_def spaced_Nil)
  ultimately have "spaced c (as @ k # bs @ k # cs)" using assms(2) by simp
  then show ?thesis by (rule spacedD)
qed

theorem cutover_no_duplicates_witness:
  "(let xs = [ObsReplay ''a'', ObsReplay ''a'', ObsReplay ''b'', ObsCutover 7, ObsLive ''a'' 8]
    in emitted_ids (obs_run (with_capacity 1) xs) xs = [] @ ''a'' # [''b''] @ ''a'' # [])
   \<and> (1::nat) \<le> length [''b'']"
proof -
  let ?xs = "[ObsReplay ''a'', ObsReplay ''a'', ObsReplay ''b'', ObsCutover 7, ObsLive ''a'' 8]"
  have "emitted_ids (obs_run (with_capacity 1) ?xs) ?xs = [] @ ''a'' # [''b''] @ ''a'' # []"
    by (simp add: emitted_ids_def with_capacity_def bs_new_def observe_replay_def
        observe_live_def cutover_to_live_def bs_insert_def)
  with cutover_no_duplicates [OF _ this] show ?thesis by simp
qed

text \<open>
  The live tail is strictly ordered: the cutover point followed by the sequence numbers of
  the live events that the tracker forwards is strictly increasing, in whatever order JetStream
  delivers; before a cutover no live event is forwarded at all.
\<close>

theorem cutover_live_increasing:
  "sorted_wrt (<) (n # live_seqs (obs_run (cutover_to_live tracker_new n) xs) xs)
   \<and> fst (observe_live tracker_new k m) = OutOfOrder"
proof -
  have "refines (cutover_to_live tracker_new n) (snd (spec_step (spec_init 1024) (ObsCutover n)))"
    using refines_step [OF refines_init [of 1024], of "ObsCutover n"]
    by (simp add: tracker_new_def DEFAULT_SEEN_CAPACITY_def)
  then have "obs_run (cutover_to_live tracker_new n) xs = spec_run ((spec_init 1024)\<lparr>floor_seq := Some n\<rparr>) xs"
    using refines_run by (simp add: spec_init_def)
  moreover have "fst (observe_live tracker_new k m) = OutOfOrder"
    by (simp add: observe_live_def tracker_new_def with_capacity_def)
  ultimately show ?thesis
    using spec_run_live [of "(spec_init 1024)\<lparr>floor_seq := Some n\<rparr>" xs] by simp
qed

text \<open>
  The ring buffer never outgrows its capacity (or one entry, when the capacity is zero) and
  its queue and hash set stay in step: every insertion keeps this, and reports \<open>true\<close> exactly for
  a key that was not in the set.
\<close>

theorem bounded_set_invariant:
  assumes "bs_inv b"
  shows "bs_inv (snd (bs_insert b k)) \<and> (fst (bs_insert b k) \<longleftrightarrow> k \<notin> id_set b)
    \<and> k \<in> id_set (snd (bs_insert b k)) \<and> length (queue (snd (bs_insert b k))) \<le> max 1 (capacity b)"
proof (cases "k \<in> set (queue b)")
  case True
  then show ?thesis using assms bs.ins_dup [OF assms True] by (simp add: bs_inv_def)
next
  case False
  note new = bs.ins_new [OF assms False]
  then have "bs_inv (snd (bs_insert b k))" by blast
  with new False assms show ?thesis by (auto simp: bs_inv_def)
qed

theorem bounded_set_invariant_witness:
  "bs_inv (bs_new 2) \<and> bs_inv (snd (bs_insert (bs_new 2) ''a''))"
  using bounded_set_invariant [OF bs_inv_new [of 2], of "''a''"] bs_inv_new [of 2] by blast

end
