(* ===== verification/Ids.thy ===== *)
theory Ids
  imports Kanban_Prelude
begin

text \<open>
  The identifier type of \<open>src/id.rs\<close>: a 128-bit value that remembers whether it was written as
  a ULID or as a legacy UUID. The Crockford codec of ULIDs is the crate \<open>ulid\<close>, which is not part
  of the repository: it is the parameter \<open>ulid_codec\<close> of every operation that uses it, and
  \<open>ulid_crate\<close> is the interface it promises (rendering is 26 bytes and parses back). UUID
  parsing and rendering are the repository's own code and are modelled down to the digits.
\<close>

section \<open>Data\<close>

datatype id_kind = Ulid | Uuid

datatype ident = Ident (id_value: u128) (id_kind: id_kind)

datatype invalid_id = InvalidId

record ulid_codec =
  ulid_parse :: "string \<Rightarrow> u128 option"
  ulid_show :: "u128 \<Rightarrow> string"

text \<open>The derived orders of the Rust types compare the fields in declaration order.\<close>

instantiation id_kind :: linorder
begin

fun less_eq_id_kind :: "id_kind \<Rightarrow> id_kind \<Rightarrow> bool" where
  "less_eq_id_kind Uuid Ulid = False"
| "less_eq_id_kind _ _ = True"

definition less_id_kind :: "id_kind \<Rightarrow> id_kind \<Rightarrow> bool" where
  "less_id_kind a b \<longleftrightarrow> a \<le> b \<and> \<not> b \<le> a"

instance
proof
  fix x y z :: id_kind
  show "x < y \<longleftrightarrow> x \<le> y \<and> \<not> y \<le> x" by (simp add: less_id_kind_def)
  show "x \<le> x" by (cases x) simp_all
  show "x \<le> y \<Longrightarrow> y \<le> z \<Longrightarrow> x \<le> z" by (cases x; cases y; cases z) simp_all
  show "x \<le> y \<Longrightarrow> y \<le> x \<Longrightarrow> x = y" by (cases x; cases y) simp_all
  show "x \<le> y \<or> y \<le> x" by (cases x; cases y) simp_all
qed

end

instantiation ident :: linorder
begin

definition less_eq_ident :: "ident \<Rightarrow> ident \<Rightarrow> bool" where
  "less_eq_ident a b \<longleftrightarrow>
     id_value a < id_value b \<or> id_value a = id_value b \<and> id_kind a \<le> id_kind b"

definition less_ident :: "ident \<Rightarrow> ident \<Rightarrow> bool" where
  "less_ident a b \<longleftrightarrow> a \<le> b \<and> \<not> b \<le> a"

instance
proof
  fix x y z :: ident
  show "x < y \<longleftrightarrow> x \<le> y \<and> \<not> y \<le> x" by (simp add: less_ident_def)
  show "x \<le> x" by (simp add: less_eq_ident_def)
  show "x \<le> y \<Longrightarrow> y \<le> z \<Longrightarrow> x \<le> z" by (auto simp: less_eq_ident_def)
  show "x \<le> y \<Longrightarrow> y \<le> x \<Longrightarrow> x = y" by (cases x; cases y) (auto simp: less_eq_ident_def)
  show "x \<le> y \<or> y \<le> x" by (cases x; cases y) (auto simp: less_eq_ident_def)
qed

end

section \<open>UUID text\<close>

definition hex_char :: "nat \<Rightarrow> char" where
  "hex_char d = (if d < 10 then char_of (48 + d) else char_of (87 + d))"

definition is_hex :: "char \<Rightarrow> bool" where
  "is_hex c \<longleftrightarrow> (let n = (of_char c :: nat) in
     48 \<le> n \<and> n \<le> 57 \<or> 65 \<le> n \<and> n \<le> 70 \<or> 97 \<le> n \<and> n \<le> 102)"

definition hex_val :: "char \<Rightarrow> nat" where
  "hex_val c = (let n = (of_char c :: nat) in
     if n \<le> 57 then n - 48 else if n \<le> 70 then n - 55 else n - 87)"

text \<open>\<open>u128::from_str_radix(_, 16)\<close> on hexadecimal digits: \<open>None\<close> on overflow.\<close>

definition hex_nat :: "string \<Rightarrow> nat" where
  "hex_nat s = foldl (\<lambda>a c. 16 * a + hex_val c) 0 s"

definition from_str_radix16 :: "string \<Rightarrow> u128 option" where
  "from_str_radix16 s = (if hex_nat s < 2 ^ 128 then Some (of_nat (hex_nat s)) else None)"

definition parse_uuid :: "string \<Rightarrow> u128 option" where
  "parse_uuid s =
     (let hex =
        (if length s = 36 then
           (let parts = split_on (CHR ''-'') s in
            if length parts \<noteq> 5 \<or> length (parts ! 0) \<noteq> 8 \<or> length (parts ! 1) \<noteq> 4
               \<or> length (parts ! 2) \<noteq> 4 \<or> length (parts ! 3) \<noteq> 4 \<or> length (parts ! 4) \<noteq> 12
            then None else Some (concat parts))
         else if length s = 32 then Some s
         else None)
      in case hex of
           None \<Rightarrow> None
         | Some h \<Rightarrow> if \<not> list_all is_hex h then None else from_str_radix16 h)"

text \<open>\<open>{:032x}\<close> of a 128-bit value: exactly 32 lower-case digits.\<close>

primrec hex_fixed :: "nat \<Rightarrow> nat \<Rightarrow> string" where
  "hex_fixed 0 n = []"
| "hex_fixed (Suc k) n = hex_fixed k (n div 16) @ [hex_char (n mod 16)]"

definition format_uuid :: "u128 \<Rightarrow> string" where
  "format_uuid v =
     (let hex = hex_fixed 32 (unat v) in
      take 8 hex @ ''-'' @ take 4 (drop 8 hex) @ ''-'' @ take 4 (drop 12 hex) @ ''-''
      @ take 4 (drop 16 hex) @ ''-'' @ take 12 (drop 20 hex))"

section \<open>Identifiers\<close>

definition parse_ulid :: "ulid_codec \<Rightarrow> string \<Rightarrow> u128 option" where
  "parse_ulid u s = (if length s \<noteq> 26 then None else ulid_parse u s)"

definition is_ulid :: "ulid_codec \<Rightarrow> string \<Rightarrow> bool" where
  "is_ulid u s \<longleftrightarrow> parse_ulid u s \<noteq> None"

definition id_str :: "ulid_codec \<Rightarrow> ident \<Rightarrow> string" where
  "id_str u i = (case id_kind i of Ulid \<Rightarrow> ulid_show u (id_value i) | Uuid \<Rightarrow> format_uuid (id_value i))"

definition id_from_str :: "ulid_codec \<Rightarrow> string \<Rightarrow> invalid_id + ident" where
  "id_from_str u s =
     (case parse_ulid u s of
        Some v \<Rightarrow> Inr (Ident v Ulid)
      | None \<Rightarrow>
          (case parse_uuid s of
             Some v \<Rightarrow> Inr (Ident v Uuid)
           | None \<Rightarrow> Inl InvalidId))"

definition from_uuid_with_timestamp :: "string \<Rightarrow> u64 \<Rightarrow> invalid_id + ident" where
  "from_uuid_with_timestamp uuid_str created_at_ms =
     (case parse_uuid uuid_str of
        None \<Rightarrow> Inl InvalidId
      | Some uuid_value \<Rightarrow>
          (let timestamp = push_bit 80 (ucast created_at_ms :: u128);
               randomness = and uuid_value (push_bit 80 1 - 1)
           in Inr (Ident (or timestamp randomness) Ulid)))"

section \<open>The codec interface\<close>

text \<open>
  What the code relies on of the crate \<open>ulid\<close>: \<open>Display\<close> writes 26 bytes and \<open>FromStr\<close> reads
  them back. Everything below the locale holds for every codec with these two laws.
\<close>

locale ulid_crate =
  fixes u :: ulid_codec
  assumes show_length: "length (ulid_show u v) = 26"
    and parse_show: "ulid_parse u (ulid_show u v) = Some v"
begin

lemma parse_ulid_show [simp]: "parse_ulid u (ulid_show u v) = Some v"
  by (simp add: parse_ulid_def show_length parse_show)

lemma is_ulid_show [simp]: "is_ulid u (ulid_show u v)"
  by (simp add: is_ulid_def)

end

lemma split_on_no_sep: "c \<notin> set s \<Longrightarrow> split_on c s = [s]"
  by (induction s) auto

lemma split_on_append:
  "c \<notin> set s \<Longrightarrow> split_on c (s @ c # t) = s # split_on c t"
  by (induction s) auto

lemma length_hex_fixed [simp]: "length (hex_fixed k n) = k"
  by (induction k arbitrary: n) simp_all

lemma hex_char_hex [simp]: "d < 16 \<Longrightarrow> is_hex (hex_char d)"
  by (simp add: is_hex_def hex_char_def Let_def)

lemma hex_val_char [simp]: "d < 16 \<Longrightarrow> hex_val (hex_char d) = d"
  by (simp add: hex_val_def hex_char_def Let_def)

lemma hex_char_not_dash: "is_hex c \<Longrightarrow> c \<noteq> CHR ''-''"
  by (auto simp: is_hex_def)

lemma hex_fixed_hex: "list_all is_hex (hex_fixed k n)"
  by (induction k arbitrary: n) simp_all

lemma hex_nat_fixed [simp]: "n < 16 ^ k \<Longrightarrow> hex_nat (hex_fixed k n) = n"
proof (induction k arbitrary: n)
  case 0
  then show ?case by (simp add: hex_nat_def)
next
  case (Suc k)
  then have "n div 16 < 16 ^ k" by (simp add: less_mult_imp_div_less)
  with Suc.IH have "hex_nat (hex_fixed k (n div 16)) = n div 16" by blast
  then show ?case by (simp add: hex_nat_def)
qed

lemma hex_nat_bound: "list_all is_hex s \<Longrightarrow> hex_nat s < 16 ^ length s"
proof (induction s rule: rev_induct)
  case Nil
  then show ?case by (simp add: hex_nat_def)
next
  case (snoc c s)
  then have "hex_nat s < 16 ^ length s" by simp
  moreover have "hex_val c < 16"
    using snoc.prems by (auto simp: is_hex_def hex_val_def Let_def)
  ultimately show ?case by (simp add: hex_nat_def)
qed

lemma from_str_radix16_total:
  "list_all is_hex s \<Longrightarrow> length s = 32 \<Longrightarrow> from_str_radix16 s = Some (of_nat (hex_nat s))"
  using hex_nat_bound [of s] by (simp add: from_str_radix16_def)

lemma no_dash_hex: "list_all is_hex s \<Longrightarrow> CHR ''-'' \<notin> set s"
  by (auto simp: list_all_iff dest: hex_char_not_dash)

lemma length_format_uuid [simp]: "length (format_uuid v) = 36"
  by (simp add: format_uuid_def Let_def)

lemma list_all_take_hex: "list_all is_hex h \<Longrightarrow> list_all is_hex (take n h)"
  by (meson in_set_takeD list_all_iff)

lemma list_all_drop_hex: "list_all is_hex h \<Longrightarrow> list_all is_hex (drop n h)"
  by (meson in_set_dropD list_all_iff)

lemma split_uuid:
  assumes "list_all is_hex h"
  shows "split_on (CHR ''-'') (take 8 h @ ''-'' @ take 4 (drop 8 h) @ ''-'' @ take 4 (drop 12 h) @ ''-''
      @ take 4 (drop 16 h) @ ''-'' @ take 12 (drop 20 h))
    = [take 8 h, take 4 (drop 8 h), take 4 (drop 12 h), take 4 (drop 16 h), take 12 (drop 20 h)]"
  by (simp add: split_on_append split_on_no_sep no_dash_hex list_all_take_hex list_all_drop_hex assms)

lemma uuid_chunks:
  assumes "length h = 32"
  shows "concat [take 8 h, take 4 (drop 8 h), take 4 (drop 12 h), take 4 (drop 16 h), take 12 (drop 20 h)] = h"
proof -
  have "take 12 (drop 20 h) = drop 20 h" using assms by simp
  moreover have "take 4 (drop 16 h) @ drop 20 h = drop 16 h"
    using append_take_drop_id [of 4 "drop 16 h"] by simp
  moreover have "take 4 (drop 12 h) @ drop 16 h = drop 12 h"
    using append_take_drop_id [of 4 "drop 12 h"] by simp
  moreover have "take 4 (drop 8 h) @ drop 12 h = drop 8 h"
    using append_take_drop_id [of 4 "drop 8 h"] by simp
  ultimately show ?thesis by simp
qed

lemma parse_format_uuid [simp]: "parse_uuid (format_uuid v) = Some v"
proof -
  let ?h = "hex_fixed 32 (unat v)"
  have hex: "list_all is_hex ?h" by (rule hex_fixed_hex)
  have "unat v < 2 ^ 128" using unsigned_less [of v] by simp
  then have "unat v < 16 ^ 32" by simp
  then have val: "hex_nat ?h = unat v" by simp
  have "parse_uuid (format_uuid v) =
      (if \<not> list_all is_hex ?h then None else from_str_radix16 ?h)"
    unfolding parse_uuid_def Let_def length_format_uuid
    unfolding format_uuid_def Let_def split_uuid [OF hex]
    using uuid_chunks [of ?h] by simp
  then show ?thesis using hex val by (simp add: from_str_radix16_total)
qed

text \<open>A well-formed UUID text never fails in the numeric step: the shape decides.\<close>

lemma parse_uuid_Some_iff:
  "parse_uuid s \<noteq> None \<longleftrightarrow>
     (length s = 32 \<and> list_all is_hex s) \<or>
     (length s = 36 \<and> map length (split_on (CHR ''-'') s) = [8, 4, 4, 4, 12]
        \<and> list_all (list_all is_hex) (split_on (CHR ''-'') s))"
proof -
  have five: "(length ps = 5 \<and> length (ps ! 0) = 8 \<and> length (ps ! 1) = 4 \<and> length (ps ! 2) = 4
      \<and> length (ps ! 3) = 4 \<and> length (ps ! 4) = 12) \<longleftrightarrow> map length ps = [8, 4, 4, 4, 12]"
    for ps :: "string list"
    by (auto simp: length_Suc_conv numeral_eq_Suc map_eq_Cons_conv)
  have len: "length (concat ps) = 32" if "map length ps = [8, 4, 4, 4, 12]" for ps :: "string list"
    using that by (simp add: length_concat)
  have all: "list_all is_hex (concat ps) \<longleftrightarrow> list_all (list_all is_hex) ps" for ps
    by (induction ps) simp_all
  show ?thesis
    unfolding parse_uuid_def Let_def
    using five [of "split_on (CHR ''-'') s"] len [of "split_on (CHR ''-'') s"]
    by (cases "length s = 32"; cases "length s = 36") (auto simp: from_str_radix16_total all)
qed

context ulid_crate
begin

lemma id_from_str_show: "id_from_str u (id_str u i) = Inr i"
proof (cases "id_kind i")
  case Ulid
  then show ?thesis by (cases i) (simp add: id_from_str_def id_str_def)
next
  case Uuid
  then have "parse_ulid u (format_uuid (id_value i)) = None"
    by (simp add: parse_ulid_def)
  with Uuid show ?thesis by (cases i) (simp add: id_from_str_def id_str_def)
qed

lemma id_str_inject: "id_str u i = id_str u j \<longleftrightarrow> i = j"
  by (metis id_from_str_show sum.inject(2))

end

section \<open>A concrete codec\<close>

text \<open>
  The documented Crockford base-32 rendering of a ULID, most significant digit first, as one
  codec with the two laws; the instances of the theorems below are evaluated with it.
\<close>

definition crockford_char :: "nat \<Rightarrow> char" where
  "crockford_char d = ''0123456789ABCDEFGHJKMNPQRSTVWXYZ'' ! d"

definition crockford_val :: "char \<Rightarrow> nat" where
  "crockford_val c = length (takeWhile (\<lambda>x. x \<noteq> c) ''0123456789ABCDEFGHJKMNPQRSTVWXYZ'')"

primrec base32_fixed :: "nat \<Rightarrow> nat \<Rightarrow> string" where
  "base32_fixed 0 n = []"
| "base32_fixed (Suc k) n = base32_fixed k (n div 32) @ [crockford_char (n mod 32)]"

definition crockford :: ulid_codec where
  "crockford = \<lparr>ulid_parse = (\<lambda>s. if list_all (\<lambda>c. crockford_val c < 32) s
       then Some (of_nat (foldl (\<lambda>a c. 32 * a + crockford_val c) 0 s)) else None),
     ulid_show = (\<lambda>v. base32_fixed 26 (unat v))\<rparr>"

lemma crockford_val_char [simp]: "d < 32 \<Longrightarrow> crockford_val (crockford_char d) = d"
proof -
  have "\<forall>d \<in> set [0..<32]. crockford_val (crockford_char d) = d" by code_simp
  then show "d < 32 \<Longrightarrow> ?thesis" by simp
qed

lemma length_base32 [simp]: "length (base32_fixed k n) = k"
  by (induction k arbitrary: n) simp_all

lemma base32_chars: "list_all (\<lambda>c. crockford_val c < 32) (base32_fixed k n)"
  by (induction k arbitrary: n) simp_all

lemma base32_val: "n < 32 ^ k \<Longrightarrow> foldl (\<lambda>a c. 32 * a + crockford_val c) 0 (base32_fixed k n) = n"
proof (induction k arbitrary: n)
  case 0
  then show ?case by simp
next
  case (Suc k)
  then have "n div 32 < 32 ^ k" by (simp add: less_mult_imp_div_less)
  with Suc.IH show ?case by simp
qed

interpretation crockford: ulid_crate crockford
proof
  fix v :: u128
  have "unat v < 2 ^ 128" using unsigned_less [of v] by simp
  then have "unat v < 32 ^ 26" by simp
  then show "ulid_parse crockford (ulid_show crockford v) = Some v"
    by (simp add: crockford_def base32_chars base32_val)
qed (simp add: crockford_def)

section \<open>Legacy UUIDs\<close>

lemma unat_uuid_timestamp:
  fixes ts :: u64 and v :: u128
  shows "unat (or (push_bit 80 (ucast ts :: u128)) (and v (push_bit 80 1 - 1)))
     = (unat ts mod 2 ^ 48) * 2 ^ 80 + unat v mod 2 ^ 80"
proof -
  have m: "push_bit 80 1 - 1 = (mask 80 :: u128)"
    by (simp add: mask_eq_exp_minus_1 push_bit_eq_mult)
  have "or (push_bit 80 (ucast ts :: u128)) (take_bit 80 v) = push_bit 80 (ucast ts) + take_bit 80 v"
    by (rule disjunctive_add [symmetric]) (simp add: bit_simps)
  moreover have "unat (take_bit 80 v) = unat v mod 2 ^ 80"
    by (simp only: unsigned_take_bit_eq) (simp add: take_bit_eq_mod)
  moreover have "unat (push_bit 80 (ucast ts :: u128)) = (unat ts mod 2 ^ 48) * 2 ^ 80"
    by (simp add: unsigned_push_bit_eq unsigned_ucast_eq take_bit_push_bit) (simp add: take_bit_eq_mod push_bit_eq_mult mod_mod_cancel)
  moreover have "(unat ts mod 2 ^ 48) * 2 ^ 80 + unat v mod 2 ^ 80 < 2 ^ 128"
  proof -
    have "unat ts mod 2 ^ 48 \<le> 2 ^ 48 - 1" by (simp add: less_eq_Suc_le [symmetric])
    moreover have "unat v mod 2 ^ 80 \<le> 2 ^ 80 - 1" by (simp add: less_eq_Suc_le [symmetric])
    ultimately show ?thesis by simp
  qed
  ultimately show ?thesis
    unfolding m take_bit_eq_mask [symmetric]
    by (simp add: unat_word_ariths)
qed

fun join_with :: "char \<Rightarrow> string list \<Rightarrow> string" where
  "join_with c [] = []"
| "join_with c [p] = p"
| "join_with c (p # q # ps) = p @ c # join_with c (q # ps)"

lemma split_on_not_Nil [simp]: "split_on c s \<noteq> []"
  by (induction s) (auto split: list.splits)

lemma join_split: "join_with c (split_on c s) = s"
proof (induction s)
  case Nil
  then show ?case by simp
next
  case (Cons x s)
  obtain p ps where ps: "split_on c s = p # ps" by (cases "split_on c s") auto
  with Cons show ?case by (cases ps) auto
qed

lemma lower_hex: "is_hex c \<Longrightarrow> hex_char (hex_val c) = lower_char c"
  by (auto simp: is_hex_def hex_val_def hex_char_def lower_char_def Let_def char_of_eq_iff take_bit_nat_eq_self
      split: if_splits)

lemma hex_val_16: "is_hex c \<Longrightarrow> hex_val c < 16"
  by (auto simp: is_hex_def hex_val_def Let_def)

lemma hex_fixed_nat: "list_all is_hex h \<Longrightarrow> hex_fixed (length h) (hex_nat h) = to_lower h"
proof (induction h rule: rev_induct)
  case Nil
  then show ?case by (simp add: to_lower_def)
next
  case (snoc c h)
  then show ?case by (simp add: hex_nat_def to_lower_def hex_val_16 lower_hex)
qed

lemma format_parse_uuid:
  assumes "length s = 36" and "parse_uuid s = Some v"
  shows "format_uuid v = to_lower s"
proof -
  let ?ps = "split_on (CHR ''-'') s"
  have shape: "map length ?ps = [8, 4, 4, 4, 12]" "list_all (list_all is_hex) ?ps"
    using parse_uuid_Some_iff [of s] assms by auto
  then obtain a b c d e where ps: "?ps = [a, b, c, d, e]"
    by (auto simp: map_eq_Cons_conv)
  have len: "length a = 8" "length b = 4" "length c = 4" "length d = 4" "length e = 12"
    using shape(1) ps by auto
  let ?h = "a @ b @ c @ d @ e"
  have h: "list_all is_hex ?h" "length ?h = 32" using shape(2) ps len by simp_all
  have v: "v = of_nat (hex_nat ?h)"
    using assms ps len h by (simp add: parse_uuid_def Let_def from_str_radix16_total)
  have "hex_nat ?h < 2 ^ 128" using hex_nat_bound [OF h(1)] h(2) by simp
  then have "unat v = hex_nat ?h" using v by (simp add: unat_of_nat)
  then have hex: "hex_fixed 32 (unat v) = to_lower ?h"
    using hex_fixed_nat [OF h(1)] h(2) by simp
  have "s = a @ ''-'' @ b @ ''-'' @ c @ ''-'' @ d @ ''-'' @ e"
    using join_split [of "CHR ''-''" s] ps by simp
  then show ?thesis
    using len by (simp add: format_uuid_def Let_def hex to_lower_def) (simp add: lower_char_def)
qed

lemma from_uuid_with_timestamp_value:
  assumes "parse_uuid s = Some v"
  shows "\<exists>i. from_uuid_with_timestamp s ts = Inr i \<and> id_kind i = Ulid
    \<and> unat (id_value i) = (unat ts mod 2 ^ 48) * 2 ^ 80 + unat v mod 2 ^ 80"
  using assms unat_uuid_timestamp [of ts v]
  by (simp add: from_uuid_with_timestamp_def Let_def)

section \<open>Properties\<close>

text \<open>
  Identifiers round-trip through their text form: whatever the kind, \<open>FromStr\<close> reads back
  the value and the kind that \<open>Display\<close> wrote, for every ULID codec with the documented laws of
  the crate. Hence the text stored in a column determines the identifier.
\<close>

theorem id_text_roundtrip:
  assumes "ulid_crate u"
  shows "id_from_str u (id_str u i) = Inr i"
  by (rule ulid_crate.id_from_str_show [OF assms])

theorem id_text_roundtrip_witness:
  "ulid_crate crockford
   \<and> id_from_str crockford (id_str crockford (Ident 77 Ulid)) = Inr (Ident 77 Ulid)
   \<and> id_from_str crockford (id_str crockford (Ident 255 Uuid)) = Inr (Ident 255 Uuid)"
  using id_text_roundtrip [OF crockford.ulid_crate_axioms] crockford.ulid_crate_axioms by simp

text \<open>
  A legacy UUID keeps its canonical text: parsing a hyphenated UUID and displaying it again
  gives the same text in lower case, so an existing lower-case row is reproduced unchanged.
\<close>

theorem uuid_text_preserved:
  assumes "length s = 36" and "parse_uuid s = Some v"
  shows "format_uuid v = to_lower s"
  by (rule format_parse_uuid [OF assms])

theorem uuid_text_preserved_witness:
  "length ''01020304-0506-0708-090A-0b0c0d0e0f10'' = 36
   \<and> (\<exists>v. parse_uuid ''01020304-0506-0708-090A-0b0c0d0e0f10'' = Some v
        \<and> format_uuid v = ''01020304-0506-0708-090a-0b0c0d0e0f10'')"
proof -
  let ?s = "''01020304-0506-0708-090A-0b0c0d0e0f10''"
  have len: "length ?s = 36" by simp
  have "parse_uuid ?s \<noteq> None"
    unfolding parse_uuid_Some_iff by (simp add: is_hex_def)
  then obtain v where v: "parse_uuid ?s = Some v" by blast
  have "to_lower ?s = ''01020304-0506-0708-090a-0b0c0d0e0f10''"
    by code_simp
  then show ?thesis using len v uuid_text_preserved [OF len v] by simp
qed

text \<open>
  The ULID that the key migration derives from a UUID and a creation time: the low 80 bits
  are those of the UUID, the high 48 bits are the timestamp (its low 48 bits), and a text that is
  no UUID is rejected.
\<close>

theorem uuid_migration_layout:
  "(parse_uuid s = None \<and> from_uuid_with_timestamp s ts = Inl InvalidId) \<or>
   (\<exists>v i. parse_uuid s = Some v \<and> from_uuid_with_timestamp s ts = Inr i \<and> id_kind i = Ulid
      \<and> unat (id_value i) div 2 ^ 80 = unat ts mod 2 ^ 48
      \<and> unat (id_value i) mod 2 ^ 80 = unat v mod 2 ^ 80)"
proof (cases "parse_uuid s")
  case None
  then show ?thesis by (simp add: from_uuid_with_timestamp_def)
next
  case (Some v)
  from from_uuid_with_timestamp_value [OF this, of ts] obtain i
    where i: "from_uuid_with_timestamp s ts = Inr i" "id_kind i = Ulid"
      "unat (id_value i) = (unat ts mod 2 ^ 48) * 2 ^ 80 + unat v mod 2 ^ 80" by blast
  then show ?thesis using Some by (intro disjI2 exI [of _ v] exI [of _ i]) simp
qed

text \<open>
  The migration preserves the time order of the rows: of two rows whose creation times fit
  in 48 bits (they do until the year 10889), the older one gets the smaller identifier, whatever
  their UUIDs are.
\<close>

theorem uuid_migration_order:
  assumes "from_uuid_with_timestamp s a = Inr i" and "from_uuid_with_timestamp t b = Inr j"
    and "a < b" and "unat b < 2 ^ 48"
  shows "i < j"
proof -
  obtain v w where v: "parse_uuid s = Some v" and w: "parse_uuid t = Some w"
    using assms(1,2) by (auto simp: from_uuid_with_timestamp_def split: option.splits)
  have ab: "unat a < unat b" using assms(3) by (simp add: word_less_nat_alt)
  have i: "unat (id_value i) = unat a * 2 ^ 80 + unat v mod 2 ^ 80"
    using from_uuid_with_timestamp_value [OF v, of a] assms(1,4) ab by auto
  have j: "unat (id_value j) = unat b * 2 ^ 80 + unat w mod 2 ^ 80"
    using from_uuid_with_timestamp_value [OF w, of b] assms(2,4) by auto
  have "unat (id_value i) < Suc (unat a) * 2 ^ 80"
    unfolding i by simp
  also have "\<dots> \<le> unat b * 2 ^ 80"
    using ab by (intro mult_le_mono1) simp
  finally have "unat (id_value i) < unat (id_value j)" unfolding j by simp
  then have "id_value i < id_value j" by (simp add: word_less_nat_alt)
  then show ?thesis by (auto simp: less_ident_def less_eq_ident_def)
qed

theorem uuid_migration_order_witness:
  "\<exists>i j. from_uuid_with_timestamp ''ffffffffffffffffffffffffffffffff'' 5 = Inr i
     \<and> from_uuid_with_timestamp ''00000000000000000000000000000000'' 6 = Inr j \<and> i < j"
proof -
  have p: "parse_uuid ''ffffffffffffffffffffffffffffffff'' \<noteq> None"
    "parse_uuid ''00000000000000000000000000000000'' \<noteq> None"
    unfolding parse_uuid_Some_iff by (simp_all add: is_hex_def)
  then obtain i j where
    i: "from_uuid_with_timestamp ''ffffffffffffffffffffffffffffffff'' 5 = Inr i" and
    j: "from_uuid_with_timestamp ''00000000000000000000000000000000'' 6 = Inr j"
    using from_uuid_with_timestamp_value by blast
  then have "i < j" by (rule uuid_migration_order) simp_all
  with i j show ?thesis by blast
qed

end
