(* ===== verification/Json.thy ===== *)
theory Json
  imports Kanban_Prelude
begin

text \<open>
  The \<open>serde_json::Value\<close> values that the handlers write into \<open>event_log.payload\<close> and that the
  dispatcher reads back. Numbers are the integers the service writes (it writes no fractions).
  An object is an association list in which a key is bound by its first entry.
\<close>

datatype json =
    JNull
  | JBool bool
  | JNum int
  | JStr string
  | JArr "json list"
  | JObj "(string \<times> json) list"

text \<open>\<open>Value::get(key)\<close> on an object, and the typed accessors.\<close>

fun json_get :: "json \<Rightarrow> string \<Rightarrow> json option" where
  "json_get (JObj kvs) k = map_of kvs k"
| "json_get _ k = None"

fun as_str :: "json \<Rightarrow> string option" where
  "as_str (JStr s) = Some s"
| "as_str _ = None"

fun as_bool :: "json \<Rightarrow> bool option" where
  "as_bool (JBool b) = Some b"
| "as_bool _ = None"

fun as_i64 :: "json \<Rightarrow> int option" where
  "as_i64 (JNum n) = (if i64_ok n then Some n else None)"
| "as_i64 _ = None"

fun as_nat64 :: "json \<Rightarrow> int option" where
  "as_nat64 (JNum n) = (if 0 \<le> n \<and> n < 2 ^ 64 then Some n else None)"
| "as_nat64 _ = None"

fun as_array :: "json \<Rightarrow> json list option" where
  "as_array (JArr xs) = Some xs"
| "as_array _ = None"

fun as_object :: "json \<Rightarrow> (string \<times> json) list option" where
  "as_object (JObj kvs) = Some kvs"
| "as_object _ = None"

text \<open>\<open>Map::insert\<close>: replaces the value of a present key.\<close>

fun obj_insert :: "string \<Rightarrow> json \<Rightarrow> (string \<times> json) list \<Rightarrow> (string \<times> json) list" where
  "obj_insert k v [] = [(k, v)]"
| "obj_insert k v ((l, u) # kvs) = (if l = k then (k, v) # kvs else (l, u) # obj_insert k v kvs)"

text \<open>The SQL operator \<open>payload->>'k'\<close>: the field as text, NULL when absent or null.\<close>

fun json_text :: "json \<Rightarrow> string option" where
  "json_text (JStr s) = Some s"
| "json_text (JNum n) = Some (show_int n)"
| "json_text (JBool b) = Some (if b then ''true'' else ''false'')"
| "json_text _ = None"

definition json_field_text :: "json \<Rightarrow> string \<Rightarrow> string option" where
  "json_field_text j k = Option.bind (json_get j k) json_text"

lemma map_of_obj_insert [simp]: "map_of (obj_insert k v kvs) = (map_of kvs)(k \<mapsto> v)"
  by (induction k v kvs rule: obj_insert.induct) auto

end
