(* ===== verification/Db.thy ===== *)
theory Db
  imports Ids Json
begin

text \<open>
  The Postgres schema of the card service (\<open>migrations/*.sql\<close>), one record per row and one list of
  rows per table. Identifiers are stored as values: their text form is injective
  (\<open>id_text_roundtrip\<close>), so equality of columns is equality of identifiers. Columns that no
  modelled code reads or writes are left out. A \<open>datetime\<close> is the pair of whole seconds and
  sub-second nanoseconds that \<open>DateTime::timestamp\<close> and \<open>timestamp_subsec_nanos\<close> return.
\<close>

type_synonym datetime = "int \<times> int"

definition dt_le :: "datetime \<Rightarrow> datetime \<Rightarrow> bool" where
  "dt_le a b \<longleftrightarrow> fst a < fst b \<or> fst a = fst b \<and> snd a \<le> snd b"

lemma dt_le_total: "dt_le a b \<or> dt_le b a"
  by (auto simp: dt_le_def)

lemma dt_le_trans: "dt_le a b \<Longrightarrow> dt_le b c \<Longrightarrow> dt_le a c"
  by (auto simp: dt_le_def)

record project_row =
  p_id :: ident
  p_tenant :: string
  p_prefix :: string
  p_name :: string
  p_slug :: string
  p_description :: "string option"
  p_owner :: string
  p_visibility :: string
  p_created :: datetime
  p_updated :: datetime

record member_row =
  pm_project :: ident
  pm_tenant :: string
  pm_user :: string
  pm_role :: string
  pm_created :: datetime

record board_row =
  b_id :: ident
  b_tenant :: string
  b_project :: ident
  b_revision :: int
  b_name :: string
  b_slug :: string
  b_description :: "string option"
  b_icon :: "string option"
  b_visibility :: string
  b_created :: datetime
  b_updated :: datetime

record column_row =
  k_id :: ident
  k_tenant :: string
  k_board :: ident
  k_is_done :: bool
  k_title :: string
  k_position :: int
  k_accent :: "string option"
  k_wip :: "int option"
  k_created :: datetime
  k_updated :: datetime

record card_row =
  c_id :: ident
  c_tenant :: string
  c_project :: ident
  c_board :: ident
  c_column :: ident
  c_ref :: string
  c_title :: string
  c_description :: "string option"
  c_position :: int
  c_priority :: "string option"
  c_urgency :: "string option"
  c_due :: "datetime option"
  c_completed :: "datetime option"
  c_blocked :: bool
  c_cover :: "string option"
  c_milestone :: "ident option"
  c_revision :: int
  c_created_by :: string
  c_created :: datetime
  c_updated :: datetime

record milestone_row =
  m_id :: ident
  m_tenant :: string
  m_project :: ident
  m_title :: string
  m_due :: "datetime option"
  m_created :: datetime
  m_updated :: datetime

record label_row =
  l_id :: ident
  l_tenant :: string
  l_project :: "ident option"
  l_name :: string
  l_style :: string

record card_label_row =
  cl_card :: ident
  cl_label :: ident

record assignee_row =
  a_tenant :: string
  a_card :: ident
  a_subject :: string
  a_at :: datetime

record comment_row =
  t_id :: ident
  t_tenant :: string
  t_card :: ident
  t_author :: string
  t_body :: string
  t_created :: datetime
  t_updated :: datetime

record checklist_row =
  i_id :: ident
  i_tenant :: string
  i_card :: ident
  i_text :: string
  i_done :: bool
  i_position :: int

record attachment_row =
  f_id :: ident
  f_tenant :: string
  f_card :: ident
  f_filename :: string
  f_mimetype :: string
  f_size :: int
  f_s3_key :: string
  f_uploaded_by :: string
  f_created :: datetime

record dependency_row =
  d_card :: ident
  d_depends_on :: ident
  d_created :: datetime

record github_row =
  g_id :: ident
  g_tenant :: string
  g_card :: ident
  g_repo :: string
  g_issue :: int
  g_state :: string
  g_title :: "string option"
  g_url :: string
  g_kind :: string
  g_synced :: datetime
  g_created :: datetime

record idempotency_row =
  q_tenant :: string
  q_key :: string
  q_card :: "ident option"
  q_payload :: "json option"

record counter_row =
  n_project :: ident
  n_tenant :: string
  n_prefix :: string
  n_next :: int

record event_row =
  e_id :: ident
  e_tenant :: string
  e_board :: "ident option"
  e_aggregated :: "ident option"
  e_project :: "ident option"
  e_type :: string
  e_payload :: json
  e_created :: datetime
  e_nats_seq :: "int option"

record aggregated_row =
  ag_id :: ident
  ag_tenant :: string
  ag_revision :: int
  ag_name :: string
  ag_description :: "string option"
  ag_icon :: "string option"
  ag_visibility :: string
  ag_created_by :: string
  ag_created :: datetime
  ag_updated :: datetime

text \<open>The boards that an aggregated board shows.\<close>

record source_row =
  s_aggregated :: ident
  s_tenant :: string
  s_board :: ident
  s_position :: int
  s_added :: datetime

record aggregated_member_row =
  gm_aggregated :: ident
  gm_tenant :: string
  gm_subject :: string
  gm_relation :: string
  gm_created :: datetime

record board_template_row =
  bt_id :: ident
  bt_tenant :: string
  bt_name :: string
  bt_description :: "string option"
  bt_columns :: json
  bt_created_by :: "string option"
  bt_is_global :: bool
  bt_project :: "ident option"
  bt_created :: datetime
  bt_updated :: datetime

record card_template_row =
  ct_id :: ident
  ct_tenant :: string
  ct_project :: "ident option"
  ct_name :: string
  ct_description :: "string option"
  ct_title :: "string option"
  ct_default_description :: "string option"
  ct_label_names :: "string list"
  ct_checklist_items :: json
  ct_created_by :: "string option"
  ct_is_global :: bool
  ct_created :: datetime
  ct_updated :: datetime

text \<open>\<open>notified\<close> counts the \<open>pg_notify\<close> calls: a notification is delivered on commit only, so it
  belongs to the state a rollback restores.\<close>

record db =
  projects :: "project_row list"
  project_members :: "member_row list"
  boards :: "board_row list"
  aggregated_boards :: "aggregated_row list"
  aggregated_board_sources :: "source_row list"
  aggregated_board_members :: "aggregated_member_row list"
  board_templates :: "board_template_row list"
  card_templates :: "card_template_row list"
  columns :: "column_row list"
  cards :: "card_row list"
  milestones :: "milestone_row list"
  labels :: "label_row list"
  card_labels :: "card_label_row list"
  card_assignees :: "assignee_row list"
  comments :: "comment_row list"
  checklist_items :: "checklist_row list"
  card_attachments :: "attachment_row list"
  card_dependencies :: "dependency_row list"
  github_links :: "github_row list"
  idempotency_keys :: "idempotency_row list"
  project_ref_counter :: "counter_row list"
  event_log :: "event_row list"
  notified :: nat

definition empty_db :: db where
  "empty_db = \<lparr>projects = [], project_members = [], boards = [], aggregated_boards = [], aggregated_board_sources = [], aggregated_board_members = [],
     board_templates = [], card_templates = [], columns = [], cards = [],
     milestones = [], labels = [], card_labels = [], card_assignees = [], comments = [],
     checklist_items = [], card_attachments = [], card_dependencies = [], github_links = [],
     idempotency_keys = [], project_ref_counter = [], event_log = [], notified = 0\<rparr>"

end
