(* ===== verification/Effects.thy ===== *)
theory Effects
  imports Db
begin

text \<open>
  The effects of a handler: reading the outside world (\<open>env\<close>), changing the service's state
  (\<open>world\<close>), and stopping with an error. Everything that happens outside the repository is a
  function of \<open>env\<close>, indexed by a step counter that every external interaction advances: whether
  the n-th database statement fails, which ULID the n-th call of \<open>Ulid::new\<close> returns, what the
  gateway answers. A transaction works on the database of the world; an error, an early return or
  a failed commit restores the database of its beginning, and a failed statement inside a
  transaction makes the later ones fail, as Postgres does. Handlers run one at a time here: the
  interleaving of two handlers is outside this part of the model.
\<close>

section \<open>Errors, environment, world\<close>

datatype code = InvalidArgument | NotFound | Internal | Unauthenticated | PermissionDenied | AlreadyExists
  | FailedPrecondition | OutOfRange | ResourceExhausted

type_synonym cerr = "code \<times> string"

text \<open>An identity of the gateway's directory: its id and its traits document.\<close>

record identity =
  identity_id :: string
  traits :: "json option"

record profile =
  display_name :: string
  email :: string

record rel_tuple =
  tu_tenant :: string
  tu_namespace :: string
  tu_object :: string
  tu_relation :: string
  tu_subject :: string

text \<open>
  The outside world. \<open>codec\<close> and \<open>new_ulid\<close> are the crate \<open>ulid\<close>, \<open>from_timestamp\<close> is
  \<open>chrono::DateTime::from_timestamp\<close>, \<open>text_le\<close> is the collation of TEXT columns, \<open>instant_at\<close> the
  monotonic clock in nanoseconds. \<open>gw_fault\<close> says whether the n-th call of the gateway fails in
  transport; its answers are \<open>fga_*\<close> (the tuple store: check, write, delete, and one page of a
  listing with the token of the next page; \<open>fga_expand\<close> lists the objects a subject has a relation on) and \<open>directory*\<close> (the user directory, likewise paged).
  \<open>page_fuel\<close> bounds the pages a listing loop follows: a gateway that never ends its listing
  would keep the code in the loop for ever.
\<close>

record env =
  codec :: ulid_codec
  new_ulid :: "nat \<Rightarrow> u128"
  db_fault :: "nat \<Rightarrow> bool"
  now_at :: "nat \<Rightarrow> datetime"
  instant_at :: "nat \<Rightarrow> int"
  text_le :: "string \<Rightarrow> string \<Rightarrow> bool"
  from_timestamp :: "int \<Rightarrow> int \<Rightarrow> datetime option"
  has_credentials :: bool
  gw_fault :: "nat \<Rightarrow> string option"
  fga_check :: "rel_tuple list \<Rightarrow> string \<Rightarrow> string \<Rightarrow> string \<Rightarrow> string \<Rightarrow> string \<Rightarrow> bool"
  fga_write :: "rel_tuple \<Rightarrow> rel_tuple list \<Rightarrow> (string + unit) \<times> rel_tuple list"
  fga_delete :: "rel_tuple \<Rightarrow> rel_tuple list \<Rightarrow> (string + unit) \<times> rel_tuple list"
  fga_page :: "rel_tuple list \<Rightarrow> string \<Rightarrow> string \<Rightarrow> string \<Rightarrow> string \<Rightarrow> string \<Rightarrow> rel_tuple list \<times> string"
  fga_expand :: "rel_tuple list \<Rightarrow> string \<Rightarrow> string \<Rightarrow> string \<Rightarrow> string \<Rightarrow> string list"
  directory :: "string \<Rightarrow> string \<Rightarrow> identity option"
  directory_page :: "string \<Rightarrow> string \<Rightarrow> identity list \<times> string"
  page_fuel :: nat

text \<open>The state. \<open>sent\<close> records the requests that went to the object store, method and URL; no code reads it.\<close>

record world =
  db :: db
  tx_now :: "datetime option"
  aborted :: bool
  step :: nat
  tuples :: "rel_tuple list"
  tenants_ready :: "string list"
  profile_cache :: "((string \<times> string) \<times> (profile \<times> int)) list"
  sent :: "(string \<times> string) list"

type_synonym ('e, 'a) act = "env \<Rightarrow> world \<Rightarrow> ('e + 'a) \<times> world"

section \<open>Combinators\<close>

definition ret :: "'a \<Rightarrow> ('e, 'a) act" where
  "ret a = (\<lambda>e w. (Inr a, w))"

definition raise :: "'e \<Rightarrow> ('e, 'a) act" where
  "raise x = (\<lambda>e w. (Inl x, w))"

definition bnd :: "('e, 'a) act \<Rightarrow> ('a \<Rightarrow> ('e, 'b) act) \<Rightarrow> ('e, 'b) act" where
  "bnd m f = (\<lambda>e w. case m e w of (Inl x, w') \<Rightarrow> (Inl x, w') | (Inr a, w') \<Rightarrow> f a e w')"

definition map_err :: "('e \<Rightarrow> 'f) \<Rightarrow> ('e, 'a) act \<Rightarrow> ('f, 'a) act" where
  "map_err g m = (\<lambda>e w. case m e w of (Inl x, w') \<Rightarrow> (Inl (g x), w') | (Inr a, w') \<Rightarrow> (Inr a, w'))"

text \<open>The outcome as a value: \<open>if let Err(e) = \<dots>\<close>, \<open>unwrap_or\<close>, \<open>.ok()\<close>.\<close>

definition attempt :: "('e, 'a) act \<Rightarrow> ('f, 'e + 'a) act" where
  "attempt m = (\<lambda>e w. case m e w of (r, w') \<Rightarrow> (Inr r, w'))"

definition or_default :: "'a \<Rightarrow> ('e, 'a) act \<Rightarrow> ('f, 'a) act" where
  "or_default d m = bnd (attempt m) (\<lambda>r. ret (case r of Inl _ \<Rightarrow> d | Inr a \<Rightarrow> a))"

definition ask :: "(env \<Rightarrow> 'a) \<Rightarrow> ('e, 'a) act" where
  "ask f = (\<lambda>e w. (Inr (f e), w))"

definition ok_or :: "'e \<Rightarrow> 'a option \<Rightarrow> ('e, 'a) act" where
  "ok_or x r = (case r of None \<Rightarrow> raise x | Some a \<Rightarrow> ret a)"

definition require :: "bool \<Rightarrow> 'e \<Rightarrow> ('e, unit) act" where
  "require b x = (if b then ret () else raise x)"

primrec each :: "('a \<Rightarrow> ('e, 'b) act) \<Rightarrow> 'a list \<Rightarrow> ('e, 'b list) act" where
  "each f [] = ret []"
| "each f (x # xs) = bnd (f x) (\<lambda>y. bnd (each f xs) (\<lambda>ys. ret (y # ys)))"

section \<open>External calls\<close>

definition tick :: "world \<Rightarrow> world" where
  "tick w = w\<lparr>step := Suc (step w)\<rparr>"

text \<open>\<open>Id::new()\<close> of \<open>src/id.rs\<close>: the next ULID of the crate.\<close>

definition new_id :: "('e, ident) act" where
  "new_id = (\<lambda>e w. (Inr (Ident (new_ulid e (step w)) Ulid), tick w))"

text \<open>\<open>now()\<close> is the start of the transaction, or of the statement outside one.\<close>

definition sql_now :: "env \<Rightarrow> world \<Rightarrow> datetime" where
  "sql_now e w = (case tx_now w of Some t \<Rightarrow> t | None \<Rightarrow> now_at e (step w))"

definition mark_failed :: "world \<Rightarrow> world" where
  "mark_failed w = (if tx_now w = None then w else w\<lparr>aborted := True\<rparr>)"

text \<open>
  One SQL statement: its effect is a function of the time and the database, \<open>None\<close> where Postgres
  rejects it (a violated constraint, an integer out of range). The connection may fail too.
\<close>

definition stmt :: "(datetime \<Rightarrow> db \<Rightarrow> ('a \<times> db) option) \<Rightarrow> (unit, 'a) act" where
  "stmt f = (\<lambda>e w.
     if aborted w \<or> db_fault e (step w) then (Inl (), mark_failed (tick w))
     else (case f (sql_now e w) (db w) of
             None \<Rightarrow> (Inl (), mark_failed (tick w))
           | Some (a, d) \<Rightarrow> (Inr a, (tick w)\<lparr>db := d\<rparr>)))"

definition select :: "(db \<Rightarrow> 'a) \<Rightarrow> (unit, 'a) act" where
  "select f = stmt (\<lambda>_ d. Some (f d, d))"

definition internal :: "string \<Rightarrow> ('e, 'a) act \<Rightarrow> (cerr, 'a) act" where
  "internal msg m = map_err (\<lambda>_. (Internal, msg)) m"

text \<open>\<open>fetch_one\<close>: no row is an error of the client library, not of the server.\<close>

definition fetch_one :: "(datetime \<Rightarrow> db \<Rightarrow> ('a option \<times> db) option) \<Rightarrow> (unit, 'a) act" where
  "fetch_one f = bnd (stmt f) (ok_or ())"

definition exec :: "(datetime \<Rightarrow> db \<Rightarrow> db option) \<Rightarrow> (unit, unit) act" where
  "exec f = stmt (\<lambda>now d. map_option (Pair ()) (f now d))"

text \<open>\<open>pool.begin()\<close> \<dots> \<open>tx.commit()\<close>; leaving the block early drops the transaction.\<close>

definition rollback :: "db \<Rightarrow> world \<Rightarrow> world" where
  "rollback d w = w\<lparr>db := d, tx_now := None, aborted := False\<rparr>"

definition in_tx :: "(cerr, 'a) act \<Rightarrow> (cerr, 'a) act" where
  "in_tx body = (\<lambda>e w.
     if db_fault e (step w) then (Inl (Internal, ''begin tx failed''), tick w)
     else
       (case body e ((tick w)\<lparr>tx_now := Some (now_at e (step w)), aborted := False\<rparr>) of
          (Inl x, w1) \<Rightarrow> (Inl x, rollback (db w) w1)
        | (Inr a, w1) \<Rightarrow>
            if db_fault e (step w1) then (Inl (Internal, ''commit failed''), rollback (db w) (tick w1))
            else if aborted w1 then (Inr a, rollback (db w) (tick w1))
            else (Inr a, (tick w1)\<lparr>tx_now := None\<rparr>)))"

text \<open>A call to the gateway: a transport or backend error, or its answer on the tuple store.\<close>

definition gateway :: "(env \<Rightarrow> rel_tuple list \<Rightarrow> (string + 'a) \<times> rel_tuple list) \<Rightarrow> (string, 'a) act" where
  "gateway f = (\<lambda>e w.
     (case gw_fault e (step w) of
        Some msg \<Rightarrow> (Inl msg, tick w)
      | None \<Rightarrow> (let (r, ts) = f e (tuples w) in (r, (tick w)\<lparr>tuples := ts\<rparr>))))"

text \<open>Where the code gives the two failures of a transaction itself other texts.\<close>

definition relabel :: "string \<Rightarrow> string \<Rightarrow> cerr \<Rightarrow> cerr" where
  "relabel b c x = (if x = (Internal, ''begin tx failed'') then (Internal, b)
     else if x = (Internal, ''commit failed'') then (Internal, c) else x)"

definition in_tx_as :: "string \<Rightarrow> string \<Rightarrow> (cerr, 'a) act \<Rightarrow> (cerr, 'a) act" where
  "in_tx_as b c body = map_err (relabel b c) (in_tx body)"

text \<open>A call to another service (object store, search engine, GitHub), whose answers are a parameter.\<close>

definition outside :: "(nat \<Rightarrow> 'e + 'a) \<Rightarrow> ('e, 'a) act" where
  "outside f = (\<lambda>e w. (f (step w), tick w))"

section \<open>Evaluation\<close>

text \<open>Where the outside world does not fail, an action evaluates by rewriting.\<close>

definition calm :: "env \<Rightarrow> bool" where
  "calm e \<longleftrightarrow> (\<forall>n. \<not> db_fault e n) \<and> (\<forall>n. gw_fault e n = None)"

lemma calmD [simp]: "calm e \<Longrightarrow> \<not> db_fault e n" "calm e \<Longrightarrow> gw_fault e n = None"
  by (simp_all add: calm_def)

lemma tick_fields [simp]:
  "db (tick w) = db w" "tx_now (tick w) = tx_now w" "aborted (tick w) = aborted w"
  "step (tick w) = Suc (step w)" "tuples (tick w) = tuples w"
  "tenants_ready (tick w) = tenants_ready w" "profile_cache (tick w) = profile_cache w" "sent (tick w) = sent w"
  by (simp_all add: tick_def)

lemma mark_failed_fields [simp]:
  "db (mark_failed w) = db w" "step (mark_failed w) = step w" "tuples (mark_failed w) = tuples w"
  "tx_now (mark_failed w) = tx_now w"
  by (simp_all add: mark_failed_def)

lemma rollback_fields [simp]:
  "db (rollback d w) = d" "step (rollback d w) = step w" "tuples (rollback d w) = tuples w"
  "tx_now (rollback d w) = None" "aborted (rollback d w) = False"
  by (simp_all add: rollback_def)

lemma run_ret [run_simps]: "ret a e w = (Inr a, w)"
  by (simp add: ret_def)

lemma run_raise [run_simps]: "raise x e w = (Inl x, w)"
  by (simp add: raise_def)

lemma run_bnd [run_simps]:
  "m e w = (Inr a, w1) \<Longrightarrow> bnd m f e w = f a e w1"
  "m e w = (Inl x, w1) \<Longrightarrow> bnd m f e w = (Inl x, w1)"
  by (simp_all add: bnd_def)

lemma run_map_err [run_simps]:
  "m e w = (Inr a, w1) \<Longrightarrow> map_err g m e w = (Inr a, w1)"
  "m e w = (Inl x, w1) \<Longrightarrow> map_err g m e w = (Inl (g x), w1)"
  by (simp_all add: map_err_def)

lemma run_attempt [run_simps]: "m e w = (r, w1) \<Longrightarrow> attempt m e w = (Inr r, w1)"
  by (simp add: attempt_def)

lemma run_ask [run_simps]: "ask f e w = (Inr (f e), w)"
  by (simp add: ask_def)

lemma run_ok_or [run_simps]:
  "ok_or x (Some a) e w = (Inr a, w)" "ok_or x None e w = (Inl x, w)"
  by (simp_all add: ok_or_def run_simps)

lemma run_require [run_simps]: "require b x e w = (if b then (Inr (), w) else (Inl x, w))"
  by (simp add: require_def run_simps)

lemma run_new_id [run_simps]: "new_id e w = (Inr (Ident (new_ulid e (step w)) Ulid), tick w)"
  by (simp add: new_id_def)

lemma run_stmt [run_simps]:
  "\<not> aborted w \<Longrightarrow> \<not> db_fault e (step w) \<Longrightarrow> f (sql_now e w) (db w) = Some (a, d) \<Longrightarrow>
   stmt f e w = (Inr a, (tick w)\<lparr>db := d\<rparr>)"
  by (simp add: stmt_def)

lemma run_internal [run_simps]:
  "m e w = (Inr a, w1) \<Longrightarrow> internal msg m e w = (Inr a, w1)"
  "m e w = (Inl x, w1) \<Longrightarrow> internal msg m e w = (Inl (Internal, msg), w1)"
  by (simp_all add: internal_def map_err_def)

lemma run_outside [run_simps]: "outside f e w = (f (step w), tick w)"
  by (simp add: outside_def)

text \<open>
  The combinators applied to an environment and a world, as rewrite rules: with these, the
  definitions of a handler and a concrete database, \<open>simp\<close> runs the handler.
\<close>

named_theorems evals \<open>running an action on a concrete world\<close>

lemma act_evals [evals]: 
 "ret a e w = (Inr a, w)" "raise x e w = (Inl x, w)"
 "bnd m f e w = (case m e w of (Inl x, w') \<Rightarrow> (Inl x, w') | (Inr a, w') \<Rightarrow> f a e w')"
 "map_err g m e w = (case m e w of (Inl x, w') \<Rightarrow> (Inl (g x), w') | (Inr a, w') \<Rightarrow> (Inr a, w'))"
 "internal msg m e w = map_err (\<lambda>_. (Internal, msg)) m e w"
 "attempt m e w = (case m e w of (r, w') \<Rightarrow> (Inr r, w'))"
 "or_default d m e w = bnd (attempt m) (\<lambda>r. ret (case r of Inl _ \<Rightarrow> d | Inr a \<Rightarrow> a)) e w"
 "ask h e w = (Inr (h e), w)" 
 "ok_or x (Some a) e w = (Inr a, w)" "ok_or x None e w = (Inl x, w)"
 "require True x e w = (Inr (), w)" "require False x e w = (Inl x, w)"
 "new_id e w = (Inr (Ident (new_ulid e (step w)) Ulid), tick w)"
 "fetch_one q e w = bnd (stmt q) (ok_or ()) e w"
 "exec p e w = stmt (\<lambda>now d. map_option (Pair ()) (p now d)) e w"
 "select s e w = stmt (\<lambda>_ d. Some (s d, d)) e w"
 "stmt f' e w = (
     if aborted w \<or> db_fault e (step w) then (Inl (), mark_failed (tick w))
     else (case f' (sql_now e w) (db w) of
             None \<Rightarrow> (Inl (), mark_failed (tick w))
           | Some (a', d') \<Rightarrow> (Inr a', (tick w)\<lparr>db := d'\<rparr>)))"
  "in_tx body e w = (
     if db_fault e (step w) then (Inl (Internal, ''begin tx failed''), tick w)
     else
       (case body e ((tick w)\<lparr>tx_now := Some (now_at e (step w)), aborted := False\<rparr>) of
          (Inl x, w1) \<Rightarrow> (Inl x, rollback (db w) w1)
        | (Inr a, w1) \<Rightarrow>
            if db_fault e (step w1) then (Inl (Internal, ''commit failed''), rollback (db w) (tick w1))
            else if aborted w1 then (Inr a, rollback (db w) (tick w1))
            else (Inr a, (tick w1)\<lparr>tx_now := None\<rparr>)))"
 "outside k e w = (k (step w), tick w)" "in_tx_as b' c' body e w = map_err (relabel b' c') (in_tx body) e w"
 "gateway h' e w =
     (case gw_fault e (step w) of
        Some msg \<Rightarrow> (Inl msg, tick w)
      | None \<Rightarrow> (let (r, ts) = h' e (tuples w) in (r, (tick w)\<lparr>tuples := ts\<rparr>)))"
  by (simp_all add: ret_def raise_def bnd_def map_err_def internal_def attempt_def or_default_def ask_def ok_or_def require_def new_id_def fetch_one_def exec_def select_def stmt_def in_tx_def gateway_def outside_def in_tx_as_def)

section \<open>Success\<close>

text \<open>
  What a successful run implies, as equivalences: a handler that returned a value went through
  every one of its steps without a failure.
\<close>

named_theorems ok_iffs \<open>unfolding of a successful run into its steps\<close>

lemma ret_ok [ok_iffs]: "ret a e w = (Inr b, w') \<longleftrightarrow> b = a \<and> w' = w"
  by (auto simp: ret_def)

lemma raise_ok [ok_iffs]: "raise x e w = (Inr b, w') \<longleftrightarrow> False"
  by (simp add: raise_def)

lemma bnd_ok [ok_iffs]:
  "bnd m f e w = (Inr b, w') \<longleftrightarrow> (\<exists>a w1. m e w = (Inr a, w1) \<and> f a e w1 = (Inr b, w'))"
  by (cases "m e w") (auto simp: bnd_def split: sum.splits)

lemma map_err_ok [ok_iffs]: "map_err g m e w = (Inr a, w') \<longleftrightarrow> m e w = (Inr a, w')"
  by (cases "m e w") (auto simp: map_err_def split: sum.splits)

lemma internal_ok [ok_iffs]: "internal msg m e w = (Inr a, w') \<longleftrightarrow> m e w = (Inr a, w')"
  by (simp add: internal_def map_err_ok)

lemma attempt_ok [ok_iffs]: "attempt m e w = (Inr r, w') \<longleftrightarrow> m e w = (r, w')"
  by (cases "m e w") (auto simp: attempt_def)

lemma or_default_ok [ok_iffs]:
  "or_default d m e w = (Inr a, w') \<longleftrightarrow> m e w = (Inr a, w') \<or> (\<exists>x. m e w = (Inl x, w') \<and> a = d)"
  by (cases "m e w") (auto simp: or_default_def bnd_def attempt_def ret_def split: sum.splits)

lemma ask_ok [ok_iffs]: "ask f e w = (Inr a, w') \<longleftrightarrow> a = f e \<and> w' = w"
  by (auto simp: ask_def)

lemma ok_or_ok [ok_iffs]: "ok_or x r e w = (Inr a, w') \<longleftrightarrow> r = Some a \<and> w' = w"
  by (cases r) (auto simp: ok_or_def ret_def raise_def)

lemma require_ok [ok_iffs]: "require b x e w = (Inr u, w') \<longleftrightarrow> b \<and> w' = w"
  by (auto simp: require_def ret_def raise_def)

lemma new_id_ok [ok_iffs]:
  "new_id e w = (Inr i, w') \<longleftrightarrow> i = Ident (new_ulid e (step w)) Ulid \<and> w' = tick w"
  by (auto simp: new_id_def)

lemma stmt_ok [ok_iffs]:
  "stmt f e w = (Inr a, w') \<longleftrightarrow> \<not> aborted w \<and> \<not> db_fault e (step w)
     \<and> (\<exists>d. f (sql_now e w) (db w) = Some (a, d) \<and> w' = (tick w)\<lparr>db := d\<rparr>)"
  by (auto simp: stmt_def split: option.splits)

lemma select_ok [ok_iffs]:
  "select f e w = (Inr a, w') \<longleftrightarrow> \<not> aborted w \<and> \<not> db_fault e (step w) \<and> a = f (db w) \<and> w' = tick w"
  by (auto simp: select_def stmt_ok)

lemma exec_ok [ok_iffs]:
  "exec f e w = (Inr u, w') \<longleftrightarrow> \<not> aborted w \<and> \<not> db_fault e (step w)
     \<and> (\<exists>d. f (sql_now e w) (db w) = Some d \<and> w' = (tick w)\<lparr>db := d\<rparr>)"
  by (auto simp: exec_def stmt_ok)

lemma fetch_one_ok [ok_iffs]:
  "fetch_one f e w = (Inr a, w') \<longleftrightarrow> \<not> aborted w \<and> \<not> db_fault e (step w)
     \<and> (\<exists>d. f (sql_now e w) (db w) = Some (Some a, d) \<and> w' = (tick w)\<lparr>db := d\<rparr>)"
  by (auto simp: fetch_one_def bnd_ok stmt_ok ok_or_ok)

lemma in_tx_ok [ok_iffs]:
  "in_tx body e w = (Inr a, w') \<longleftrightarrow> \<not> db_fault e (step w)
     \<and> (\<exists>w1. body e ((tick w)\<lparr>tx_now := Some (now_at e (step w)), aborted := False\<rparr>) = (Inr a, w1)
          \<and> \<not> db_fault e (step w1)
          \<and> w' = (if aborted w1 then rollback (db w) (tick w1) else (tick w1)\<lparr>tx_now := None\<rparr>))"
  unfolding in_tx_def
  by (auto split: prod.splits sum.splits if_splits)

lemma in_tx_as_ok [ok_iffs]: "in_tx_as b c body e w = (Inr a, w') \<longleftrightarrow> in_tx body e w = (Inr a, w')"
  by (simp add: in_tx_as_def map_err_ok)

lemma outside_ok [ok_iffs]: "outside f e w = (r, w') \<longleftrightarrow> r = f (step w) \<and> w' = tick w"
  by (auto simp: outside_def)

section \<open>Properties of the database that an action keeps\<close>

text \<open>
  \<open>keeps I m\<close>: whatever the outside world does, and however the action ends, \<open>I\<close> holds of the
  database afterwards if it held before. \<open>ensures P m Q\<close>: inside a transaction, a successful run leads
  from \<open>P\<close> to \<open>Q\<close>; this is all a transaction needs, since a failed one is rolled back.
\<close>

definition keeps :: "(db \<Rightarrow> bool) \<Rightarrow> ('e, 'a) act \<Rightarrow> bool" where
  "keeps I m \<longleftrightarrow> (\<forall>e w. I (db w) \<longrightarrow> I (db (snd (m e w))))"

definition ensures :: "(db \<Rightarrow> bool) \<Rightarrow> ('e, 'a) act \<Rightarrow> ('a \<Rightarrow> db \<Rightarrow> bool) \<Rightarrow> bool" where
  "ensures P m Q \<longleftrightarrow> (\<forall>e w a w'. P (db w) \<longrightarrow> tx_now w \<noteq> None \<longrightarrow> m e w = (Inr a, w') \<longrightarrow>
     Q a (db w') \<and> tx_now w' \<noteq> None)"

lemma keepsD: "keeps I m \<Longrightarrow> I (db w) \<Longrightarrow> m e w = (r, w') \<Longrightarrow> I (db w')"
  unfolding keeps_def by (metis snd_conv)

lemma keeps_ret [keeps_intros]: "keeps I (ret a)"
  by (simp add: keeps_def ret_def)

lemma keeps_raise [keeps_intros]: "keeps I (raise x)"
  by (simp add: keeps_def raise_def)

lemma keeps_ask [keeps_intros]: "keeps I (ask f)"
  by (simp add: keeps_def ask_def)

lemma keeps_new_id [keeps_intros]: "keeps I new_id"
  by (simp add: keeps_def new_id_def)

lemma keeps_ok_or [keeps_intros]: "keeps I (ok_or x r)"
  by (cases r) (simp_all add: ok_or_def keeps_ret keeps_raise)

lemma keeps_require [keeps_intros]: "keeps I (require b x)"
  by (simp add: require_def keeps_ret keeps_raise)

lemma keeps_bnd [keeps_intros]: "keeps I m \<Longrightarrow> (\<And>a. keeps I (f a)) \<Longrightarrow> keeps I (bnd m f)"
  unfolding keeps_def bnd_def by (auto split: prod.splits sum.splits) (metis snd_conv)+

lemma keeps_map_err [keeps_intros]: "keeps I m \<Longrightarrow> keeps I (map_err g m)"
  unfolding keeps_def map_err_def by (auto split: prod.splits sum.splits) (metis snd_conv)+

lemma keeps_internal [keeps_intros]: "keeps I m \<Longrightarrow> keeps I (internal msg m)"
  unfolding internal_def by (rule keeps_map_err)

lemma keeps_attempt [keeps_intros]: "keeps I m \<Longrightarrow> keeps I (attempt m)"
  unfolding keeps_def attempt_def by (auto split: prod.splits) (metis snd_conv)

lemma keeps_or_default [keeps_intros]: "keeps I m \<Longrightarrow> keeps I (or_default d m)"
  unfolding or_default_def by (intro keeps_intros)

lemma keeps_stmt:
  "(\<And>t d a d'. I d \<Longrightarrow> f t d = Some (a, d') \<Longrightarrow> I d') \<Longrightarrow> keeps I (stmt f)"
  unfolding keeps_def stmt_def by (auto split: option.splits)

lemma keeps_select [keeps_intros]: "keeps I (select f)"
  unfolding select_def by (rule keeps_stmt) simp

lemma keeps_exec: "(\<And>t d d'. I d \<Longrightarrow> f t d = Some d' \<Longrightarrow> I d') \<Longrightarrow> keeps I (exec f)"
  unfolding exec_def by (rule keeps_stmt) auto

lemma keeps_fetch_one:
  "(\<And>t d a d'. I d \<Longrightarrow> f t d = Some (a, d') \<Longrightarrow> I d') \<Longrightarrow> keeps I (fetch_one f)"
  unfolding fetch_one_def by (intro keeps_bnd keeps_stmt keeps_ok_or)

lemma keeps_each [keeps_intros]: "(\<And>x. keeps I (f x)) \<Longrightarrow> keeps I (each f xs)"
  by (induction xs) (auto intro!: keeps_intros)

lemma keeps_gateway [keeps_intros]: "keeps I (gateway f)"
  unfolding keeps_def gateway_def by (auto split: option.splits prod.splits)

lemma keeps_outside [keeps_intros]: "keeps I (outside f)"
  by (simp add: keeps_def outside_def)

lemma keeps_in_tx: "ensures I body (\<lambda>_. I) \<Longrightarrow> keeps I (in_tx body)"
  unfolding keeps_def
proof (intro allI impI)
  fix e :: env and w :: world
  assume body: "ensures I body (\<lambda>_. I)" and I: "I (db w)"
  let ?w = "(tick w)\<lparr>tx_now := Some (now_at e (step w)), aborted := False\<rparr>"
  obtain r w1 where run: "body e ?w = (r, w1)" by fastforce
  show "I (db (snd (in_tx body e w)))"
  proof (cases r)
    case (Inl x)
    then show ?thesis using run I by (simp add: in_tx_def)
  next
    case (Inr a)
    have "I (db ?w)" "tx_now ?w \<noteq> None" using I by simp_all
    then have "I (db w1)"
      using body run Inr unfolding ensures_def by blast
    then show ?thesis using run I Inr by (simp add: in_tx_def)
  qed
qed

lemma keeps_if [keeps_intros]:
  "(b \<Longrightarrow> keeps I m) \<Longrightarrow> (\<not> b \<Longrightarrow> keeps I n) \<Longrightarrow> keeps I (if b then m else n)"
  by simp

lemma keeps_option [keeps_intros]:
  "keeps I m \<Longrightarrow> (\<And>a. keeps I (f a)) \<Longrightarrow> keeps I (case r of None \<Rightarrow> m | Some a \<Rightarrow> f a)"
  by (cases r) simp_all

lemma keeps_sum [keeps_intros]:
  "(\<And>x. keeps I (f x)) \<Longrightarrow> (\<And>a. keeps I (g a)) \<Longrightarrow> keeps I (case r of Inl x \<Rightarrow> f x | Inr a \<Rightarrow> g a)"
  by (cases r) simp_all

lemma keeps_prod [keeps_intros]:
  "(\<And>a b. keeps I (f a b)) \<Longrightarrow> keeps I (case p of (a, b) \<Rightarrow> f a b)"
  by (cases p) simp

lemma keeps_Let [keeps_intros]: "(\<And>a. keeps I (f a)) \<Longrightarrow> keeps I (Let x f)"
  by (simp add: Let_def)

lemma ensures_bnd:
  "ensures P m R \<Longrightarrow> (\<And>a. ensures (R a) (f a) Q) \<Longrightarrow> ensures P (bnd m f) Q"
  unfolding ensures_def bnd_ok by blast

lemma ensures_weaken:
  "ensures P m Q \<Longrightarrow> (\<And>d. P' d \<Longrightarrow> P d) \<Longrightarrow> (\<And>a d. Q a d \<Longrightarrow> Q' a d) \<Longrightarrow> ensures P' m Q'"
  unfolding ensures_def by blast

section \<open>A sample environment\<close>

text \<open>
  A world without failures, on which theorems are evaluated: the tuple store is a set, the clock
  counts the external interactions, and the directory has one user.
\<close>

definition sample_ulid :: string where
  "sample_ulid = ''01ARZ3NDEKTSV4RRFFQ69G5FAV''"

definition sample_user :: identity where
  "sample_user = \<lparr>identity_id = sample_ulid, traits = Some (JObj [(''email'', JStr ''Ada@x.org'')])\<rparr>"

definition sample_env :: env where
  "sample_env = \<lparr>codec = crockford, new_ulid = (\<lambda>n. of_nat (1000 + n)), db_fault = (\<lambda>_. False),
     now_at = (\<lambda>n. (int n, 0)), instant_at = int, text_le = (\<le>), from_timestamp = (\<lambda>s n. Some (s, n)),
     has_credentials = True, gw_fault = (\<lambda>_. None),
     fga_check = (\<lambda>ts t ns ob r s. \<lparr>tu_tenant = t, tu_namespace = ns, tu_object = ob, tu_relation = r,
        tu_subject = s\<rparr> \<in> set ts),
     fga_write = (\<lambda>tu ts. if tu \<in> set ts
        then (Inl ''cannot write a tuple which already exists'', ts) else (Inr (), ts @ [tu])),
     fga_delete = (\<lambda>tu ts. (Inr (), filter (\<lambda>x. x \<noteq> tu) ts)),
     fga_page = (\<lambda>ts t ns ob r tok. (filter (\<lambda>x. tu_tenant x = t \<and> tu_namespace x = ns
        \<and> (ob = '''' \<or> tu_object x = ob) \<and> (r = '''' \<or> tu_relation x = r)) ts, '''')),
     fga_expand = (\<lambda>ts t ns r s. map (\<lambda>x. ns @ '':'' @ tu_object x) (filter (\<lambda>x. tu_tenant x = t \<and> tu_namespace x = ns
        \<and> tu_relation x = r \<and> tu_subject x = s) ts)),
     directory = (\<lambda>t i. if i = sample_ulid then Some sample_user else None),
     directory_page = (\<lambda>t tok. if tok = '''' then ([], ''2'') else ([sample_user], '''')),
     page_fuel = 3\<rparr>"

definition sample_world :: "db \<Rightarrow> world" where
  "sample_world d = \<lparr>db = d, tx_now = None, aborted = False, step = 0, tuples = [],
     tenants_ready = [], profile_cache = [], sent = []\<rparr>"

lemma sample_env_calm [simp]: "calm sample_env"
  by (simp add: calm_def sample_env_def)

lemma sample_env_fields [simp]:
  "codec sample_env = crockford" "new_ulid sample_env n = of_nat (1000 + n)" "\<not> db_fault sample_env n"
  "now_at sample_env n = (int n, 0)" "instant_at sample_env n = int n" "text_le sample_env = (\<le>)"
  "from_timestamp sample_env n1 n2 = Some (n1, n2)" "has_credentials sample_env" "gw_fault sample_env n = None"
  "fga_expand sample_env ts t ns r s = map (\<lambda>x. ns @ '':'' @ tu_object x) (filter (\<lambda>x. tu_tenant x = t \<and> tu_namespace x = ns
        \<and> tu_relation x = r \<and> tu_subject x = s) ts)"
  "directory sample_env t i = (if i = sample_ulid then Some sample_user else None)"
  "directory_page sample_env t tok = (if tok = '''' then ([], ''2'') else ([sample_user], ''''))"
  "page_fuel sample_env = 3" "identity_id sample_user = sample_ulid"
  "fga_write sample_env tu ts = (if tu \<in> set ts
        then (Inl ''cannot write a tuple which already exists'', ts) else (Inr (), ts @ [tu]))"
  "fga_delete sample_env tu ts = (Inr (), filter (\<lambda>x. x \<noteq> tu) ts)"
  "fga_check sample_env ts t ns ob r s \<longleftrightarrow>
     \<lparr>tu_tenant = t, tu_namespace = ns, tu_object = ob, tu_relation = r, tu_subject = s\<rparr> \<in> set ts"
  "fga_page sample_env ts t ns ob r tok = (filter (\<lambda>x. tu_tenant x = t \<and> tu_namespace x = ns
        \<and> (ob = '''' \<or> tu_object x = ob) \<and> (r = '''' \<or> tu_relation x = r)) ts, '''')"
  by (simp_all add: sample_env_def sample_user_def)

lemma sample_world_fields [simp]:
  "db (sample_world d) = d" "tx_now (sample_world d) = None" "\<not> aborted (sample_world d)"
  "step (sample_world d) = 0" "tuples (sample_world d) = []" "tenants_ready (sample_world d) = []"
  "profile_cache (sample_world d) = []"
  by (simp_all add: sample_world_def)

end
