(* ===== verification/Event_Log.thy ===== *)
theory Event_Log
  imports Effects
begin

text \<open>
  \<open>src/event_log.rs\<close>: the transactional outbox. A board (or aggregated board) carries a revision
  counter; inserting an event bumps it and writes the new value into the event's payload, in the
  transaction of the mutation. The interface \<open>revision_log\<close> states what the rest of the service
  relies on, for boards and aggregated boards alike: the revisions in the log are gapless.
\<close>

section \<open>Statements\<close>

text \<open>\<open>UPDATE boards SET revision = revision + 1 WHERE id = $1 RETURNING revision\<close>\<close>

definition bump_board_revision :: "ident \<Rightarrow> datetime \<Rightarrow> db \<Rightarrow> (int option \<times> db) option" where
  "bump_board_revision b now d =
     (case List.find (\<lambda>r. b_id r = b) (boards d) of
        None \<Rightarrow> Some (None, d)
      | Some r \<Rightarrow>
          if i64_ok (b_revision r + 1)
          then Some (Some (b_revision r + 1),
                 d\<lparr>boards := upd_rows (\<lambda>r. b_id r = b) (\<lambda>r. r\<lparr>b_revision := b_revision r + 1\<rparr>) (boards d)\<rparr>)
          else None)"

definition bump_aggregated_revision :: "ident \<Rightarrow> datetime \<Rightarrow> db \<Rightarrow> (int option \<times> db) option" where
  "bump_aggregated_revision b now d =
     (case List.find (\<lambda>r. ag_id r = b) (aggregated_boards d) of
        None \<Rightarrow> Some (None, d)
      | Some r \<Rightarrow>
          if i64_ok (ag_revision r + 1)
          then Some (Some (ag_revision r + 1),
                 d\<lparr>aggregated_boards := upd_rows (\<lambda>r. ag_id r = b)
                     (\<lambda>r. r\<lparr>ag_revision := ag_revision r + 1\<rparr>) (aggregated_boards d)\<rparr>)
          else None)"

text \<open>
  \<open>INSERT INTO event_log\<close> with the constraints of migrations 0013, 0021 and 0031: the primary
  key, the three foreign keys, and at least one object.
\<close>

definition insert_event_sql ::
  "ident \<Rightarrow> string \<Rightarrow> ident option \<Rightarrow> ident option \<Rightarrow> ident option \<Rightarrow> string \<Rightarrow> json
   \<Rightarrow> datetime \<Rightarrow> db \<Rightarrow> db option" where
  "insert_event_sql i tenant bo ag pr ty payload now d =
     (if i \<in> e_id ` set (event_log d)
         \<or> (bo = None \<and> ag = None \<and> pr = None)
         \<or> \<not> set_option bo \<subseteq> b_id ` set (boards d)
         \<or> \<not> set_option ag \<subseteq> ag_id ` set (aggregated_boards d)
         \<or> \<not> set_option pr \<subseteq> p_id ` set (projects d)
      then None
      else Some (d\<lparr>event_log := event_log d @
             [\<lparr>e_id = i, e_tenant = tenant, e_board = bo, e_aggregated = ag, e_project = pr, e_type = ty,
               e_payload = payload, e_created = now, e_nats_seq = None\<rparr>]\<rparr>))"

definition pg_notify :: "datetime \<Rightarrow> db \<Rightarrow> db option" where
  "pg_notify now d = Some (d\<lparr>notified := Suc (notified d)\<rparr>)"

section \<open>Helpers of the handlers\<close>

definition with_board_revision :: "json \<Rightarrow> int \<Rightarrow> json" where
  "with_board_revision payload revision =
     (case as_object payload of
        Some obj \<Rightarrow> JObj (obj_insert ''board_revision'' (JNum revision) obj)
      | None \<Rightarrow> payload)"

definition insert_row ::
  "string \<Rightarrow> ident option \<Rightarrow> ident option \<Rightarrow> ident option \<Rightarrow> string \<Rightarrow> json \<Rightarrow> (cerr, unit) act" where
  "insert_row tenant_id board_id aggregated_board_id project_id event_type payload =
     bnd new_id (\<lambda>i.
     bnd (internal ''failed to insert event_log row''
           (exec (insert_event_sql i tenant_id board_id aggregated_board_id project_id event_type payload))) (\<lambda>_.
     internal ''failed to pg_notify event_log insert'' (exec pg_notify)))"

definition insert_board_event :: "string \<Rightarrow> ident \<Rightarrow> string \<Rightarrow> json \<Rightarrow> (cerr, unit) act" where
  "insert_board_event tenant_id board_id event_type payload =
     bnd (internal ''failed to bump board revision'' (fetch_one (bump_board_revision board_id))) (\<lambda>revision.
     insert_row tenant_id (Some board_id) None None event_type (with_board_revision payload revision))"

definition insert_aggregated_event :: "string \<Rightarrow> ident \<Rightarrow> string \<Rightarrow> json \<Rightarrow> (cerr, unit) act" where
  "insert_aggregated_event tenant_id aggregated_board_id event_type payload =
     bnd (internal ''failed to bump aggregated board revision''
           (fetch_one (bump_aggregated_revision aggregated_board_id))) (\<lambda>revision.
     insert_row tenant_id None (Some aggregated_board_id) None event_type
       (with_board_revision payload revision))"

definition insert_project_event :: "string \<Rightarrow> ident \<Rightarrow> string \<Rightarrow> json \<Rightarrow> (cerr, unit) act" where
  "insert_project_event tenant_id project_id event_type payload =
     insert_row tenant_id None None (Some project_id) event_type payload"

section \<open>Effects on the database\<close>

text \<open>The effect of a successful call, as functions of the database.\<close>

definition log_event ::
  "ident \<Rightarrow> string \<Rightarrow> ident option \<Rightarrow> ident option \<Rightarrow> ident option \<Rightarrow> string \<Rightarrow> json \<Rightarrow> datetime \<Rightarrow> db \<Rightarrow> db" where
  "log_event i tenant bo ag pr ty payload now d =
     d\<lparr>event_log := event_log d @
         [\<lparr>e_id = i, e_tenant = tenant, e_board = bo, e_aggregated = ag, e_project = pr, e_type = ty,
           e_payload = payload, e_created = now, e_nats_seq = None\<rparr>],
       notified := Suc (notified d)\<rparr>"

definition board_revision :: "db \<Rightarrow> ident \<Rightarrow> int option" where
  "board_revision d b = map_option b_revision (List.find (\<lambda>r. b_id r = b) (boards d))"

definition aggregated_revision :: "db \<Rightarrow> ident \<Rightarrow> int option" where
  "aggregated_revision d b = map_option ag_revision (List.find (\<lambda>r. ag_id r = b) (aggregated_boards d))"

text \<open>The revisions recorded in the log for one board, oldest first; rows of the time before
  migration 0030 carry none.\<close>

definition payload_revision :: "json \<Rightarrow> int option" where
  "payload_revision j = (case json_get j ''board_revision'' of Some (JNum n) \<Rightarrow> Some n | _ \<Rightarrow> None)"

definition board_log :: "db \<Rightarrow> ident \<Rightarrow> int list" where
  "board_log d b = List.map_filter (payload_revision \<circ> e_payload) (filter (\<lambda>r. e_board r = Some b) (event_log d))"

definition aggregated_log :: "db \<Rightarrow> ident \<Rightarrow> int list" where
  "aggregated_log d b =
     List.map_filter (payload_revision \<circ> e_payload) (filter (\<lambda>r. e_aggregated r = Some b) (event_log d))"

text \<open>One board event, as an operation on the database alone.\<close>

definition emit_board :: "ident \<Rightarrow> (ident \<times> string \<times> string \<times> (string \<times> json) list \<times> datetime) \<Rightarrow> db \<Rightarrow> db option" where
  "emit_board b v d =
     (case v of (i, tenant, ty, obj, now) \<Rightarrow>
       (case bump_board_revision b now d of
          Some (Some r, d1) \<Rightarrow>
            map_option (\<lambda>d2. d2\<lparr>notified := Suc (notified d2)\<rparr>)
              (insert_event_sql i tenant (Some b) None None ty (with_board_revision (JObj obj) r) now d1)
        | _ \<Rightarrow> None))"

definition emit_aggregated :: "ident \<Rightarrow> (ident \<times> string \<times> string \<times> (string \<times> json) list \<times> datetime) \<Rightarrow> db \<Rightarrow> db option" where
  "emit_aggregated b v d =
     (case v of (i, tenant, ty, obj, now) \<Rightarrow>
       (case bump_aggregated_revision b now d of
          Some (Some r, d1) \<Rightarrow>
            map_option (\<lambda>d2. d2\<lparr>notified := Suc (notified d2)\<rparr>)
              (insert_event_sql i tenant None (Some b) None ty (with_board_revision (JObj obj) r) now d1)
        | _ \<Rightarrow> None))"

lemma payload_revision_with [simp]:
  "payload_revision (with_board_revision (JObj obj) r) = Some r"
  by (simp add: payload_revision_def with_board_revision_def)

text \<open>A handler's call is one \<open>emit_board\<close>; the transaction's other state is left alone.\<close>

lemma insert_board_event_emit:
  assumes "insert_board_event t b ty (JObj obj) e w = (Inr u, w')" and "tx_now w = Some now"
  shows "emit_board b (Ident (new_ulid e (Suc (step w))) Ulid, t, ty, obj, now) (db w) = Some (db w')
    \<and> tx_now w' = Some now \<and> \<not> aborted w' \<and> tuples w' = tuples w \<and> step w' = step w + 4"
  using assms
  by (auto simp: insert_board_event_def insert_row_def ok_iffs emit_board_def sql_now_def pg_notify_def
      split: if_splits)

lemma insert_aggregated_event_emit:
  assumes "insert_aggregated_event t b ty (JObj obj) e w = (Inr u, w')" and "tx_now w = Some now"
  shows "emit_aggregated b (Ident (new_ulid e (Suc (step w))) Ulid, t, ty, obj, now) (db w) = Some (db w')
    \<and> tx_now w' = Some now \<and> \<not> aborted w' \<and> tuples w' = tuples w \<and> step w' = step w + 4"
  using assms
  by (auto simp: insert_aggregated_event_def insert_row_def ok_iffs emit_aggregated_def sql_now_def pg_notify_def
      split: if_splits)

section \<open>The interface of a revision log\<close>

locale revision_log =
  fixes emit :: "'k \<Rightarrow> 'v \<Rightarrow> 's \<Rightarrow> 's option"
    and rev_of :: "'s \<Rightarrow> 'k \<Rightarrow> int option"
    and log_of :: "'s \<Rightarrow> 'k \<Rightarrow> int list"
  assumes emit_Some: "emit k v s = Some s' \<Longrightarrow>
      \<exists>r. rev_of s k = Some r \<and> rev_of s' = (rev_of s)(k \<mapsto> r + 1)
        \<and> log_of s' = (log_of s)(k := log_of s k @ [r + 1])"
begin

text \<open>Every revision from 1 to the current one is in the log, once and in order.\<close>

definition gapless :: "'s \<Rightarrow> bool" where
  "gapless s \<longleftrightarrow> (\<forall>k r. rev_of s k = Some r \<longrightarrow> 0 \<le> r \<and> log_of s k = [1..r])"

lemma gapless_emit: "gapless s \<Longrightarrow> emit k v s = Some s' \<Longrightarrow> gapless s'"
proof -
  assume s: "gapless s" and "emit k v s = Some s'"
  then obtain r where r: "rev_of s k = Some r" "rev_of s' = (rev_of s)(k \<mapsto> r + 1)"
    "log_of s' = (log_of s)(k := log_of s k @ [r + 1])" using emit_Some by blast
  have "0 \<le> r \<and> log_of s k = [1..r]" using s r(1) by (simp add: gapless_def)
  then show "gapless s'"
    using s r(2,3) by (auto simp: gapless_def upto_rec2 split: if_splits)
qed

primrec emits :: "('k \<times> 'v) list \<Rightarrow> 's \<Rightarrow> 's option" where
  "emits [] s = Some s"
| "emits (x # xs) s = Option.bind (emit (fst x) (snd x) s) (emits xs)"

lemma gapless_emits: "gapless s \<Longrightarrow> emits xs s = Some s' \<Longrightarrow> gapless s'"
  by (induction xs arbitrary: s) (auto simp: bind_eq_Some_conv dest: gapless_emit)

lemma gapless_frame:
  "gapless s \<Longrightarrow> rev_of s' = rev_of s \<Longrightarrow> log_of s' = log_of s \<Longrightarrow> gapless s'"
  by (simp add: gapless_def)

end

lemma map_filter_snoc:
  "List.map_filter f (xs @ [x]) = List.map_filter f xs @ (case f x of None \<Rightarrow> [] | Some y \<Rightarrow> [y])"
  by (simp add: List.map_filter_def split: option.splits)

lemma find_upd_board:
  "map_option b_revision (List.find (\<lambda>r. b_id r = c)
     (upd_rows (\<lambda>r. b_id r = b) (\<lambda>r. r\<lparr>b_revision := b_revision r + 1\<rparr>) rows))
   = (if c = b then map_option (\<lambda>r. b_revision r + 1) (List.find (\<lambda>r. b_id r = c) rows)
      else map_option b_revision (List.find (\<lambda>r. b_id r = c) rows))"
  by (induction rows) auto

lemma find_upd_aggregated:
  "map_option ag_revision (List.find (\<lambda>r. ag_id r = c)
     (upd_rows (\<lambda>r. ag_id r = b) (\<lambda>r. r\<lparr>ag_revision := ag_revision r + 1\<rparr>) rows))
   = (if c = b then map_option (\<lambda>r. ag_revision r + 1) (List.find (\<lambda>r. ag_id r = c) rows)
      else map_option ag_revision (List.find (\<lambda>r. ag_id r = c) rows))"
  by (induction rows) auto

lemma emit_board_cases:
  assumes "emit_board b (i, t, ty, obj, now) d = Some d'"
  obtains x where "List.find (\<lambda>r. b_id r = b) (boards d) = Some x" and "b_id x = b"
    and "i64_ok (b_revision x + 1)" and "i \<notin> e_id ` set (event_log d)"
    and "d' = log_event i t (Some b) None None ty
           (JObj (obj_insert ''board_revision'' (JNum (b_revision x + 1)) obj)) now
           (d\<lparr>boards := upd_rows (\<lambda>r. b_id r = b) (\<lambda>r. r\<lparr>b_revision := b_revision r + 1\<rparr>) (boards d)\<rparr>)"
proof -
  from assms obtain x where x: "List.find (\<lambda>r. b_id r = b) (boards d) = Some x"
    by (auto simp: emit_board_def bump_board_revision_def split: option.splits)
  from find_Some_set [OF x] have "b_id x = b" by simp
  with x assms show thesis
    by (intro that [of x])
      (simp_all add: emit_board_def bump_board_revision_def insert_event_sql_def log_event_def
         with_board_revision_def split: if_splits)
qed

lemma emit_aggregated_cases:
  assumes "emit_aggregated b (i, t, ty, obj, now) d = Some d'"
  obtains x where "List.find (\<lambda>r. ag_id r = b) (aggregated_boards d) = Some x" and "ag_id x = b"
    and "i64_ok (ag_revision x + 1)" and "i \<notin> e_id ` set (event_log d)"
    and "d' = log_event i t None (Some b) None ty
           (JObj (obj_insert ''board_revision'' (JNum (ag_revision x + 1)) obj)) now
           (d\<lparr>aggregated_boards := upd_rows (\<lambda>r. ag_id r = b)
                (\<lambda>r. r\<lparr>ag_revision := ag_revision r + 1\<rparr>) (aggregated_boards d)\<rparr>)"
proof -
  from assms obtain x where x: "List.find (\<lambda>r. ag_id r = b) (aggregated_boards d) = Some x"
    by (auto simp: emit_aggregated_def bump_aggregated_revision_def split: option.splits)
  from find_Some_set [OF x] have "ag_id x = b" by simp
  with x assms show thesis
    by (intro that [of x])
      (simp_all add: emit_aggregated_def bump_aggregated_revision_def insert_event_sql_def log_event_def
         with_board_revision_def split: if_splits)
qed

lemma emit_board_Some:
  assumes "emit_board b v d = Some d'"
  shows "\<exists>r. board_revision d b = Some r \<and> board_revision d' = (board_revision d)(b \<mapsto> r + 1)
    \<and> board_log d' = (board_log d)(b := board_log d b @ [r + 1])"
proof -
  obtain i t ty obj now where v: "v = (i, t, ty, obj, now)" by (cases v) auto
  from assms [unfolded v] show ?thesis
    by (rule emit_board_cases)
      (auto simp: log_event_def board_revision_def board_log_def fun_eq_iff find_upd_board
         map_filter_snoc payload_revision_def dest: find_Some_set)
qed

lemma emit_aggregated_Some:
  assumes "emit_aggregated b v d = Some d'"
  shows "\<exists>r. aggregated_revision d b = Some r \<and> aggregated_revision d' = (aggregated_revision d)(b \<mapsto> r + 1)
    \<and> aggregated_log d' = (aggregated_log d)(b := aggregated_log d b @ [r + 1])"
proof -
  obtain i t ty obj now where v: "v = (i, t, ty, obj, now)" by (cases v) auto
  from assms [unfolded v] show ?thesis
    by (rule emit_aggregated_cases)
      (auto simp: log_event_def aggregated_revision_def aggregated_log_def fun_eq_iff find_upd_aggregated
         map_filter_snoc payload_revision_def dest: find_Some_set)
qed

interpretation board_log: revision_log emit_board board_revision board_log
  by unfold_locales (rule emit_board_Some)

interpretation aggregated_log: revision_log emit_aggregated aggregated_revision aggregated_log
  by unfold_locales (rule emit_aggregated_Some)

end
