(* ===== verification/Permission.thy ===== *)
theory Permission
  imports Effects
begin

text \<open>
  \<open>src/auth/permission_client.rs\<close> and \<open>src/auth/permission_retry.rs\<close>: the client of the
  permission backend (per-tenant clients, checks, grants that treat a duplicate as success,
  deletion by listing), and the retry loop around transient failures. The tuple store itself is
  the gateway's: it appears through the functions \<open>fga_*\<close> of the environment, and
  \<open>fga_documented\<close> names what its documentation promises.
\<close>

section \<open>Client\<close>

datatype permission_error = Denied | Backend string

text \<open>
  \<open>tenant_client\<close>: the client of a tenant is built once; the first use registers the namespace
  with the gateway. A client is represented by the tenant it is scoped to.
\<close>

definition tenant_client :: "string \<Rightarrow> (permission_error, string) act" where
  "tenant_client tenant_id = (\<lambda>e w.
     if \<not> has_credentials e
     then (Inl (Backend ''cannot derive a tenant client without service credentials''), w)
     else if tenant_id \<in> set (tenants_ready w) then (Inr tenant_id, w)
     else
       (case gw_fault e (step w) of
          Some msg \<Rightarrow> (Inl (Backend msg), tick w)
        | None \<Rightarrow> (Inr tenant_id, (tick w)\<lparr>tenants_ready := tenant_id # tenants_ready w\<rparr>)))"

definition check_permission ::
  "string \<Rightarrow> string \<Rightarrow> string \<Rightarrow> string \<Rightarrow> string \<Rightarrow> (permission_error, bool) act" where
  "check_permission client namespace object relation subject_id =
     map_err Backend
       (gateway (\<lambda>e ts. (Inr (fga_check e ts client namespace object relation subject_id), ts)))"

definition DUPLICATE_TUPLE :: string where
  "DUPLICATE_TUPLE = ''cannot write a tuple which already exists''"

definition grant :: "string \<Rightarrow> string \<Rightarrow> string \<Rightarrow> string \<Rightarrow> string \<Rightarrow> (permission_error, unit) act" where
  "grant client namespace object relation subject_id =
     bnd (attempt (gateway (\<lambda>e ts. fga_write e \<lparr>tu_tenant = client, tu_namespace = namespace,
            tu_object = object, tu_relation = relation, tu_subject = subject_id\<rparr> ts)))
       (\<lambda>result. case result of
           Inl msg \<Rightarrow> if \<not> contains_str DUPLICATE_TUPLE msg then raise (Backend msg) else ret ()
         | Inr _ \<Rightarrow> ret ())"

definition list_relation_tuples ::
  "string \<Rightarrow> string \<Rightarrow> string option \<Rightarrow> string option \<Rightarrow> string
   \<Rightarrow> (permission_error, rel_tuple list \<times> string) act" where
  "list_relation_tuples client namespace object relation page_token =
     map_err Backend
       (gateway (\<lambda>e ts. (Inr (fga_page e ts client namespace
          (case object of None \<Rightarrow> '''' | Some s \<Rightarrow> s) (case relation of None \<Rightarrow> '''' | Some s \<Rightarrow> s) page_token), ts)))"

text \<open>The gateway lists \<open>Type:id\<close>; entries of another type are dropped and the prefix removed.\<close>

definition list_objects :: "string \<Rightarrow> string \<Rightarrow> string \<Rightarrow> string \<Rightarrow> (permission_error, string list) act" where
  "list_objects client namespace relation subject_id =
     map_err Backend
       (gateway (\<lambda>e ts. (Inr (List.map_filter (strip_prefix (namespace @ '':''))
          (fga_expand e ts client namespace relation subject_id)), ts)))"

text \<open>\<open>src/auth/permission_expand.rs\<close>: the set of those ids, an error above a ceiling.\<close>

definition expand_objects ::
  "string \<Rightarrow> string \<Rightarrow> string \<Rightarrow> string \<Rightarrow> nat \<Rightarrow> (permission_error, string set) act" where
  "expand_objects client namespace relation subject_id max_results =
     (if max_results = 0 then raise (Backend ''expand exceeded max_results: 0'')
      else bnd (list_objects client namespace relation subject_id) (\<lambda>objects.
        if length objects > max_results then raise (Backend ''expand exceeded max_results'')
        else ret (set objects)))"

primrec delete_pages ::
  "nat \<Rightarrow> string \<Rightarrow> string \<Rightarrow> string option \<Rightarrow> string option \<Rightarrow> string option \<Rightarrow> string
   \<Rightarrow> (permission_error, unit) act" where
  "delete_pages 0 client namespace object relation subject_id page_token =
     raise (Backend ''listing does not end'')"
| "delete_pages (Suc fuel) client namespace object relation subject_id page_token =
     bnd (list_relation_tuples client namespace object relation page_token) (\<lambda>(page, next_token).
     bnd (each (\<lambda>tuple.
            if (case subject_id of Some s \<Rightarrow> tu_subject tuple \<noteq> s | None \<Rightarrow> False) then ret ()
            else map_err Backend (gateway (\<lambda>e ts. fga_delete e tuple ts))) page) (\<lambda>_.
     if next_token = '''' then ret ()
     else delete_pages fuel client namespace object relation subject_id next_token))"

definition delete_relation_tuples ::
  "string \<Rightarrow> string \<Rightarrow> string option \<Rightarrow> string option \<Rightarrow> string option \<Rightarrow> (permission_error, unit) act" where
  "delete_relation_tuples client namespace object relation subject_id =
     bnd (ask page_fuel) (\<lambda>fuel. delete_pages fuel client namespace object relation subject_id '''')"

section \<open>Retry\<close>

definition MAX_RETRIES :: nat where
  "MAX_RETRIES = 8"

definition is_retryable :: "string \<Rightarrow> bool" where
  "is_retryable e = (let msg = to_lower e in
     contains_str ''unavailable'' msg \<or> contains_str ''connection refused'' msg
     \<or> contains_str ''timeout'' msg \<or> contains_str ''unexpected end'' msg
     \<or> contains_str ''connection reset'' msg)"

text \<open>The loop over \<open>0..MAX_RETRIES\<close>, with the last error; the waits between attempts are not
  part of the state.\<close>

primrec retry_loop ::
  "nat \<Rightarrow> permission_error option \<Rightarrow> (permission_error, 'a) act \<Rightarrow> (permission_error, 'a) act" where
  "retry_loop 0 last_err f =
     raise (case last_err of Some x \<Rightarrow> x | None \<Rightarrow> Backend ''permission retry exhausted'')"
| "retry_loop (Suc n) last_err f =
     bnd (attempt f) (\<lambda>r. case r of
         Inr v \<Rightarrow> ret v
       | Inl (Backend msg) \<Rightarrow>
           if is_retryable msg then retry_loop n (Some (Backend msg)) f else raise (Backend msg)
       | Inl Denied \<Rightarrow> raise Denied)"

definition retry :: "(permission_error, 'a) act \<Rightarrow> (permission_error, 'a) act" where
  "retry f = retry_loop MAX_RETRIES None f"

definition grant_with_retry ::
  "string \<Rightarrow> string \<Rightarrow> string \<Rightarrow> string \<Rightarrow> string \<Rightarrow> (permission_error, unit) act" where
  "grant_with_retry client namespace object relation subject =
     retry (grant client namespace object relation subject)"

definition check_permission_with_retry ::
  "string \<Rightarrow> string \<Rightarrow> string \<Rightarrow> string \<Rightarrow> string \<Rightarrow> (permission_error, bool) act" where
  "check_permission_with_retry client namespace object relation subject =
     retry (check_permission client namespace object relation subject)"

section \<open>Attempts\<close>

text \<open>The outcome of the k-th attempt, each in the state its predecessor left.\<close>

primrec nth_attempt :: "('e, 'a) act \<Rightarrow> env \<Rightarrow> world \<Rightarrow> nat \<Rightarrow> ('e + 'a) \<times> world" where
  "nth_attempt f e w 0 = f e w"
| "nth_attempt f e w (Suc k) = f e (snd (nth_attempt f e w k))"

definition transient :: "permission_error + 'a \<Rightarrow> bool" where
  "transient r \<longleftrightarrow> (\<exists>msg. r = Inl (Backend msg) \<and> is_retryable msg)"

lemma nth_attempt_shift: "nth_attempt f e w (Suc k) = nth_attempt f e (snd (f e w)) k"
  by (induction k) simp_all

lemma retry_loop_step:
  "retry_loop (Suc n) l f e w =
     (if transient (fst (f e w)) then retry_loop n (Some (projl (fst (f e w)))) f e (snd (f e w))
      else f e w)"
  by (cases "f e w")
    (auto simp: bnd_def attempt_def transient_def ret_def raise_def split: sum.splits permission_error.splits)

lemma retry_loop_first:
  assumes "\<forall>j<k. transient (fst (nth_attempt f e w j))" and "k < n"
    and "\<not> transient (fst (nth_attempt f e w k))"
  shows "retry_loop n l f e w = nth_attempt f e w k"
  using assms
proof (induction k arbitrary: n l w)
  case 0
  then obtain m where "n = Suc m" by (cases n) auto
  with 0 show ?case by (simp add: retry_loop_step del: retry_loop.simps)
next
  case (Suc k)
  then obtain m where n: "n = Suc m" and m: "k < m" by (cases n) auto
  have "transient (fst (f e w))" using Suc.prems(1) by (auto dest: spec [of _ 0])
  moreover have "\<forall>j<k. transient (fst (nth_attempt f e (snd (f e w)) j))"
    using Suc.prems(1) nth_attempt_shift [of f e w] by (metis Suc_less_eq)
  moreover have "\<not> transient (fst (nth_attempt f e (snd (f e w)) k))"
    using Suc.prems(3) nth_attempt_shift [of f e w] by simp
  ultimately show ?case
    unfolding n using Suc.IH [of "snd (f e w)" m] m
    by (simp add: retry_loop_step nth_attempt_shift del: retry_loop.simps nth_attempt.simps)
qed

lemma retry_loop_all:
  assumes "\<forall>j<Suc n. transient (fst (nth_attempt f e w j))"
  shows "retry_loop (Suc n) l f e w = nth_attempt f e w n"
  using assms
proof (induction n arbitrary: l w)
  case 0
  then have t: "transient (fst (f e w))" by simp
  then obtain x where x: "f e w = (Inl x, snd (f e w))"
    by (cases "f e w") (auto simp: transient_def)
  have "retry_loop (Suc 0) l f e w = raise (projl (fst (f e w))) e (snd (f e w))"
    unfolding retry_loop_step using t by simp
  also have "\<dots> = f e w" by (subst (3) x) (subst x, simp add: raise_def)
  finally show ?case by simp
next
  case (Suc n)
  have t: "transient (fst (f e w))" using Suc.prems by (auto dest: spec [of _ 0])
  have "\<forall>j<Suc n. transient (fst (nth_attempt f e (snd (f e w)) j))"
    using Suc.prems nth_attempt_shift [of f e w] by (metis Suc_less_eq)
  then have "retry_loop (Suc n) (Some (projl (fst (f e w)))) f e (snd (f e w))
      = nth_attempt f e (snd (f e w)) n"
    by (rule Suc.IH)
  then show ?case
    using t by (subst retry_loop_step) (simp add: nth_attempt_shift del: retry_loop.simps nth_attempt.simps)
qed

section \<open>What the gateway documents\<close>

text \<open>
  A write adds the tuple, or reports a duplicate by message; a delete removes the tuple; a listing
  that fits one page returns the matching tuples (an empty filter matches everything).
\<close>

definition tuple_matches :: "string \<Rightarrow> string \<Rightarrow> string \<Rightarrow> string \<Rightarrow> rel_tuple \<Rightarrow> bool" where
  "tuple_matches tenant ns obj rel tu \<longleftrightarrow> tu_tenant tu = tenant \<and> tu_namespace tu = ns
     \<and> (obj = '''' \<or> tu_object tu = obj) \<and> (rel = '''' \<or> tu_relation tu = rel)"

definition fga_documented :: "env \<Rightarrow> bool" where
  "fga_documented e \<longleftrightarrow>
     (\<forall>tu ts. tu \<notin> set ts \<longrightarrow> fga_write e tu ts = (Inr (), ts @ [tu])) \<and>
     (\<forall>tu ts. tu \<in> set ts \<longrightarrow> (\<exists>msg. fga_write e tu ts = (Inl msg, ts) \<and> contains_str DUPLICATE_TUPLE msg)) \<and>
     (\<forall>tu ts. fga_delete e tu ts = (Inr (), filter (\<lambda>x. x \<noteq> tu) ts)) \<and>
     (\<forall>ts tenant ns obj rel. length (filter (tuple_matches tenant ns obj rel) ts) \<le> 200 \<longrightarrow>
        fga_page e ts tenant ns obj rel '''' = (filter (tuple_matches tenant ns obj rel) ts, '''')) \<and>
     0 < page_fuel e"

section \<open>Frame\<close>

lemma keeps_tenant_client [keeps_intros]: "keeps I (tenant_client t)"
  by (auto simp: keeps_def tenant_client_def split: option.splits)

lemma keeps_check_permission [keeps_intros]: "keeps I (check_permission c ns ob r s)"
  unfolding check_permission_def by (intro keeps_intros)

lemma keeps_grant [keeps_intros]: "keeps I (grant c ns ob r s)"
  unfolding grant_def by (intro keeps_intros)

lemma keeps_retry_loop:
  fixes f :: "(permission_error, 'a) act"
  shows "keeps I f \<Longrightarrow> keeps I (retry_loop n l f)"
proof (induction n arbitrary: l)
  case 0
  then show ?case by (simp add: keeps_raise)
next
  case (Suc n)
  show ?case
    unfolding retry_loop.simps
  proof (intro keeps_bnd keeps_attempt Suc.prems)
    fix r :: "permission_error + 'a"
    show "keeps I (case r of Inr v \<Rightarrow> ret v
       | Inl (Backend msg) \<Rightarrow> if is_retryable msg then retry_loop n (Some (Backend msg)) f else raise (Backend msg)
       | Inl Denied \<Rightarrow> raise Denied)"
      by (auto intro!: keeps_intros Suc split: sum.split permission_error.split)
  qed
qed

lemma keeps_expand_objects [keeps_intros]: "keeps I (expand_objects c ns r s n)"
  unfolding expand_objects_def list_objects_def by (intro keeps_intros)

lemma keeps_grant_with_retry [keeps_intros]: "keeps I (grant_with_retry c ns ob r s)"
  unfolding grant_with_retry_def retry_def by (intro keeps_retry_loop keeps_grant)

lemma keeps_check_permission_with_retry [keeps_intros]: "keeps I (check_permission_with_retry c ns ob r s)"
  unfolding check_permission_with_retry_def retry_def by (intro keeps_retry_loop keeps_check_permission)

lemma keeps_delete_pages [keeps_intros]: "keeps I (delete_pages n c ns ob r s p)"
  by (induction n arbitrary: p) (auto simp: list_relation_tuples_def intro!: keeps_intros)

lemma keeps_delete_relation_tuples [keeps_intros]: "keeps I (delete_relation_tuples c ns ob r s)"
  unfolding delete_relation_tuples_def by (intro keeps_intros)

text \<open>
  C21. The retry loop is the first conclusive attempt among eight: the operation is repeated while
  it fails with a transient backend error, at most eight times in all; the answer (and the state)
  is that of the first attempt that succeeded or failed otherwise, or of the eighth. A denial or
  a permanent error is never retried.
\<close>

theorem retry_first_conclusive:
  "(\<exists>k. k \<in> {0..<8} \<and> {j. j < k} \<subseteq> {j. transient (fst (nth_attempt f e w j))}
        \<and> \<not> transient (fst (nth_attempt f e w k)) \<and> retry f e w = nth_attempt f e w k)
   \<or> ({j. j < 8} \<subseteq> {j. transient (fst (nth_attempt f e w j))} \<and> retry f e w = nth_attempt f e w 7)"
proof (cases "\<exists>k<8. \<not> transient (fst (nth_attempt f e w k))")
  case True
  then obtain k0 where k0: "k0 < 8" "\<not> transient (fst (nth_attempt f e w k0))" by blast
  define k where "k = (LEAST k. \<not> transient (fst (nth_attempt f e w k)))"
  have k: "\<not> transient (fst (nth_attempt f e w k))" "k < 8"
    unfolding k_def using k0 Least_le [of "\<lambda>k. \<not> transient (fst (nth_attempt f e w k))" k0]
      LeastI [of "\<lambda>k. \<not> transient (fst (nth_attempt f e w k))" k0] by simp_all
  have k': "\<forall>j<k. transient (fst (nth_attempt f e w j))"
    unfolding k_def by (auto dest: not_less_Least)
  have "retry f e w = nth_attempt f e w k"
    unfolding retry_def MAX_RETRIES_def by (rule retry_loop_first [OF k' k(2) k(1)])
  with k k' show ?thesis by (intro disjI1 exI [of _ k]) auto
next
  case False
  then have "retry f e w = nth_attempt f e w 7"
    unfolding retry_def MAX_RETRIES_def using retry_loop_all [of 7 f e w] by (simp add: numeral_eq_Suc)
  with False show ?thesis by auto
qed

end
