(* ===== verification/Identity.thy ===== *)
theory Identity
  imports Effects
begin

text \<open>
  \<open>src/auth/identity_client.rs\<close>: the client of the gateway's user directory. A user reference
  (ULID, \<open>user:\<close> subject or e-mail address) is resolved to the canonical subject; assignee
  profiles are looked up best-effort through a cache of five minutes. The directory itself is the
  gateway's (\<open>directory\<close> and \<open>directory_page\<close> of the environment).
\<close>

section \<open>Traits\<close>

datatype resolve_error = RInvalid string | RNotFound string | RBackend string

definition canonical_subject :: "string \<Rightarrow> string" where
  "canonical_subject i = ''user:'' @ i"

definition trait :: "string \<Rightarrow> identity \<Rightarrow> string" where
  "trait key i =
     (case Option.bind (Option.bind (traits i) (\<lambda>v. json_get v key)) as_str of Some s \<Rightarrow> s | None \<Rightarrow> '''')"

definition identity_email :: "identity \<Rightarrow> string" where
  "identity_email i = trait ''email'' i"

definition identity_display_name :: "identity \<Rightarrow> string" where
  "identity_display_name i =
     (let given = trait ''given_name'' i; family = trait ''family_name'' i in
      if given \<noteq> '''' \<and> family \<noteq> '''' then given @ '' '' @ family
      else if given \<noteq> '''' then given
      else if family \<noteq> '''' then family
      else '''')"

definition eq_ignore_ascii_case :: "string \<Rightarrow> string \<Rightarrow> bool" where
  "eq_ignore_ascii_case a b \<longleftrightarrow> to_lower a = to_lower b"

section \<open>Lookups\<close>

definition get_identity :: "string \<Rightarrow> string \<Rightarrow> (resolve_error, identity option) act" where
  "get_identity tenant_id i =
     map_err RBackend (gateway (\<lambda>e ts. (Inr (directory e tenant_id i), ts)))"

primrec find_pages :: "nat \<Rightarrow> string \<Rightarrow> string \<Rightarrow> string \<Rightarrow> (resolve_error, identity option) act" where
  "find_pages 0 tenant_id addr page_token = raise (RBackend ''listing does not end'')"
| "find_pages (Suc fuel) tenant_id addr page_token =
     bnd (map_err RBackend (gateway (\<lambda>e ts. (Inr (directory_page e tenant_id page_token), ts))))
       (\<lambda>(identities, next).
     (case List.find (\<lambda>i. eq_ignore_ascii_case (identity_email i) addr) identities of
        Some found \<Rightarrow> ret (Some found)
      | None \<Rightarrow> if next = '''' then ret None else find_pages fuel tenant_id addr next))"

definition find_by_email :: "string \<Rightarrow> string \<Rightarrow> (resolve_error, identity option) act" where
  "find_by_email tenant_id addr = bnd (ask page_fuel) (\<lambda>fuel. find_pages fuel tenant_id addr '''')"

definition resolve_by_id :: "string \<Rightarrow> string \<Rightarrow> string \<Rightarrow> (resolve_error, string) act" where
  "resolve_by_id tenant_id original i =
     bnd (ask codec) (\<lambda>u.
     if \<not> is_ulid u i then raise (RInvalid (original @ '' does not carry a valid identity ULID''))
     else bnd (get_identity tenant_id i) (\<lambda>r. case r of
         Some identity \<Rightarrow> ret (canonical_subject (identity_id identity))
       | None \<Rightarrow> raise (RNotFound original)))"

definition resolve_subject :: "string \<Rightarrow> string \<Rightarrow> (resolve_error, string) act" where
  "resolve_subject tenant_id input0 =
     (let input = trim input0 in
      if input = '''' then raise (RInvalid ''empty user reference'')
      else (case strip_prefix ''user:'' input of
          Some rest \<Rightarrow> resolve_by_id tenant_id input rest
        | None \<Rightarrow>
            bnd (ask codec) (\<lambda>u.
            if is_ulid u input then resolve_by_id tenant_id input input
            else if CHR ''@'' \<in> set input then
              bnd (find_by_email tenant_id input) (\<lambda>r. case r of
                  Some identity \<Rightarrow> ret (canonical_subject (identity_id identity))
                | None \<Rightarrow> raise (RNotFound input))
            else raise (RInvalid (input @ '' is neither an identity ULID nor an email address'')))))"

section \<open>Profiles\<close>

definition PROFILE_CACHE_TTL :: int where
  "PROFILE_CACHE_TTL = 300 * 10 ^ 9"

definition cache_lookup :: "string \<Rightarrow> string \<Rightarrow> env \<Rightarrow> world \<Rightarrow> profile option" where
  "cache_lookup tenant_id subject e w =
     (case map_of (profile_cache w) (tenant_id, subject) of
        Some (p, at) \<Rightarrow> if instant_at e (step w) - at < PROFILE_CACHE_TTL then Some p else None
      | None \<Rightarrow> None)"

definition cache_insert :: "string \<Rightarrow> string \<Rightarrow> profile \<Rightarrow> ('e, unit) act" where
  "cache_insert tenant_id subject p = (\<lambda>e w.
     (Inr (), w\<lparr>profile_cache := ((tenant_id, subject), (p, instant_at e (step w))) # profile_cache w\<rparr>))"

definition resolve_profile :: "string \<Rightarrow> string \<Rightarrow> (cerr, profile option) act" where
  "resolve_profile tenant_id subject = (\<lambda>e w.
     (case cache_lookup tenant_id subject e w of
        Some p \<Rightarrow> (Inr (Some p), w)
      | None \<Rightarrow>
          (case strip_prefix ''user:'' subject of
             None \<Rightarrow> (Inr None, w)
           | Some i \<Rightarrow>
               if \<not> is_ulid (codec e) i then (Inr None, w)
               else bnd (attempt (get_identity tenant_id i)) (\<lambda>r. case r of
                   Inr (Some identity) \<Rightarrow>
                     let p = \<lparr>display_name = identity_display_name identity, email = identity_email identity\<rparr> in
                     if display_name p = '''' \<and> email p = '''' then ret None
                     else bnd (cache_insert tenant_id subject p) (\<lambda>_. ret (Some p))
                 | Inr None \<Rightarrow> ret None
                 | Inl _ \<Rightarrow> ret None) e w)))"

section \<open>Frame\<close>

lemma keeps_get_identity [keeps_intros]: "keeps I (get_identity t i)"
  unfolding get_identity_def by (intro keeps_intros)

lemma keeps_find_by_email [keeps_intros]: "keeps I (find_by_email t m)"
proof -
  have "keeps I (find_pages n t m p)" for n p
    by (induction n arbitrary: p) (auto intro!: keeps_intros split: option.split)
  then show ?thesis unfolding find_by_email_def by (intro keeps_intros)
qed

lemma keeps_resolve_subject [keeps_intros]: "keeps I (resolve_subject t s)"
  unfolding resolve_subject_def resolve_by_id_def Let_def by (intro keeps_intros)

lemma resolve_profile_world:
  "db (snd (resolve_profile t s e w)) = db w"
  "tuples (snd (resolve_profile t s e w)) = tuples w"
  "tx_now (snd (resolve_profile t s e w)) = tx_now w"
  "aborted (snd (resolve_profile t s e w)) = aborted w"
  "\<exists>p. fst (resolve_profile t s e w) = Inr p"
  by (auto simp: resolve_profile_def bnd_def attempt_def get_identity_def map_err_def gateway_def
      cache_insert_def ret_def Let_def split: option.splits)

lemma keeps_resolve_profile [keeps_intros]: "keeps I (resolve_profile t s)"
  by (simp add: keeps_def resolve_profile_world)

section \<open>Properties\<close>

text \<open>The whole directory of a tenant, as the listing yields it within a number of pages.\<close>

primrec listing :: "env \<Rightarrow> string \<Rightarrow> nat \<Rightarrow> string \<Rightarrow> identity list option" where
  "listing e t 0 tok = None"
| "listing e t (Suc n) tok =
     (case directory_page e t tok of (ids, next) \<Rightarrow>
        if next = '''' then Some ids else map_option (\<lambda>rest. ids @ rest) (listing e t n next))"

lemma find_append_option:
  "List.find P (xs @ ys) = (case List.find P xs of Some x \<Rightarrow> Some x | None \<Rightarrow> List.find P ys)"
  by (induction xs) auto

lemma find_pages_listing:
  assumes "calm e"
  shows "listing e t n tok = Some ids \<Longrightarrow>
    fst (find_pages n t m tok e w) = Inr (List.find (\<lambda>i. eq_ignore_ascii_case (identity_email i) m) ids)"
proof (induction n arbitrary: tok ids w)
  case 0
  then show ?case by simp
next
  case (Suc n)
  obtain page nx where p: "directory_page e t tok = (page, nx)" by fastforce
  show ?case
  proof (cases "nx = ''''")
    case True
    with Suc.prems p have "ids = page" by simp
    with p True assms show ?thesis
      by (auto simp: bnd_def map_err_def gateway_def ret_def split: option.split)
  next
    case False
    with Suc.prems p obtain rest where r: "listing e t n nx = Some rest" "ids = page @ rest" by auto
    from Suc.IH [OF r(1)] p False r(2) assms show ?thesis
      by (auto simp: bnd_def map_err_def gateway_def ret_def find_append_option split: option.split)
  qed
qed

text \<open>
  The paged e-mail scan is a search of the whole directory: where the gateway answers and its
  listing ends within the pages followed, the result is the first identity of all pages together
  whose address equals the given one up to case, and none exactly if no identity has it.
\<close>

theorem find_by_email_complete:
  assumes "calm e" and "listing e t (page_fuel e) '''' = Some ids"
  shows "fst (find_by_email t m e w)
    = Inr (List.find (\<lambda>i. eq_ignore_ascii_case (identity_email i) m) ids)"
  using find_pages_listing [OF assms] by (simp add: find_by_email_def bnd_def ask_def)

theorem find_by_email_complete_witness:
  "fst (find_by_email ''t'' ''ADA@x.org'' sample_env (sample_world empty_db)) = Inr (Some sample_user)"
proof -
  have l: "listing sample_env ''t'' (page_fuel sample_env) '''' = Some [sample_user]"
    by (simp add: eval_nat_numeral)
  have "List.find (\<lambda>i. eq_ignore_ascii_case (identity_email i) ''ADA@x.org'') [sample_user] = Some sample_user"
    by code_simp
  with find_by_email_complete [OF sample_env_calm l, of "''ADA@x.org''" "sample_world empty_db"]
  show ?thesis by (simp only:)
qed

lemma find_pages_sound:
  "find_pages n t m tok e w = (Inr (Some i), w') \<Longrightarrow>
   eq_ignore_ascii_case (identity_email i) m \<and> (\<exists>tok. i \<in> set (fst (directory_page e t tok)))"
proof (induction n arbitrary: tok w)
  case 0
  then show ?case by (simp add: raise_def)
next
  case (Suc n)
  obtain page nx where p: "directory_page e t tok = (page, nx)" by fastforce
  from Suc.prems p obtain w1 where
    run: "(case List.find (\<lambda>i. eq_ignore_ascii_case (identity_email i) m) page of
        Some found \<Rightarrow> ret (Some found)
      | None \<Rightarrow> if nx = '''' then ret None else find_pages n t m nx) e w1 = (Inr (Some i), w')"
    by (auto simp: bnd_ok map_err_ok gateway_def split: option.splits)
  show ?case
  proof (cases "List.find (\<lambda>i. eq_ignore_ascii_case (identity_email i) m) page")
    case None
    with run show ?thesis using Suc.IH [of nx w1] by (auto simp: ret_def split: if_splits)
  next
    case (Some j)
    with run have "j = i" by (simp add: ret_def)
    with find_Some_set [OF Some] p show ?thesis by (metis fst_conv)
  qed
qed

text \<open>
  Only users of the tenant's own directory can be resolved: a successful resolution yields the
  canonical subject of an identity that the directory of this tenant returned, either for the ULID
  the reference carries, or on a page of its listing with the reference as its e-mail address.
\<close>

theorem resolve_subject_sound:
  assumes "resolve_subject t r e w = (Inr s, w')"
  shows "\<exists>i. s = canonical_subject (identity_id i) \<and>
    ((\<exists>u. (trim r = u \<or> trim r = ''user:'' @ u) \<and> is_ulid (codec e) u \<and> directory e t u = Some i)
     \<or> (eq_ignore_ascii_case (identity_email i) (trim r) \<and> CHR ''@'' \<in> set (trim r)
         \<and> (\<exists>tok. i \<in> set (fst (directory_page e t tok)))))"
proof -
  have id_case: "\<exists>i. s = canonical_subject (identity_id i) \<and> is_ulid (codec e) u \<and> directory e t u = Some i"
    if "resolve_by_id t x u e w1 = (Inr s, w2)" for x u w1 w2
    using that by (auto simp: resolve_by_id_def ok_iffs get_identity_def gateway_def raise_def
        split: if_splits option.splits)
  show ?thesis
  proof (cases "strip_prefix ''user:'' (trim r)")
    case (Some u)
    then have "trim r = ''user:'' @ u" by (simp add: strip_prefix_Some)
    moreover from assms Some have "resolve_by_id t (trim r) u e w = (Inr s, w')"
      by (auto simp: resolve_subject_def Let_def raise_def split: if_splits)
    ultimately show ?thesis using id_case by blast
  next
    case None
    show ?thesis
    proof (cases "is_ulid (codec e) (trim r)")
      case True
      with assms None have "resolve_by_id t (trim r) (trim r) e w = (Inr s, w')"
        by (auto simp: resolve_subject_def Let_def raise_def bnd_def ask_def split: if_splits)
      then show ?thesis using id_case by blast
    next
      case False
      with assms None obtain i w1 where "find_by_email t (trim r) e w = (Inr (Some i), w1)"
        "CHR ''@'' \<in> set (trim r)" "s = canonical_subject (identity_id i)"
        by (auto simp: resolve_subject_def Let_def ok_iffs raise_def split: if_splits option.splits)
      then show ?thesis
        using find_pages_sound [of "page_fuel e" t "trim r" "''''" e w i w1]
        by (auto simp: find_by_email_def bnd_def ask_def)
    qed
  qed
qed

theorem resolve_subject_sound_witness:
  "\<exists>w' i. resolve_subject ''t'' '' Ada@x.org'' sample_env (sample_world empty_db)
      = (Inr (canonical_subject sample_ulid), w')
    \<and> canonical_subject sample_ulid = canonical_subject (identity_id i)
    \<and> eq_ignore_ascii_case (identity_email i) (trim '' Ada@x.org'')"
proof -
  have t: "trim '' Ada@x.org'' = ''Ada@x.org''" by code_simp
  have u: "\<not> is_ulid crockford ''Ada@x.org''" "\<not> is_ulid crockford ''user:Ada@x.org''"
    by (simp_all add: is_ulid_def parse_ulid_def)
  have m: "eq_ignore_ascii_case (identity_email sample_user) ''Ada@x.org''" by code_simp
  have "\<exists>w'. resolve_subject ''t'' '' Ada@x.org'' sample_env (sample_world empty_db)
      = (Inr (canonical_subject sample_ulid), w')"
    using t u m
    by (simp add: resolve_subject_def Let_def find_by_email_def eval_nat_numeral bnd_def ask_def
        map_err_def gateway_def ret_def)
  then show ?thesis
    using resolve_subject_sound [of "''t''" "'' Ada@x.org''" sample_env "sample_world empty_db"
        "canonical_subject sample_ulid"] t u m
    by auto
qed

text \<open>Every cached profile is that of an identity of the tenant's directory.\<close>

definition profile_of :: "identity \<Rightarrow> profile" where
  "profile_of i = \<lparr>display_name = identity_display_name i, email = identity_email i\<rparr>"

definition directory_profile :: "env \<Rightarrow> string \<Rightarrow> string \<Rightarrow> profile \<Rightarrow> bool" where
  "directory_profile e t subject p \<longleftrightarrow>
     (\<exists>u i. subject = canonical_subject u \<and> is_ulid (codec e) u \<and> directory e t u = Some i
        \<and> p = profile_of i \<and> (display_name p \<noteq> '''' \<or> email p \<noteq> ''''))"

definition cache_sound :: "env \<Rightarrow> world \<Rightarrow> bool" where
  "cache_sound e w \<longleftrightarrow>
     (\<forall>t s p at. ((t, s), (p, at)) \<in> set (profile_cache w) \<longrightarrow> directory_profile e t s p)"

lemma cache_sound_tick [simp]: "cache_sound e (tick w) = cache_sound e w"
  by (simp add: cache_sound_def)

lemma cache_sound_insert:
  "cache_sound e w \<Longrightarrow> directory_profile e t s p \<Longrightarrow>
   cache_sound e (w'\<lparr>profile_cache := ((t, s), (p, at)) # profile_cache w\<rparr>)"
  by (auto simp: cache_sound_def)

lemma cache_sound_tuples [simp]: "cache_sound e (w\<lparr>tuples := ts\<rparr>) = cache_sound e w"
  by (simp add: cache_sound_def)

lemma directory_profile_intro:
  "is_ulid (codec e) u \<Longrightarrow> directory e t u = Some i \<Longrightarrow>
   identity_display_name i \<noteq> [] \<or> identity_email i \<noteq> [] \<Longrightarrow>
   directory_profile e t (canonical_subject u) \<lparr>display_name = identity_display_name i, email = identity_email i\<rparr>"
  by (auto simp: directory_profile_def profile_of_def)

lemma resolve_profile_sound:
  assumes "cache_sound e w"
  shows "(case resolve_profile t s e w of
      (Inr (Some p), w') \<Rightarrow> directory_profile e t s p \<and> cache_sound e w'
    | (Inr None, w') \<Rightarrow> cache_sound e w' | (Inl _, _) \<Rightarrow> False)"
proof (cases "cache_lookup t s e w")
  case (Some p)
  then obtain at where "map_of (profile_cache w) (t, s) = Some (p, at)"
    by (auto simp: cache_lookup_def split: option.splits if_splits)
  then have "((t, s), (p, at)) \<in> set (profile_cache w)" by (rule map_of_SomeD)
  with assms Some show ?thesis by (auto simp: resolve_profile_def cache_sound_def)
next
  case None
  show ?thesis
  proof (cases "strip_prefix ''user:'' s")
    case u: (Some u)
    then have s: "s = canonical_subject u" by (simp add: canonical_subject_def strip_prefix_Some)
    show ?thesis
      using assms None u unfolding s
      by (auto simp: resolve_profile_def bnd_def attempt_def get_identity_def map_err_def gateway_def
          cache_insert_def ret_def Let_def directory_profile_intro cache_sound_insert split: option.splits)
  qed (use assms None in \<open>simp add: resolve_profile_def\<close>)
qed

text \<open>
  Assignee hydration never fails and never invents a user: from a cache whose entries came from
  the directory, a lookup answers with a profile of this tenant's directory for this very subject,
  or with nothing, whatever the gateway does, and leaves the cache sound again.
\<close>

theorem profile_from_directory:
  assumes "cache_sound e w"
  shows "\<exists>r w'. resolve_profile t s e w = (Inr r, w') \<and> cache_sound e w'
    \<and> set_option r \<subseteq> {p. directory_profile e t s p}"
proof -
  obtain r w' where run: "resolve_profile t s e w = (Inr r, w')"
    using resolve_profile_world(5) [of t s e w] by (metis prod.collapse)
  show ?thesis
    using resolve_profile_sound [OF assms, of t s] unfolding run by (cases r) auto
qed

theorem profile_from_directory_witness:
  "\<exists>r w'. resolve_profile ''t'' (canonical_subject sample_ulid) sample_env (sample_world empty_db) = (Inr r, w')
     \<and> cache_sound sample_env w'"
  using profile_from_directory [of sample_env "sample_world empty_db" "''t''" "canonical_subject sample_ulid"]
  by (auto simp: cache_sound_def)

end
