(* ===== verification/Card_Types.thy ===== *)
theory Card_Types
  imports Event_Log Permission Identity
begin

text \<open>
  \<open>src/services/cards.rs\<close>, lines 43 to 285: the request context the handlers read, the mappings
  between stored text and protobuf enums, and the messages built from rows. The messages are those
  of \<open>proto/sunbeam/kanban/v1/cards.proto\<close>; a \<open>Timestamp\<close> is the pair of its seconds and nanos,
  an optional message an option.
\<close>

section \<open>Request context\<close>

text \<open>The extensions of a request: the auth context of the middleware, and the object id that the
  permission check used.\<close>

record auth_context =
  auth_subject :: "string option"
  auth_tenant_id :: "string option"

record request_context =
  auth_ext :: "auth_context option"
  checked_ext :: "string option"

definition checked_object_id :: "request_context \<Rightarrow> (cerr, string) act" where
  "checked_object_id ctx = ok_or (Internal, ''missing CheckedObjectId extension'') (checked_ext ctx)"

definition subject_from_request :: "request_context \<Rightarrow> (cerr, string) act" where
  "subject_from_request ctx =
     ok_or (Unauthenticated, ''missing auth context'') (Option.bind (auth_ext ctx) auth_subject)"

definition tenant_id_from_request :: "request_context \<Rightarrow> (cerr, string) act" where
  "tenant_id_from_request ctx =
     ok_or (Unauthenticated, ''missing tenant context'') (Option.bind (auth_ext ctx) auth_tenant_id)"

definition tenant_client_for :: "request_context \<Rightarrow> (cerr, string) act" where
  "tenant_client_for ctx =
     bnd (ok_or (Unauthenticated, ''missing tenant context'') (Option.bind (auth_ext ctx) auth_tenant_id)) (\<lambda>tenant.
     internal ''failed to build tenant permission client'' (tenant_client tenant))"

definition resolve_err :: "resolve_error \<Rightarrow> cerr" where
  "resolve_err x = (case x of
       RInvalid msg \<Rightarrow> (InvalidArgument, msg)
     | RNotFound msg \<Rightarrow> (NotFound, msg)
     | RBackend msg \<Rightarrow> (Internal, ''identity backend error''))"

text \<open>\<open>s.parse::<Id>().map_err(|_| ConnectError::invalid_argument(msg))\<close>\<close>

definition parse_id :: "string \<Rightarrow> string \<Rightarrow> (cerr, ident) act" where
  "parse_id msg s =
     bnd (ask codec) (\<lambda>u.
     (case id_from_str u s of Inr i \<Rightarrow> ret i | Inl InvalidId \<Rightarrow> raise (InvalidArgument, msg)))"

text \<open>\<open>if s.is_empty() { None } else { Some(s.parse()?) }\<close>\<close>

definition parse_opt_id :: "string \<Rightarrow> string \<Rightarrow> (cerr, ident option) act" where
  "parse_opt_id msg s = (if s = '''' then ret None else bnd (parse_id msg s) (\<lambda>i. ret (Some i)))"

text \<open>\<open>filter_map(|s| s.parse::<Id>().ok())\<close>\<close>

definition parse_ids :: "ulid_codec \<Rightarrow> string list \<Rightarrow> ident list" where
  "parse_ids u ss = List.map_filter (\<lambda>s. case id_from_str u s of Inr i \<Rightarrow> Some i | Inl _ \<Rightarrow> None) ss"

section \<open>Constants and mappings\<close>

definition DEFAULT_PAGE_LIMIT :: int where
  "DEFAULT_PAGE_LIMIT = 50"

definition MAX_PAGE_LIMIT :: int where
  "MAX_PAGE_LIMIT = 200"

definition PERMISSION_TYPE_CARD :: string where
  "PERMISSION_TYPE_CARD = ''KanbanCard''"

definition PERMISSION_TYPE_BOARD :: string where
  "PERMISSION_TYPE_BOARD = ''KanbanBoard''"

definition page_limit :: "int \<Rightarrow> int" where
  "page_limit request_limit =
     (if request_limit \<le> 0 then DEFAULT_PAGE_LIMIT else min request_limit MAX_PAGE_LIMIT)"

definition priority_to_i32 :: "string \<Rightarrow> int" where
  "priority_to_i32 s = (if s = ''low'' then 1 else if s = ''medium'' then 2
     else if s = ''high'' then 3 else if s = ''urgent'' then 4 else 0)"

definition priority_from_i32 :: "int \<Rightarrow> string" where
  "priority_from_i32 v = (if v = 1 then ''low'' else if v = 2 then ''medium''
     else if v = 3 then ''high'' else if v = 4 then ''urgent'' else ''medium'')"

definition urgency_to_i32 :: "string \<Rightarrow> int" where
  "urgency_to_i32 s = (if s = ''low'' then 1 else if s = ''medium'' then 2
     else if s = ''high'' then 3 else if s = ''critical'' then 4 else 0)"

definition urgency_from_i32 :: "int \<Rightarrow> string" where
  "urgency_from_i32 v = (if v = 1 then ''low'' else if v = 2 then ''medium''
     else if v = 3 then ''high'' else if v = 4 then ''critical'' else ''medium'')"

type_synonym timestamp = "int \<times> int"

definition to_proto_ts :: "datetime \<Rightarrow> timestamp" where
  "to_proto_ts dt = (fst dt, as_i32 (snd dt))"

definition opt_to_proto_ts :: "datetime option \<Rightarrow> timestamp option" where
  "opt_to_proto_ts dt = map_option to_proto_ts dt"

text \<open>\<open>ts.and_then(|ts| DateTime::from_timestamp(ts.seconds, ts.nanos as u32))\<close>\<close>

definition parse_due :: "env \<Rightarrow> timestamp option \<Rightarrow> datetime option" where
  "parse_due e due = Option.bind due (\<lambda>ts. from_timestamp e (fst ts) (as_u32 (snd ts)))"

section \<open>Messages\<close>

record label_msg =
  lm_id :: string
  lm_project_id :: string
  lm_name :: string
  lm_style :: string

record assignee_msg =
  am_subject :: string
  am_display_name :: string
  am_email :: string

record checklist_msg =
  im_id :: string
  im_text :: string
  im_done :: bool
  im_position :: int

record comment_msg =
  tm_id :: string
  tm_card_id :: string
  tm_author_sub :: string
  tm_body :: string
  tm_created_at :: timestamp
  tm_updated_at :: timestamp

record card_aggregates =
  ca_comments_count :: int
  ca_attachments_count :: int
  ca_depends_on_card_ids :: "string list"
  ca_dependent_card_ids :: "string list"

record card_msg =
  cm_id :: string
  cm_project_id :: string
  cm_board_id :: string
  cm_column_id :: string
  cm_ref :: string
  cm_title :: string
  cm_description :: string
  cm_priority :: int
  cm_due :: "timestamp option"
  cm_completed_at :: "timestamp option"
  cm_blocked :: bool
  cm_cover :: string
  cm_milestone_id :: string
  cm_position :: int
  cm_labels :: "label_msg list"
  cm_assignees :: "assignee_msg list"
  cm_checklist :: "checklist_msg list"
  cm_aggregates :: card_aggregates
  cm_revision :: int
  cm_created_at :: timestamp
  cm_updated_at :: timestamp
  cm_urgency :: int

definition opt_id_str :: "ulid_codec \<Rightarrow> ident option \<Rightarrow> string" where
  "opt_id_str u i = (case i of Some x \<Rightarrow> id_str u x | None \<Rightarrow> '''')"

definition opt_text :: "string option \<Rightarrow> string" where
  "opt_text s = (case s of Some x \<Rightarrow> x | None \<Rightarrow> '''')"

definition card_from_row ::
  "ulid_codec \<Rightarrow> card_row \<Rightarrow> label_msg list \<Rightarrow> assignee_msg list \<Rightarrow> checklist_msg list
   \<Rightarrow> card_aggregates \<Rightarrow> card_msg" where
  "card_from_row u row ls as cl aggregates =
     \<lparr>cm_id = id_str u (c_id row),
      cm_project_id = id_str u (c_project row),
      cm_board_id = id_str u (c_board row),
      cm_column_id = id_str u (c_column row),
      cm_ref = c_ref row,
      cm_title = c_title row,
      cm_description = opt_text (c_description row),
      cm_priority = priority_to_i32 (case c_priority row of Some p \<Rightarrow> p | None \<Rightarrow> ''medium''),
      cm_due = opt_to_proto_ts (c_due row),
      cm_completed_at = opt_to_proto_ts (c_completed row),
      cm_blocked = c_blocked row,
      cm_cover = opt_text (c_cover row),
      cm_milestone_id = opt_id_str u (c_milestone row),
      cm_position = c_position row,
      cm_labels = ls,
      cm_assignees = as,
      cm_checklist = cl,
      cm_aggregates = aggregates,
      cm_revision = as_u64 (c_revision row),
      cm_created_at = to_proto_ts (c_created row),
      cm_updated_at = to_proto_ts (c_updated row),
      cm_urgency = urgency_to_i32 (case c_urgency row of Some p \<Rightarrow> p | None \<Rightarrow> ''medium'')\<rparr>"

definition comment_from_row :: "ulid_codec \<Rightarrow> comment_row \<Rightarrow> comment_msg" where
  "comment_from_row u row =
     \<lparr>tm_id = id_str u (t_id row), tm_card_id = id_str u (t_card row), tm_author_sub = t_author row,
      tm_body = t_body row, tm_created_at = to_proto_ts (t_created row),
      tm_updated_at = to_proto_ts (t_updated row)\<rparr>"

definition checklist_item_from_row :: "ulid_codec \<Rightarrow> checklist_row \<Rightarrow> checklist_msg" where
  "checklist_item_from_row u row =
     \<lparr>im_id = id_str u (i_id row), im_text = i_text row, im_done = i_done row,
      im_position = i_position row\<rparr>"

section \<open>Lemmas\<close>

lemma keeps_checked_object_id [keeps_intros]: "keeps I (checked_object_id ctx)"
  unfolding checked_object_id_def by (intro keeps_intros)

lemma keeps_subject_from_request [keeps_intros]: "keeps I (subject_from_request ctx)"
  unfolding subject_from_request_def by (intro keeps_intros)

lemma keeps_tenant_id_from_request [keeps_intros]: "keeps I (tenant_id_from_request ctx)"
  unfolding tenant_id_from_request_def by (intro keeps_intros)

lemma keeps_tenant_client_for [keeps_intros]: "keeps I (tenant_client_for ctx)"
  unfolding tenant_client_for_def by (intro keeps_intros)

lemma keeps_parse_id [keeps_intros]: "keeps I (parse_id msg s)"
  unfolding parse_id_def by (intro keeps_intros) (auto split: sum.split invalid_id.split intro: keeps_intros)

lemma keeps_parse_opt_id [keeps_intros]: "keeps I (parse_opt_id msg s)"
  unfolding parse_opt_id_def by (intro keeps_intros)

text \<open>What success of the request helpers means.\<close>

lemma checked_object_id_ok [ok_iffs]:
  "checked_object_id ctx e w = (Inr s, w') \<longleftrightarrow> checked_ext ctx = Some s \<and> w' = w"
  by (simp add: checked_object_id_def ok_iffs)

lemma subject_from_request_ok [ok_iffs]:
  "subject_from_request ctx e w = (Inr s, w') \<longleftrightarrow> Option.bind (auth_ext ctx) auth_subject = Some s \<and> w' = w"
  by (simp add: subject_from_request_def ok_iffs)

lemma tenant_id_from_request_ok [ok_iffs]:
  "tenant_id_from_request ctx e w = (Inr s, w') \<longleftrightarrow> Option.bind (auth_ext ctx) auth_tenant_id = Some s \<and> w' = w"
  by (simp add: tenant_id_from_request_def ok_iffs)

lemma parse_id_ok [ok_iffs]: "parse_id msg s e w = (Inr i, w') \<longleftrightarrow> id_from_str (codec e) s = Inr i \<and> w' = w"
  by (auto simp: parse_id_def ok_iffs split: sum.splits invalid_id.splits)

lemma parse_opt_id_ok [ok_iffs]:
  "parse_opt_id msg s e w = (Inr r, w') \<longleftrightarrow> w' = w \<and>
     (if s = [] then r = None else (\<exists>i. id_from_str (codec e) s = Inr i \<and> r = Some i))"
  by (auto simp: parse_opt_id_def ok_iffs)

text \<open>
  The enum mappings are inverse on the values the service stores: a priority (urgency) between
  1 and 4 survives the way through its stored text, every other value is stored as medium, and a
  text that no priority (urgency) has reads as unspecified. A page limit is always from 1 to 200,
  and an unset one is 50.
\<close>

theorem card_mappings:
  "(priority_to_i32 (priority_from_i32 v) = (if v \<in> {1..4} then v else 2))
   \<and> (urgency_to_i32 (urgency_from_i32 v) = (if v \<in> {1..4} then v else 2))
   \<and> (priority_to_i32 s = 0 \<or> priority_from_i32 (priority_to_i32 s) = s)
   \<and> (urgency_to_i32 s = 0 \<or> urgency_from_i32 (urgency_to_i32 s) = s)
   \<and> page_limit n \<in> {1..200} \<and> (page_limit n = n \<longleftrightarrow> n \<in> {1..200})
   \<and> (page_limit n = 50 \<longleftrightarrow> n \<le> 0 \<or> n = 50)"
proof -
  have v: "v \<in> {1..4} \<longleftrightarrow> v = 1 \<or> v = 2 \<or> v = 3 \<or> v = 4" by auto
  show ?thesis
    unfolding v
    by (simp add: priority_to_i32_def priority_from_i32_def urgency_to_i32_def urgency_from_i32_def
        page_limit_def DEFAULT_PAGE_LIMIT_def MAX_PAGE_LIMIT_def min_def)
qed

end
