(* ===== verification/Card_Reads.thy ===== *)
theory Card_Reads
  imports Card_Types
begin

text \<open>
  \<open>src/services/cards.rs\<close>, lines 287 to 483 and 594 to 854: hydration of a card from its row and
  the tables around it, and the reading handlers GetCard, BatchGetCards and ListCardsByBoard. A
  hydration query that fails yields its default (\<open>or_default\<close>), as \<open>unwrap_or_default\<close> does.
\<close>

section \<open>Hydration\<close>

definition card_key :: "ident \<Rightarrow> string \<Rightarrow> card_row \<Rightarrow> bool" where
  "card_key cid tenant r \<longleftrightarrow> c_id r = cid \<and> c_tenant r = tenant"

definition find_card :: "ident \<Rightarrow> string \<Rightarrow> db \<Rightarrow> card_row option" where
  "find_card cid tenant d = List.find (card_key cid tenant) (cards d)"

text \<open>The order of TEXT columns, identifiers included, is that of the collation.\<close>

definition id_le :: "env \<Rightarrow> ident \<Rightarrow> ident \<Rightarrow> bool" where
  "id_le e a b \<longleftrightarrow> text_le e (id_str (codec e) a) (id_str (codec e) b)"

definition fetch_labels :: "ident \<Rightarrow> string \<Rightarrow> (cerr, label_msg list) act" where
  "fetch_labels cid tenant =
     bnd (ask (\<lambda>e. (codec e, text_le e))) (\<lambda>(u, le).
     bnd (or_default [] (select (\<lambda>d. sort_rows (\<lambda>a b. le (l_name a) (l_name b))
           (concat (map (\<lambda>cl. filter (\<lambda>l. l_id l = cl_label cl \<and> l_tenant l = tenant) (labels d))
              (filter (\<lambda>cl. cl_card cl = cid) (card_labels d))))))) (\<lambda>rows.
     ret (map (\<lambda>r. \<lparr>lm_id = id_str u (l_id r), lm_project_id = opt_id_str u (l_project r),
                     lm_name = l_name r, lm_style = l_style r\<rparr>) rows)))"

definition fetch_assignees :: "ident \<Rightarrow> string \<Rightarrow> (cerr, assignee_msg list) act" where
  "fetch_assignees cid tenant =
     bnd (or_default [] (select (\<lambda>d. map a_subject (sort_rows (\<lambda>a b. dt_le (a_at a) (a_at b))
           (filter (\<lambda>r. a_card r = cid \<and> a_tenant r = tenant) (card_assignees d)))))) (\<lambda>subjects.
     each (\<lambda>s.
       bnd (resolve_profile tenant s) (\<lambda>p.
       ret \<lparr>am_subject = s,
            am_display_name = (case p of Some x \<Rightarrow> display_name x | None \<Rightarrow> ''''),
            am_email = (case p of Some x \<Rightarrow> email x | None \<Rightarrow> '''')\<rparr>)) subjects)"

definition fetch_checklist :: "ident \<Rightarrow> string \<Rightarrow> (cerr, checklist_msg list) act" where
  "fetch_checklist cid tenant =
     bnd (ask codec) (\<lambda>u.
     bnd (or_default [] (select (\<lambda>d. sort_rows (\<lambda>a b. i_position a \<le> i_position b)
           (filter (\<lambda>r. i_card r = cid \<and> i_tenant r = tenant) (checklist_items d))))) (\<lambda>rows.
     ret (map (checklist_item_from_row u) rows)))"

definition fetch_comments_count :: "ident \<Rightarrow> string \<Rightarrow> (cerr, int) act" where
  "fetch_comments_count cid tenant =
     or_default 0 (select (\<lambda>d.
       as_i32 (int (cnt_rows (\<lambda>r. t_card r = cid \<and> t_tenant r = tenant) (comments d)))))"

definition fetch_attachments_count :: "ident \<Rightarrow> string \<Rightarrow> (cerr, int) act" where
  "fetch_attachments_count cid tenant =
     or_default 0 (select (\<lambda>d.
       as_i32 (int (cnt_rows (\<lambda>r. f_card r = cid \<and> f_tenant r = tenant) (card_attachments d)))))"

definition fetch_dependencies :: "ident \<Rightarrow> string \<Rightarrow> (cerr, string list) act" where
  "fetch_dependencies cid tenant =
     bnd (ask codec) (\<lambda>u.
     bnd (or_default [] (select (\<lambda>d. sort_rows (\<lambda>a b. dt_le (d_created a) (d_created b))
           (filter (\<lambda>r. d_card r = cid \<and> (\<exists>c \<in> set (cards d). card_key (d_card r) tenant c))
              (card_dependencies d))))) (\<lambda>rows.
     ret (map (\<lambda>r. id_str u (d_depends_on r)) rows)))"

definition fetch_dependents :: "ident \<Rightarrow> string \<Rightarrow> (cerr, string list) act" where
  "fetch_dependents cid tenant =
     bnd (ask codec) (\<lambda>u.
     bnd (or_default [] (select (\<lambda>d. sort_rows (\<lambda>a b. dt_le (d_created a) (d_created b))
           (filter (\<lambda>r. d_depends_on r = cid \<and> (\<exists>c \<in> set (cards d). card_key (d_depends_on r) tenant c))
              (card_dependencies d))))) (\<lambda>rows.
     ret (map (\<lambda>r. id_str u (d_card r)) rows)))"

text \<open>The part of \<open>fetch_full_card\<close> after its row, repeated in the list handlers.\<close>

definition hydrate :: "string \<Rightarrow> card_row \<Rightarrow> (cerr, card_msg) act" where
  "hydrate tenant row =
     (let cid = c_id row in
      bnd (ask codec) (\<lambda>u.
      bnd (fetch_labels cid tenant) (\<lambda>ls.
      bnd (fetch_assignees cid tenant) (\<lambda>as.
      bnd (fetch_checklist cid tenant) (\<lambda>cl.
      bnd (fetch_comments_count cid tenant) (\<lambda>nc.
      bnd (fetch_attachments_count cid tenant) (\<lambda>na.
      bnd (fetch_dependencies cid tenant) (\<lambda>deps.
      bnd (fetch_dependents cid tenant) (\<lambda>dnts.
      ret (card_from_row u row ls as cl
        \<lparr>ca_comments_count = nc, ca_attachments_count = na, ca_depends_on_card_ids = deps,
         ca_dependent_card_ids = dnts\<rparr>))))))))))"

definition fetch_full_card :: "ident \<Rightarrow> string \<Rightarrow> (cerr, card_msg) act" where
  "fetch_full_card cid tenant =
     bnd (internal ''failed to fetch card'' (select (find_card cid tenant))) (\<lambda>r.
     bnd (ok_or (NotFound, ''card not found'') r) (\<lambda>row.
     hydrate tenant row))"

section \<open>Handlers\<close>

definition get_card :: "request_context \<Rightarrow> (cerr, card_msg) act" where
  "get_card ctx =
     bnd (checked_object_id ctx) (\<lambda>object_id.
     bnd (parse_id ''invalid card_id'' object_id) (\<lambda>card_id.
     bnd (tenant_id_from_request ctx) (\<lambda>tenant.
     fetch_full_card card_id tenant)))"

text \<open>\<open>ORDER BY column_id, position\<close> and \<open>ORDER BY column_id, position, id\<close>.\<close>

definition row_le :: "env \<Rightarrow> card_row \<Rightarrow> card_row \<Rightarrow> bool" where
  "row_le e a b \<longleftrightarrow>
     (if c_column a \<noteq> c_column b then id_le e (c_column a) (c_column b) else c_position a \<le> c_position b)"

definition keyset_le :: "env \<Rightarrow> card_row \<Rightarrow> card_row \<Rightarrow> bool" where
  "keyset_le e a b \<longleftrightarrow>
     (if c_column a \<noteq> c_column b then id_le e (c_column a) (c_column b)
      else if c_position a \<noteq> c_position b then c_position a < c_position b
      else id_le e (c_id a) (c_id b))"

definition keyset_lt :: "env \<Rightarrow> card_row \<Rightarrow> card_row \<Rightarrow> bool" where
  "keyset_lt e a b \<longleftrightarrow> keyset_le e a b \<and> \<not> keyset_le e b a"

definition batch_get_cards :: "request_context \<Rightarrow> string list \<Rightarrow> (cerr, card_msg list) act" where
  "batch_get_cards ctx card_ids =
     bnd (checked_object_id ctx) (\<lambda>object_id.
     bnd (parse_id ''invalid board_id'' object_id) (\<lambda>board_id.
     bnd (tenant_id_from_request ctx) (\<lambda>tenant.
     if card_ids = [] then ret []
     else
       bnd (ask (\<lambda>e. (parse_ids (codec e) card_ids, row_le e))) (\<lambda>(ids, le).
       bnd (internal ''failed to batch-get cards'' (select (\<lambda>d. sort_rows le
             (filter (\<lambda>r. c_board r = board_id \<and> c_tenant r = tenant \<and> c_id r \<in> set ids) (cards d))))) (\<lambda>rows.
       each (hydrate tenant) rows)))))"

record list_cards_request =
  lc_column_id :: string
  lc_limit :: int
  lc_cursor :: string

text \<open>
  The four SELECTs differ in the two optional filters only. A cursor that names no card of the
  tenant compares with NULL, which is true of no row.
\<close>

definition list_cards_rows ::
  "env \<Rightarrow> ident \<Rightarrow> string \<Rightarrow> ident option \<Rightarrow> ident option \<Rightarrow> nat \<Rightarrow> db \<Rightarrow> card_row list" where
  "list_cards_rows e board_id tenant col_filter cursor_id n d =
     take n (sort_rows (keyset_le e) (filter (\<lambda>r. c_board r = board_id \<and> c_tenant r = tenant
        \<and> (case col_filter of Some col \<Rightarrow> c_column r = col | None \<Rightarrow> True)
        \<and> (case cursor_id of
              Some after \<Rightarrow> (case find_card after tenant d of Some c \<Rightarrow> keyset_lt e c r | None \<Rightarrow> False)
            | None \<Rightarrow> True)) (cards d)))"

definition list_cards_by_board ::
  "request_context \<Rightarrow> list_cards_request \<Rightarrow> (cerr, card_msg list \<times> string) act" where
  "list_cards_by_board ctx req =
     bnd (checked_object_id ctx) (\<lambda>object_id.
     bnd (parse_id ''invalid board_id'' object_id) (\<lambda>board_id.
     bnd (tenant_id_from_request ctx) (\<lambda>tenant.
     let limit = nat (page_limit (lc_limit req)) in
     bnd (parse_opt_id ''invalid column_id'' (lc_column_id req)) (\<lambda>col_filter.
     bnd (parse_opt_id ''invalid cursor'' (lc_cursor req)) (\<lambda>cursor_id.
     bnd (ask (\<lambda>e. e)) (\<lambda>e.
     bnd (internal ''failed to list cards''
           (select (list_cards_rows e board_id tenant col_filter cursor_id (Suc limit)))) (\<lambda>rows.
     let has_more = length rows > limit;
         page = (if has_more then take limit rows else rows);
         next_cursor = (if has_more \<and> page \<noteq> [] then id_str (codec e) (c_id (last page)) else '''') in
     bnd (each (hydrate tenant) page) (\<lambda>msgs. ret (msgs, next_cursor)))))))))"

section \<open>Reading changes nothing\<close>

lemma keeps_fetch_labels [keeps_intros]: "keeps I (fetch_labels cid t)"
  unfolding fetch_labels_def by (intro keeps_intros)

lemma keeps_fetch_assignees [keeps_intros]: "keeps I (fetch_assignees cid t)"
  unfolding fetch_assignees_def by (intro keeps_intros)

lemma keeps_fetch_checklist [keeps_intros]: "keeps I (fetch_checklist cid t)"
  unfolding fetch_checklist_def by (intro keeps_intros)

lemma keeps_fetch_counts [keeps_intros]:
  "keeps I (fetch_comments_count cid t)" "keeps I (fetch_attachments_count cid t)"
  unfolding fetch_comments_count_def fetch_attachments_count_def by (intro keeps_intros)+

lemma keeps_fetch_dependencies [keeps_intros]:
  "keeps I (fetch_dependencies cid t)" "keeps I (fetch_dependents cid t)"
  unfolding fetch_dependencies_def fetch_dependents_def by (intro keeps_intros)+

lemma keeps_hydrate [keeps_intros]: "keeps I (hydrate t row)"
  unfolding hydrate_def by (intro keeps_intros)

lemma keeps_fetch_full_card [keeps_intros]: "keeps I (fetch_full_card cid t)"
  unfolding fetch_full_card_def by (intro keeps_intros)

lemma keeps_get_card [keeps_intros]: "keeps I (get_card ctx)"
  unfolding get_card_def by (intro keeps_intros)

lemma keeps_batch_get_cards [keeps_intros]: "keeps I (batch_get_cards ctx ids)"
  unfolding batch_get_cards_def by (intro keeps_intros)

lemma keeps_list_cards_by_board [keeps_intros]: "keeps I (list_cards_by_board ctx req)"
  unfolding list_cards_by_board_def by (intro keeps_intros)

end
