(* ===== verification/Triples.thy ===== *)
theory Triples
  imports Effects
begin

text \<open>
  A small Hoare logic for actions. \<open>triple P m Q I\<close>: started where \<open>P\<close> holds of the database, a
  successful run of \<open>m\<close> ends in \<open>Q\<close> (which sees the result), a failed one in \<open>I\<close>. Inside a
  transaction only success matters (\<open>ensures\<close>), since a failure is rolled back; there the rules
  give strongest postconditions, so that the assertion at the end of a transaction body is the
  composition of the effects of its statements.
\<close>

definition triple :: "(db \<Rightarrow> bool) \<Rightarrow> ('e, 'a) act \<Rightarrow> ('a \<Rightarrow> db \<Rightarrow> bool) \<Rightarrow> (db \<Rightarrow> bool) \<Rightarrow> bool" where
  "triple P m Q I \<longleftrightarrow> (\<forall>e w. P (db w) \<longrightarrow>
     (\<forall>a w'. m e w = (Inr a, w') \<longrightarrow> Q a (db w')) \<and> (\<forall>x w'. m e w = (Inl x, w') \<longrightarrow> I (db w')))"

lemma keeps_iff: "keeps I m \<longleftrightarrow> (\<forall>e w r w'. I (db w) \<longrightarrow> m e w = (r, w') \<longrightarrow> I (db w'))"
  unfolding keeps_def by (metis prod.collapse snd_conv)

lemma triple_keeps: "triple I m (\<lambda>_. I) I \<longleftrightarrow> keeps I m"
  unfolding triple_def keeps_iff by (metis sum.exhaust)

lemma triple_bnd:
  "triple P m R I \<Longrightarrow> (\<And>a. triple (R a) (f a) Q I) \<Longrightarrow> triple P (bnd m f) Q I"
  unfolding triple_def bnd_def by (fastforce split: prod.splits sum.splits)

lemma triple_weaken:
  "triple P m Q I \<Longrightarrow> (\<And>d. P' d \<Longrightarrow> P d) \<Longrightarrow> (\<And>a d. Q a d \<Longrightarrow> Q' a d) \<Longrightarrow> triple P' m Q' I"
  unfolding triple_def by blast

lemma triple_frame: "keeps P m \<Longrightarrow> (\<And>d. P d \<Longrightarrow> I d) \<Longrightarrow> triple P m (\<lambda>_. P) I"
  unfolding triple_def keeps_iff by blast

lemma triple_close: "keeps I m \<Longrightarrow> (\<And>d. P d \<Longrightarrow> I d) \<Longrightarrow> triple P m (\<lambda>_. I) I"
  unfolding triple_def keeps_iff by blast

lemma triple_ret: "triple P (ret a) (\<lambda>b d. P d \<and> b = a) I"
  by (simp add: triple_def ret_def)

lemma triple_raise: "(\<And>d. P d \<Longrightarrow> I d) \<Longrightarrow> triple P (raise x) Q I"
  by (simp add: triple_def raise_def)

lemma triple_ok_or: "(\<And>d. P d \<Longrightarrow> I d) \<Longrightarrow> triple P (ok_or x r) (\<lambda>a d. P d \<and> r = Some a) I"
  by (cases r) (simp_all add: triple_def ok_or_def ret_def raise_def)

lemma triple_require: "(\<And>d. P d \<Longrightarrow> I d) \<Longrightarrow> triple P (require b x) (\<lambda>_ d. P d \<and> b) I"
  by (simp add: triple_def require_def ret_def raise_def)

lemma triple_select:
  "(\<And>d. P d \<Longrightarrow> I d) \<Longrightarrow> triple P (internal msg (select f)) (\<lambda>a d. P d \<and> a = f d) I"
  by (simp add: triple_def internal_def map_err_def select_def stmt_def)

lemma triple_if:
  "(b \<Longrightarrow> triple P m Q I) \<Longrightarrow> (\<not> b \<Longrightarrow> triple P n Q I) \<Longrightarrow> triple P (if b then m else n) Q I"
  by simp

section \<open>Transaction bodies\<close>

text \<open>A body whose last statement succeeded has not been aborted: its transaction commits.\<close>

definition settles :: "('e, 'a) act \<Rightarrow> bool" where
  "settles m \<longleftrightarrow> (\<forall>e w a w'. m e w = (Inr a, w') \<longrightarrow> \<not> aborted w')"

lemma settles_bnd: "(\<And>a. settles (f a)) \<Longrightarrow> settles (bnd m f)"
  unfolding settles_def by (auto simp: bnd_ok)

lemma settles_ret: "settles m \<Longrightarrow> settles (bnd m (\<lambda>a. ret (f a)))"
  unfolding settles_def by (auto simp: bnd_ok ret_ok)

lemma settles_map_err: "settles m \<Longrightarrow> settles (map_err g m)"
  unfolding settles_def by (auto simp: map_err_ok)

lemma settles_internal: "settles m \<Longrightarrow> settles (internal msg m)"
  unfolding internal_def by (rule settles_map_err)

lemma settles_stmt: "settles (stmt f)"
  unfolding settles_def by (auto simp: stmt_ok)

lemma settles_exec: "settles (exec f)"
  unfolding exec_def by (rule settles_stmt)

lemma settles_if: "settles m \<Longrightarrow> settles n \<Longrightarrow> settles (if b then m else n)"
  by simp

lemma triple_in_tx:
  assumes "ensures P body Q" and "settles body" and "\<And>d. P d \<Longrightarrow> I d"
  shows "triple P (in_tx body) Q I"
  unfolding triple_def
proof (intro allI impI)
  fix e :: env and w :: world
  assume P: "P (db w)"
  let ?w = "(tick w)\<lparr>tx_now := Some (now_at e (step w)), aborted := False\<rparr>"
  obtain r w1 where run: "body e ?w = (r, w1)" by fastforce
  have "Q a (db w1) \<and> \<not> aborted w1" if "r = Inr a" for a
  proof -
    have "P (db ?w)" "tx_now ?w \<noteq> None" using P by simp_all
    then show ?thesis using assms(1,2) run that unfolding ensures_def settles_def by blast
  qed
  then show "(\<forall>a w'. in_tx body e w = (Inr a, w') \<longrightarrow> Q a (db w'))
      \<and> (\<forall>x w'. in_tx body e w = (Inl x, w') \<longrightarrow> I (db w'))"
    using P assms(3) run by (auto simp: in_tx_def split: sum.splits)
qed

lemma ensures_ret: "ensures P (ret a) (\<lambda>b d. P d \<and> b = a)"
  by (auto simp: ensures_def ret_def)

lemma ensures_raise: "ensures P (raise x) Q"
  by (simp add: ensures_def raise_def)

lemma ensures_ask: "ensures P (ask f) (\<lambda>_. P)"
  by (simp add: ensures_def ask_def)

lemma ensures_new_id: "ensures P new_id (\<lambda>_. P)"
  by (simp add: ensures_def new_id_def)

lemma ensures_internal: "ensures P m Q \<Longrightarrow> ensures P (internal msg m) Q"
  by (simp add: ensures_def internal_ok)

lemma ensures_stmt: "ensures P (stmt f) (\<lambda>a d'. \<exists>t d. P d \<and> f t d = Some (a, d'))"
  by (clarsimp simp: ensures_def stmt_ok simp del: split_paired_Ex) blast

lemma ensures_exec: "ensures P (exec f) (\<lambda>_ d'. \<exists>t d. P d \<and> f t d = Some d')"
  by (clarsimp simp: ensures_def exec_ok simp del: split_paired_Ex) blast

lemma ensures_fetch_one: "ensures P (fetch_one f) (\<lambda>a d'. \<exists>t d. P d \<and> f t d = Some (Some a, d'))"
  by (clarsimp simp: ensures_def fetch_one_ok simp del: split_paired_Ex) blast

lemma ensures_select: "ensures P (select f) (\<lambda>a d. P d \<and> a = f d)"
  by (auto simp: ensures_def select_ok)

lemma ensures_require: "ensures P (require b x) (\<lambda>_ d. P d \<and> b)"
  by (simp add: ensures_def require_ok)

lemma ensures_ok_or: "ensures P (ok_or x r) (\<lambda>a d. P d \<and> r = Some a)"
  by (simp add: ensures_def ok_or_ok)

lemma ensures_if:
  "(b \<Longrightarrow> ensures P m Q) \<Longrightarrow> (\<not> b \<Longrightarrow> ensures P n Q) \<Longrightarrow> ensures P (if b then m else n) Q"
  by simp

text \<open>Actions that neither write nor leave the transaction.\<close>

definition inner :: "('e, 'a) act \<Rightarrow> bool" where
  "inner m \<longleftrightarrow> (\<forall>e w. db (snd (m e w)) = db w \<and> tx_now (snd (m e w)) = tx_now w)"

lemma ensures_inner: "inner m \<Longrightarrow> ensures P m (\<lambda>_. P)"
  unfolding inner_def ensures_def by (metis snd_conv)


section \<open>Bodies that uphold a property\<close>

named_theorems upholds_intros \<open>rules for properties that every step of a transaction body keeps\<close>

definition upholds :: "(db \<Rightarrow> bool) \<Rightarrow> ('e, 'a) act \<Rightarrow> bool" where
  "upholds I m \<longleftrightarrow> ensures I m (\<lambda>_. I)"

lemma keeps_in_tx_upholds [keeps_intros]: "upholds I body \<Longrightarrow> keeps I (in_tx body)"
  unfolding upholds_def by (rule keeps_in_tx)

lemma upholds_bnd [upholds_intros]: "upholds I m \<Longrightarrow> (\<And>a. upholds I (f a)) \<Longrightarrow> upholds I (bnd m f)"
  unfolding upholds_def by (rule ensures_bnd)

lemma upholds_ret [upholds_intros]: "upholds I (ret a)"
  by (simp add: upholds_def ensures_def ret_def)

lemma upholds_raise [upholds_intros]: "upholds I (raise x)"
  by (simp add: upholds_def ensures_raise)

lemma upholds_ask [upholds_intros]: "upholds I (ask f)"
  by (simp add: upholds_def ensures_ask)

lemma upholds_new_id [upholds_intros]: "upholds I new_id"
  by (simp add: upholds_def ensures_new_id)

lemma upholds_map_err [upholds_intros]: "upholds I m \<Longrightarrow> upholds I (map_err g m)"
  unfolding upholds_def ensures_def map_err_ok .

lemma upholds_internal [upholds_intros]: "upholds I m \<Longrightarrow> upholds I (internal msg m)"
  by (simp add: upholds_def ensures_internal)

lemma upholds_select [upholds_intros]: "upholds I (select f)"
  unfolding upholds_def ensures_def select_ok by simp

lemma upholds_require [upholds_intros]: "upholds I (require b x)"
  by (simp add: upholds_def ensures_def require_ok)

lemma upholds_ok_or [upholds_intros]: "upholds I (ok_or x r)"
  by (simp add: upholds_def ensures_def ok_or_ok)

lemma upholds_if [upholds_intros]:
  "(b \<Longrightarrow> upholds I m) \<Longrightarrow> (\<not> b \<Longrightarrow> upholds I n) \<Longrightarrow> upholds I (if b then m else n)"
  by simp

lemma upholds_option [upholds_intros]:
  "upholds I m \<Longrightarrow> (\<And>a. upholds I (f a)) \<Longrightarrow> upholds I (case r of None \<Rightarrow> m | Some a \<Rightarrow> f a)"
  by (cases r) simp_all

lemma upholds_sum [upholds_intros]:
  "(\<And>x. upholds I (f x)) \<Longrightarrow> (\<And>a. upholds I (g a)) \<Longrightarrow> upholds I (case r of Inl x \<Rightarrow> f x | Inr a \<Rightarrow> g a)"
  by (cases r) simp_all

lemma upholds_prod [upholds_intros]:
  "(\<And>a b. upholds I (f a b)) \<Longrightarrow> upholds I (case p of (a, b) \<Rightarrow> f a b)"
  by (cases p) simp

lemma upholds_Let [upholds_intros]: "(\<And>a. upholds I (f a)) \<Longrightarrow> upholds I (Let x f)"
  by (simp add: Let_def)

lemma upholds_each [upholds_intros]: "(\<And>x. upholds I (f x)) \<Longrightarrow> upholds I (each f xs)"
  by (induction xs) (auto intro!: upholds_intros)

lemma upholds_stmt:
  assumes "\<And>t d a d'. I d \<Longrightarrow> f t d = Some (a, d') \<Longrightarrow> I d'"
  shows "upholds I (stmt f)"
  unfolding upholds_def ensures_def stmt_ok
proof (intro allI impI)
  fix e w a w'
  assume "I (db w)" and tx: "tx_now w \<noteq> None" and "\<not> aborted w \<and> \<not> db_fault e (step w) \<and>
    (\<exists>d. f (sql_now e w) (db w) = Some (a, d) \<and> w' = (tick w)\<lparr>db := d\<rparr>)"
  then obtain d where "f (sql_now e w) (db w) = Some (a, d)" "w' = (tick w)\<lparr>db := d\<rparr>" by blast
  then show "I (db w') \<and> tx_now w' \<noteq> None" using assms [OF \<open>I (db w)\<close>] tx by simp
qed

lemma upholds_exec:
  assumes "\<And>t d d'. I d \<Longrightarrow> f t d = Some d' \<Longrightarrow> I d'"
  shows "upholds I (exec f)"
  unfolding exec_def
proof (rule upholds_stmt)
  fix t d a d'
  assume "I d" and "map_option (Pair ()) (f t d) = Some (a, d')"
  then show "I d'" using assms by (cases "f t d") auto
qed

lemma upholds_fetch_one:
  assumes "\<And>t d a d'. I d \<Longrightarrow> f t d = Some (a, d') \<Longrightarrow> I d'"
  shows "upholds I (fetch_one f)"
  unfolding fetch_one_def by (intro upholds_bnd upholds_stmt upholds_ok_or) (rule assms)

section \<open>The guards of a handler\<close>

lemma triple_lookup:
  assumes "\<And>d. P d \<Longrightarrow> I d" and "\<And>a. triple (\<lambda>d. P d \<and> f d = Some a) (g a) Q I"
  shows "triple P (bnd (internal msg (select f)) (\<lambda>r. bnd (ok_or x r) g)) Q I"
proof (rule triple_bnd [OF triple_select], fact)
  fix r
  show "triple (\<lambda>d. P d \<and> r = f d) (bnd (ok_or x r) g) Q I"
    by (rule triple_bnd [OF triple_ok_or]) (use assms in \<open>auto intro: triple_weaken\<close>)
qed

lemma triple_check:
  assumes "\<And>d. P d \<Longrightarrow> I d" and "b \<Longrightarrow> triple P (g ()) Q I"
  shows "triple P (bnd (require b x) g) Q I"
proof (rule triple_bnd [OF triple_require], fact)
  fix a
  show "triple (\<lambda>d. P d \<and> b) (g a) Q I"
    using assms(2) by (cases b) (auto simp: triple_def)
qed

lemma triple_skip:
  "keeps P m \<Longrightarrow> (\<And>d. P d \<Longrightarrow> I d) \<Longrightarrow> (\<And>a. triple P (g a) Q I) \<Longrightarrow> triple P (bnd m g) Q I"
  by (rule triple_bnd [OF triple_frame])

text \<open>The transaction of a handler, and the steps after it, which only need the invariant.\<close>

lemma triple_commit:
  assumes "\<And>d. P d \<Longrightarrow> I d" and "settles body" and "ensures R body (\<lambda>_. I)" and "\<And>d. P d \<Longrightarrow> R d"
    and "\<And>a. keeps I (g a)"
  shows "triple P (bnd (in_tx body) g) (\<lambda>_. I) I"
proof (rule triple_bnd)
  have "ensures P body (\<lambda>_. I)" by (rule ensures_weaken [OF assms(3)]) (simp_all add: assms(4))
  then show "triple P (in_tx body) (\<lambda>_. I) I" by (rule triple_in_tx) (simp_all add: assms(1,2))
  show "triple I (g a) (\<lambda>_. I) I" for a by (simp add: triple_keeps assms(5))
qed

section \<open>Actions outside a transaction\<close>

text \<open>\<open>idle\<close>: no transaction is open; an action that opens none stays idle, however it ends.\<close>

definition idle :: "world \<Rightarrow> bool" where
  "idle w \<longleftrightarrow> tx_now w = None \<and> \<not> aborted w"

definition stays_idle :: "('e, 'a) act \<Rightarrow> bool" where
  "stays_idle m \<longleftrightarrow> (\<forall>e w. idle w \<longrightarrow> idle (snd (m e w)))"

named_theorems idle_intros \<open>actions that open no transaction\<close>

lemma idle_tick [simp]: "idle (tick w) = idle w"
  by (simp add: idle_def)

lemma idleD: "stays_idle m \<Longrightarrow> idle w \<Longrightarrow> m e w = (r, w') \<Longrightarrow> idle w'"
  unfolding stays_idle_def by (metis snd_conv)

lemma idleI: "stays_idle m \<Longrightarrow> idle w \<Longrightarrow> idle (snd (m e w))"
  by (simp add: stays_idle_def)

lemma stays_idle_basic [idle_intros]: "stays_idle (ret a)" "stays_idle (raise x)" "stays_idle (ask f)" "stays_idle new_id"
  "stays_idle (ok_or x r)" "stays_idle (require b x)"
  by (auto simp: stays_idle_def ret_def raise_def ask_def new_id_def ok_or_def require_def split: option.splits)

lemma stays_idle_bnd [idle_intros]: "stays_idle m \<Longrightarrow> (\<And>a. stays_idle (f a)) \<Longrightarrow> stays_idle (bnd m f)"
  unfolding stays_idle_def bnd_def by (auto split: prod.split sum.split) (metis snd_conv)+

lemma stays_idle_map_err [idle_intros]: "stays_idle m \<Longrightarrow> stays_idle (map_err g m)"
  unfolding stays_idle_def map_err_def by (auto split: prod.split sum.split) (metis snd_conv)+

lemma stays_idle_internal [idle_intros]: "stays_idle m \<Longrightarrow> stays_idle (internal msg m)"
  unfolding internal_def by (rule stays_idle_map_err)

lemma stays_idle_attempt [idle_intros]: "stays_idle m \<Longrightarrow> stays_idle (attempt m)"
  unfolding stays_idle_def attempt_def by (auto split: prod.split) (metis snd_conv)+

lemma stays_idle_or_default [idle_intros]: "stays_idle m \<Longrightarrow> stays_idle (or_default d m)"
  unfolding or_default_def by (intro stays_idle_bnd stays_idle_attempt stays_idle_basic)

lemma stays_idle_stmt [idle_intros]: "stays_idle (stmt f)" "stays_idle (select g)" "stays_idle (exec h)"
  by (auto simp: stays_idle_def idle_def stmt_def select_def exec_def mark_failed_def split: option.split prod.split)

lemma stays_idle_fetch_one [idle_intros]: "stays_idle (fetch_one f)"
  unfolding fetch_one_def by (intro idle_intros)

lemma stays_idle_gateway [idle_intros]: "stays_idle (gateway f)"
  by (auto simp: stays_idle_def idle_def gateway_def split: option.split prod.split)

lemma stays_idle_each [idle_intros]: "(\<And>x. stays_idle (f x)) \<Longrightarrow> stays_idle (each f xs)"
  by (induction xs) (auto intro!: idle_intros)

lemma stays_idle_cases [idle_intros]:
  "stays_idle m \<Longrightarrow> stays_idle n \<Longrightarrow> stays_idle (if b then m else n)"
  "stays_idle m \<Longrightarrow> (\<And>a. stays_idle (f a)) \<Longrightarrow> stays_idle (case r of None \<Rightarrow> m | Some a \<Rightarrow> f a)"
  "(\<And>a. stays_idle (g a)) \<Longrightarrow> (\<And>a. stays_idle (h a)) \<Longrightarrow> stays_idle (case s of Inl a \<Rightarrow> g a | Inr a \<Rightarrow> h a)"
  "(\<And>a b. stays_idle (k a b)) \<Longrightarrow> stays_idle (case p of (a, b) \<Rightarrow> k a b)"
  by (simp_all split: option.split sum.split prod.split)

end
