(* ===== verification/Card_Sql.thy ===== *)
theory Card_Sql
  imports Card_Reads Triples
begin

text \<open>
  The SQL statements of \<open>src/services/cards.rs\<close> that write, each as a function of the time and the
  database: \<open>None\<close> is a rejected statement. Constraints are those of the migrations: primary keys,
  \<open>UNIQUE (tenant_id, project_id, ref)\<close>, foreign keys with their ON DELETE actions, and the ranges
  of INT and BIGINT.
\<close>

section \<open>Cards\<close>

text \<open>\<open>SELECT pg_advisory_xact_lock(\<dots>)\<close>: no effect on the data.\<close>

definition advisory_lock :: "datetime \<Rightarrow> db \<Rightarrow> db option" where
  "advisory_lock now d = Some d"

definition allocate_ref_sql ::
  "ident \<Rightarrow> string \<Rightarrow> datetime \<Rightarrow> db \<Rightarrow> ((string \<times> int) option \<times> db) option" where
  "allocate_ref_sql project tenant now d =
     (case List.find (\<lambda>p. p_id p = project \<and> p_tenant p = tenant) (projects d) of
        None \<Rightarrow> Some (None, d)
      | Some p \<Rightarrow>
          (case List.find (\<lambda>r. n_project r = project) (project_ref_counter d) of
             None \<Rightarrow> Some (Some (p_prefix p, 2 - 1), d\<lparr>project_ref_counter := project_ref_counter d @
                 [\<lparr>n_project = project, n_tenant = tenant, n_prefix = p_prefix p, n_next = 2\<rparr>]\<rparr>)
           | Some r \<Rightarrow>
               if i32_ok (n_next r + 1)
               then Some (Some (p_prefix p, n_next r + 1 - 1), d\<lparr>project_ref_counter :=
                   upd_rows (\<lambda>r. n_project r = project)
                     (\<lambda>r. r\<lparr>n_next := n_next r + 1, n_prefix := p_prefix p\<rparr>) (project_ref_counter d)\<rparr>)
               else None))"

definition in_column :: "ident \<Rightarrow> string \<Rightarrow> card_row \<Rightarrow> bool" where
  "in_column col tenant r \<longleftrightarrow> c_column r = col \<and> c_tenant r = tenant"

text \<open>\<open>SELECT COALESCE(MAX(position), -1) + 1\<close>\<close>

definition next_position :: "int list \<Rightarrow> int" where
  "next_position ps = (if ps = [] then -1 else Max (set ps)) + 1"

definition next_position_sql :: "ident \<Rightarrow> string \<Rightarrow> datetime \<Rightarrow> db \<Rightarrow> (int \<times> db) option" where
  "next_position_sql col tenant now d =
     (let p = next_position (map c_position (filter (in_column col tenant) (cards d))) in
      if i32_ok p then Some (p, d) else None)"

text \<open>\<open>UPDATE cards SET position = position + k, updated_at = now() WHERE P\<close>\<close>

definition shift_sql :: "(card_row \<Rightarrow> bool) \<Rightarrow> int \<Rightarrow> datetime \<Rightarrow> db \<Rightarrow> db option" where
  "shift_sql P k now d =
     (if list_all (\<lambda>c. P c \<longrightarrow> i32_ok (c_position c + k)) (cards d)
      then Some (d\<lparr>cards := upd_rows P (\<lambda>c. c\<lparr>c_position := c_position c + k, c_updated := now\<rparr>) (cards d)\<rparr>)
      else None)"

definition ref_key :: "card_row \<Rightarrow> string \<times> ident \<times> string" where
  "ref_key c = (c_tenant c, c_project c, c_ref c)"

definition fk_ok :: "db \<Rightarrow> card_row \<Rightarrow> bool" where
  "fk_ok d c \<longleftrightarrow> c_project c \<in> p_id ` set (projects d) \<and> c_column c \<in> k_id ` set (columns d)
     \<and> c_board c \<in> b_id ` set (boards d)"

definition insert_card_sql :: "(datetime \<Rightarrow> card_row) \<Rightarrow> datetime \<Rightarrow> db \<Rightarrow> db option" where
  "insert_card_sql row now d =
     (let c = row now in
      if c_id c \<in> c_id ` set (cards d) \<or> ref_key c \<in> ref_key ` set (cards d) \<or> \<not> fk_ok d c
         \<or> \<not> i32_ok (c_position c)
      then None else Some (d\<lparr>cards := cards d @ [c]\<rparr>))"

text \<open>
  \<open>UPDATE cards SET \<dots> WHERE id = $1 AND tenant_id = $2 RETURNING revision\<close>: \<open>f now\<close> is the new
  row, \<open>chk\<close> the constraints on the changed columns.
\<close>

definition update_card_sql ::
  "ident \<Rightarrow> string \<Rightarrow> (db \<Rightarrow> card_row \<Rightarrow> bool) \<Rightarrow> (datetime \<Rightarrow> card_row \<Rightarrow> card_row)
   \<Rightarrow> datetime \<Rightarrow> db \<Rightarrow> (int option \<times> db) option" where
  "update_card_sql cid tenant chk f now d =
     (case find_card cid tenant d of
        None \<Rightarrow> Some (None, d)
      | Some c \<Rightarrow>
          if chk d (f now c) \<and> i64_ok (c_revision (f now c))
          then Some (Some (c_revision (f now c)), d\<lparr>cards := upd_rows (card_key cid tenant) (f now) (cards d)\<rparr>)
          else None)"

text \<open>\<open>SET revision = revision + 1, updated_at = now()\<close>\<close>

definition touch :: "datetime \<Rightarrow> card_row \<Rightarrow> card_row" where
  "touch now c = c\<lparr>c_revision := c_revision c + 1, c_updated := now\<rparr>"

definition bump_card_sql :: "ident \<Rightarrow> string \<Rightarrow> datetime \<Rightarrow> db \<Rightarrow> (int option \<times> db) option" where
  "bump_card_sql cid tenant = update_card_sql cid tenant (\<lambda>_ _. True) touch"

text \<open>
  \<open>DELETE FROM cards\<close>: the rows that refer to the card go with it (ON DELETE CASCADE), but a
  GitHub link forbids the deletion (no ON DELETE action). The result is the number of cards.
\<close>

definition delete_card_sql :: "ident \<Rightarrow> string \<Rightarrow> datetime \<Rightarrow> db \<Rightarrow> (nat \<times> db) option" where
  "delete_card_sql cid tenant now d =
     (let n = cnt_rows (card_key cid tenant) (cards d) in
      if n = 0 then Some (0, d)
      else if cid \<in> g_card ` set (github_links d) then None
      else Some (n, d\<lparr>cards := del_rows (card_key cid tenant) (cards d),
          card_labels := del_rows (\<lambda>r. cl_card r = cid) (card_labels d),
          card_assignees := del_rows (\<lambda>r. a_card r = cid) (card_assignees d),
          comments := del_rows (\<lambda>r. t_card r = cid) (comments d),
          checklist_items := del_rows (\<lambda>r. i_card r = cid) (checklist_items d),
          card_attachments := del_rows (\<lambda>r. f_card r = cid) (card_attachments d),
          card_dependencies := del_rows (\<lambda>r. d_card r = cid \<or> d_depends_on r = cid) (card_dependencies d)\<rparr>))"

section \<open>Tables around a card\<close>

definition card_exists :: "ident \<Rightarrow> db \<Rightarrow> bool" where
  "card_exists cid d \<longleftrightarrow> cid \<in> c_id ` set (cards d)"

definition insert_dependency_sql :: "ident \<Rightarrow> ident \<Rightarrow> datetime \<Rightarrow> db \<Rightarrow> db option" where
  "insert_dependency_sql cid dep now d =
     (if (cid, dep) \<in> (\<lambda>r. (d_card r, d_depends_on r)) ` set (card_dependencies d) then Some d
      else if cid = dep \<or> \<not> card_exists cid d \<or> \<not> card_exists dep d then None
      else Some (d\<lparr>card_dependencies := card_dependencies d @
             [\<lparr>d_card = cid, d_depends_on = dep, d_created = now\<rparr>]\<rparr>))"

definition delete_dependency_sql :: "ident \<Rightarrow> ident \<Rightarrow> datetime \<Rightarrow> db \<Rightarrow> (nat \<times> db) option" where
  "delete_dependency_sql cid dep now d =
     (let P = (\<lambda>r. d_card r = cid \<and> d_depends_on r = dep) in
      Some (cnt_rows P (card_dependencies d), d\<lparr>card_dependencies := del_rows P (card_dependencies d)\<rparr>))"

definition clear_labels_sql :: "ident \<Rightarrow> datetime \<Rightarrow> db \<Rightarrow> db option" where
  "clear_labels_sql cid now d = Some (d\<lparr>card_labels := del_rows (\<lambda>r. cl_card r = cid) (card_labels d)\<rparr>)"

definition insert_label_sql :: "ident \<Rightarrow> ident \<Rightarrow> datetime \<Rightarrow> db \<Rightarrow> db option" where
  "insert_label_sql cid lid now d =
     (if \<lparr>cl_card = cid, cl_label = lid\<rparr> \<in> set (card_labels d) then Some d
      else if \<not> card_exists cid d \<or> lid \<notin> l_id ` set (labels d) then None
      else Some (d\<lparr>card_labels := card_labels d @ [\<lparr>cl_card = cid, cl_label = lid\<rparr>]\<rparr>))"

definition scrub_labels_sql :: "ident \<Rightarrow> ident \<Rightarrow> datetime \<Rightarrow> db \<Rightarrow> db option" where
  "scrub_labels_sql cid project now d =
     Some (d\<lparr>card_labels := del_rows (\<lambda>r. cl_card r = cid \<and>
        cl_label r \<in> l_id ` {l \<in> set (labels d). l_project l \<noteq> None \<and> l_project l \<noteq> Some project})
        (card_labels d)\<rparr>)"

definition insert_assignee_sql :: "string \<Rightarrow> ident \<Rightarrow> string \<Rightarrow> datetime \<Rightarrow> db \<Rightarrow> db option" where
  "insert_assignee_sql tenant cid sub now d =
     (if (cid, sub) \<in> (\<lambda>r. (a_card r, a_subject r)) ` set (card_assignees d) then Some d
      else if \<not> card_exists cid d then None
      else Some (d\<lparr>card_assignees := card_assignees d @
             [\<lparr>a_tenant = tenant, a_card = cid, a_subject = sub, a_at = now\<rparr>]\<rparr>))"

definition delete_assignee_sql :: "string \<Rightarrow> ident \<Rightarrow> string \<Rightarrow> datetime \<Rightarrow> db \<Rightarrow> db option" where
  "delete_assignee_sql tenant cid sub now d =
     Some (d\<lparr>card_assignees :=
        del_rows (\<lambda>r. a_card r = cid \<and> a_subject r = sub \<and> a_tenant r = tenant) (card_assignees d)\<rparr>)"

definition item_key :: "ident \<Rightarrow> string \<Rightarrow> checklist_row \<Rightarrow> bool" where
  "item_key cid tenant r \<longleftrightarrow> i_card r = cid \<and> i_tenant r = tenant"

definition insert_item_sql ::
  "ident \<Rightarrow> string \<Rightarrow> ident \<Rightarrow> string \<Rightarrow> int \<Rightarrow> datetime \<Rightarrow> db \<Rightarrow> db option" where
  "insert_item_sql iid tenant cid txt pos now d =
     (if iid \<in> i_id ` set (checklist_items d) \<or> \<not> card_exists cid d \<or> \<not> i32_ok pos then None
      else Some (d\<lparr>checklist_items := checklist_items d @
             [\<lparr>i_id = iid, i_tenant = tenant, i_card = cid, i_text = txt, i_done = False, i_position = pos\<rparr>]\<rparr>))"

text \<open>\<open>INSERT \<dots> SELECT \<dots>, COALESCE(MAX(position), -1) + 1 FROM checklist_items\<close>\<close>

definition append_item_sql :: "ident \<Rightarrow> string \<Rightarrow> ident \<Rightarrow> string \<Rightarrow> datetime \<Rightarrow> db \<Rightarrow> db option" where
  "append_item_sql iid tenant cid txt now d =
     insert_item_sql iid tenant cid txt
       (next_position (map i_position (filter (item_key cid tenant) (checklist_items d)))) now d"

definition shift_items_sql :: "ident \<Rightarrow> string \<Rightarrow> int \<Rightarrow> datetime \<Rightarrow> db \<Rightarrow> db option" where
  "shift_items_sql cid tenant pos now d =
     (let P = (\<lambda>r. item_key cid tenant r \<and> pos \<le> i_position r) in
      if list_all (\<lambda>r. P r \<longrightarrow> i32_ok (i_position r + 1)) (checklist_items d)
      then Some (d\<lparr>checklist_items := upd_rows P (\<lambda>r. r\<lparr>i_position := i_position r + 1\<rparr>) (checklist_items d)\<rparr>)
      else None)"

definition update_item_sql ::
  "ident \<Rightarrow> ident \<Rightarrow> string \<Rightarrow> string \<Rightarrow> bool \<Rightarrow> datetime \<Rightarrow> db \<Rightarrow> (nat \<times> db) option" where
  "update_item_sql iid cid tenant txt done now d =
     (let P = (\<lambda>r. i_id r = iid \<and> item_key cid tenant r) in
      Some (cnt_rows P (checklist_items d), d\<lparr>checklist_items := upd_rows P
        (\<lambda>r. r\<lparr>i_text := (if txt \<noteq> '''' then txt else i_text r), i_done := done\<rparr>) (checklist_items d)\<rparr>))"

definition delete_item_sql :: "ident \<Rightarrow> ident \<Rightarrow> string \<Rightarrow> datetime \<Rightarrow> db \<Rightarrow> (nat \<times> db) option" where
  "delete_item_sql iid cid tenant now d =
     (let P = (\<lambda>r. i_id r = iid \<and> item_key cid tenant r) in
      Some (cnt_rows P (checklist_items d), d\<lparr>checklist_items := del_rows P (checklist_items d)\<rparr>))"

definition insert_comment_sql ::
  "ident \<Rightarrow> string \<Rightarrow> ident \<Rightarrow> string \<Rightarrow> string \<Rightarrow> datetime \<Rightarrow> db \<Rightarrow> (comment_row option \<times> db) option" where
  "insert_comment_sql i tenant cid author body now d =
     (let r = \<lparr>t_id = i, t_tenant = tenant, t_card = cid, t_author = author, t_body = body,
               t_created = now, t_updated = now\<rparr> in
      if i \<in> t_id ` set (comments d) \<or> \<not> card_exists cid d then None
      else Some (Some r, d\<lparr>comments := comments d @ [r]\<rparr>))"

definition authored :: "ident \<Rightarrow> ident \<Rightarrow> string \<Rightarrow> string \<Rightarrow> comment_row \<Rightarrow> bool" where
  "authored i cid tenant author r \<longleftrightarrow> t_id r = i \<and> t_card r = cid \<and> t_tenant r = tenant \<and> t_author r = author"

definition edit_comment_sql ::
  "ident \<Rightarrow> ident \<Rightarrow> string \<Rightarrow> string \<Rightarrow> string \<Rightarrow> datetime \<Rightarrow> db \<Rightarrow> (comment_row option \<times> db) option" where
  "edit_comment_sql i cid tenant author body now d =
     (let f = (\<lambda>r. r\<lparr>t_body := body, t_updated := now\<rparr>) in
      Some (map_option f (List.find (authored i cid tenant author) (comments d)),
            d\<lparr>comments := upd_rows (authored i cid tenant author) f (comments d)\<rparr>))"

definition delete_comment_sql :: "(comment_row \<Rightarrow> bool) \<Rightarrow> datetime \<Rightarrow> db \<Rightarrow> (nat \<times> db) option" where
  "delete_comment_sql P now d = Some (cnt_rows P (comments d), d\<lparr>comments := del_rows P (comments d)\<rparr>)"

section \<open>Idempotency keys\<close>

definition find_key :: "string \<Rightarrow> string \<Rightarrow> db \<Rightarrow> idempotency_row option" where
  "find_key tenant key d = List.find (\<lambda>r. q_tenant r = tenant \<and> q_key r = key) (idempotency_keys d)"

definition store_key_sql ::
  "string \<Rightarrow> string \<Rightarrow> ident option \<Rightarrow> json option \<Rightarrow> datetime \<Rightarrow> db \<Rightarrow> db option" where
  "store_key_sql tenant key cid payload now d =
     (case find_key tenant key d of
        Some _ \<Rightarrow> Some d
      | None \<Rightarrow> Some (d\<lparr>idempotency_keys := idempotency_keys d @
            [\<lparr>q_tenant = tenant, q_key = key, q_card = cid, q_payload = payload\<rparr>]\<rparr>))"

definition check_idempotency_card :: "string \<Rightarrow> string \<Rightarrow> (cerr, ident option) act" where
  "check_idempotency_card tenant key =
     (if key = '''' then ret None
      else bnd (internal ''idempotency key lookup failed'' (select (find_key tenant key))) (\<lambda>row.
        ret (case row of None \<Rightarrow> None | Some r \<Rightarrow> q_card r)))"

definition store_idempotency_card :: "string \<Rightarrow> string \<Rightarrow> ident \<Rightarrow> (cerr, unit) act" where
  "store_idempotency_card tenant key cid =
     (if key = '''' then ret ()
      else bnd (attempt (exec (store_key_sql tenant key (Some cid) None))) (\<lambda>_. ret ()))"

text \<open>\<open>allocate_card_ref\<close>: the lock, the counter, and the text \<open>{prefix}-{seq:03}\<close>.\<close>

definition allocate_card_ref :: "ident \<Rightarrow> string \<Rightarrow> (cerr, string) act" where
  "allocate_card_ref project tenant =
     bnd (internal ''advisory lock failed'' (exec advisory_lock)) (\<lambda>_.
     bnd (internal ''failed to allocate card ref'' (fetch_one (allocate_ref_sql project tenant))) (\<lambda>(prefix, seq).
     ret (prefix @ ''-'' @ show_int_pad 3 seq)))"

end
