(* ===== verification/Card_Writes.thy ===== *)
theory Card_Writes
  imports Card_Sql
begin

text \<open>
  \<open>src/services/cards.rs\<close>, lines 856 to 1261: CreateCard and UpdateCard.
\<close>

definition jstr :: "string \<Rightarrow> string \<Rightarrow> string \<times> json" where
  "jstr k s = (k, JStr s)"

definition jnum :: "string \<Rightarrow> int \<Rightarrow> string \<times> json" where
  "jnum k n = (k, JNum n)"

definition find_board :: "ident \<Rightarrow> string \<Rightarrow> db \<Rightarrow> board_row option" where
  "find_board bid tenant d = List.find (\<lambda>b. b_id b = bid \<and> b_tenant b = tenant) (boards d)"

definition find_column :: "ident \<Rightarrow> string \<Rightarrow> db \<Rightarrow> column_row option" where
  "find_column col tenant d = List.find (\<lambda>k. k_id k = col \<and> k_tenant k = tenant) (columns d)"

text \<open>\<open>SELECT 1 FROM milestones WHERE id = $1 AND tenant_id = $2 AND project_id = $3\<close>\<close>

definition milestone_exists :: "ident \<Rightarrow> string \<Rightarrow> ident \<Rightarrow> db \<Rightarrow> bool" where
  "milestone_exists mid tenant project d \<longleftrightarrow>
     (\<exists>m \<in> set (milestones d). m_id m = mid \<and> m_tenant m = tenant \<and> m_project m = project)"

text \<open>The parent tuple of a card; a failure is logged only.\<close>

definition grant_parent :: "string \<Rightarrow> ident \<Rightarrow> ident \<Rightarrow> (cerr, unit) act" where
  "grant_parent client cid bid =
     bnd (ask codec) (\<lambda>u.
     bnd (attempt (grant_with_retry client PERMISSION_TYPE_CARD (id_str u cid) ''parent''
            (''KanbanBoard:'' @ id_str u bid))) (\<lambda>_. ret ()))"

definition revoke_parent :: "string \<Rightarrow> ident \<Rightarrow> ident \<Rightarrow> (cerr, unit) act" where
  "revoke_parent client cid bid =
     bnd (ask codec) (\<lambda>u.
     bnd (attempt (delete_relation_tuples client PERMISSION_TYPE_CARD (Some (id_str u cid)) (Some ''parent'')
            (Some (''KanbanBoard:'' @ id_str u bid)))) (\<lambda>_. ret ()))"

section \<open>CreateCard\<close>

record create_card_request =
  cr_column_id :: string
  cr_title :: string
  cr_description :: string
  cr_priority :: int
  cr_due :: "timestamp option"
  cr_milestone_id :: string
  cr_position :: int
  cr_idempotency_key :: string
  cr_urgency :: int

definition check_milestone :: "(db \<Rightarrow> bool) \<Rightarrow> (cerr, unit) act" where
  "check_milestone exists =
     bnd (internal ''failed to check milestone'' (select exists)) (\<lambda>found.
     require found (InvalidArgument, ''milestone not found in this project''))"

definition create_position :: "ident \<Rightarrow> string \<Rightarrow> int \<Rightarrow> (cerr, int) act" where
  "create_position col tenant pos =
     (if pos = 0 then or_default 0 (stmt (next_position_sql col tenant))
      else bnd (internal ''failed to shift positions''
             (exec (shift_sql (\<lambda>c. in_column col tenant c \<and> pos \<le> c_position c) 1))) (\<lambda>_. ret pos))"

definition new_card_row ::
  "create_card_request \<Rightarrow> ident \<Rightarrow> string \<Rightarrow> ident \<Rightarrow> ident \<Rightarrow> ident \<Rightarrow> string \<Rightarrow> int
   \<Rightarrow> datetime option \<Rightarrow> ident option \<Rightarrow> bool \<Rightarrow> string \<Rightarrow> datetime \<Rightarrow> card_row" where
  "new_card_row req cid tenant project bid col ref pos due milestone is_done sub now =
     \<lparr>c_id = cid, c_tenant = tenant, c_project = project, c_board = bid, c_column = col, c_ref = ref,
      c_title = cr_title req,
      c_description = (if cr_description req = '''' then None else Some (cr_description req)),
      c_position = pos, c_priority = Some (priority_from_i32 (cr_priority req)),
      c_urgency = Some (urgency_from_i32 (cr_urgency req)), c_due = due,
      c_completed = (if is_done then Some now else None), c_blocked = False, c_cover = None,
      c_milestone = milestone, c_revision = 0, c_created_by = sub, c_created = now, c_updated = now\<rparr>"

definition created_payload ::
  "ulid_codec \<Rightarrow> create_card_request \<Rightarrow> ident \<Rightarrow> ident \<Rightarrow> ident \<Rightarrow> string \<Rightarrow> int \<Rightarrow> (string \<times> json) list" where
  "created_payload u req cid bid col ref pos =
     [jstr ''card_id'' (id_str u cid), jstr ''board_id'' (id_str u bid), jstr ''column_id'' (id_str u col),
      jstr ''title'' (cr_title req), jstr ''ref'' ref, jnum ''position'' pos,
      jstr ''priority'' (priority_from_i32 (cr_priority req)),
      jstr ''urgency'' (urgency_from_i32 (cr_urgency req)),
      jstr ''idempotency_key'' (cr_idempotency_key req)]"

text \<open>The transaction of CreateCard; its result is the new card's id.\<close>

definition create_card_tx ::
  "create_card_request \<Rightarrow> string \<Rightarrow> string \<Rightarrow> ident \<Rightarrow> ident \<Rightarrow> ident \<Rightarrow> bool \<Rightarrow> (cerr, ident) act" where
  "create_card_tx req sub tenant bid project col is_done =
     bnd (allocate_card_ref project tenant) (\<lambda>card_ref.
     bnd new_id (\<lambda>card_id.
     bnd (create_position col tenant (cr_position req)) (\<lambda>position.
     bnd (ask (\<lambda>e. (codec e, parse_due e (cr_due req)))) (\<lambda>(u, due).
     bnd (parse_opt_id ''invalid milestone_id'' (cr_milestone_id req)) (\<lambda>milestone.
     bnd (case milestone of None \<Rightarrow> ret ()
          | Some mid \<Rightarrow> check_milestone (milestone_exists mid tenant project)) (\<lambda>_.
     bnd (internal ''failed to insert card'' (exec (insert_card_sql
           (new_card_row req card_id tenant project bid col card_ref position due milestone is_done sub)))) (\<lambda>_.
     bnd (insert_board_event tenant bid ''CardCreated''
           (JObj (created_payload u req card_id bid col card_ref position))) (\<lambda>_.
     ret card_id))))))))"

definition create_card :: "request_context \<Rightarrow> create_card_request \<Rightarrow> (cerr, card_msg) act" where
  "create_card ctx req =
     bnd (checked_object_id ctx) (\<lambda>object_id.
     bnd (parse_id ''invalid board_id'' object_id) (\<lambda>board_id.
     bnd (subject_from_request ctx) (\<lambda>sub.
     bnd (tenant_id_from_request ctx) (\<lambda>tenant.
     bnd (require (cr_title req \<noteq> '''') (InvalidArgument, ''title is required'')) (\<lambda>_.
     bnd (check_idempotency_card tenant (cr_idempotency_key req)) (\<lambda>existing.
     case existing of
       Some existing_id \<Rightarrow> fetch_full_card existing_id tenant
     | None \<Rightarrow>
         bnd (internal ''failed to fetch board'' (select (find_board board_id tenant))) (\<lambda>b.
         bnd (ok_or (NotFound, ''board not found'') b) (\<lambda>board.
         bnd (parse_id ''invalid column_id'' (cr_column_id req)) (\<lambda>col_id.
         bnd (internal ''failed to verify column'' (select (\<lambda>d. List.find (\<lambda>k. k_id k = col_id
               \<and> k_board k = board_id \<and> k_tenant k = tenant) (columns d)))) (\<lambda>k.
         bnd (ok_or (NotFound, ''column not found on this board'') k) (\<lambda>col.
         bnd (in_tx (create_card_tx req sub tenant board_id (b_project board) col_id (k_is_done col))) (\<lambda>card_id.
         bnd (tenant_client_for ctx) (\<lambda>permission.
         bnd (grant_parent permission card_id board_id) (\<lambda>_.
         bnd (store_idempotency_card tenant (cr_idempotency_key req) card_id) (\<lambda>_.
         fetch_full_card card_id tenant)))))))))))))))"

section \<open>UpdateCard\<close>

record card_patch =
  pt_title :: string
  pt_description :: string
  pt_priority :: int
  pt_urgency :: int
  pt_due :: "timestamp option"
  pt_blocked :: bool
  pt_cover :: string
  pt_milestone_id :: string

definition empty_patch :: card_patch where
  "empty_patch = \<lparr>pt_title = '''', pt_description = '''', pt_priority = 0, pt_urgency = 0,
     pt_due = None, pt_blocked = False, pt_cover = '''', pt_milestone_id = ''''\<rparr>"

record update_card_request =
  up_card :: "card_patch option"
  up_mask :: "string list option"
  up_idempotency_key :: string

definition mask_has :: "update_card_request \<Rightarrow> string \<Rightarrow> bool" where
  "mask_has req p \<longleftrightarrow> (case up_mask req of Some paths \<Rightarrow> p \<in> set paths | None \<Rightarrow> False)"

text \<open>The SET clause of the UPDATE; a milestone is applied as \<open>Some value\<close>, kept as \<open>None\<close>.\<close>

definition apply_patch ::
  "card_patch \<Rightarrow> datetime option \<Rightarrow> bool \<Rightarrow> ident option option \<Rightarrow> datetime \<Rightarrow> card_row \<Rightarrow> card_row" where
  "apply_patch p due blocked_apply milestone now c = c\<lparr>
     c_title := (if pt_title p \<noteq> '''' then pt_title p else c_title c),
     c_description := (if pt_description p \<noteq> '''' then Some (pt_description p) else c_description c),
     c_priority := (if pt_priority p \<noteq> 0 then Some (priority_from_i32 (pt_priority p)) else c_priority c),
     c_urgency := (if pt_urgency p \<noteq> 0 then Some (urgency_from_i32 (pt_urgency p)) else c_urgency c),
     c_due := (if due \<noteq> None then due else c_due c),
     c_blocked := (if blocked_apply then pt_blocked p else c_blocked c),
     c_cover := (if pt_cover p \<noteq> '''' then Some (pt_cover p) else c_cover c),
     c_milestone := (case milestone of Some m \<Rightarrow> m | None \<Rightarrow> c_milestone c),
     c_revision := c_revision c + 1,
     c_updated := now\<rparr>"

text \<open>The JSON form of a protobuf enum value: its name, or its number where the enum has none.\<close>

definition enum_json :: "string list \<Rightarrow> int \<Rightarrow> json" where
  "enum_json names v = (if 0 \<le> v \<and> v < int (length names) then JStr (names ! nat v) else JNum v)"

definition CARD_PRIORITY :: "string list" where
  "CARD_PRIORITY = [''CARD_PRIORITY_UNSPECIFIED'', ''CARD_PRIORITY_LOW'', ''CARD_PRIORITY_MEDIUM'',
     ''CARD_PRIORITY_HIGH'', ''CARD_PRIORITY_URGENT'']"

definition CARD_URGENCY :: "string list" where
  "CARD_URGENCY = [''CARD_URGENCY_UNSPECIFIED'', ''CARD_URGENCY_LOW'', ''CARD_URGENCY_MEDIUM'',
     ''CARD_URGENCY_HIGH'', ''CARD_URGENCY_CRITICAL'']"

definition updated_payload ::
  "ulid_codec \<Rightarrow> update_card_request \<Rightarrow> card_patch \<Rightarrow> ident \<Rightarrow> int \<Rightarrow> int \<Rightarrow> bool \<Rightarrow> (string \<times> json) list" where
  "updated_payload u req p cid prev_revision new_revision cleared =
     [jstr ''card_id'' (id_str u cid), jnum ''prev_revision'' prev_revision,
      jnum ''new_revision'' new_revision, jstr ''idempotency_key'' (up_idempotency_key req),
      (''patch'', JObj
        [jstr ''title'' (pt_title p), jstr ''description'' (pt_description p),
         (''priority'', enum_json CARD_PRIORITY (pt_priority p)),
         (''urgency'', enum_json CARD_URGENCY (pt_urgency p)),
         (''blocked'', JBool (pt_blocked p)), jstr ''cover'' (pt_cover p),
         jstr ''milestone_id'' (pt_milestone_id p), (''milestone_cleared'', JBool cleared)])]"

definition update_card :: "request_context \<Rightarrow> update_card_request \<Rightarrow> (cerr, card_msg) act" where
  "update_card ctx req =
     bnd (checked_object_id ctx) (\<lambda>object_id.
     bnd (parse_id ''invalid card_id'' object_id) (\<lambda>card_id.
     bnd (tenant_id_from_request ctx) (\<lambda>tenant.
     let patch = (case up_card req of Some p \<Rightarrow> p | None \<Rightarrow> empty_patch) in
     bnd (check_idempotency_card tenant (up_idempotency_key req)) (\<lambda>existing.
     case existing of
       Some _ \<Rightarrow> fetch_full_card card_id tenant
     | None \<Rightarrow>
         bnd (internal ''failed to fetch card'' (select (find_card card_id tenant))) (\<lambda>r.
         bnd (ok_or (NotFound, ''card not found'') r) (\<lambda>cur.
         bnd (ask (\<lambda>e. (codec e, parse_due e (pt_due patch)))) (\<lambda>(u, due).
         bnd (if pt_milestone_id patch = '''' then
                ret (if mask_has req ''milestone_id'' then Some None else None)
              else
                bnd (parse_id ''invalid milestone_id'' (pt_milestone_id patch)) (\<lambda>mid.
                bnd (check_milestone (milestone_exists mid tenant (c_project cur))) (\<lambda>_.
                ret (Some (Some mid))))) (\<lambda>milestone.
         let blocked_apply = (pt_blocked patch \<or> mask_has req ''blocked'') in
         bnd (internal ''failed to update card'' (stmt (update_card_sql card_id tenant (\<lambda>_ _. True)
               (apply_patch patch due blocked_apply milestone)))) (\<lambda>row.
         bnd (ok_or (NotFound, ''card not found'') row) (\<lambda>new_revision.
         bnd (in_tx (insert_board_event tenant (c_board cur) ''CardUpdated''
               (JObj (updated_payload u req patch card_id (c_revision cur) new_revision
                        (milestone = Some None))))) (\<lambda>_.
         bnd (store_idempotency_card tenant (up_idempotency_key req) card_id) (\<lambda>_.
         fetch_full_card card_id tenant))))))))))))"

end
