(* ===== verification/Board_Sql.thy ===== *)
theory Board_Sql
  imports Card_Writes Visibility
begin

text \<open>
  The SQL statements of \<open>src/services/boards.rs\<close> on the tables \<open>boards\<close> and \<open>columns\<close>, with the
  constraints of migrations 0004, 0005, 0012 and 0026: a statement that Postgres would reject is
  \<open>None\<close>. Deleting a board or a column takes its cards along (ON DELETE CASCADE), and the rows that
  refer to those; a GitHub link has no such clause and blocks the deletion of its card.
\<close>

section \<open>Boards\<close>

definition board_key :: "ident \<Rightarrow> string \<Rightarrow> board_row \<Rightarrow> bool" where
  "board_key bid tenant b \<longleftrightarrow> b_id b = bid \<and> b_tenant b = tenant"

text \<open>\<open>UNIQUE (project_id, slug)\<close>, which Postgres checks after the primary key.\<close>

definition slug_conflict :: "board_row \<Rightarrow> db \<Rightarrow> bool" where
  "slug_conflict row d \<longleftrightarrow> b_id row \<notin> b_id ` set (boards d)
     \<and> (b_project row, b_slug row) \<in> (\<lambda>b. (b_project b, b_slug b)) ` set (boards d)"

definition insert_board_sql :: "(datetime \<Rightarrow> board_row) \<Rightarrow> datetime \<Rightarrow> db \<Rightarrow> (board_row \<times> db) option" where
  "insert_board_sql row now d =
     (if b_id (row now) \<in> b_id ` set (boards d) \<or> slug_conflict (row now) d
         \<or> b_project (row now) \<notin> p_id ` set (projects d) then None
      else Some (row now, d\<lparr>boards := boards d @ [row now]\<rparr>))"

text \<open>An UPDATE \<dots> RETURNING of one board: the new row, \<open>None\<close> when there is none.\<close>

definition update_board_sql ::
  "ident \<Rightarrow> string \<Rightarrow> (datetime \<Rightarrow> board_row \<Rightarrow> board_row) \<Rightarrow> datetime \<Rightarrow> db \<Rightarrow> (board_row option \<times> db) option" where
  "update_board_sql bid tenant f now d =
     Some (map_option (f now) (find_board bid tenant d),
       d\<lparr>boards := upd_rows (board_key bid tenant) (f now) (boards d)\<rparr>)"

section \<open>Cascades\<close>

text \<open>Deleting cards, with everything that refers to them.\<close>

definition drop_cards :: "(card_row \<Rightarrow> bool) \<Rightarrow> db \<Rightarrow> db option" where
  "drop_cards P d =
     (let gone = c_id ` set (filter P (cards d)) in
      if \<exists>g \<in> set (github_links d). g_card g \<in> gone then None
      else Some (d\<lparr>cards := del_rows P (cards d),
          card_labels := del_rows (\<lambda>r. cl_card r \<in> gone) (card_labels d),
          card_assignees := del_rows (\<lambda>r. a_card r \<in> gone) (card_assignees d),
          comments := del_rows (\<lambda>r. t_card r \<in> gone) (comments d),
          checklist_items := del_rows (\<lambda>r. i_card r \<in> gone) (checklist_items d),
          card_attachments := del_rows (\<lambda>r. f_card r \<in> gone) (card_attachments d),
          card_dependencies := del_rows (\<lambda>r. d_card r \<in> gone \<or> d_depends_on r \<in> gone) (card_dependencies d)\<rparr>))"

definition delete_board_sql :: "ident \<Rightarrow> string \<Rightarrow> datetime \<Rightarrow> db \<Rightarrow> (nat \<times> db) option" where
  "delete_board_sql bid tenant now d =
     (let n = cnt_rows (board_key bid tenant) (boards d);
          cols = k_id ` set (filter (\<lambda>k. k_board k = bid) (columns d)) in
      if n = 0 then Some (0, d)
      else map_option (\<lambda>d1. (n, d1\<lparr>boards := del_rows (board_key bid tenant) (boards d1),
             columns := del_rows (\<lambda>k. k_board k = bid) (columns d1),
             event_log := del_rows (\<lambda>r. e_board r = Some bid) (event_log d1),
             aggregated_board_sources := del_rows (\<lambda>s. s_board s = bid) (aggregated_board_sources d1)\<rparr>))
           (drop_cards (\<lambda>c. c_board c = bid \<or> c_column c \<in> cols) d))"

section \<open>Columns\<close>

definition column_key :: "ident \<Rightarrow> ident \<Rightarrow> string \<Rightarrow> column_row \<Rightarrow> bool" where
  "column_key col bid tenant k \<longleftrightarrow> k_id k = col \<and> k_board k = bid \<and> k_tenant k = tenant"

definition board_columns :: "ident \<Rightarrow> db \<Rightarrow> column_row list" where
  "board_columns bid d = filter (\<lambda>k. k_board k = bid) (columns d)"

definition by_position :: "column_row list \<Rightarrow> column_row list" where
  "by_position ks = sort_rows (\<lambda>a b. k_position a \<le> k_position b) ks"

definition insert_column_row :: "column_row \<Rightarrow> db \<Rightarrow> (column_row \<times> db) option" where
  "insert_column_row k d =
     (if k_id k \<in> k_id ` set (columns d) \<or> k_board k \<notin> b_id ` set (boards d) \<or> \<not> i32_ok (k_position k) then None
      else Some (k, d\<lparr>columns := columns d @ [k]\<rparr>))"

text \<open>\<open>COALESCE((SELECT MAX(position) FROM columns WHERE board_id = $3), -1) + 1\<close>\<close>

definition append_column_sql :: "(datetime \<Rightarrow> int \<Rightarrow> column_row) \<Rightarrow> ident \<Rightarrow> datetime \<Rightarrow> db \<Rightarrow> (column_row \<times> db) option" where
  "append_column_sql row bid now d =
     insert_column_row (row now (next_position (map k_position (board_columns bid d)))) d"

definition shift_columns :: "(column_row \<Rightarrow> bool) \<Rightarrow> int \<Rightarrow> datetime \<Rightarrow> db \<Rightarrow> db option" where
  "shift_columns P k now d =
     (if \<forall>c \<in> set (columns d). P c \<longrightarrow> i32_ok (k_position c + k)
      then Some (d\<lparr>columns := upd_rows P (\<lambda>c. c\<lparr>k_position := k_position c + k, k_updated := now\<rparr>) (columns d)\<rparr>)
      else None)"

definition insert_column_sql :: "(datetime \<Rightarrow> int \<Rightarrow> column_row) \<Rightarrow> ident \<Rightarrow> int \<Rightarrow> datetime \<Rightarrow> db \<Rightarrow> (column_row \<times> db) option" where
  "insert_column_sql row bid pos now d =
     Option.bind (shift_columns (\<lambda>k. k_board k = bid \<and> pos \<le> k_position k) 1 now d) (insert_column_row (row now pos))"

definition update_column_sql ::
  "ident \<Rightarrow> ident \<Rightarrow> string \<Rightarrow> (datetime \<Rightarrow> column_row \<Rightarrow> column_row) \<Rightarrow> datetime \<Rightarrow> db \<Rightarrow> (column_row option \<times> db) option" where
  "update_column_sql col bid tenant f now d =
     Some (map_option (f now) (List.find (column_key col bid tenant) (columns d)),
       d\<lparr>columns := upd_rows (column_key col bid tenant) (f now) (columns d)\<rparr>)"

definition delete_column_sql :: "ident \<Rightarrow> ident \<Rightarrow> string \<Rightarrow> datetime \<Rightarrow> db \<Rightarrow> (nat \<times> db) option" where
  "delete_column_sql col bid tenant now d =
     (let n = cnt_rows (column_key col bid tenant) (columns d) in
      if n = 0 then Some (0, d)
      else map_option (\<lambda>d1. (n, d1\<lparr>columns := del_rows (column_key col bid tenant) (columns d1)\<rparr>))
             (drop_cards (\<lambda>c. c_column c = col) d))"

text \<open>
  \<open>ROW_NUMBER() OVER (ORDER BY position) - 1\<close> over the columns of the board, as the new position of
  each; columns at equal positions keep their order here, where Postgres may choose any.
\<close>

definition rank_of :: "ident list \<Rightarrow> ident \<Rightarrow> nat" where
  "rank_of ids i = length (takeWhile (\<lambda>x. x \<noteq> i) ids)"

definition gap_fill_sql :: "ident \<Rightarrow> string \<Rightarrow> datetime \<Rightarrow> db \<Rightarrow> db option" where
  "gap_fill_sql bid tenant now d =
     (let ranked = map k_id (by_position (filter (\<lambda>k. k_board k = bid \<and> k_tenant k = tenant) (columns d))) in
      if \<not> i32_ok (int (length ranked) - 1) then None
      else Some (d\<lparr>columns := upd_rows (\<lambda>k. k_id k \<in> set ranked)
                 (\<lambda>k. k\<lparr>k_position := int (rank_of ranked (k_id k)), k_updated := now\<rparr>) (columns d)\<rparr>))"

definition place_column_sql :: "ident \<Rightarrow> string \<Rightarrow> int \<Rightarrow> datetime \<Rightarrow> db \<Rightarrow> db option" where
  "place_column_sql col tenant pos now d =
     Some (d\<lparr>columns := upd_rows (\<lambda>k. k_id k = col \<and> k_tenant k = tenant)
               (\<lambda>k. k\<lparr>k_position := pos, k_updated := now\<rparr>) (columns d)\<rparr>)"

end
