(* ===== verification/Boards.thy ===== *)
theory Boards
  imports Board_Sql
begin

text \<open>
  \<open>src/services/boards.rs\<close>: the handlers of the board service on boards and columns, with their
  permission checks, transactions, events and idempotency keys. The streaming handler
  \<open>SubscribeBoard\<close> is not part of this theory. Strings are sequences of ASCII characters here.
\<close>

section \<open>Messages\<close>

record board_msg =
  bm_id :: string
  bm_project_id :: string
  bm_name :: string
  bm_description :: string
  bm_icon :: string
  bm_visibility :: int
  bm_created_at :: timestamp
  bm_updated_at :: timestamp
  bm_columns_count :: int
  bm_cards_count :: int

record column_msg =
  km_id :: string
  km_board_id :: string
  km_title :: string
  km_accent :: string
  km_wip_limit :: int
  km_position :: int
  km_is_done :: bool
  km_created_at :: timestamp
  km_updated_at :: timestamp

definition board_from_row :: "ulid_codec \<Rightarrow> board_row \<Rightarrow> int \<Rightarrow> int \<Rightarrow> board_msg" where
  "board_from_row u b columns_count cards_count =
     \<lparr>bm_id = id_str u (b_id b), bm_project_id = id_str u (b_project b), bm_name = b_name b,
      bm_description = opt_text (b_description b), bm_icon = opt_text (b_icon b),
      bm_visibility = db_to_proto (b_visibility b), bm_created_at = to_proto_ts (b_created b),
      bm_updated_at = to_proto_ts (b_updated b), bm_columns_count = columns_count, bm_cards_count = cards_count\<rparr>"

definition column_from_row :: "ulid_codec \<Rightarrow> column_row \<Rightarrow> column_msg" where
  "column_from_row u k =
     \<lparr>km_id = id_str u (k_id k), km_board_id = id_str u (k_board k), km_title = k_title k,
      km_accent = opt_text (k_accent k), km_wip_limit = (case k_wip k of Some n \<Rightarrow> n | None \<Rightarrow> 0),
      km_position = k_position k, km_is_done = k_is_done k, km_created_at = to_proto_ts (k_created k),
      km_updated_at = to_proto_ts (k_updated k)\<rparr>"

text \<open>\<open>event_column_json\<close> of \<open>event_column_from_proto\<close>, and \<open>event_board_json\<close>.\<close>

definition event_column_json :: "column_msg \<Rightarrow> json" where
  "event_column_json c = JObj
     [jstr ''id'' (km_id c), jstr ''board_id'' (km_board_id c), jstr ''title'' (km_title c),
      jstr ''accent'' (km_accent c), jnum ''wip_limit'' (km_wip_limit c), jnum ''position'' (km_position c),
      (''is_done'', JBool (km_is_done c))]"

definition event_board_json :: "ulid_codec \<Rightarrow> board_row \<Rightarrow> json" where
  "event_board_json u b = JObj
     [jstr ''id'' (id_str u (b_id b)), jstr ''project_id'' (id_str u (b_project b)), jstr ''name'' (b_name b),
      jstr ''description'' (opt_text (b_description b)), jstr ''icon'' (opt_text (b_icon b))]"

section \<open>Counts and slugs\<close>

definition in_tenant :: "string option \<Rightarrow> string \<Rightarrow> bool" where
  "in_tenant tenant t \<longleftrightarrow> (case tenant of Some x \<Rightarrow> t = x | None \<Rightarrow> True)"

definition fetch_columns_count :: "ident \<Rightarrow> string option \<Rightarrow> (cerr, int) act" where
  "fetch_columns_count bid tenant = or_default 0 (select (\<lambda>d.
     as_i32 (int (cnt_rows (\<lambda>k. k_board k = bid \<and> in_tenant tenant (k_tenant k)) (columns d)))))"

definition fetch_cards_count :: "ident \<Rightarrow> string option \<Rightarrow> (cerr, int) act" where
  "fetch_cards_count bid tenant = or_default 0 (select (\<lambda>d.
     as_i32 (int (cnt_rows (\<lambda>c. c_board c = bid \<and> in_tenant tenant (c_tenant c)) (cards d)))))"

definition fetch_board_columns :: "ident \<Rightarrow> (cerr, column_msg list) act" where
  "fetch_board_columns bid =
     bnd (ask codec) (\<lambda>u.
     bnd (internal ''failed to fetch columns'' (select (\<lambda>d. by_position (board_columns bid d)))) (\<lambda>rows.
     ret (map (column_from_row u) rows)))"

definition is_alphanumeric :: "char \<Rightarrow> bool" where
  "is_alphanumeric c = (let n = (of_char c :: nat) in
     48 \<le> n \<and> n \<le> 57 \<or> 65 \<le> n \<and> n \<le> 90 \<or> 97 \<le> n \<and> n \<le> 122)"

definition slug_from_name :: "string \<Rightarrow> string" where
  "slug_from_name name =
     take 40 (to_lower (filter (\<lambda>c. is_alphanumeric c \<or> c = CHR ''-'' \<or> c = CHR ''_'') name))"

section \<open>Reading\<close>

definition with_counts :: "string \<Rightarrow> board_row \<Rightarrow> (cerr, board_msg) act" where
  "with_counts tenant b =
     bnd (ask codec) (\<lambda>u.
     bnd (fetch_columns_count (b_id b) (Some tenant)) (\<lambda>nk.
     bnd (fetch_cards_count (b_id b) (Some tenant)) (\<lambda>nc.
     ret (board_from_row u b nk nc))))"

definition list_boards :: "request_context \<Rightarrow> string \<Rightarrow> (cerr, board_msg list) act" where
  "list_boards ctx project =
     bnd (subject_from_request ctx) (\<lambda>sub.
     bnd (tenant_id_from_request ctx) (\<lambda>tenant.
     bnd (tenant_client_for ctx) (\<lambda>permission.
     bnd (parse_id ''invalid project_id'' project) (\<lambda>project_id.
     bnd (internal ''failed to list boards'' (select (\<lambda>d. sort_rows (\<lambda>a b. dt_le (b_created a) (b_created b))
           (filter (\<lambda>b. b_tenant b = tenant \<and> b_project b = project_id) (boards d))))) (\<lambda>rows.
     bnd (internal ''failed to expand viewable private boards''
           (expand_objects permission PERMISSION_TYPE_BOARD ''view'' sub 10000)) (\<lambda>allowed.
     bnd (ask codec) (\<lambda>u.
     each (with_counts tenant)
       (filter (\<lambda>b. is_public_or_internal (b_visibility b) \<or> id_str u (b_id b) \<in> allowed) rows))))))))"

definition get_board :: "request_context \<Rightarrow> string \<Rightarrow> (cerr, board_msg \<times> column_msg list) act" where
  "get_board ctx board =
     bnd (subject_from_request ctx) (\<lambda>sub.
     bnd (tenant_id_from_request ctx) (\<lambda>tenant.
     bnd (tenant_client_for ctx) (\<lambda>permission.
     bnd (parse_id ''invalid board_id'' board) (\<lambda>board_id.
     bnd (internal ''failed to fetch board'' (select (find_board board_id tenant))) (\<lambda>r.
     bnd (ok_or (NotFound, ''board not found'') r) (\<lambda>row.
     bnd (ask codec) (\<lambda>u.
     bnd (if \<not> is_public_or_internal (b_visibility row) then
            bnd (internal ''failed to check board view permission''
                  (check_permission_with_retry permission PERMISSION_TYPE_BOARD (id_str u board_id) ''view'' sub)) (\<lambda>allowed.
            require allowed (PermissionDenied, ''you do not have permission to view this board''))
          else ret ()) (\<lambda>_.
     bnd (fetch_board_columns board_id) (\<lambda>cols.
     bnd (fetch_cards_count board_id (Some tenant)) (\<lambda>nc.
     ret (board_from_row u row (as_i32 (int (length cols))) nc, cols)))))))))))"

section \<open>CreateBoard\<close>

record create_board_request =
  nb_name :: string
  nb_description :: string
  nb_icon :: string
  nb_visibility :: int
  nb_idempotency_key :: string

definition text_opt :: "string \<Rightarrow> string option" where
  "text_opt s = (if s = '''' then None else Some s)"

definition new_board_row :: "create_board_request \<Rightarrow> ident \<Rightarrow> string \<Rightarrow> ident \<Rightarrow> datetime \<Rightarrow> board_row" where
  "new_board_row req bid tenant project now =
     \<lparr>b_id = bid, b_tenant = tenant, b_project = project, b_revision = 0, b_name = nb_name req,
      b_slug = slug_from_name (nb_name req), b_description = Some (nb_description req), b_icon = text_opt (nb_icon req),
      b_visibility = proto_to_db (nb_visibility req), b_created = now, b_updated = now\<rparr>"

text \<open>The INSERT, with the error that names the violated constraint of the slug.\<close>

definition insert_board :: "(datetime \<Rightarrow> board_row) \<Rightarrow> (cerr, board_row) act" where
  "insert_board row = (\<lambda>e w.
     (case stmt (insert_board_sql row) e w of
        (Inr b, w1) \<Rightarrow> (Inr b, w1)
      | (Inl _, w1) \<Rightarrow>
          (Inl (if \<not> aborted w \<and> \<not> db_fault e (step w) \<and> slug_conflict (row (sql_now e w)) (db w)
                then (AlreadyExists, ''board with that name already exists in project'')
                else (Internal, ''failed to insert board'')), w1)))"

definition create_board_tx :: "create_board_request \<Rightarrow> ident \<Rightarrow> string \<Rightarrow> ident \<Rightarrow> (cerr, board_row) act" where
  "create_board_tx req bid tenant project =
     bnd (insert_board (new_board_row req bid tenant project)) (\<lambda>row.
     bnd (ask codec) (\<lambda>u.
     bnd (insert_project_event tenant project ''BoardCreated''
           (JObj [jstr ''project_id'' (id_str u project), jstr ''board_id'' (id_str u bid), jstr ''name'' (nb_name req)])) (\<lambda>_.
     ret row)))"

definition cached_board :: "string \<Rightarrow> string \<Rightarrow> (cerr, board_msg option) act" where
  "cached_board tenant key =
     bnd (check_idempotency_card tenant key) (\<lambda>cached. case cached of
         None \<Rightarrow> ret None
       | Some bid \<Rightarrow>
           bnd (internal ''failed to fetch cached board'' (select (find_board bid tenant))) (\<lambda>row. case row of
               None \<Rightarrow> ret None
             | Some b \<Rightarrow> bnd (with_counts tenant b) (\<lambda>m. ret (Some m))))"

definition create_board :: "request_context \<Rightarrow> create_board_request \<Rightarrow> (cerr, board_msg) act" where
  "create_board ctx req =
     bnd (checked_object_id ctx) (\<lambda>object_id.
     bnd (parse_id ''invalid project_id'' object_id) (\<lambda>project_id.
     bnd (tenant_client_for ctx) (\<lambda>permission.
     bnd (tenant_id_from_request ctx) (\<lambda>tenant.
     bnd (cached_board tenant (nb_idempotency_key req)) (\<lambda>cached.
     case cached of
       Some m \<Rightarrow> ret m
     | None \<Rightarrow>
         bnd (require (nb_name req \<noteq> '''') (InvalidArgument, ''name is required'')) (\<lambda>_.
         bnd new_id (\<lambda>board_id.
         bnd (in_tx (create_board_tx req board_id tenant project_id)) (\<lambda>row.
         bnd (ask codec) (\<lambda>u.
         bnd (attempt (grant_with_retry permission PERMISSION_TYPE_BOARD (id_str u board_id) ''parent''
               (''KanbanProject:'' @ id_str u project_id))) (\<lambda>_.
         bnd (store_idempotency_card tenant (nb_idempotency_key req) board_id) (\<lambda>_.
         ret (board_from_row u row 0 0))))))))))))"

section \<open>UpdateBoard, DeleteBoard\<close>

record board_patch =
  bp_name :: string
  bp_description :: string
  bp_icon :: string
  bp_visibility :: int

definition apply_board_patch :: "board_patch \<Rightarrow> bool \<Rightarrow> datetime \<Rightarrow> board_row \<Rightarrow> board_row" where
  "apply_board_patch p visibility_change now b = b\<lparr>
     b_name := (if bp_name p \<noteq> '''' then bp_name p else b_name b),
     b_description := (if bp_description p \<noteq> '''' then Some (bp_description p) else b_description b),
     b_icon := (if bp_icon p \<noteq> '''' then Some (bp_icon p) else b_icon b),
     b_visibility := (if visibility_change then proto_to_db (bp_visibility p) else b_visibility b),
     b_updated := now\<rparr>"

definition update_board_tx :: "string \<Rightarrow> ident \<Rightarrow> board_patch \<Rightarrow> bool \<Rightarrow> (cerr, board_row) act" where
  "update_board_tx tenant bid p visibility_change =
     bnd (internal ''failed to update board'' (stmt (update_board_sql bid tenant (apply_board_patch p visibility_change)))) (\<lambda>r.
     bnd (ok_or (NotFound, ''board not found'') r) (\<lambda>row.
     bnd (ask codec) (\<lambda>u.
     bnd (if bp_name p \<noteq> '''' then insert_board_event tenant bid ''BoardRenamed'' (JObj [jstr ''new_name'' (bp_name p)])
          else ret ()) (\<lambda>_.
     bnd (if bp_description p \<noteq> '''' \<or> bp_icon p \<noteq> ''''
          then insert_board_event tenant bid ''BoardUpdated'' (JObj [(''board'', event_board_json u row)])
          else ret ()) (\<lambda>_.
     ret row)))))"

definition update_board :: "request_context \<Rightarrow> board_patch option \<Rightarrow> string list option \<Rightarrow> (cerr, board_msg) act" where
  "update_board ctx board update_mask =
     bnd (subject_from_request ctx) (\<lambda>sub.
     bnd (tenant_id_from_request ctx) (\<lambda>tenant.
     bnd (tenant_client_for ctx) (\<lambda>permission.
     bnd (checked_object_id ctx) (\<lambda>object_id.
     bnd (parse_id ''invalid board_id'' object_id) (\<lambda>board_id.
     let patch = (case board of Some p \<Rightarrow> p
                  | None \<Rightarrow> \<lparr>bp_name = '''', bp_description = '''', bp_icon = '''', bp_visibility = 0\<rparr>);
         visibility_change = (case update_mask of Some paths \<Rightarrow> ''visibility'' \<in> set paths | None \<Rightarrow> False) in
     bnd (ask codec) (\<lambda>u.
     bnd (if visibility_change then
            bnd (internal ''failed to check board manage permission''
                  (check_permission_with_retry permission PERMISSION_TYPE_BOARD (id_str u board_id) ''manage'' sub)) (\<lambda>allowed.
            require allowed (PermissionDenied, ''you do not have permission to change board visibility''))
          else ret ()) (\<lambda>_.
     bnd (in_tx (update_board_tx tenant board_id patch visibility_change)) (\<lambda>row.
     with_counts tenant row))))))))"

definition delete_board_tx :: "string \<Rightarrow> ident \<Rightarrow> (cerr, unit) act" where
  "delete_board_tx tenant bid =
     bnd (internal ''failed to fetch board'' (select (find_board bid tenant))) (\<lambda>r.
     bnd (ok_or (NotFound, ''board not found'') r) (\<lambda>b.
     bnd (ask codec) (\<lambda>u.
     bnd (insert_project_event tenant (b_project b) ''BoardDeleted''
           (JObj [jstr ''project_id'' (id_str u (b_project b)), jstr ''board_id'' (id_str u bid)])) (\<lambda>_.
     bnd (internal ''failed to delete board'' (stmt (delete_board_sql bid tenant))) (\<lambda>n.
     require (n \<noteq> 0) (NotFound, ''board not found''))))))"

definition delete_board :: "request_context \<Rightarrow> (cerr, unit) act" where
  "delete_board ctx =
     bnd (tenant_id_from_request ctx) (\<lambda>tenant.
     bnd (checked_object_id ctx) (\<lambda>object_id.
     bnd (parse_id ''invalid board_id'' object_id) (\<lambda>board_id.
     in_tx (delete_board_tx tenant board_id))))"

end
