(* ===== verification/Event_Payloads.thy ===== *)
theory Event_Payloads
  imports Card_Types
begin

text \<open>
  \<open>src/realtime/outbox.rs\<close>, lines 573 to 909: the envelope of \<open>events.proto\<close> that the dispatcher
  builds from a row of \<open>event_log\<close>, and the mapping of each event type's JSON payload to its variant.
\<close>

section \<open>Fields of the payload\<close>

definition json_str :: "json \<Rightarrow> string \<Rightarrow> string" where
  "json_str j key = (case Option.bind (json_get j key) as_str of Some s \<Rightarrow> s | None \<Rightarrow> '''')"

definition json_u64 :: "json \<Rightarrow> string \<Rightarrow> int" where
  "json_u64 j key = (case Option.bind (json_get j key) as_nat64 of Some n \<Rightarrow> n | None \<Rightarrow> 0)"

definition json_i32 :: "json \<Rightarrow> string \<Rightarrow> int" where
  "json_i32 j key = as_i32 (case Option.bind (json_get j key) as_i64 of Some n \<Rightarrow> n | None \<Rightarrow> 0)"

definition json_bool :: "json \<Rightarrow> string \<Rightarrow> bool" where
  "json_bool j key = (case Option.bind (json_get j key) as_bool of Some b \<Rightarrow> b | None \<Rightarrow> False)"

definition revision_pair :: "json \<Rightarrow> int \<times> int" where
  "revision_pair j = (json_u64 j ''prev_revision'', json_u64 j ''new_revision'')"

record event_column =
  ec_id :: string
  ec_board_id :: string
  ec_title :: string
  ec_accent :: string
  ec_wip_limit :: int
  ec_position :: int
  ec_is_done :: bool

record event_board =
  eb_id :: string
  eb_project_id :: string
  eb_name :: string
  eb_description :: string
  eb_icon :: string

definition parse_event_column :: "json \<Rightarrow> event_column" where
  "parse_event_column j = \<lparr>ec_id = json_str j ''id'', ec_board_id = json_str j ''board_id'',
     ec_title = json_str j ''title'', ec_accent = json_str j ''accent'', ec_wip_limit = json_i32 j ''wip_limit'',
     ec_position = json_i32 j ''position'', ec_is_done = json_bool j ''is_done''\<rparr>"

definition parse_event_board :: "json \<Rightarrow> event_board" where
  "parse_event_board j = \<lparr>eb_id = json_str j ''id'', eb_project_id = json_str j ''project_id'',
     eb_name = json_str j ''name'', eb_description = json_str j ''description'', eb_icon = json_str j ''icon''\<rparr>"

fun is_unchanged_sentinel :: "json \<Rightarrow> bool" where
  "is_unchanged_sentinel (JStr s) \<longleftrightarrow> s = '''' \<or> ends_with s ''_UNSPECIFIED''"
| "is_unchanged_sentinel _ \<longleftrightarrow> False"

text \<open>
  A \<open>google.protobuf.Struct\<close> is the JSON object it stands for. \<open>Map::insert\<close> in a loop over another
  map, whose keys are distinct, copies its entries.
\<close>

definition build_patch_struct :: "json option \<Rightarrow> int \<Rightarrow> (string \<times> json) list" where
  "build_patch_struct patch new_revision =
     (let filtered = (case Option.bind patch as_object of
            Some obj \<Rightarrow> foldl (\<lambda>m (k, v). if \<not> is_unchanged_sentinel v then obj_insert k v m else m) [] obj
          | None \<Rightarrow> [])
      in obj_insert ''revision'' (JNum new_revision) filtered)"

section \<open>Payloads and envelopes\<close>

datatype payload =
    CardCreated "card_msg option" string int string
  | CardUpdated string int int "(string \<times> json) list" string
  | CardMoved string string string int int int string
  | CardDeleted string int string
  | CardTransferred "card_msg option" string string string int string string
  | ColumnAdded event_column int
  | ColumnUpdated event_column
  | ColumnRenamed string string
  | ColumnRemoved string string
  | ColumnsReordered "event_column list"
  | BoardCreated string string string
  | BoardDeleted string string
  | BoardRenamed string
  | BoardUpdated event_board
  | MemberAdded string string string string string
  | MemberRemoved string string
  | MemberRoleChanged string string string string
  | ProjectUpdated string string string string
  | AggregatedBoardCreated string
  | AggregatedBoardUpdated string
  | AggregatedBoardDeleted string
  | SourceBoardAdded string string
  | SourceBoardRemoved string string
  | GithubLinkAdded string string
  | GithubLinkRefreshed string string string
  | MembershipChanged string string bool
  | Cutover int
  | Heartbeat int

record envelope =
  ev_board_id :: string
  ev_event_id :: string
  ev_nats_seq :: int
  ev_board_revision :: int
  ev_emitted_at :: "timestamp option"
  ev_emitter_pod_id :: string
  ev_actor_subject :: string
  ev_payload :: "payload option"

definition json_object_or_null :: "json \<Rightarrow> string \<Rightarrow> json" where
  "json_object_or_null j key = (case json_get j key of Some v \<Rightarrow> v | None \<Rightarrow> JNull)"

definition build_card_payload :: "string \<Rightarrow> json \<Rightarrow> payload option" where
  "build_card_payload event_type j =
     (let card_id = json_str j ''card_id''; key = json_str j ''idempotency_key'';
          (prev, new) = revision_pair j in
      if event_type = ''CardCreated'' then Some (CardCreated None (json_str j ''column_id'') (json_i32 j ''position'') key)
      else if event_type = ''CardUpdated'' then
        Some (CardUpdated card_id prev new (build_patch_struct (json_get j ''patch'') new) key)
      else if event_type = ''CardMoved'' then
        Some (CardMoved card_id (json_str j ''from_column'') (json_str j ''to_column'') (json_i32 j ''to_position'') prev new key)
      else if event_type = ''CardDeleted'' then Some (CardDeleted card_id prev key)
      else if event_type = ''CardTransferred'' then
        Some (CardTransferred None (json_str j ''from_board_id'') (json_str j ''to_board_id'') (json_str j ''to_column_id'')
          (json_i32 j ''to_position'') (json_str j ''previous_ref'') key)
      else if event_type = ''GitHubLinkAdded'' then Some (GithubLinkAdded card_id (json_str j ''link_id''))
      else if event_type = ''GitHubLinkRefreshed'' then
        Some (GithubLinkRefreshed card_id (json_str j ''link_id'') (json_str j ''new_state''))
      else None)"

definition build_board_payload :: "string \<Rightarrow> json \<Rightarrow> payload option" where
  "build_board_payload event_type j =
     (if event_type = ''ColumnAdded'' then
        Some (ColumnAdded (parse_event_column (json_object_or_null j ''column'')) (json_i32 j ''position''))
      else if event_type = ''ColumnUpdated'' then Some (ColumnUpdated (parse_event_column (json_object_or_null j ''column'')))
      else if event_type = ''ColumnRenamed'' then Some (ColumnRenamed (json_str j ''column_id'') (json_str j ''new_title''))
      else if event_type = ''ColumnRemoved'' then
        Some (ColumnRemoved (json_str j ''column_id'') (json_str j ''move_cards_to_column''))
      else if event_type = ''ColumnsReordered'' then
        Some (ColumnsReordered (case Option.bind (json_get j ''columns'') as_array of
            Some cols \<Rightarrow> map parse_event_column cols | None \<Rightarrow> []))
      else if event_type = ''BoardRenamed'' then Some (BoardRenamed (json_str j ''new_name''))
      else if event_type = ''BoardUpdated'' then Some (BoardUpdated (parse_event_board (json_object_or_null j ''board'')))
      else None)"

definition build_project_payload :: "string \<Rightarrow> json \<Rightarrow> payload option" where
  "build_project_payload event_type j =
     (let project_id = json_str j ''project_id''; aggregated_board_id = json_str j ''aggregated_board_id'';
          sub = json_str j ''subject'' in
      if event_type = ''BoardCreated'' then Some (BoardCreated project_id (json_str j ''board_id'') (json_str j ''name''))
      else if event_type = ''BoardDeleted'' then Some (BoardDeleted project_id (json_str j ''board_id''))
      else if event_type = ''MemberAdded'' then
        Some (MemberAdded project_id sub (json_str j ''relation'') (json_str j ''display_name'') (json_str j ''email''))
      else if event_type = ''MemberRemoved'' then Some (MemberRemoved project_id sub)
      else if event_type = ''MemberRoleChanged'' then
        Some (MemberRoleChanged project_id sub (json_str j ''old_relation'') (json_str j ''new_relation''))
      else if event_type = ''ProjectUpdated'' then
        Some (ProjectUpdated project_id (json_str j ''name'') (json_str j ''prefix'') (json_str j ''description''))
      else if event_type = ''AggregatedBoardCreated'' then Some (AggregatedBoardCreated aggregated_board_id)
      else if event_type = ''AggregatedBoardUpdated'' then Some (AggregatedBoardUpdated aggregated_board_id)
      else if event_type = ''AggregatedBoardDeleted'' then Some (AggregatedBoardDeleted aggregated_board_id)
      else if event_type = ''SourceBoardAdded'' then Some (SourceBoardAdded aggregated_board_id (json_str j ''board_id''))
      else if event_type = ''SourceBoardRemoved'' then Some (SourceBoardRemoved aggregated_board_id (json_str j ''board_id''))
      else if event_type = ''MembershipChanged'' then
        Some (MembershipChanged sub (json_str j ''relation'') (json_bool j ''granted''))
      else None)"

text \<open>The arms of one \<open>match\<close> on distinct literals, grouped by what they describe.\<close>

definition build_payload :: "string \<Rightarrow> json \<Rightarrow> payload option" where
  "build_payload event_type j =
     (case build_card_payload event_type j of
        Some p \<Rightarrow> Some p
      | None \<Rightarrow>
          (case build_board_payload event_type j of
             Some p \<Rightarrow> Some p
           | None \<Rightarrow> build_project_payload event_type j))"

definition build_envelope ::
  "ulid_codec \<Rightarrow> ident \<Rightarrow> string \<Rightarrow> json \<Rightarrow> datetime \<Rightarrow> string \<Rightarrow> payload option \<Rightarrow> envelope" where
  "build_envelope u row_id board_id payload_json created_at emitter_pod_id p =
     \<lparr>ev_board_id = board_id, ev_event_id = id_str u row_id, ev_nats_seq = 0,
      ev_board_revision = json_u64 payload_json ''board_revision'', ev_emitted_at = Some (to_proto_ts created_at),
      ev_emitter_pod_id = emitter_pod_id,
      ev_actor_subject = (case Option.bind (json_get payload_json ''actor_subject'') as_str of Some s \<Rightarrow> s | None \<Rightarrow> ''system''),
      ev_payload = p\<rparr>"

end
