(* ===== verification/Quiet.thy ===== *)
theory Quiet
  imports Card_Types
begin

text \<open>
  Actions that only read: they change neither the database nor the tuple store, however they end. What
  a handler finds out through them it finds out about the state it was called in.
\<close>

named_theorems quiet_intros \<open>actions that only read\<close>

definition quiet :: "('e, 'a) act \<Rightarrow> bool" where
  "quiet m \<longleftrightarrow> (\<forall>e w. db (snd (m e w)) = db w \<and> tuples (snd (m e w)) = tuples w)"

lemma quietD: "quiet m \<Longrightarrow> m e w = (r, w') \<Longrightarrow> db w' = db w \<and> tuples w' = tuples w"
  unfolding quiet_def by (metis snd_conv)

lemma quietI: "(\<And>e w r w'. m e w = (r, w') \<Longrightarrow> db w' = db w \<and> tuples w' = tuples w) \<Longrightarrow> quiet m"
  unfolding quiet_def by (metis prod.collapse)

lemma quiet_basic [quiet_intros]:
  "quiet (ret a)" "quiet (raise x)" "quiet (ask f)" "quiet new_id" "quiet (ok_or x r)" "quiet (require b x)"
  by (auto simp: quiet_def ret_def raise_def ask_def new_id_def ok_or_def require_def split: option.split)

lemma quiet_outside [quiet_intros]: "quiet (outside f)"
  by (simp add: quiet_def outside_def)

lemma quiet_bnd [quiet_intros]: "quiet m \<Longrightarrow> (\<And>a. quiet (f a)) \<Longrightarrow> quiet (bnd m f)"
  unfolding quiet_def bnd_def by (auto split: prod.split sum.split) (metis snd_conv)+

lemma quiet_map_err [quiet_intros]: "quiet m \<Longrightarrow> quiet (map_err g m)"
  unfolding quiet_def map_err_def by (auto split: prod.split sum.split) (metis snd_conv)+

lemma quiet_internal [quiet_intros]: "quiet m \<Longrightarrow> quiet (internal msg m)"
  unfolding internal_def by (rule quiet_map_err)

lemma quiet_attempt [quiet_intros]: "quiet m \<Longrightarrow> quiet (attempt m)"
  unfolding quiet_def attempt_def by (auto split: prod.split) (metis snd_conv)+

lemma quiet_or_default [quiet_intros]: "quiet m \<Longrightarrow> quiet (or_default d m)"
  unfolding or_default_def by (intro quiet_intros)

lemma quiet_select [quiet_intros]: "quiet (select f)"
  by (auto simp: quiet_def select_def stmt_def)

lemma quiet_each [quiet_intros]: "(\<And>x. quiet (f x)) \<Longrightarrow> quiet (each f xs)"
  by (induction xs) (auto intro!: quiet_intros)

lemma quiet_if [quiet_intros]: "(b \<Longrightarrow> quiet m) \<Longrightarrow> (\<not> b \<Longrightarrow> quiet n) \<Longrightarrow> quiet (if b then m else n)"
  by simp

lemma quiet_option [quiet_intros]:
  "(r = None \<Longrightarrow> quiet m) \<Longrightarrow> (\<And>x. r = Some x \<Longrightarrow> quiet (f x)) \<Longrightarrow> quiet (case r of None \<Rightarrow> m | Some x \<Rightarrow> f x)"
  by (cases r) simp_all

lemma quiet_sum [quiet_intros]:
  "(\<And>x. r = Inl x \<Longrightarrow> quiet (f x)) \<Longrightarrow> (\<And>x. r = Inr x \<Longrightarrow> quiet (g x)) \<Longrightarrow> quiet (case r of Inl x \<Rightarrow> f x | Inr x \<Rightarrow> g x)"
  by (cases r) simp_all

lemma quiet_gateway [quiet_intros]: "(\<And>e ts. snd (f e ts) = ts) \<Longrightarrow> quiet (gateway f)"
  unfolding quiet_def gateway_def by (auto split: option.split prod.split) (metis snd_conv)

lemma quiet_tenant_client [quiet_intros]: "quiet (tenant_client t)"
  by (auto simp: quiet_def tenant_client_def split: option.splits)

lemma quiet_request [quiet_intros]:
  "quiet (checked_object_id ctx)" "quiet (subject_from_request ctx)" "quiet (tenant_id_from_request ctx)"
  "quiet (tenant_client_for ctx)"
  unfolding checked_object_id_def subject_from_request_def tenant_id_from_request_def tenant_client_for_def
  by (intro quiet_intros)+

lemma quiet_parse_id [quiet_intros]: "quiet (parse_id msg s)"
  unfolding parse_id_def by (intro quiet_intros) (auto split: sum.split invalid_id.split intro: quiet_intros)

lemma quiet_list_objects [quiet_intros]: "quiet (list_objects c ns r s)"
  unfolding list_objects_def by (intro quiet_intros) simp

lemma quiet_expand_objects [quiet_intros]: "quiet (expand_objects c ns r s n)"
  unfolding expand_objects_def by (intro quiet_intros)

section \<open>What a check finds out\<close>

lemma tenant_client_is [ok_iffs]:
  "tenant_client_for ctx e w = (Inr c, w') \<Longrightarrow> Option.bind (auth_ext ctx) auth_tenant_id = Some c"
  by (auto simp: tenant_client_for_def tenant_client_def ok_iffs split: if_split_asm option.split_asm)

text \<open>The retry loop around a reading action answers what one of its attempts answered.\<close>

lemma retry_loop_reads:
  assumes f: "quiet f" and val: "\<And>w b w'. f e w = (Inr b, w') \<Longrightarrow> b = F (db w) (tuples w)"
  shows "retry_loop n l f e w = (r, w') \<Longrightarrow>
    db w' = db w \<and> tuples w' = tuples w \<and> (\<forall>b. r = Inr b \<longrightarrow> b = F (db w) (tuples w))"
proof (induction n arbitrary: l w)
  case 0
  then show ?case by (auto simp: raise_def)
next
  case (Suc n)
  obtain r1 w1 where run: "f e w = (r1, w1)" by fastforce
  note same = quietD [OF f run]
  show ?case
  proof (cases r1)
    case (Inr b)
    then show ?thesis using Suc.prems run same val [of w b w1] by (auto simp: bnd_def attempt_def ret_def)
  next
    case (Inl x)
    then show ?thesis
      using Suc.prems run same Suc.IH [of _ w1]
      by (cases x) (auto simp: bnd_def attempt_def raise_def split: if_split_asm)
  qed
qed

lemma quiet_check_permission [quiet_intros]: "quiet (check_permission c ns ob r s)"
  unfolding check_permission_def by (intro quiet_intros) simp

lemma check_permission_answer:
  "check_permission c ns ob r s e w = (Inr b, w') \<Longrightarrow> b = fga_check e (tuples w) c ns ob r s"
  by (auto simp: check_permission_def map_err_ok gateway_def split: option.split_asm)

lemma check_with_retry_reads:
  "check_permission_with_retry c ns ob r s e w = (x, w') \<Longrightarrow>
    db w' = db w \<and> tuples w' = tuples w \<and> (\<forall>b. x = Inr b \<longrightarrow> b = fga_check e (tuples w) c ns ob r s)"
  unfolding check_permission_with_retry_def retry_def
  by (rule retry_loop_reads [where F = "\<lambda>_ ts. fga_check e ts c ns ob r s"])
    (auto intro: quiet_check_permission dest: check_permission_answer)

lemma quiet_check_with_retry [quiet_intros]: "quiet (check_permission_with_retry c ns ob r s)"
  by (rule quietI) (blast dest: check_with_retry_reads)

lemma check_with_retry_answer:
  "check_permission_with_retry c ns ob r s e w = (Inr b, w') \<Longrightarrow> b = fga_check e (tuples w) c ns ob r s"
  by (blast dest: check_with_retry_reads)

text \<open>The objects of a listing, as the code takes them from the gateway's answer.\<close>

definition objects_of :: "env \<Rightarrow> rel_tuple list \<Rightarrow> string \<Rightarrow> string \<Rightarrow> string \<Rightarrow> string \<Rightarrow> string set" where
  "objects_of e ts c ns r s = {i. ns @ '':'' @ i \<in> set (fga_expand e ts c ns r s)}"

lemma set_map_filter_Some: "set (List.map_filter f xs) = {y. \<exists>x \<in> set xs. f x = Some y}"
  by (induction xs) (auto simp: List.map_filter_def)

lemma expand_objects_answer:
  assumes "expand_objects c ns r s n e w = (Inr ids, w')"
  shows "ids = objects_of e (tuples w) c ns r s"
proof -
  from assms have "ids = set (List.map_filter (strip_prefix (ns @ '':'')) (fga_expand e (tuples w) c ns r s))"
    by (auto simp: expand_objects_def list_objects_def ok_iffs gateway_def split: if_split_asm option.split_asm)
  then show ?thesis by (simp add: set_map_filter_Some strip_prefix_Some objects_of_def)
qed

section \<open>Actions that leave the database as it was when they fail\<close>

definition tidy :: "('e, 'a) act \<Rightarrow> bool" where
  "tidy m \<longleftrightarrow> (\<forall>e w x w'. m e w = (Inl x, w') \<longrightarrow> db w' = db w)"

named_theorems tidy_intros \<open>actions that leave the database as it was when they fail\<close>

lemma tidyD: "tidy m \<Longrightarrow> m e w = (Inl x, w') \<Longrightarrow> db w' = db w"
  unfolding tidy_def by blast

lemma tidy_quiet: "quiet m \<Longrightarrow> tidy m"
  unfolding tidy_def using quietD by blast

lemma tidy_bnd [tidy_intros]:
  assumes "quiet m" "\<And>a. tidy (f a)"
  shows "tidy (bnd m f)"
  unfolding tidy_def
proof (intro allI impI)
  fix e w x w' assume run: "bnd m f e w = (Inl x, w')"
  obtain r w1 where m: "m e w = (r, w1)" by fastforce
  show "db w' = db w"
    using run m quietD [OF assms(1) m] tidyD [OF assms(2)] by (cases r) (fastforce simp: bnd_def)+
qed

lemma tidy_map_err [tidy_intros]: "tidy m \<Longrightarrow> tidy (map_err g m)"
  unfolding tidy_def map_err_def by (auto split: prod.splits sum.splits)

lemma tidy_internal [tidy_intros]: "tidy m \<Longrightarrow> tidy (internal msg m)"
  unfolding internal_def by (rule tidy_map_err)

lemma tidy_exec [tidy_intros]: "tidy (exec f)"
  by (auto simp: tidy_def exec_def stmt_def split: if_splits option.splits)

lemma tidy_then_sure:
  assumes "tidy m" "\<And>a e w. \<exists>b w'. f a e w = (Inr b, w')"
  shows "tidy (bnd m f)"
  unfolding tidy_def
proof (intro allI impI)
  fix e w x w' assume run: "bnd m f e w = (Inl x, w')"
  obtain r w1 where m: "m e w = (r, w1)" by fastforce
  show "db w' = db w"
  proof (cases r)
    case (Inl y)
    with run m tidyD [OF assms(1)] show ?thesis by (simp add: bnd_def)
  next
    case (Inr a)
    obtain b w2 where "f a e w1 = (Inr b, w2)" using assms(2) by blast
    with run m Inr show ?thesis by (simp add: bnd_def)
  qed
qed

end
