(* ===== verification/Board_Stream.thy ===== *)
theory Board_Stream
  imports Boards Cutover Event_Payloads Quiet "HOL-Library.Sublist"
begin

text \<open>
  SubscribeBoard (\<open>src/services/boards.rs\<close>, lines 309 to 653 and 1622 to 1677): the handler, the snapshot that
  opens a fresh subscription, and the loop of the live tail with its recheck of the permission. What
  the loop meets is a list of turns: the clock at its head, the state of the service at that moment (everybody
  else goes on writing), the clock after a recheck, and which branch of the \<open>select!\<close> was taken.
\<close>

section \<open>Envelopes\<close>

definition system_envelope :: "payload \<Rightarrow> envelope" where
  "system_envelope p = \<lparr>ev_board_id = '''', ev_event_id = '''', ev_nats_seq = 0, ev_board_revision = 0, ev_emitted_at = None,
     ev_emitter_pod_id = '''', ev_actor_subject = ''system'', ev_payload = Some p\<rparr>"

definition cutover_envelope :: "u64 \<Rightarrow> envelope" where
  "cutover_envelope last_replay_nats_seq = system_envelope (Cutover (uint last_replay_nats_seq))"

definition heartbeat_envelope :: "int \<Rightarrow> envelope" where
  "heartbeat_envelope server_time_ms = system_envelope (Heartbeat server_time_ms)"

definition snapshot_envelope :: "string \<Rightarrow> payload \<Rightarrow> (cerr, envelope) act" where
  "snapshot_envelope board_id p =
     bnd new_id (\<lambda>i.
     bnd (ask codec) (\<lambda>u.
     ret ((system_envelope p)\<lparr>ev_board_id := board_id, ev_event_id := id_str u i\<rparr>)))"

definition event_column_from_proto :: "column_msg \<Rightarrow> event_column" where
  "event_column_from_proto c = \<lparr>ec_id = km_id c, ec_board_id = km_board_id c, ec_title = km_title c, ec_accent = km_accent c,
     ec_wip_limit = km_wip_limit c, ec_position = km_position c, ec_is_done = km_is_done c\<rparr>"

definition column_added :: "column_msg \<Rightarrow> payload" where
  "column_added c = ColumnAdded (event_column_from_proto c) (km_position c)"

definition card_created :: "card_msg \<Rightarrow> payload" where
  "card_created c = CardCreated (Some c) (cm_column_id c) (cm_position c) ''''"

section \<open>The snapshot\<close>

text \<open>The board is looked up by the text of its id, as the client sent it. The query for an empty log yields 0.\<close>

definition last_replayed :: "ulid_codec \<Rightarrow> string \<Rightarrow> string \<Rightarrow> db \<Rightarrow> int" where
  "last_replayed u tenant board_id d =
     (let seqs = List.map_filter e_nats_seq (filter (\<lambda>r. map_option (id_str u) (e_board r) = Some board_id \<and> e_tenant r = tenant) (event_log d))
      in if seqs = [] then 0 else Max (set seqs))"

definition snapshot_columns :: "ulid_codec \<Rightarrow> string \<Rightarrow> string \<Rightarrow> db \<Rightarrow> column_row list" where
  "snapshot_columns u tenant board_id d = sort_rows (\<lambda>a b. k_position a \<le> k_position b)
     (filter (\<lambda>k. id_str u (k_board k) = board_id \<and> k_tenant k = tenant) (columns d))"

definition snapshot_cards :: "string \<Rightarrow> ident \<Rightarrow> db \<Rightarrow> ident list" where
  "snapshot_cards tenant col d = map c_id (sort_rows (\<lambda>a b. c_position a \<le> c_position b)
     (filter (\<lambda>c. c_column c = col \<and> c_tenant c = tenant) (cards d)))"

definition cards_of_column :: "string \<Rightarrow> column_msg \<Rightarrow> (cerr, card_msg list) act" where
  "cards_of_column tenant col =
     bnd (ask codec) (\<lambda>u.
     bnd (case id_from_str u (km_id col) of Inl _ \<Rightarrow> raise (Internal, ''invalid column id in snapshot'') | Inr i \<Rightarrow> ret i) (\<lambda>i.
     bnd (internal ''failed to fetch cards for snapshot'' (select (snapshot_cards tenant i))) (\<lambda>ids.
     each (\<lambda>cid. fetch_full_card cid tenant) ids)))"

definition read_board_snapshot :: "string \<Rightarrow> string \<Rightarrow> (cerr, column_msg list \<times> card_msg list \<times> u64) act" where
  "read_board_snapshot tenant board_id =
     bnd (ask codec) (\<lambda>u.
     bnd (internal ''failed to read last replayed nats_seq'' (select (last_replayed u tenant board_id))) (\<lambda>last_replay.
     bnd (internal ''failed to fetch columns for snapshot'' (select (snapshot_columns u tenant board_id))) (\<lambda>rows.
     let cols = map (column_from_row u) rows in
     bnd (each (cards_of_column tenant) cols) (\<lambda>css. ret (cols, concat css, word_of_int last_replay)))))"

section \<open>The stream\<close>

record stream_args =
  sa_permission :: string
  sa_auth :: auth_context
  sa_board_id :: string
  sa_is_private :: bool
  sa_recheck_interval :: nat
  sa_tenant :: string
  sa_since_seq :: u64
  sa_seen_capacity :: nat

text \<open>The envelopes that the tracker lets through.\<close>

fun replay :: "tracker \<Rightarrow> envelope list \<Rightarrow> envelope list \<times> tracker" where
  "replay t [] = ([], t)"
| "replay t (x # xs) =
     (case observe_replay t (ev_event_id x) of (r, t1) \<Rightarrow>
      case replay t1 xs of (ys, t2) \<Rightarrow> ((if r = Emit then x # ys else ys), t2))"

text \<open>
  From the subscription of the registry handle to the cutover. An error is the only item of the stream then:
  the snapshot is read in full before its first item is sent.
\<close>

definition stream_start :: "stream_args \<Rightarrow> string + unit \<Rightarrow> (cerr, envelope list \<times> tracker) act" where
  "stream_start a opened =
     (case opened of Inl x \<Rightarrow> raise (Internal, ''subscribe: '' @ x) | Inr _ \<Rightarrow>
      let t = with_capacity (sa_seen_capacity a) in
      if sa_since_seq a = 0 then
        bnd (read_board_snapshot (sa_tenant a) (sa_board_id a)) (\<lambda>(cols, cards, last_replay).
        bnd (each (snapshot_envelope (sa_board_id a)) (map column_added cols @ map card_created cards)) (\<lambda>envs.
        let (shown, t') = replay t envs in ret (shown @ [cutover_envelope last_replay], cutover_to_live t' last_replay)))
      else ret ([cutover_envelope (sa_since_seq a)], cutover_to_live t (sa_since_seq a)))"

definition revalidate_token :: "auth_context \<Rightarrow> cerr + bool" where
  "revalidate_token auth = Inr True"

definition revalidate_permission :: "string \<Rightarrow> auth_context \<Rightarrow> string \<Rightarrow> string \<Rightarrow> (cerr, bool) act" where
  "revalidate_permission permission auth object_type object_id =
     internal ''authorization check failed''
       (check_permission_with_retry permission object_type object_id ''view''
         (case auth_subject auth of Some s \<Rightarrow> s | None \<Rightarrow> ''''))"

datatype arrival = Received envelope | Lagged | Closed | Beat int

record loop_turn =
  tn_clock :: nat
  tn_world :: world
  tn_checked :: nat
  tn_arrival :: arrival

text \<open>Steps A and B: the error that ends the stream, or the time of the last check.\<close>

definition revalidate :: "stream_args \<Rightarrow> env \<Rightarrow> nat \<Rightarrow> loop_turn \<Rightarrow> cerr + nat" where
  "revalidate a e last_check n =
     (case revalidate_token (sa_auth a) of
        Inl x \<Rightarrow> Inl x
      | Inr False \<Rightarrow> Inl (Unauthenticated, ''token expired'')
      | Inr True \<Rightarrow>
          if sa_is_private a \<and> sa_recheck_interval a \<le> tn_clock n - last_check
          then (case fst (revalidate_permission (sa_permission a) (sa_auth a) PERMISSION_TYPE_BOARD (sa_board_id a) e (tn_world n)) of
                  Inl x \<Rightarrow> Inl x
                | Inr False \<Rightarrow> Inl (PermissionDenied, ''permission revoked mid-stream'')
                | Inr True \<Rightarrow> Inr (tn_checked n))
          else Inr last_check)"

fun tail :: "stream_args \<Rightarrow> env \<Rightarrow> nat \<Rightarrow> tracker \<Rightarrow> loop_turn list \<Rightarrow> (cerr + envelope) list" where
  "tail a e last_check t [] = []"
| "tail a e last_check t (n # ns) =
     (case revalidate a e last_check n of Inl x \<Rightarrow> [Inl x] | Inr last_check' \<Rightarrow>
      (case tn_arrival n of
         Received env \<Rightarrow>
           (case observe_live t (ev_event_id env) (word_of_int (ev_nats_seq env)) of
              (Emit, t') \<Rightarrow> Inr env # tail a e last_check' t' ns
            | (_, t') \<Rightarrow> tail a e last_check' t' ns)
       | Lagged \<Rightarrow> [Inl (ResourceExhausted, ''stream lagged; reconnect with last seq'')]
       | Closed \<Rightarrow> []
       | Beat ms \<Rightarrow> Inr (heartbeat_envelope ms) # tail a e last_check' t ns))"

definition board_stream :: "stream_args \<Rightarrow> string + unit \<Rightarrow> nat \<Rightarrow> loop_turn list \<Rightarrow> env \<Rightarrow> world \<Rightarrow> (cerr + envelope) list" where
  "board_stream a opened started turns e w =
     (case fst (stream_start a opened e w) of
        Inl x \<Rightarrow> [Inl x]
      | Inr (shown, t) \<Rightarrow> map Inr shown @ tail a e started t turns)"

section \<open>The handler\<close>

record stream_config =
  permission_recheck_interval :: nat
  cutover_seen_capacity :: nat

definition subscribe_board :: "stream_config \<Rightarrow> request_context \<Rightarrow> string \<Rightarrow> u64 \<Rightarrow> (cerr, stream_args) act" where
  "subscribe_board s ctx board_id since_seq =
     bnd (ok_or (Unauthenticated, ''missing auth context'') (auth_ext ctx)) (\<lambda>auth.
     bnd (ok_or (Unauthenticated, ''missing tenant context'') (auth_tenant_id auth)) (\<lambda>tenant.
     bnd (parse_id ''invalid board_id'' board_id) (\<lambda>i.
     bnd (internal ''failed to fetch board visibility'' (select (\<lambda>d. map_option b_visibility (find_board i tenant d)))) (\<lambda>v.
     bnd (ok_or (NotFound, ''board not found'') v) (\<lambda>visibility.
     bnd (internal ''failed to build tenant permission client'' (tenant_client tenant)) (\<lambda>permission.
     ret \<lparr>sa_permission = permission, sa_auth = auth, sa_board_id = board_id,
          sa_is_private = (\<not> is_public_or_internal visibility), sa_recheck_interval = permission_recheck_interval s,
          sa_tenant = tenant, sa_since_seq = since_seq, sa_seen_capacity = cutover_seen_capacity s\<rparr>))))))"

section \<open>The tracker through a stream\<close>

definition at_live :: "u64 \<Rightarrow> tracker \<Rightarrow> bool" where
  "at_live f t \<longleftrightarrow> bs_inv (seen_ids t) \<and> t_phase t \<noteq> Replay \<and> last_live_seq t = Some f"

lemma observe_replay_fresh:
  assumes "bs_inv (seen_ids t)" "k \<notin> set (queue (seen_ids t))"
  shows "\<exists>t'. observe_replay t k = (Emit, t') \<and> bs_inv (seen_ids t') \<and> set (queue (seen_ids t')) \<subseteq> insert k (set (queue (seen_ids t)))
    \<and> t_phase t' = t_phase t"
  using bs.ins_new [OF assms] by (cases "bs_insert (seen_ids t) k") (auto simp: observe_replay_def dest: in_set_dropD split: if_splits)

lemma replay_all:
  "bs_inv (seen_ids t) \<Longrightarrow> distinct (map ev_event_id xs) \<Longrightarrow> set (queue (seen_ids t)) \<inter> ev_event_id ` set xs = {} \<Longrightarrow>
   \<exists>t'. replay t xs = (xs, t') \<and> bs_inv (seen_ids t') \<and> t_phase t' = t_phase t
     \<and> set (queue (seen_ids t')) \<subseteq> set (queue (seen_ids t)) \<union> ev_event_id ` set xs"
proof (induction xs arbitrary: t)
  case Nil
  then show ?case by simp
next
  case (Cons x xs)
  obtain t1 where t1: "observe_replay t (ev_event_id x) = (Emit, t1)" "bs_inv (seen_ids t1)" "t_phase t1 = t_phase t"
    "set (queue (seen_ids t1)) \<subseteq> insert (ev_event_id x) (set (queue (seen_ids t)))"
    using observe_replay_fresh [OF Cons.prems(1), of "ev_event_id x"] Cons.prems(3) by auto
  have "set (queue (seen_ids t1)) \<inter> ev_event_id ` set xs = {}" using t1(4) Cons.prems(2,3) by (simp add: disjoint_iff subset_iff) (metis imageI)
  with Cons.IH [OF t1(2)] Cons.prems(2) obtain t2 where
    "replay t1 xs = (xs, t2)" "bs_inv (seen_ids t2)" "t_phase t2 = t_phase t1"
    "set (queue (seen_ids t2)) \<subseteq> set (queue (seen_ids t1)) \<union> ev_event_id ` set xs" by auto
  with t1 show ?case by (auto simp: subset_iff)
qed

lemma replay_keeps:
  "bs_inv (seen_ids t) \<Longrightarrow> replay t xs = (ys, t') \<Longrightarrow> bs_inv (seen_ids t') \<and> t_phase t' = t_phase t
     \<and> set (queue (seen_ids t')) \<subseteq> set (queue (seen_ids t)) \<union> ev_event_id ` set ys"
proof (induction xs arbitrary: t ys)
  case Nil
  then show ?case by simp
next
  case (Cons x xs)
  obtain r t1 where t1: "observe_replay t (ev_event_id x) = (r, t1)" by fastforce
  obtain zs where zs: "replay t1 xs = (zs, t')" "ys = (if r = Emit then x # zs else zs)" using Cons.prems(2) t1 by (auto split: prod.splits)
  show ?case
  proof (cases "ev_event_id x \<in> set (queue (seen_ids t))")
    case True
    with t1 bs.ins_dup [OF Cons.prems(1) True] have "r = Drop" "t1 = t" by (auto simp: observe_replay_def)
    with Cons.IH [OF Cons.prems(1)] zs show ?thesis by auto
  next
    case False
    from observe_replay_fresh [OF Cons.prems(1) False] t1 have "r = Emit" "bs_inv (seen_ids t1)" "t_phase t1 = t_phase t"
      "set (queue (seen_ids t1)) \<subseteq> insert (ev_event_id x) (set (queue (seen_ids t)))" by auto
    with Cons.IH [of t1 zs] zs show ?thesis by (auto simp: subset_iff)
  qed
qed

lemma observe_live_step:
  assumes "at_live f t"
  shows "(s \<le> f \<longrightarrow> observe_live t k s = (OutOfOrder, t))
    \<and> (f < s \<longrightarrow> k \<in> set (queue (seen_ids t)) \<longrightarrow> observe_live t k s = (Drop, t))
    \<and> (f < s \<longrightarrow> k \<notin> set (queue (seen_ids t)) \<longrightarrow> (\<exists>t'. observe_live t k s = (Emit, t') \<and> at_live s t'
        \<and> set (queue (seen_ids t')) \<subseteq> insert k (set (queue (seen_ids t)))))"
  using assms bs.ins_dup [of "seen_ids t" k] bs.ins_new [of "seen_ids t" k]
  by (cases "bs_insert (seen_ids t) k")
    (auto simp: observe_live_def at_live_def not_le dest: in_set_dropD split: if_splits)

section \<open>The live tail\<close>

text \<open>The stream goes on after these turns: no error, no lag, no end of the channel.\<close>

fun goes_on :: "stream_args \<Rightarrow> env \<Rightarrow> nat \<Rightarrow> loop_turn list \<Rightarrow> nat option" where
  "goes_on a e last_check [] = Some last_check"
| "goes_on a e last_check (n # ns) =
     (case revalidate a e last_check n of Inl x \<Rightarrow> None
      | Inr last_check' \<Rightarrow> if tn_arrival n = Lagged \<or> tn_arrival n = Closed then None else goes_on a e last_check' ns)"

text \<open>What arrived on the channel, and what a client got from it: a heartbeat has no event id.\<close>

definition received :: "loop_turn list \<Rightarrow> envelope list" where
  "received ns = concat (map (\<lambda>n. case tn_arrival n of Received x \<Rightarrow> [x] | _ \<Rightarrow> []) ns)"

definition client_got :: "(cerr + envelope) list \<Rightarrow> envelope list" where
  "client_got items = filter (\<lambda>x. ev_event_id x \<noteq> '''') (List.map_filter (\<lambda>i. case i of Inr x \<Rightarrow> Some x | Inl _ \<Rightarrow> None) items)"

abbreviation seq_of :: "envelope \<Rightarrow> u64" where
  "seq_of x \<equiv> word_of_int (ev_nats_seq x)"

lemma received_simps [simp]:
  "received [] = []" "received (n # ns) = (case tn_arrival n of Received x \<Rightarrow> x # received ns | _ \<Rightarrow> received ns)"
  "received (ms @ ns) = received ms @ received ns"
  by (auto simp: received_def split: arrival.split)

lemma client_got_simps [simp]:
  "client_got [] = []" "client_got (Inl y # is) = client_got is"
  "client_got (Inr x # is) = (if ev_event_id x = '''' then client_got is else x # client_got is)"
  "client_got (is @ js) = client_got is @ client_got js"
  by (auto simp: client_got_def List.map_filter_def)

lemma heartbeat_no_id [simp]: "ev_event_id (heartbeat_envelope ms) = ''''"
  by (simp add: heartbeat_envelope_def system_envelope_def)

lemma tail_stops: "goes_on a e l ms = None \<Longrightarrow> tail a e l t (ms @ ns) = tail a e l t ms"
  by (induction ms arbitrary: l t) (auto split: sum.split arrival.split prod.split outcome.split if_splits)

text \<open>The tail after some turns is a tail, whose tracker has moved on by what they delivered.\<close>

lemma tail_goes_on:
  "goes_on a e l ms = Some l' \<Longrightarrow> at_live f t \<Longrightarrow>
   \<exists>f' t'. tail a e l t (ms @ ns) = tail a e l t ms @ tail a e l' t' ns \<and> at_live f' t' \<and> f \<le> f'
     \<and> (f' = f \<or> f' \<in> seq_of ` set (received ms))
     \<and> set (queue (seen_ids t')) \<subseteq> set (queue (seen_ids t)) \<union> ev_event_id ` set (received ms)"
proof (induction ms arbitrary: l f t)
  case Nil
  then show ?case by auto
next
  case (Cons n ms)
  from Cons.prems(1) obtain l1 where l1: "revalidate a e l n = Inr l1" "goes_on a e l1 ms = Some l'"
    "tn_arrival n \<noteq> Lagged" "tn_arrival n \<noteq> Closed" by (auto split: sum.splits if_splits)
  show ?case
  proof (cases "tn_arrival n")
    case (Beat bt)
    with Cons.IH [OF l1(2) Cons.prems(2)] l1 show ?thesis by auto
  next
    case (Received x)
    note step = observe_live_step [OF Cons.prems(2), of "seq_of x" "ev_event_id x"]
    show ?thesis
    proof (cases "f < seq_of x \<and> ev_event_id x \<notin> set (queue (seen_ids t))")
      case False
      with step obtain r where r: "observe_live t (ev_event_id x) (seq_of x) = (r, t)" "r \<noteq> Emit" by (auto simp: not_less)
      from Cons.IH [OF l1(2) Cons.prems(2)] obtain f' t' where
        "tail a e l1 t (ms @ ns) = tail a e l1 t ms @ tail a e l' t' ns" "at_live f' t'" "f \<le> f'"
        "f' = f \<or> f' \<in> seq_of ` set (received ms)"
        "set (queue (seen_ids t')) \<subseteq> set (queue (seen_ids t)) \<union> ev_event_id ` set (received ms)" by blast
      with r l1 Received show ?thesis
        by (intro exI [of _ f'] exI [of _ t']) (auto split: outcome.splits)
    next
      case True
      with step obtain t1 where t1: "observe_live t (ev_event_id x) (seq_of x) = (Emit, t1)" "at_live (seq_of x) t1"
        "set (queue (seen_ids t1)) \<subseteq> insert (ev_event_id x) (set (queue (seen_ids t)))" by auto
      from Cons.IH [OF l1(2) t1(2)] obtain f' t' where
        "tail a e l1 t1 (ms @ ns) = tail a e l1 t1 ms @ tail a e l' t' ns" "at_live f' t'" "seq_of x \<le> f'"
        "f' = seq_of x \<or> f' \<in> seq_of ` set (received ms)"
        "set (queue (seen_ids t')) \<subseteq> set (queue (seen_ids t1)) \<union> ev_event_id ` set (received ms)" by blast
      with t1 l1 Received True show ?thesis
        by (intro exI [of _ f'] exI [of _ t']) (auto simp: subset_iff)
    qed
  qed (use l1 in auto)
qed

lemma tail_increasing:
  "at_live f t \<Longrightarrow> sorted_wrt (\<lambda>x y. seq_of x < seq_of y) (client_got (tail a e l t ns))
     \<and> (\<forall>x \<in> set (client_got (tail a e l t ns)). f < seq_of x) \<and> subseq (client_got (tail a e l t ns)) (received ns)"
proof (induction ns arbitrary: f t l)
  case Nil
  then show ?case by simp
next
  case (Cons n ns)
  show ?case
  proof (cases "revalidate a e l n")
    case (Inr l1)
    show ?thesis
    proof (cases "tn_arrival n")
      case (Received x)
      note step = observe_live_step [OF Cons.prems, of "seq_of x" "ev_event_id x"]
      show ?thesis
      proof (cases "f < seq_of x \<and> ev_event_id x \<notin> set (queue (seen_ids t))")
        case False
        with step obtain r where "observe_live t (ev_event_id x) (seq_of x) = (r, t)" "r \<noteq> Emit" by (auto simp: not_less)
        with Cons.IH [OF Cons.prems, of l1] Inr Received show ?thesis by (cases r) auto
      next
        case True
        with step obtain t1 where "observe_live t (ev_event_id x) (seq_of x) = (Emit, t1)" "at_live (seq_of x) t1" by auto
        with Cons.IH [of "seq_of x" t1 l1] Inr Received True show ?thesis by (auto intro: less_trans)
      qed
    qed (use Cons.IH [OF Cons.prems, of l1] Inr in auto)
  qed simp
qed

section \<open>The opening\<close>

lemma each_maps:
  assumes "\<And>I x. keeps I (f x)" and "\<And>x w b w'. f x e w = (Inr b, w') \<Longrightarrow> db w = d \<Longrightarrow> g b = h x"
  shows "each f xs e w = (Inr ys, w') \<Longrightarrow> db w = d \<Longrightarrow> map g ys = map h xs"
proof (induction xs arbitrary: w ys)
  case Nil
  then show ?case by (simp add: ok_iffs)
next
  case (Cons x xs)
  from Cons.prems obtain y w1 zs where y: "f x e w = (Inr y, w1)" and zs: "each f xs e w1 = (Inr zs, w')" and "ys = y # zs"
    by (auto simp: ok_iffs)
  moreover have "db w1 = d" using keepsD [OF assms(1) [where I = "\<lambda>x. x = d"] _ y] Cons.prems(2) by simp
  ultimately show ?case using Cons.IH [OF zs] assms(2) [OF y Cons.prems(2)] by simp
qed

lemma keeps_cards_of_column [keeps_intros]: "keeps I (cards_of_column t c)"
  unfolding cards_of_column_def by (intro keeps_intros)

lemma full_card_id: "fetch_full_card cid t e w = (Inr m, w') \<Longrightarrow> cm_id m = id_str (codec e) cid"
  by (auto simp: fetch_full_card_def ok_iffs find_card_def find_Some_iff card_key_def hydrate_def Let_def card_from_row_def)

lemma cards_of_column_ids:
  assumes run: "cards_of_column t c e w = (Inr ms, w')" and d: "db w = d" and c: "c = column_from_row (codec e) k" and u: "ulid_crate (codec e)"
  shows "map cm_id ms = map (id_str (codec e)) (snapshot_cards t (k_id k) d)"
proof -
  have "id_from_str (codec e) (km_id c) = Inr (k_id k)" using c ulid_crate.id_from_str_show [OF u] by (simp add: column_from_row_def)
  with run d obtain w1 where "each (\<lambda>cid. fetch_full_card cid t) (snapshot_cards t (k_id k) d) e w1 = (Inr ms, w')"
    by (auto simp: cards_of_column_def ok_iffs split: sum.splits)
  from each_maps [where f = "\<lambda>cid. fetch_full_card cid t" and g = cm_id and h = "id_str (codec e)" and d = "db w1", OF _ _ this]
  show ?thesis by (auto intro: keeps_intros dest: full_card_id)
qed

lemma snapshot_read:
  assumes run: "read_board_snapshot t b e w = (Inr (cols, ms, n), w')" and u: "ulid_crate (codec e)"
  defines "rows \<equiv> snapshot_columns (codec e) t b (db w)"
  shows "cols = map (column_from_row (codec e)) rows
    \<and> map cm_id ms = concat (map (\<lambda>k. map (id_str (codec e)) (snapshot_cards t (k_id k) (db w))) rows)
    \<and> n = word_of_int (last_replayed (codec e) t b (db w))"
proof -
  from run obtain css where css: "each (cards_of_column t) cols e (tick (tick w)) = (Inr css, w')" and ms: "ms = concat css"
    and cols: "cols = map (column_from_row (codec e)) rows" and n: "n = word_of_int (last_replayed (codec e) t b (db w))"
    unfolding rows_def by (auto simp: read_board_snapshot_def ok_iffs Let_def)
  have "each (\<lambda>k. cards_of_column t (column_from_row (codec e) k)) rows e (tick (tick w)) = (Inr css, w')"
  proof -
    have "each f (map g xs) = each (\<lambda>x. f (g x)) xs" for f :: "column_msg \<Rightarrow> (cerr, card_msg list) act" and g :: "column_row \<Rightarrow> column_msg" and xs
      by (induction xs) simp_all
    with css cols show ?thesis by simp
  qed
  from each_maps [where g = "map cm_id" and h = "\<lambda>k. map (id_str (codec e)) (snapshot_cards t (k_id k) (db w))" and d = "db w",
      OF _ _ this]
  have "map (map cm_id) css = map (\<lambda>k. map (id_str (codec e)) (snapshot_cards t (k_id k) (db w))) rows"
    using cards_of_column_ids [OF _ _ refl u] by (auto intro: keeps_intros)
  with cols n ms show ?thesis by (simp add: map_concat)
qed

lemma envelopes_of_snapshot:
  assumes "inj (new_ulid e)" and u: "ulid_crate (codec e)"
  shows "each (snapshot_envelope b) ps e w = (Inr xs, w') \<Longrightarrow> map ev_payload xs = map Some ps \<and> distinct (map ev_event_id xs)
    \<and> (\<forall>x \<in> set xs. ev_board_id x = b \<and> ev_nats_seq x = 0 \<and> ev_actor_subject x = ''system''
         \<and> (\<exists>n \<ge> step w. ev_event_id x = id_str (codec e) (Ident (new_ulid e n) Ulid)))"
proof (induction ps arbitrary: w xs)
  case Nil
  then show ?case by (simp add: ok_iffs)
next
  case (Cons p ps)
  from Cons.prems obtain y ys where y: "y = (system_envelope p)\<lparr>ev_board_id := b, ev_event_id := id_str (codec e) (Ident (new_ulid e (step w)) Ulid)\<rparr>"
    and ys: "each (snapshot_envelope b) ps e (tick w) = (Inr ys, w')" and xs: "xs = y # ys"
    by (auto simp: ok_iffs) (auto simp: snapshot_envelope_def ok_iffs)
  note IH = Cons.IH [OF ys]
  have "ev_event_id y \<notin> ev_event_id ` set ys"
  proof
    assume "ev_event_id y \<in> ev_event_id ` set ys"
    with IH obtain n where "Suc (step w) \<le> n" "id_str (codec e) (Ident (new_ulid e (step w)) Ulid) = id_str (codec e) (Ident (new_ulid e n) Ulid)"
      unfolding y by (auto simp: tick_def)
    then show False using ulid_crate.id_str_inject [OF u] assms(1) by (auto dest: injD)
  qed
  moreover have "\<exists>n \<ge> step w. ev_event_id x = id_str (codec e) (Ident (new_ulid e n) Ulid)" if "x \<in> set xs" for x
    using that IH y xs by (auto simp: tick_def intro: Suc_leD)
  ultimately show ?case using IH y xs by (simp add: system_envelope_def)
qed

lemma start_fresh:
  assumes run: "stream_start a opened e w = (Inr (shown, t), w')" and since: "sa_since_seq a = 0"
  obtains cols ms n w1 envs ys t1 where "read_board_snapshot (sa_tenant a) (sa_board_id a) e w = (Inr (cols, ms, n), w1)"
    "each (snapshot_envelope (sa_board_id a)) (map column_added cols @ map card_created ms) e w1 = (Inr envs, w')"
    "replay (with_capacity (sa_seen_capacity a)) envs = (ys, t1)" "shown = ys @ [cutover_envelope n]" "t = cutover_to_live t1 n"
proof -
  from run since obtain cols ms n w1 envs where r: "read_board_snapshot (sa_tenant a) (sa_board_id a) e w = (Inr (cols, ms, n), w1)"
    "each (snapshot_envelope (sa_board_id a)) (map column_added cols @ map card_created ms) e w1 = (Inr envs, w')"
    "shown = fst (replay (with_capacity (sa_seen_capacity a)) envs) @ [cutover_envelope n]"
    "t = cutover_to_live (snd (replay (with_capacity (sa_seen_capacity a)) envs)) n"
    by (auto simp: stream_start_def Let_def ok_iffs case_prod_beta split: sum.splits)
  show thesis by (rule that [OF r(1,2) _ r(3,4)]) simp
qed

lemma start_live:
  assumes run: "stream_start a opened e w = (Inr (shown, t), w')" and u: "ulid_crate (codec e)"
  defines "f \<equiv> if sa_since_seq a = 0 then word_of_int (last_replayed (codec e) (sa_tenant a) (sa_board_id a) (db w)) else sa_since_seq a"
  shows "at_live f t \<and> last shown = cutover_envelope f \<and> set (queue (seen_ids t)) \<subseteq> ev_event_id ` set shown"
proof -
  let ?t0 = "with_capacity (sa_seen_capacity a)"
  have t0: "bs_inv (seen_ids ?t0)" "t_phase ?t0 = Replay" "queue (seen_ids ?t0) = []"
    using bs_inv_new by (simp_all add: with_capacity_def bs_new_def)
  have cut: "at_live f (cutover_to_live t1 f) \<and> seen_ids (cutover_to_live t1 f) = seen_ids t1"
    if "bs_inv (seen_ids t1)" "t_phase t1 = Replay" for t1
    using that by (simp add: at_live_def cutover_to_live_def)
  show ?thesis
  proof (cases "sa_since_seq a = 0")
    case False
    with run cut [OF t0(1,2)] t0(3) show ?thesis by (auto simp: stream_start_def f_def Let_def ok_iffs split: sum.splits)
  next
    case True
    obtain cols ms n w1 envs ys t1 where snap: "read_board_snapshot (sa_tenant a) (sa_board_id a) e w = (Inr (cols, ms, n), w1)"
      and ys: "replay ?t0 envs = (ys, t1)" and st: "shown = ys @ [cutover_envelope n]" "t = cutover_to_live t1 n"
      using start_fresh [OF run True] by metis
    from snapshot_read [OF snap u] True have "n = f" by (simp add: f_def)
    with replay_keeps [OF t0(1) ys] t0 cut [of t1] st show ?thesis by auto
  qed
qed

section \<open>What a subscriber receives\<close>

text \<open>
  A fresh subscription opens with the board as it is: if the stream opens at all, its first items are
  ColumnAdded for every column of the board in order of position and CardCreated for every card of these
  columns, column by column in order of position, each a system event of sequence 0 with an id of its own, and
  then the cutover at the highest sequence that was dispatched for the board; the dedup window drops none
  of them, whatever its capacity.
\<close>

theorem stream_opens_with_board:
  assumes run: "stream_start a opened e w = (Inr (shown, t), w')" and since: "sa_since_seq a = 0"
    and ids: "inj (new_ulid e)" and u: "ulid_crate (codec e)"
  defines "rows \<equiv> snapshot_columns (codec e) (sa_tenant a) (sa_board_id a) (db w)"
    and "cutover \<equiv> word_of_int (last_replayed (codec e) (sa_tenant a) (sa_board_id a) (db w)) :: u64"
  shows "\<exists>ms. map cm_id ms = concat (map (\<lambda>k. map (id_str (codec e)) (snapshot_cards (sa_tenant a) (k_id k) (db w))) rows)
    \<and> map ev_payload shown = map Some (map (column_added \<circ> column_from_row (codec e)) rows @ map card_created ms @ [Cutover (uint cutover)])
    \<and> (\<forall>x \<in> set shown. ev_nats_seq x = 0 \<and> ev_actor_subject x = ''system'') \<and> distinct (map ev_event_id (butlast shown))"
proof -
  let ?t0 = "with_capacity (sa_seen_capacity a)"
  obtain cols ms n w1 w2 envs ys t1
    where snap: "read_board_snapshot (sa_tenant a) (sa_board_id a) e w = (Inr (cols, ms, n), w1)"
      and envs: "each (snapshot_envelope (sa_board_id a)) (map column_added cols @ map card_created ms) e w1 = (Inr envs, w2)"
      and ys: "replay ?t0 envs = (ys, t1)" and shown: "shown = ys @ [cutover_envelope n]"
    using start_fresh [OF run since] by metis
  note s = snapshot_read [OF snap u, folded rows_def cutover_def] and x = envelopes_of_snapshot [OF ids u envs]
  have "ys = envs" using replay_all [of ?t0 envs] ys x bs_inv_new by (auto simp: with_capacity_def bs_new_def)
  with s x shown show ?thesis
    by (intro exI [of _ ms]) (auto simp: cutover_envelope_def system_envelope_def)
qed

text \<open>
  After the cutover every event of the board reaches the subscriber once and in order: the events delivered
  are a subsequence of those received, with strictly increasing sequences above the cutover. Nothing new
  is lost: as long as the stream goes on, an event is delivered if its sequence exceeds the cutover
  and that of every event received before and its id is none of theirs, nor of an item of the opening.
\<close>

theorem live_events_delivered:
  assumes run: "stream_start a opened e w = (Inr (shown, t), w')" and u: "ulid_crate (codec e)"
  shows "\<exists>f. last shown = cutover_envelope f \<and> (\<forall>turns. \<exists>items. board_stream a opened started turns e w = map Inr shown @ items
      \<and> subseq (client_got items) (received turns) \<and> sorted_wrt (\<lambda>x y. seq_of x < seq_of y) (client_got items)
      \<and> (\<forall>x \<in> set (client_got items). f < seq_of x)
      \<and> (\<forall>ms n ns x. turns = ms @ n # ns \<longrightarrow> tn_arrival n = Received x \<longrightarrow> goes_on a e started (ms @ [n]) \<noteq> None \<longrightarrow> ev_event_id x \<noteq> ''''
           \<longrightarrow> f < seq_of x \<longrightarrow> (\<forall>y \<in> set (received ms). seq_of y < seq_of x \<and> ev_event_id y \<noteq> ev_event_id x)
           \<longrightarrow> ev_event_id x \<notin> ev_event_id ` set shown \<longrightarrow> x \<in> set (client_got items)))"
proof -
  obtain f where f: "at_live f t" "last shown = cutover_envelope f" "set (queue (seen_ids t)) \<subseteq> ev_event_id ` set shown"
    using start_live [OF run u] by blast
  have new: "x \<in> set (client_got (tail a e started t (ms @ n # ns)))"
    if n: "tn_arrival n = Received x" "goes_on a e started (ms @ [n]) \<noteq> None" "ev_event_id x \<noteq> ''''" "f < seq_of x"
      "\<forall>y \<in> set (received ms). seq_of y < seq_of x \<and> ev_event_id y \<noteq> ev_event_id x" "ev_event_id x \<notin> ev_event_id ` set shown" for ms n ns x
  proof -
    have split: "goes_on a e l (ms @ [n]) = Option.bind (goes_on a e l ms) (\<lambda>l'. goes_on a e l' [n])" for l ms
      by (induction ms arbitrary: l) (auto split: sum.split)
    from n(2) obtain l where l: "goes_on a e started ms = Some l" "goes_on a e l [n] \<noteq> None"
      unfolding split by (cases "goes_on a e started ms") auto
    from tail_goes_on [OF l(1) f(1), of "n # ns"] obtain f' t' where t': "at_live f' t'"
      "tail a e started t (ms @ n # ns) = tail a e started t ms @ tail a e l t' (n # ns)" "f' = f \<or> f' \<in> seq_of ` set (received ms)"
      "set (queue (seen_ids t')) \<subseteq> set (queue (seen_ids t)) \<union> ev_event_id ` set (received ms)" by blast
    have "f' < seq_of x" using t'(3) n(4,5) by auto
    moreover have "ev_event_id x \<notin> set (queue (seen_ids t'))" using t'(4) f(3) n(5,6) by (fastforce simp: subset_iff)
    ultimately obtain t2 where "observe_live t' (ev_event_id x) (seq_of x) = (Emit, t2)"
      using observe_live_step [OF t'(1), of "seq_of x" "ev_event_id x"] by blast
    then show ?thesis using t'(2) l(2) n(1,3) by (auto split: sum.splits)
  qed
  have "board_stream a opened started turns e w = map Inr shown @ tail a e started t turns" for turns
    using run by (simp add: board_stream_def)
  then show ?thesis using f(2) tail_increasing [OF f(1)] new by (intro exI [of _ f]) blast
qed

section \<open>Who may listen\<close>

text \<open>The gateway's answer at a turn.\<close>

definition viewer_at :: "stream_args \<Rightarrow> env \<Rightarrow> loop_turn \<Rightarrow> bool" where
  "viewer_at a e n \<longleftrightarrow> fga_check e (tuples (tn_world n)) (sa_permission a) PERMISSION_TYPE_BOARD (sa_board_id a) ''view'' (case auth_subject (sa_auth a) of Some s \<Rightarrow> s | None \<Rightarrow> '''')"

lemma revalidate_private:
  assumes "revalidate a e l n = Inr l'" and "sa_is_private a"
  shows "l' = l \<and> tn_clock n - l < sa_recheck_interval a \<or> l' = tn_checked n \<and> viewer_at a e n"
proof (cases "sa_recheck_interval a \<le> tn_clock n - l")
  case True
  obtain r w1 where r: "revalidate_permission (sa_permission a) (sa_auth a) PERMISSION_TYPE_BOARD (sa_board_id a) e (tn_world n) = (r, w1)"
    by fastforce
  with assms True have "r = Inr True" "l' = tn_checked n"
    by (auto simp: revalidate_def revalidate_token_def split: sum.splits bool.splits)
  with r show ?thesis by (auto simp: revalidate_permission_def viewer_at_def ok_iffs dest: check_with_retry_answer)
qed (use assms in \<open>simp add: revalidate_def revalidate_token_def\<close>)

text \<open>
  A private board is not streamed long after the permission is gone: whenever the loop of such a stream
  waits for its next item, less than the recheck interval has passed since the stream began or since a
  check that found the caller allowed to view the board; and if a recheck is due while the gateway refuses,
  the stream ends with an error, whatever else would have arrived.
\<close>

theorem private_stream_rechecked:
  assumes hidden: "sa_is_private a" "0 < sa_recheck_interval a" and clocks: "\<forall>n \<in> set turns. tn_clock n \<le> tn_checked n"
  shows "(\<forall>ms n ns. turns = ms @ n # ns \<longrightarrow> goes_on a e started (ms @ [n]) \<noteq> None \<longrightarrow>
      (\<exists>c. tn_clock n - c < sa_recheck_interval a \<and> (c = started \<or> (\<exists>m \<in> set (ms @ [n]). c = tn_checked m \<and> viewer_at a e m))))
    \<and> (\<forall>ms n ns c. turns = ms @ n # ns \<longrightarrow> goes_on a e started ms = Some c \<longrightarrow> sa_recheck_interval a \<le> tn_clock n - c \<longrightarrow> \<not> viewer_at a e n
      \<longrightarrow> ulid_crate (codec e) \<longrightarrow> fst (stream_start a opened e w) = Inr (shown, t) \<longrightarrow>
      (\<exists>x. board_stream a opened started turns e w = board_stream a opened started ms e w @ [Inl x]))"
proof (intro conjI allI impI)
  have checked: "goes_on a e l ms = Some c \<Longrightarrow> c = l \<or> (\<exists>m \<in> set ms. c = tn_checked m \<and> viewer_at a e m)" for ms l c
  proof (induction ms arbitrary: l)
    case (Cons n ms)
    then obtain l1 where "revalidate a e l n = Inr l1" "goes_on a e l1 ms = Some c" by (auto split: sum.splits if_splits)
    with Cons.IH revalidate_private [OF _ hidden(1)] show ?case by fastforce
  qed simp
  have split: "goes_on a e l (ms @ [n]) = Option.bind (goes_on a e l ms) (\<lambda>l'. goes_on a e l' [n])" for l ms n
    by (induction ms arbitrary: l) (auto split: sum.split)
  fix ms n ns
  assume turns: "turns = ms @ n # ns"
  {
    assume "goes_on a e started (ms @ [n]) \<noteq> None"
    then obtain c l where c: "goes_on a e started ms = Some c" "revalidate a e c n = Inr l"
      unfolding split by (cases "goes_on a e started ms") (auto split: sum.splits)
    from revalidate_private [OF c(2) hidden(1)] show
      "\<exists>c. tn_clock n - c < sa_recheck_interval a \<and> (c = started \<or> (\<exists>m \<in> set (ms @ [n]). c = tn_checked m \<and> viewer_at a e m))"
    proof
      assume "l = c \<and> tn_clock n - c < sa_recheck_interval a"
      with checked [OF c(1)] show ?thesis by auto
    next
      assume "l = tn_checked n \<and> viewer_at a e n"
      moreover have "tn_clock n - tn_checked n < sa_recheck_interval a" using clocks hidden(2) turns by simp
      ultimately show ?thesis by auto
    qed
  }
  fix c
  assume c: "goes_on a e started ms = Some c" and due: "sa_recheck_interval a \<le> tn_clock n - c" and no: "\<not> viewer_at a e n"
    and u: "ulid_crate (codec e)" and start: "fst (stream_start a opened e w) = Inr (shown, t)"
  obtain w' where "stream_start a opened e w = (Inr (shown, t), w')" using start by (cases "stream_start a opened e w") simp
  from start_live [OF this u] obtain f where f: "at_live f t" by blast
  have "\<exists>x. revalidate a e c n = Inl x"
    using revalidate_private [OF _ hidden(1), of e c n] due no by (cases "revalidate a e c n") auto
  then obtain x where "tail a e c t' (n # ns) = [Inl x]" for t' by auto
  with tail_goes_on [OF c f, of "n # ns"] turns start show "\<exists>x. board_stream a opened started turns e w = board_stream a opened started ms e w @ [Inl x]"
    by (auto simp: board_stream_def)
qed

end
