(* ===== verification/Card_Moves.thy ===== *)
theory Card_Moves
  imports Card_Writes
begin

text \<open>
  \<open>src/services/cards.rs\<close>, lines 1263 to 1874: MoveCard, TransferCard and DeleteCard.
\<close>

section \<open>MoveCard\<close>

record move_card_request =
  mv_to_column_id :: string
  mv_to_position :: int
  mv_idempotency_key :: string

text \<open>The completion rule: into a done column the time is set once, out of one it is cleared.\<close>

definition completed_after :: "bool \<Rightarrow> bool \<Rightarrow> datetime \<Rightarrow> datetime option \<Rightarrow> datetime option" where
  "completed_after to_done leaves_done now t =
     (if to_done then (case t of Some x \<Rightarrow> Some x | None \<Rightarrow> Some now)
      else if leaves_done then None else t)"

definition place_card ::
  "ident \<Rightarrow> ident \<Rightarrow> int \<Rightarrow> bool \<Rightarrow> bool \<Rightarrow> datetime \<Rightarrow> card_row \<Rightarrow> card_row" where
  "place_card to_col to_board to_pos to_done leaves_done now c = c\<lparr>
     c_column := to_col, c_board := to_board, c_position := to_pos, c_revision := c_revision c + 1,
     c_completed := completed_after to_done leaves_done now (c_completed c), c_updated := now\<rparr>"

definition moved_payload ::
  "ulid_codec \<Rightarrow> ident \<Rightarrow> ident \<Rightarrow> ident \<Rightarrow> int \<Rightarrow> int \<Rightarrow> int \<Rightarrow> string \<Rightarrow> (string \<times> json) list" where
  "moved_payload u cid from_col to_col to_pos prev_revision new_revision key =
     [jstr ''card_id'' (id_str u cid), jstr ''from_column'' (id_str u from_col),
      jstr ''to_column'' (id_str u to_col), jnum ''to_position'' to_pos,
      jnum ''prev_revision'' prev_revision, jnum ''new_revision'' new_revision,
      jstr ''idempotency_key'' key]"

text \<open>The shifts of the other cards, before the card itself is placed.\<close>

definition shift_for_move :: "string \<Rightarrow> ident \<Rightarrow> int \<Rightarrow> ident \<Rightarrow> int \<Rightarrow> (cerr, unit) act" where
  "shift_for_move tenant from_col from_pos to_col to_pos =
     (if from_col = to_col then
        (if from_pos \<noteq> to_pos then
           (if to_pos > from_pos then
              internal ''failed to shift (same-col forward)'' (exec (shift_sql
                (\<lambda>c. in_column from_col tenant c \<and> from_pos < c_position c \<and> c_position c \<le> to_pos) (-1)))
            else
              internal ''failed to shift (same-col backward)'' (exec (shift_sql
                (\<lambda>c. in_column from_col tenant c \<and> to_pos \<le> c_position c \<and> c_position c < from_pos) 1)))
         else ret ())
      else
        bnd (internal ''failed to close source gap'' (exec (shift_sql
               (\<lambda>c. in_column from_col tenant c \<and> from_pos < c_position c) (-1)))) (\<lambda>_.
        internal ''failed to open target slot'' (exec (shift_sql
               (\<lambda>c. in_column to_col tenant c \<and> to_pos \<le> c_position c) 1))))"

definition move_card_tx ::
  "string \<Rightarrow> card_row \<Rightarrow> ident \<Rightarrow> ident \<Rightarrow> int \<Rightarrow> bool \<Rightarrow> bool \<Rightarrow> string \<Rightarrow> (cerr, unit) act" where
  "move_card_tx tenant cur to_col to_board to_pos to_done from_done key =
     bnd (shift_for_move tenant (c_column cur) (c_position cur) to_col to_pos) (\<lambda>_.
     bnd (internal ''failed to place card at new position'' (fetch_one (update_card_sql (c_id cur) tenant
            (\<lambda>d c. fk_ok d c \<and> i32_ok (c_position c))
            (place_card to_col to_board to_pos to_done (from_done \<and> \<not> to_done))))) (\<lambda>new_revision.
     bnd (ask codec) (\<lambda>u.
     insert_board_event tenant (c_board cur) ''CardMoved''
       (JObj (moved_payload u (c_id cur) (c_column cur) to_col to_pos (c_revision cur) new_revision key)))))"

definition move_card :: "request_context \<Rightarrow> move_card_request \<Rightarrow> (cerr, card_msg) act" where
  "move_card ctx req =
     bnd (checked_object_id ctx) (\<lambda>object_id.
     bnd (parse_id ''invalid card_id'' object_id) (\<lambda>card_id.
     bnd (tenant_id_from_request ctx) (\<lambda>tenant.
     bnd (parse_id ''invalid to_column_id'' (mv_to_column_id req)) (\<lambda>to_col_id.
     bnd (check_idempotency_card tenant (mv_idempotency_key req)) (\<lambda>existing.
     case existing of
       Some _ \<Rightarrow> fetch_full_card card_id tenant
     | None \<Rightarrow>
         bnd (internal ''failed to fetch card'' (select (find_card card_id tenant))) (\<lambda>r.
         bnd (ok_or (NotFound, ''card not found'') r) (\<lambda>cur.
         bnd (internal ''failed to fetch target column'' (select (find_column to_col_id tenant))) (\<lambda>k.
         bnd (ok_or (NotFound, ''target column not found'') k) (\<lambda>to_col.
         bnd (if c_column cur = to_col_id then ret (k_is_done to_col)
              else
                bnd (internal ''failed to fetch source column'' (select (find_column (c_column cur) tenant))) (\<lambda>k.
                ret (case k of Some x \<Rightarrow> k_is_done x | None \<Rightarrow> False))) (\<lambda>from_done.
         bnd (internal ''failed to fetch target board'' (select (find_board (k_board to_col) tenant))) (\<lambda>b.
         bnd (ok_or (NotFound, ''target board not found'') b) (\<lambda>target_board.
         bnd (require (c_project cur = b_project target_board)
               (InvalidArgument, ''cards do not move between projects'')) (\<lambda>_.
         let to_pos = (if mv_to_position req < 1 then 0 else mv_to_position req - 1) in
         bnd (in_tx (move_card_tx tenant cur to_col_id (k_board to_col) to_pos (k_is_done to_col) from_done
               (mv_idempotency_key req))) (\<lambda>_.
         bnd (if k_board to_col \<noteq> c_board cur then
                bnd (tenant_client_for ctx) (\<lambda>permission.
                bnd (revoke_parent permission card_id (c_board cur)) (\<lambda>_.
                grant_parent permission card_id (k_board to_col)))
              else ret ()) (\<lambda>_.
         bnd (store_idempotency_card tenant (mv_idempotency_key req) card_id) (\<lambda>_.
         fetch_full_card card_id tenant))))))))))))))))"

section \<open>TransferCard\<close>

record transfer_card_request =
  tr_target_board_id :: string
  tr_target_column_id :: string
  tr_idempotency_key :: string

definition transfer_place ::
  "ident \<Rightarrow> ident \<Rightarrow> ident \<Rightarrow> string \<Rightarrow> int \<Rightarrow> bool \<Rightarrow> bool \<Rightarrow> datetime \<Rightarrow> card_row \<Rightarrow> card_row" where
  "transfer_place project bid col new_ref to_pos to_done leaves_done now c = c\<lparr>
     c_project := project, c_board := bid, c_column := col, c_ref := new_ref, c_position := to_pos,
     c_milestone := None, c_revision := c_revision c + 1,
     c_completed := completed_after to_done leaves_done now (c_completed c), c_updated := now\<rparr>"

text \<open>UNIQUE (tenant_id, project_id, ref), against the other rows.\<close>

definition ref_free :: "db \<Rightarrow> card_row \<Rightarrow> bool" where
  "ref_free d c \<longleftrightarrow> ref_key c \<notin> ref_key ` {x \<in> set (cards d). c_id x \<noteq> c_id c}"

definition transferred_payload ::
  "ulid_codec \<Rightarrow> card_row \<Rightarrow> ident \<Rightarrow> ident \<Rightarrow> int \<Rightarrow> int \<Rightarrow> string \<Rightarrow> (string \<times> json) list" where
  "transferred_payload u cur to_board to_col to_pos new_revision key =
     [jstr ''card_id'' (id_str u (c_id cur)), jstr ''from_board_id'' (id_str u (c_board cur)),
      jstr ''to_board_id'' (id_str u to_board), jstr ''to_column_id'' (id_str u to_col),
      jnum ''to_position'' to_pos, jstr ''previous_ref'' (c_ref cur),
      jnum ''prev_revision'' (c_revision cur), jnum ''new_revision'' new_revision,
      jstr ''idempotency_key'' key]"

definition transfer_card_tx ::
  "string \<Rightarrow> card_row \<Rightarrow> ident \<Rightarrow> ident \<Rightarrow> ident \<Rightarrow> bool \<Rightarrow> bool \<Rightarrow> string \<Rightarrow> (cerr, unit) act" where
  "transfer_card_tx tenant cur project to_board to_col to_done from_done key =
     bnd (allocate_card_ref project tenant) (\<lambda>new_ref.
     bnd (internal ''failed to allocate target position'' (stmt (next_position_sql to_col tenant))) (\<lambda>to_pos.
     bnd (internal ''failed to relocate card'' (fetch_one (update_card_sql (c_id cur) tenant
            (\<lambda>d c. fk_ok d c \<and> ref_free d c \<and> i32_ok (c_position c))
            (transfer_place project to_board to_col new_ref to_pos to_done (from_done \<and> \<not> to_done))))) (\<lambda>new_revision.
     bnd (internal ''failed to scrub project-scoped labels'' (exec (scrub_labels_sql (c_id cur) project))) (\<lambda>_.
     bnd (ask codec) (\<lambda>u.
     let payload = JObj (transferred_payload u cur to_board to_col to_pos new_revision key) in
     bnd (insert_board_event tenant (c_board cur) ''CardTransferred'' payload) (\<lambda>_.
     insert_board_event tenant to_board ''CardTransferred'' payload))))))"

text \<open>
  The previous ref of a replayed transfer: \<open>payload->>'previous_ref'\<close> of the latest matching
  event. A SQL NULL there would panic in the code; the service always writes the field.
\<close>

definition transfer_event :: "string \<Rightarrow> string \<Rightarrow> string \<Rightarrow> event_row \<Rightarrow> bool" where
  "transfer_event tenant cid key r \<longleftrightarrow> e_tenant r = tenant \<and> e_type r = ''CardTransferred''
     \<and> json_field_text (e_payload r) ''card_id'' = Some cid
     \<and> json_field_text (e_payload r) ''idempotency_key'' = Some key"

definition previous_ref_of :: "string \<Rightarrow> string \<Rightarrow> string \<Rightarrow> db \<Rightarrow> string" where
  "previous_ref_of tenant cid key d =
     (case sort_rows (\<lambda>a b. dt_le (e_created b) (e_created a)) (filter (transfer_event tenant cid key) (event_log d)) of
        [] \<Rightarrow> ''''
      | r # _ \<Rightarrow> (case json_field_text (e_payload r) ''previous_ref'' of Some s \<Rightarrow> s | None \<Rightarrow> ''''))"

definition transfer_card :: "request_context \<Rightarrow> transfer_card_request \<Rightarrow> (cerr, card_msg \<times> string) act" where
  "transfer_card ctx req =
     bnd (checked_object_id ctx) (\<lambda>object_id.
     bnd (parse_id ''invalid card_id'' object_id) (\<lambda>card_id.
     bnd (tenant_id_from_request ctx) (\<lambda>tenant.
     bnd (parse_id ''invalid target_board_id'' (tr_target_board_id req)) (\<lambda>to_board.
     bnd (parse_id ''invalid target_column_id'' (tr_target_column_id req)) (\<lambda>to_col.
     bnd (check_idempotency_card tenant (tr_idempotency_key req)) (\<lambda>existing.
     bnd (ask codec) (\<lambda>u.
     case existing of
       Some _ \<Rightarrow>
         bnd (internal ''failed to recover previous ref''
               (select (previous_ref_of tenant (id_str u card_id) (tr_idempotency_key req)))) (\<lambda>previous_ref.
         bnd (fetch_full_card card_id tenant) (\<lambda>card.
         ret (card, previous_ref)))
     | None \<Rightarrow>
         bnd (internal ''failed to fetch card'' (select (find_card card_id tenant))) (\<lambda>r.
         bnd (ok_or (NotFound, ''card not found'') r) (\<lambda>cur.
         bnd (internal ''failed to fetch target board'' (select (find_board to_board tenant))) (\<lambda>b.
         bnd (ok_or (NotFound, ''target board not found'') b) (\<lambda>target_board.
         bnd (require (c_project cur \<noteq> b_project target_board)
               (InvalidArgument, ''target board is in the same project; use MoveCard'')) (\<lambda>_.
         bnd (subject_from_request ctx) (\<lambda>sub.
         bnd (tenant_client_for ctx) (\<lambda>permission.
         bnd (internal ''failed to check target board permission''
               (check_permission_with_retry permission PERMISSION_TYPE_BOARD (id_str u to_board) ''edit'' sub)) (\<lambda>allowed.
         bnd (require allowed (PermissionDenied, ''edit required on the target board'')) (\<lambda>_.
         bnd (internal ''failed to fetch target column'' (select (find_column to_col tenant))) (\<lambda>k.
         bnd (ok_or (NotFound, ''target column not found'') k) (\<lambda>target_col.
         bnd (require (k_board target_col = to_board)
               (InvalidArgument, ''target column does not belong to the target board'')) (\<lambda>_.
         bnd (internal ''failed to fetch source column'' (select (find_column (c_column cur) tenant))) (\<lambda>fk.
         let from_done = (case fk of Some x \<Rightarrow> k_is_done x | None \<Rightarrow> False) in
         bnd (in_tx (transfer_card_tx tenant cur (b_project target_board) to_board to_col
               (k_is_done target_col) from_done (tr_idempotency_key req))) (\<lambda>_.
         bnd (revoke_parent permission card_id (c_board cur)) (\<lambda>_.
         bnd (grant_parent permission card_id to_board) (\<lambda>_.
         bnd (store_idempotency_card tenant (tr_idempotency_key req) card_id) (\<lambda>_.
         bnd (fetch_full_card card_id tenant) (\<lambda>card.
         ret (card, c_ref cur))))))))))))))))))))))))))"

section \<open>DeleteCard\<close>

definition deleted_payload :: "ulid_codec \<Rightarrow> card_row \<Rightarrow> (string \<times> json) list" where
  "deleted_payload u cur =
     [jstr ''card_id'' (id_str u (c_id cur)), jstr ''board_id'' (id_str u (c_board cur)),
      jnum ''prev_revision'' (c_revision cur)]"

definition delete_card_tx :: "string \<Rightarrow> card_row \<Rightarrow> (cerr, unit) act" where
  "delete_card_tx tenant cur =
     bnd (internal ''failed to delete card'' (stmt (delete_card_sql (c_id cur) tenant))) (\<lambda>n.
     bnd (require (n \<noteq> 0) (NotFound, ''card not found'')) (\<lambda>_.
     bnd (ask codec) (\<lambda>u.
     insert_board_event tenant (c_board cur) ''CardDeleted'' (JObj (deleted_payload u cur)))))"

definition delete_card :: "request_context \<Rightarrow> (cerr, unit) act" where
  "delete_card ctx =
     bnd (checked_object_id ctx) (\<lambda>object_id.
     bnd (parse_id ''invalid card_id'' object_id) (\<lambda>card_id.
     bnd (tenant_id_from_request ctx) (\<lambda>tenant.
     bnd (internal ''failed to fetch card'' (select (find_card card_id tenant))) (\<lambda>r.
     bnd (ok_or (NotFound, ''card not found'') r) (\<lambda>cur.
     bnd (in_tx (delete_card_tx tenant cur)) (\<lambda>_.
     bnd (tenant_client_for ctx) (\<lambda>permission.
     bnd (ask codec) (\<lambda>u.
     bnd (attempt (delete_relation_tuples permission PERMISSION_TYPE_CARD (Some (id_str u card_id)) None None)) (\<lambda>_.
     ret ())))))))))"

end
