(* ===== verification/Card_Items.thy ===== *)
theory Card_Items
  imports Card_Moves
begin

text \<open>
  \<open>src/services/cards.rs\<close>, lines 1876 to 2844: dependencies between cards, bulk labels,
  assignees and checklist items.
\<close>

text \<open>The end of every mutation of one card: its revision, then the event with both revisions.\<close>

definition revisions :: "ulid_codec \<Rightarrow> ident \<Rightarrow> int \<Rightarrow> int \<Rightarrow> (string \<times> json) list" where
  "revisions u cid prev_revision new_revision =
     [jstr ''card_id'' (id_str u cid), jnum ''prev_revision'' prev_revision,
      jnum ''new_revision'' new_revision]"

definition touch_and_log :: "string \<Rightarrow> card_row \<Rightarrow> (ulid_codec \<Rightarrow> (string \<times> json) list) \<Rightarrow> (cerr, unit) act" where
  "touch_and_log tenant cur extra =
     bnd (internal ''failed to bump revision'' (fetch_one (bump_card_sql (c_id cur) tenant))) (\<lambda>new_revision.
     bnd (ask codec) (\<lambda>u.
     insert_board_event tenant (c_board cur) ''CardUpdated''
       (JObj (revisions u (c_id cur) (c_revision cur) new_revision @ extra u))))"

text \<open>\<open>SELECT board_id, revision FROM cards\<close>, with \<open>not_found\<close> when there is no such card.\<close>

definition fetch_current :: "ident \<Rightarrow> string \<Rightarrow> (cerr, card_row) act" where
  "fetch_current card_id tenant =
     bnd (internal ''failed to fetch card'' (select (find_card card_id tenant))) (\<lambda>r.
     ok_or (NotFound, ''card not found'') r)"

section \<open>Dependencies\<close>

record dependency_request =
  dp_card_id :: string
  dp_depends_on_card_id :: string
  dp_idempotency_key :: string

definition dependency_payload ::
  "ulid_codec \<Rightarrow> ident \<Rightarrow> ident \<Rightarrow> string \<Rightarrow> ident \<Rightarrow> int \<Rightarrow> int \<Rightarrow> string \<Rightarrow> (string \<times> json) list" where
  "dependency_payload u cid bid other_key other prev_revision new_revision key =
     [jstr ''card_id'' (id_str u cid), jstr ''board_id'' (id_str u bid), jstr other_key (id_str u other),
      jnum ''prev_revision'' prev_revision, jnum ''new_revision'' new_revision,
      jstr ''idempotency_key'' key]"

text \<open>The loop over the rows of the two cards: (prev revision, source on board, target).\<close>

definition scan_pair :: "ident \<Rightarrow> ident \<Rightarrow> card_row list \<Rightarrow> int \<times> bool \<times> (ident \<times> int) option" where
  "scan_pair card_id board_id rows =
     foldl (\<lambda>(prev, on_board, target) row.
        if c_id row = card_id then (c_revision row, c_board row = board_id, target)
        else (prev, on_board, Some (c_board row, c_revision row))) (0, False, None) rows"

definition bump_and_log ::
  "string \<Rightarrow> string \<Rightarrow> ident \<Rightarrow> ident \<Rightarrow> string \<Rightarrow> ident \<Rightarrow> int \<Rightarrow> string \<Rightarrow> (cerr, unit) act" where
  "bump_and_log msg tenant cid bid other_key other prev_revision key =
     bnd (internal msg (fetch_one (bump_card_sql cid tenant))) (\<lambda>new_revision.
     bnd (ask codec) (\<lambda>u.
     insert_board_event tenant bid ''CardUpdated''
       (JObj (dependency_payload u cid bid other_key other prev_revision new_revision key))))"

definition add_dependency_tx :: "string \<Rightarrow> ident \<Rightarrow> ident \<Rightarrow> ident \<Rightarrow> string \<Rightarrow> (cerr, unit) act" where
  "add_dependency_tx tenant board_id card_id depends_on_id key =
     bnd (internal ''failed to verify cards'' (select (\<lambda>d.
           filter (\<lambda>c. c_id c \<in> {card_id, depends_on_id} \<and> c_tenant c = tenant) (cards d)))) (\<lambda>rows.
     let (prev_revision, source_on_board, target) = scan_pair card_id board_id rows in
     bnd (require source_on_board (InvalidArgument, ''card does not belong to the authorized board'')) (\<lambda>_.
     bnd (ok_or (InvalidArgument, ''dependency card not found in tenant'') target) (\<lambda>(target_board, target_prev).
     bnd (internal ''failed to add card dependency'' (exec (insert_dependency_sql card_id depends_on_id))) (\<lambda>_.
     bnd (bump_and_log ''failed to bump card revision'' tenant card_id board_id
           ''depends_on_card_id'' depends_on_id prev_revision key) (\<lambda>_.
     bump_and_log ''failed to bump dependency card revision'' tenant depends_on_id target_board
       ''dependent_card_id'' card_id target_prev key)))))"

definition add_card_dependency :: "request_context \<Rightarrow> dependency_request \<Rightarrow> (cerr, card_msg) act" where
  "add_card_dependency ctx req =
     bnd (checked_object_id ctx) (\<lambda>object_id.
     bnd (parse_id ''invalid board_id'' object_id) (\<lambda>board_id.
     bnd (tenant_id_from_request ctx) (\<lambda>tenant.
     bnd (require (dp_idempotency_key req \<noteq> '''') (InvalidArgument, ''idempotency_key is required'')) (\<lambda>_.
     bnd (parse_id ''invalid card_id'' (dp_card_id req)) (\<lambda>card_id.
     bnd (parse_id ''invalid depends_on_card_id'' (dp_depends_on_card_id req)) (\<lambda>depends_on_id.
     bnd (require (card_id \<noteq> depends_on_id) (InvalidArgument, ''a card cannot depend on itself'')) (\<lambda>_.
     bnd (check_idempotency_card tenant (dp_idempotency_key req)) (\<lambda>existing.
     case existing of
       Some existing_id \<Rightarrow> fetch_full_card existing_id tenant
     | None \<Rightarrow>
         bnd (in_tx (add_dependency_tx tenant board_id card_id depends_on_id (dp_idempotency_key req))) (\<lambda>_.
         bnd (store_idempotency_card tenant (dp_idempotency_key req) card_id) (\<lambda>_.
         fetch_full_card card_id tenant))))))))))"

definition remove_dependency_tx :: "string \<Rightarrow> ident \<Rightarrow> ident \<Rightarrow> ident \<Rightarrow> string \<Rightarrow> (cerr, unit) act" where
  "remove_dependency_tx tenant board_id card_id depends_on_id key =
     bnd (internal ''failed to verify card'' (select (\<lambda>d. List.find (\<lambda>c. c_id c = card_id
           \<and> c_board c = board_id \<and> c_tenant c = tenant) (cards d)))) (\<lambda>r.
     bnd (ok_or (InvalidArgument, ''card does not belong to the authorized board'') r) (\<lambda>row.
     bnd (internal ''failed to verify dependency card'' (select (find_card depends_on_id tenant))) (\<lambda>t.
     bnd (ok_or (InvalidArgument, ''dependency card not found in tenant'') t) (\<lambda>target.
     bnd (internal ''failed to remove card dependency'' (stmt (delete_dependency_sql card_id depends_on_id))) (\<lambda>n.
     if n > 0 then
       bnd (bump_and_log ''failed to bump card revision'' tenant card_id board_id
             ''depends_on_card_id'' depends_on_id (c_revision row) key) (\<lambda>_.
       bump_and_log ''failed to bump dependency card revision'' tenant depends_on_id (c_board target)
         ''dependent_card_id'' card_id (c_revision target) key)
     else
       bnd (ask codec) (\<lambda>u.
       insert_board_event tenant board_id ''CardUpdated''
         (JObj (dependency_payload u card_id board_id ''depends_on_card_id'' depends_on_id
            (c_revision row) (c_revision row) key))))))))"

definition remove_card_dependency :: "request_context \<Rightarrow> dependency_request \<Rightarrow> (cerr, card_msg) act" where
  "remove_card_dependency ctx req =
     bnd (checked_object_id ctx) (\<lambda>object_id.
     bnd (parse_id ''invalid board_id'' object_id) (\<lambda>board_id.
     bnd (tenant_id_from_request ctx) (\<lambda>tenant.
     bnd (require (dp_idempotency_key req \<noteq> '''') (InvalidArgument, ''idempotency_key is required'')) (\<lambda>_.
     bnd (parse_id ''invalid card_id'' (dp_card_id req)) (\<lambda>card_id.
     bnd (parse_id ''invalid depends_on_card_id'' (dp_depends_on_card_id req)) (\<lambda>depends_on_id.
     bnd (check_idempotency_card tenant (dp_idempotency_key req)) (\<lambda>existing.
     case existing of
       Some existing_id \<Rightarrow> fetch_full_card existing_id tenant
     | None \<Rightarrow>
         bnd (in_tx (remove_dependency_tx tenant board_id card_id depends_on_id (dp_idempotency_key req))) (\<lambda>_.
         bnd (store_idempotency_card tenant (dp_idempotency_key req) card_id) (\<lambda>_.
         fetch_full_card card_id tenant)))))))))"

section \<open>Labels\<close>

record bulk_labels_request =
  bl_card_ids :: "string list"
  bl_label_ids :: "string list"
  bl_idempotency_key :: string

definition labels_payload ::
  "ulid_codec \<Rightarrow> ident \<Rightarrow> ident \<Rightarrow> int \<Rightarrow> ident list \<Rightarrow> string \<Rightarrow> (string \<times> json) list" where
  "labels_payload u cid bid new_revision label_ids key =
     [jstr ''card_id'' (id_str u cid), jstr ''board_id'' (id_str u bid),
      jnum ''new_revision'' new_revision,
      (''label_ids'', JArr (map (\<lambda>l. JStr (id_str u l)) label_ids)), jstr ''idempotency_key'' key]"

definition relabel_card :: "string \<Rightarrow> ident \<Rightarrow> ident list \<Rightarrow> string \<Rightarrow> ident \<Rightarrow> (cerr, ident) act" where
  "relabel_card tenant board_id label_ids key cid =
     bnd (ask codec) (\<lambda>u.
     bnd (internal ''failed to verify card ownership'' (select (\<lambda>d.
           \<exists>c \<in> set (cards d). c_id c = cid \<and> c_board c = board_id \<and> c_tenant c = tenant))) (\<lambda>exists.
     bnd (require exists (InvalidArgument,
           ''card '' @ id_str u cid @ '' does not belong to board '' @ id_str u board_id)) (\<lambda>_.
     bnd (internal ''failed to clear card labels'' (exec (clear_labels_sql cid))) (\<lambda>_.
     bnd (each (\<lambda>lid. internal ''failed to insert card label'' (exec (insert_label_sql cid lid))) label_ids) (\<lambda>_.
     bnd (internal ''failed to bump card revision'' (fetch_one (bump_card_sql cid tenant))) (\<lambda>new_rev.
     bnd (insert_board_event tenant board_id ''CardUpdated''
           (JObj (labels_payload u cid board_id new_rev label_ids key))) (\<lambda>_.
     ret cid)))))))"

definition fetch_each_ok :: "string \<Rightarrow> ident list \<Rightarrow> (cerr, card_msg list) act" where
  "fetch_each_ok tenant ids =
     bnd (each (\<lambda>cid. attempt (fetch_full_card cid tenant)) ids) (\<lambda>rs.
     ret (List.map_filter (\<lambda>r. case r of Inr c \<Rightarrow> Some c | Inl _ \<Rightarrow> None) rs))"

definition bulk_update_card_labels ::
  "request_context \<Rightarrow> bulk_labels_request \<Rightarrow> (cerr, card_msg list) act" where
  "bulk_update_card_labels ctx req =
     bnd (checked_object_id ctx) (\<lambda>object_id.
     bnd (parse_id ''invalid board_id'' object_id) (\<lambda>board_id.
     bnd (tenant_id_from_request ctx) (\<lambda>tenant.
     if bl_card_ids req = [] then ret []
     else
       bnd (ask (\<lambda>e. (parse_ids (codec e) (bl_card_ids req), parse_ids (codec e) (bl_label_ids req)))) (\<lambda>(card_ids, label_ids).
       bnd (check_idempotency_card tenant (bl_idempotency_key req)) (\<lambda>existing.
       case existing of
         Some _ \<Rightarrow> fetch_each_ok tenant card_ids
       | None \<Rightarrow>
           bnd (in_tx (each (relabel_card tenant board_id label_ids (bl_idempotency_key req)) card_ids)) (\<lambda>updated.
           bnd (case updated of [] \<Rightarrow> ret ()
                | first # _ \<Rightarrow> store_idempotency_card tenant (bl_idempotency_key req) first) (\<lambda>_.
           each (\<lambda>cid. fetch_full_card cid tenant) updated)))))))"

section \<open>Assignees\<close>

definition assign_card :: "request_context \<Rightarrow> string \<Rightarrow> (cerr, card_msg) act" where
  "assign_card ctx req_subject =
     bnd (checked_object_id ctx) (\<lambda>object_id.
     bnd (parse_id ''invalid card_id'' object_id) (\<lambda>card_id.
     bnd (tenant_id_from_request ctx) (\<lambda>tenant.
     bnd (require (req_subject \<noteq> '''') (InvalidArgument, ''subject is required'')) (\<lambda>_.
     bnd (map_err resolve_err (resolve_subject tenant req_subject)) (\<lambda>sub.
     bnd (fetch_current card_id tenant) (\<lambda>cur.
     bnd (in_tx
       (bnd (internal ''failed to assign card'' (exec (insert_assignee_sql tenant card_id sub))) (\<lambda>_.
        touch_and_log tenant cur (\<lambda>_. [(''patch'', JObj [(''assignees'', JArr [JStr sub])])])))) (\<lambda>_.
     fetch_full_card card_id tenant)))))))"

definition unassign_card :: "request_context \<Rightarrow> string \<Rightarrow> (cerr, card_msg) act" where
  "unassign_card ctx req_subject =
     bnd (checked_object_id ctx) (\<lambda>object_id.
     bnd (parse_id ''invalid card_id'' object_id) (\<lambda>card_id.
     bnd (tenant_id_from_request ctx) (\<lambda>tenant.
     bnd (map_err resolve_err (resolve_subject tenant req_subject)) (\<lambda>sub.
     bnd (fetch_current card_id tenant) (\<lambda>cur.
     bnd (in_tx
       (bnd (internal ''failed to unassign card'' (exec (delete_assignee_sql tenant card_id sub))) (\<lambda>_.
        touch_and_log tenant cur (\<lambda>_. [(''patch'', JObj [jstr ''unassigned'' sub])])))) (\<lambda>_.
     fetch_full_card card_id tenant))))))"

section \<open>Checklist items\<close>

definition insert_item :: "ident \<Rightarrow> string \<Rightarrow> ident \<Rightarrow> string \<Rightarrow> int \<Rightarrow> (cerr, unit) act" where
  "insert_item item_id tenant card_id txt pos =
     (if pos = 0 then
        internal ''failed to insert checklist item'' (exec (append_item_sql item_id tenant card_id txt))
      else
        bnd (internal ''failed to shift checklist items'' (exec (shift_items_sql card_id tenant pos))) (\<lambda>_.
        internal ''failed to insert checklist item at position''
          (exec (insert_item_sql item_id tenant card_id txt pos))))"

definition add_checklist_item :: "request_context \<Rightarrow> string \<Rightarrow> int \<Rightarrow> (cerr, card_msg) act" where
  "add_checklist_item ctx req_text req_position =
     bnd (checked_object_id ctx) (\<lambda>object_id.
     bnd (parse_id ''invalid card_id'' object_id) (\<lambda>card_id.
     bnd (tenant_id_from_request ctx) (\<lambda>tenant.
     bnd (require (req_text \<noteq> '''') (InvalidArgument, ''text is required'')) (\<lambda>_.
     bnd (fetch_current card_id tenant) (\<lambda>cur.
     bnd (in_tx
       (bnd new_id (\<lambda>item_id.
        bnd (insert_item item_id tenant card_id req_text req_position) (\<lambda>_.
        touch_and_log tenant cur
          (\<lambda>u. [(''patch'', JObj [jstr ''checklist_item_added'' (id_str u item_id)])]))))) (\<lambda>_.
     fetch_full_card card_id tenant))))))"

text \<open>The patch of UpdateChecklistItem is its text and done flag; without one both are defaults.\<close>

definition update_checklist_item ::
  "request_context \<Rightarrow> string \<Rightarrow> (string \<times> bool) option \<Rightarrow> (cerr, card_msg) act" where
  "update_checklist_item ctx req_item_id item =
     bnd (checked_object_id ctx) (\<lambda>object_id.
     bnd (parse_id ''invalid card_id'' object_id) (\<lambda>card_id.
     bnd (tenant_id_from_request ctx) (\<lambda>tenant.
     bnd (parse_id ''invalid item_id'' req_item_id) (\<lambda>item_id.
     let (txt, done) = (case item of Some p \<Rightarrow> p | None \<Rightarrow> ('''', False)) in
     bnd (fetch_current card_id tenant) (\<lambda>cur.
     bnd (in_tx
       (bnd (internal ''failed to update checklist item''
              (stmt (update_item_sql item_id card_id tenant txt done))) (\<lambda>n.
        bnd (require (n \<noteq> 0) (NotFound, ''checklist item not found on this card'')) (\<lambda>_.
        touch_and_log tenant cur
          (\<lambda>u. [(''patch'', JObj [jstr ''checklist_item_updated'' (id_str u item_id)])]))))) (\<lambda>_.
     fetch_full_card card_id tenant))))))"

definition remove_checklist_item :: "request_context \<Rightarrow> string \<Rightarrow> (cerr, unit) act" where
  "remove_checklist_item ctx req_item_id =
     bnd (checked_object_id ctx) (\<lambda>object_id.
     bnd (parse_id ''invalid card_id'' object_id) (\<lambda>card_id.
     bnd (tenant_id_from_request ctx) (\<lambda>tenant.
     bnd (parse_id ''invalid item_id'' req_item_id) (\<lambda>item_id.
     bnd (fetch_current card_id tenant) (\<lambda>cur.
     in_tx
       (bnd (internal ''failed to remove checklist item''
              (stmt (delete_item_sql item_id card_id tenant))) (\<lambda>n.
        bnd (require (n \<noteq> 0) (NotFound, ''checklist item not found on this card'')) (\<lambda>_.
        touch_and_log tenant cur
          (\<lambda>u. [(''patch'', JObj [jstr ''checklist_item_removed'' (id_str u item_id)])])))))))))"

end
