(* ===== verification/Comments.thy ===== *)
theory Comments
  imports Card_Items
begin

text \<open>
  \<open>src/services/cards.rs\<close>, lines 2846 to 3273: AddComment, EditComment, DeleteComment and
  ListComments.
\<close>

section \<open>AddComment\<close>

record add_comment_request =
  ac_body :: string
  ac_idempotency_key :: string

text \<open>The comment of a replayed key: the id in the stored payload, if it still exists.\<close>

definition replayed_comment :: "string \<Rightarrow> string \<Rightarrow> (cerr, comment_row option) act" where
  "replayed_comment tenant key =
     (if key = '''' then ret None
      else
        bnd (ask codec) (\<lambda>u.
        bnd (internal ''idempotency key lookup failed'' (select (find_key tenant key))) (\<lambda>row.
        case Option.bind (Option.bind (Option.bind row q_payload) (\<lambda>v. json_get v ''comment_id'')) as_str of
          None \<Rightarrow> ret None
        | Some s \<Rightarrow>
            (case id_from_str u s of
               Inl _ \<Rightarrow> ret None
             | Inr cid \<Rightarrow> internal ''failed to fetch cached comment'' (select (\<lambda>d.
                 List.find (\<lambda>r. t_id r = cid \<and> t_tenant r = tenant) (comments d)))))))"

definition add_comment_tx ::
  "string \<Rightarrow> card_row \<Rightarrow> string \<Rightarrow> add_comment_request \<Rightarrow> (cerr, comment_row) act" where
  "add_comment_tx tenant cur sub req =
     bnd new_id (\<lambda>comment_id.
     bnd (internal ''failed to insert comment''
           (fetch_one (insert_comment_sql comment_id tenant (c_id cur) sub (ac_body req)))) (\<lambda>comment_row.
     bnd (touch_and_log tenant cur (\<lambda>_. [(''patch'', JObj [jstr ''comments_count'' ''+1'']),
            jstr ''idempotency_key'' (ac_idempotency_key req)])) (\<lambda>_.
     ret comment_row)))"

definition store_comment_key :: "string \<Rightarrow> string \<Rightarrow> ident \<Rightarrow> (cerr, unit) act" where
  "store_comment_key tenant key comment_id =
     (if key = '''' then ret ()
      else
        bnd (ask codec) (\<lambda>u.
        bnd (attempt (exec (store_key_sql tenant key None
               (Some (JObj [jstr ''comment_id'' (id_str u comment_id)]))))) (\<lambda>_. ret ())))"

definition add_comment :: "request_context \<Rightarrow> add_comment_request \<Rightarrow> (cerr, comment_msg) act" where
  "add_comment ctx req =
     bnd (checked_object_id ctx) (\<lambda>object_id.
     bnd (parse_id ''invalid card_id'' object_id) (\<lambda>card_id.
     bnd (subject_from_request ctx) (\<lambda>sub.
     bnd (tenant_id_from_request ctx) (\<lambda>tenant.
     bnd (require (ac_body req \<noteq> '''') (InvalidArgument, ''body is required'')) (\<lambda>_.
     bnd (ask codec) (\<lambda>u.
     bnd (replayed_comment tenant (ac_idempotency_key req)) (\<lambda>replayed.
     case replayed of
       Some r \<Rightarrow> ret (comment_from_row u r)
     | None \<Rightarrow>
         bnd (fetch_current card_id tenant) (\<lambda>cur.
         bnd (in_tx (add_comment_tx tenant cur sub req)) (\<lambda>comment_row.
         bnd (store_comment_key tenant (ac_idempotency_key req) (t_id comment_row)) (\<lambda>_.
         ret (comment_from_row u comment_row)))))))))))"

section \<open>EditComment\<close>

definition edit_comment_tx ::
  "string \<Rightarrow> card_row \<Rightarrow> string \<Rightarrow> ident \<Rightarrow> string \<Rightarrow> (cerr, comment_row) act" where
  "edit_comment_tx tenant cur sub comment_id body =
     bnd (internal ''failed to edit comment''
           (stmt (edit_comment_sql comment_id (c_id cur) tenant sub body))) (\<lambda>r.
     bnd (ok_or (PermissionDenied, ''comment not found or not authored by you'') r) (\<lambda>comment_row.
     bnd (touch_and_log tenant cur
           (\<lambda>u. [(''patch'', JObj [jstr ''comment_edited'' (id_str u comment_id)])])) (\<lambda>_.
     ret comment_row)))"

definition edit_comment :: "request_context \<Rightarrow> string \<Rightarrow> string \<Rightarrow> (cerr, comment_msg) act" where
  "edit_comment ctx req_comment_id req_body =
     bnd (checked_object_id ctx) (\<lambda>object_id.
     bnd (parse_id ''invalid card_id'' object_id) (\<lambda>card_id.
     bnd (subject_from_request ctx) (\<lambda>sub.
     bnd (tenant_id_from_request ctx) (\<lambda>tenant.
     bnd (parse_id ''invalid comment_id'' req_comment_id) (\<lambda>comment_id.
     bnd (require (req_body \<noteq> '''') (InvalidArgument, ''body is required'')) (\<lambda>_.
     bnd (fetch_current card_id tenant) (\<lambda>cur.
     bnd (in_tx (edit_comment_tx tenant cur sub comment_id req_body)) (\<lambda>comment_row.
     bnd (ask codec) (\<lambda>u.
     ret (comment_from_row u comment_row))))))))))"

section \<open>DeleteComment\<close>

definition delete_comment_tx :: "string \<Rightarrow> card_row \<Rightarrow> string \<Rightarrow> ident \<Rightarrow> (cerr, unit) act" where
  "delete_comment_tx tenant cur sub comment_id =
     bnd (internal ''failed to delete comment (author path)''
           (stmt (delete_comment_sql (authored comment_id (c_id cur) tenant sub)))) (\<lambda>n.
     bnd (if n = 0 then
            bnd (internal ''failed to delete comment (admin path)'' (stmt (delete_comment_sql
                   (\<lambda>r. t_id r = comment_id \<and> t_card r = c_id cur \<and> t_tenant r = tenant)))) (\<lambda>n2.
            require (n2 \<noteq> 0) (NotFound, ''comment not found on this card''))
          else ret ()) (\<lambda>_.
     touch_and_log tenant cur (\<lambda>u. [(''patch'', JObj [jstr ''comment_deleted'' (id_str u comment_id)])])))"

definition delete_comment :: "request_context \<Rightarrow> string \<Rightarrow> (cerr, unit) act" where
  "delete_comment ctx req_comment_id =
     bnd (checked_object_id ctx) (\<lambda>object_id.
     bnd (parse_id ''invalid card_id'' object_id) (\<lambda>card_id.
     bnd (subject_from_request ctx) (\<lambda>sub.
     bnd (tenant_id_from_request ctx) (\<lambda>tenant.
     bnd (parse_id ''invalid comment_id'' req_comment_id) (\<lambda>comment_id.
     bnd (fetch_current card_id tenant) (\<lambda>cur.
     in_tx (delete_comment_tx tenant cur sub comment_id)))))))"

section \<open>ListComments\<close>

definition list_comments_rows :: "env \<Rightarrow> ident \<Rightarrow> string \<Rightarrow> ident option \<Rightarrow> nat \<Rightarrow> db \<Rightarrow> comment_row list" where
  "list_comments_rows e card_id tenant cursor_id n d =
     take n (sort_rows (\<lambda>a b. dt_le (t_created a) (t_created b)) (filter (\<lambda>r. t_card r = card_id
        \<and> t_tenant r = tenant
        \<and> (case cursor_id of Some after \<Rightarrow> id_le e after (t_id r) \<and> t_id r \<noteq> after | None \<Rightarrow> True))
        (comments d)))"

definition list_comments ::
  "request_context \<Rightarrow> int \<Rightarrow> string \<Rightarrow> (cerr, comment_msg list \<times> string) act" where
  "list_comments ctx req_limit req_cursor =
     bnd (checked_object_id ctx) (\<lambda>object_id.
     bnd (parse_id ''invalid card_id'' object_id) (\<lambda>card_id.
     bnd (tenant_id_from_request ctx) (\<lambda>tenant.
     let limit = nat (page_limit req_limit) in
     bnd (parse_opt_id ''invalid cursor'' req_cursor) (\<lambda>cursor_id.
     bnd (ask (\<lambda>e. e)) (\<lambda>e.
     bnd (internal ''failed to verify card'' (select (\<lambda>d. \<exists>c \<in> set (cards d). card_key card_id tenant c))) (\<lambda>exists.
     bnd (require exists (NotFound, ''card not found'')) (\<lambda>_.
     bnd (internal ''failed to list comments''
           (select (list_comments_rows e card_id tenant cursor_id (Suc limit)))) (\<lambda>rows.
     let has_more = length rows > limit;
         page = (if has_more then take limit rows else rows);
         next_cursor = (if has_more \<and> page \<noteq> [] then id_str (codec e) (t_id (last page)) else '''') in
     ret (map (comment_from_row (codec e)) page, next_cursor)))))))))"

end
