(* ===== verification/Card_Steps.thy ===== *)
theory Card_Steps
  imports Comments
begin

text \<open>
  The card service as a transition system on the database. \<open>card_step\<close> lists the kinds of change
  its statements make, with what the handlers have established when they make them; \<open>well_formed\<close> is the
  invariant of the card tables. Every handler's run, however it ends, is a sequence of such steps
  (theory Card_Refinement), so whatever the steps keep, the service keeps.
\<close>

section \<open>The invariant\<close>

definition slot :: "card_row \<Rightarrow> string \<times> ident \<times> int" where
  "slot c = (c_tenant c, c_column c, c_position c)"

definition placement :: "card_row \<Rightarrow> ident \<times> string \<times> ident \<times> ident \<times> ident \<times> string \<times> int \<times> bool" where
  "placement c = (c_id c, c_tenant c, c_project c, c_board c, c_column c, c_ref c, c_position c, c_completed c \<noteq> None)"

text \<open>
  The card's column is a column of its board, and its board one of its project, in its tenant; the
  card is completed exactly while it is in a done column.
\<close>

definition homed :: "db \<Rightarrow> card_row \<Rightarrow> bool" where
  "homed d c \<longleftrightarrow>
     (\<exists>k \<in> set (columns d). k_id k = c_column c \<and> k_tenant k = c_tenant c \<and> k_board k = c_board c
        \<and> k_is_done k = (c_completed c \<noteq> None)) \<and>
     (\<exists>b \<in> set (boards d). b_id b = c_board c \<and> b_tenant b = c_tenant c \<and> b_project b = c_project c)"

text \<open>The card's ref was drawn from the counter of its project.\<close>

definition counted :: "db \<Rightarrow> card_row \<Rightarrow> bool" where
  "counted d c \<longleftrightarrow>
     (\<exists>r \<in> set (project_ref_counter d). n_project r = c_project c \<and>
        (\<exists>p n. c_ref c = p @ ''-'' @ show_int_pad 3 n \<and> 1 \<le> n \<and> n < n_next r))"

definition counters_ok :: "db \<Rightarrow> bool" where
  "counters_ok d \<longleftrightarrow> distinct (map n_project (project_ref_counter d))
     \<and> (\<forall>r \<in> set (project_ref_counter d). 2 \<le> n_next r)"

definition well_formed :: "db \<Rightarrow> bool" where
  "well_formed d \<longleftrightarrow> distinct (map c_id (cards d)) \<and> distinct (map ref_key (cards d)) \<and> distinct (map slot (cards d))
     \<and> distinct (map k_id (columns d)) \<and> (\<forall>c \<in> set (cards d). homed d c \<and> counted d c) \<and> counters_ok d
     \<and> board_log.gapless d \<and> aggregated_log.gapless d"

section \<open>The steps\<close>

definition core_eq :: "db \<Rightarrow> db \<Rightarrow> bool" where
  "core_eq d d' \<longleftrightarrow> projects d' = projects d \<and> boards d' = boards d \<and> columns d' = columns d
     \<and> aggregated_boards d' = aggregated_boards d \<and> cards d' = cards d
     \<and> project_ref_counter d' = project_ref_counter d \<and> event_log d' = event_log d"

text \<open>Only positions (and update times) of cards differ.\<close>

definition repositioned :: "db \<Rightarrow> db \<Rightarrow> bool" where
  "repositioned d d1 \<longleftrightarrow> (\<exists>g. d1 = d\<lparr>cards := map g (cards d)\<rparr>
     \<and> (\<forall>c. \<exists>p t. g c = c\<lparr>c_position := p, c_updated := t\<rparr>))"

inductive card_step :: "db \<Rightarrow> db \<Rightarrow> bool" where
  around: "core_eq d d' \<Longrightarrow> card_step d d'"
| counted_ref: "allocate_ref_sql p t now d = Some (r, d') \<Longrightarrow> card_step d d'"
| emitted: "emit_board b v d = Some d' \<Longrightarrow> card_step d d'"
| touched: "\<lbrakk>update_card_sql cid t chk f now d = Some (r, d');
     \<And>c. placement (f now c) = placement c \<and> c_revision (f now c) = c_revision c + 1\<rbrakk> \<Longrightarrow> card_step d d'"
| opened: "shift_sql (\<lambda>c. in_column col t c \<and> pos \<le> c_position c) 1 now d = Some d' \<Longrightarrow> card_step d d'"
| inserted: "\<lbrakk>insert_card_sql row now d = Some d'; homed d (row now); counted d (row now);
     slot (row now) \<notin> slot ` set (cards d)\<rbrakk> \<Longrightarrow> card_step d d'"
| placed: "\<lbrakk>repositioned d d1; d' = d1\<lparr>cards := upd_rows (card_key cid t) f (cards d1)\<rparr>;
     \<And>c. c \<in> set (cards d1) \<Longrightarrow> card_key cid t c \<Longrightarrow>
        card_key cid t (f c) \<and> c_revision (f c) = c_revision c + 1 \<and> homed d (f c) \<and> counted d (f c)
        \<and> ref_key (f c) \<notin> ref_key ` {x \<in> set (cards d1). \<not> card_key cid t x}
        \<and> slot (f c) \<notin> slot ` {x \<in> set (cards d1). \<not> card_key cid t x};
     distinct (map slot (filter (\<lambda>x. \<not> card_key cid t x) (cards d1)))\<rbrakk> \<Longrightarrow> card_step d d'"
| deleted: "delete_card_sql cid t now d = Some (n, d') \<Longrightarrow> card_step d d'"

abbreviation evolves :: "db \<Rightarrow> db \<Rightarrow> bool" where
  "evolves \<equiv> card_step\<^sup>*\<^sup>*"

section \<open>The steps keep the invariant\<close>

lemma distinct_map_upd_rows:
  assumes "distinct (map h (filter (\<lambda>x. \<not> P x) xs))" and "cnt_rows P xs \<le> 1"
    and "\<And>x. x \<in> set xs \<Longrightarrow> P x \<Longrightarrow> h (f x) \<notin> h ` {y \<in> set xs. \<not> P y}"
  shows "distinct (map h (upd_rows P f xs))"
  using assms
proof (induction xs)
  case Nil
  then show ?case by simp
next
  case (Cons x xs)
  have IH: "distinct (map h (upd_rows P f xs))"
    using Cons.prems by (intro Cons.IH) (auto simp: cnt_rows_def image_iff split: if_splits)
  show ?case
  proof (cases "P x")
    case True
    then have "\<forall>y \<in> set xs. \<not> P y" using Cons.prems(2) by (auto simp: cnt_rows_def filter_empty_conv)
    moreover from this have "upd_rows P f xs = xs" by (simp add: upd_rows_def map_idI)
    ultimately show ?thesis using True IH Cons.prems(3) [of x] by auto
  next
    case False
    then show ?thesis using IH Cons.prems(1,3) by (auto simp: set_upd_rows image_iff) metis+
  qed
qed

lemma cnt_rows_key:
  assumes "distinct (map k xs)" and "\<And>x. P x \<Longrightarrow> k x = c"
  shows "cnt_rows P xs \<le> 1"
  using assms(1)
proof (induction xs)
  case Nil
  then show ?case by (simp add: cnt_rows_def)
next
  case (Cons x xs)
  show ?case
  proof (cases "P x")
    case True
    with Cons.prems have "filter P xs = []"
      using assms(2) by (auto simp: filter_empty_conv image_iff)
    with True show ?thesis by (simp add: cnt_rows_def)
  next
    case False
    with Cons show ?thesis by (simp add: cnt_rows_def)
  qed
qed

lemma distinct_map_filter_key: "distinct (map h xs) \<Longrightarrow> distinct (map h (filter P xs))"
  by (simp add: distinct_map_filter)

lemma placement_parts:
  assumes "placement c = placement c'"
  shows "c_id c = c_id c'" "ref_key c = ref_key c'" "slot c = slot c'" "homed d c = homed d c'"
    "counted d c = counted d c'" "c_tenant c = c_tenant c'"
  using assms by (simp_all add: placement_def ref_key_def slot_def homed_def counted_def)

text \<open>\<open>well_formed\<close> depends on the placements of the cards, the columns, the boards' keys and revisions, the
  counters and the log.\<close>

lemma well_formed_cong:
  assumes well_formed: "well_formed d" and pl: "map placement (cards d') = map placement (cards d)"
    and "columns d' = columns d" "boards d' = boards d" "project_ref_counter d' = project_ref_counter d"
    and "event_log d' = event_log d" "aggregated_boards d' = aggregated_boards d"
  shows "well_formed d'"
proof -
  have m: "map (h \<circ> placement) (cards d') = map (h \<circ> placement) (cards d)" for h :: "_ \<Rightarrow> 'b"
    using pl by (metis map_map)
  have ids: "map c_id (cards d') = map c_id (cards d)"
    using m [of fst] by (simp add: comp_def placement_def)
  have refs: "map ref_key (cards d') = map ref_key (cards d)"
    using m [of "\<lambda>(i, t, p, b, k, r, n, x). (t, p, r)"] by (simp add: comp_def placement_def ref_key_def [abs_def])
  have slots: "map slot (cards d') = map slot (cards d)"
    using m [of "\<lambda>(i, t, p, b, k, r, n, x). (t, k, n)"] by (simp add: comp_def placement_def slot_def [abs_def])
  have all: "homed d' c' \<and> counted d' c'" if "c' \<in> set (cards d')" for c'
  proof -
    from that have "placement c' \<in> set (map placement (cards d))" using pl by (metis image_eqI list.set_map)
    then obtain c where c: "c \<in> set (cards d)" "placement c' = placement c" by auto
    then have "homed d c \<and> counted d c" using well_formed by (simp add: well_formed_def)
    then show ?thesis
      using assms(3-) placement_parts [OF c(2)] by (simp add: homed_def counted_def)
  qed
  show ?thesis
    using well_formed all assms(3-) unfolding well_formed_def ids refs slots
    by (simp add: counters_ok_def board_log.gapless_def aggregated_log.gapless_def board_revision_def
        board_log_def aggregated_revision_def aggregated_log_def)
qed

lemma well_formed_around: "well_formed d \<Longrightarrow> core_eq d d' \<Longrightarrow> well_formed d'"
  by (erule well_formed_cong) (simp_all add: core_eq_def)

lemma well_formed_counted_ref:
  assumes well_formed: "well_formed d" and al: "allocate_ref_sql p t now d = Some (r, d')"
  shows "well_formed d'"
proof -
  obtain rows where d': "d' = d\<lparr>project_ref_counter := rows\<rparr>" and rows: "counters_ok (d\<lparr>project_ref_counter := rows\<rparr>)"
    and le: "\<And>x. x \<in> set (project_ref_counter d) \<Longrightarrow>
      \<exists>y \<in> set rows. n_project y = n_project x \<and> n_next x \<le> n_next y"
  proof (cases "List.find (\<lambda>q. p_id q = p \<and> p_tenant q = t) (projects d)")
    case None
    with al have "d' = d\<lparr>project_ref_counter := project_ref_counter d\<rparr>" by (simp add: allocate_ref_sql_def)
    then show thesis using that [of "project_ref_counter d"] well_formed by (auto simp: well_formed_def counters_ok_def)
  next
    case (Some q)
    show thesis
    proof (cases "List.find (\<lambda>r. n_project r = p) (project_ref_counter d)")
      case None
      then have new: "p \<notin> n_project ` set (project_ref_counter d)" by (auto simp: find_None_iff)
      let ?rows = "project_ref_counter d @ [\<lparr>n_project = p, n_tenant = t, n_prefix = p_prefix q, n_next = 2\<rparr>]"
      from al Some None have "d' = d\<lparr>project_ref_counter := ?rows\<rparr>" by (simp add: allocate_ref_sql_def)
      then show thesis using that [of ?rows] well_formed new by (auto simp: well_formed_def counters_ok_def)
    next
      case (Some c)
      let ?f = "\<lambda>r. r\<lparr>n_next := n_next r + 1, n_prefix := p_prefix q\<rparr>"
      let ?rows = "upd_rows (\<lambda>r. n_project r = p) ?f (project_ref_counter d)"
      from al \<open>List.find _ (projects d) = Some q\<close> Some have "d' = d\<lparr>project_ref_counter := ?rows\<rparr>"
        by (simp add: allocate_ref_sql_def split: if_splits)
      moreover have "counters_ok (d\<lparr>project_ref_counter := ?rows\<rparr>)"
        using well_formed by (auto simp: well_formed_def counters_ok_def set_upd_rows)
      moreover have "\<exists>y \<in> set ?rows. n_project y = n_project x \<and> n_next x \<le> n_next y"
        if "x \<in> set (project_ref_counter d)" for x
        using that by (intro bexI [of _ "if n_project x = p then ?f x else x"]) (auto simp: set_upd_rows)
      ultimately show thesis by (rule that)
    qed
  qed
  have "counted d' c" if c: "c \<in> set (cards d)" for c
  proof -
    from c well_formed have "counted d c" by (simp add: well_formed_def)
    then obtain x pre n where x: "x \<in> set (project_ref_counter d)" "n_project x = c_project c"
      "c_ref c = pre @ ''-'' @ show_int_pad 3 n" "1 \<le> n" "n < n_next x" by (auto simp: counted_def)
    from le [OF x(1)] obtain y where y: "y \<in> set rows" "n_project y = n_project x" "n_next x \<le> n_next y" by blast
    from y x have "n_project y = c_project c" "n < n_next y" by simp_all
    with y(1) x(3,4) show ?thesis unfolding counted_def d' by auto
  qed
  then show ?thesis
    using well_formed rows unfolding well_formed_def d'
    by (simp add: homed_def counters_ok_def board_log.gapless_def aggregated_log.gapless_def
        board_revision_def board_log_def aggregated_revision_def aggregated_log_def)
qed

lemma emit_board_frame:
  assumes "emit_board b v d = Some d'"
  shows "cards d' = cards d" "columns d' = columns d" "project_ref_counter d' = project_ref_counter d"
    "aggregated_boards d' = aggregated_boards d" "aggregated_log d' = aggregated_log d"
    "projects d' = projects d"
    "map (\<lambda>b. (b_id b, b_tenant b, b_project b)) (boards d') = map (\<lambda>b. (b_id b, b_tenant b, b_project b)) (boards d)"
proof -
  obtain i t ty obj now where v: "v = (i, t, ty, obj, now)" by (cases v) auto
  from assms [unfolded v] obtain x :: board_row where
    d': "d' = log_event i t (Some b) None None ty
           (JObj (obj_insert ''board_revision'' (JNum (b_revision x + 1)) obj)) now
           (d\<lparr>boards := upd_rows (\<lambda>r. b_id r = b) (\<lambda>r. r\<lparr>b_revision := b_revision r + 1\<rparr>) (boards d)\<rparr>)"
    by (rule emit_board_cases) blast
  show "cards d' = cards d" "columns d' = columns d" "project_ref_counter d' = project_ref_counter d"
    "aggregated_boards d' = aggregated_boards d" "aggregated_log d' = aggregated_log d"
    "projects d' = projects d"
    "map (\<lambda>b. (b_id b, b_tenant b, b_project b)) (boards d') = map (\<lambda>b. (b_id b, b_tenant b, b_project b)) (boards d)"
    unfolding d' by (simp_all add: log_event_def aggregated_log_def fun_eq_iff)
qed

lemma homed_boards:
  assumes "map (\<lambda>b. (b_id b, b_tenant b, b_project b)) (boards d') = map (\<lambda>b. (b_id b, b_tenant b, b_project b)) (boards d)"
    and "columns d' = columns d"
  shows "homed d' c = homed d c"
proof -
  have ex: "(\<exists>b \<in> set (boards e). b_id b = c_board c \<and> b_tenant b = c_tenant c \<and> b_project b = c_project c)
      \<longleftrightarrow> (c_board c, c_tenant c, c_project c) \<in> set (map (\<lambda>b. (b_id b, b_tenant b, b_project b)) (boards e))" for e
    by force
  show ?thesis unfolding homed_def ex assms ..
qed

lemma well_formed_emitted: "well_formed d \<Longrightarrow> emit_board b v d = Some d' \<Longrightarrow> well_formed d'"
proof -
  assume wf: "well_formed d" and em: "emit_board b v d = Some d'"
  note fr = emit_board_frame [OF em]
  have "board_log.gapless d'" using board_log.gapless_emit [OF _ em] wf by (simp add: well_formed_def)
  moreover have "aggregated_log.gapless d'"
    by (rule aggregated_log.gapless_frame [of d])
      (use wf fr in \<open>simp_all add: well_formed_def aggregated_revision_def fun_eq_iff\<close>)
  moreover have "homed d' c = homed d c" "counted d' c = counted d c" for c
    using homed_boards [OF fr(7,2)] fr(3) by (simp_all add: counted_def)
  ultimately show ?thesis using wf fr by (simp add: well_formed_def counters_ok_def)
qed

lemma update_card_sql_cards:
  assumes "update_card_sql cid t chk f now d = Some (r, d')"
  shows "d' = d \<and> r = None \<and> find_card cid t d = None \<or>
    (\<exists>c. find_card cid t d = Some c \<and> chk d (f now c) \<and> r = Some (c_revision (f now c))
       \<and> d' = d\<lparr>cards := upd_rows (card_key cid t) (f now) (cards d)\<rparr>)"
  using assms by (auto simp: update_card_sql_def split: option.splits if_splits)

lemma well_formed_touched:
  assumes "well_formed d" and up: "update_card_sql cid t chk f now d = Some (r, d')"
    and f: "\<And>c. placement (f now c) = placement c"
  shows "well_formed d'"
proof -
  have "map placement (upd_rows P (f now) rows) = map placement rows" for P rows
    by (simp add: f)
  then show ?thesis
    using assms(1) update_card_sql_cards [OF up] by (auto intro: well_formed_cong)
qed

lemma well_formed_cards:
  assumes "well_formed d"
    and "distinct (map c_id cs)" "distinct (map ref_key cs)" "distinct (map slot cs)"
    and "\<forall>c \<in> set cs. homed d c \<and> counted d c"
  shows "well_formed (d\<lparr>cards := cs\<rparr>)"
  using assms by (auto simp: well_formed_def homed_def counted_def counters_ok_def board_log.gapless_def
      aggregated_log.gapless_def board_revision_def board_log_def aggregated_revision_def aggregated_log_def)

lemma well_formed_opened:
  assumes wf: "well_formed d"
    and sh: "shift_sql (\<lambda>c. in_column col t c \<and> pos \<le> c_position c) 1 now d = Some d'"
  shows "well_formed d'"
proof -
  let ?f = "\<lambda>c. c\<lparr>c_position := c_position c + 1, c_updated := now\<rparr>"
  let ?P = "\<lambda>c. in_column col t c \<and> pos \<le> c_position c"
  let ?s = "\<lambda>(t', k, n). if t' = t \<and> k = col \<and> pos \<le> n then (t', k, n + 1) else (t', k, n)"
  have d': "d' = d\<lparr>cards := upd_rows ?P ?f (cards d)\<rparr>"
    using sh by (simp add: shift_sql_def split: if_splits)
  have eq: "map slot (upd_rows ?P ?f (cards d)) = map ?s (map slot (cards d))"
    by (auto simp: upd_rows_def slot_def in_column_def)
  have inj: "inj_on ?s (set (map slot (cards d)))" by (auto simp: inj_on_def split: prod.splits if_splits)
  have "distinct (map slot (cards d))" using wf by (simp add: well_formed_def)
  then have "distinct (map ?s (map slot (cards d)))" using inj by (subst distinct_map) (rule conjI)
  then have "distinct (map slot (upd_rows ?P ?f (cards d)))" unfolding eq .
  moreover have "\<forall>c \<in> set (upd_rows ?P ?f (cards d)). homed d c \<and> counted d c"
    using wf by (auto simp: well_formed_def set_upd_rows homed_def counted_def)
  moreover have "map c_id (upd_rows ?P ?f (cards d)) = map c_id (cards d)"
    "map ref_key (upd_rows ?P ?f (cards d)) = map ref_key (cards d)"
    by (auto simp: upd_rows_def ref_key_def)
  ultimately show ?thesis
    unfolding d' using wf by (intro well_formed_cards) (auto simp: well_formed_def)
qed

lemma well_formed_inserted:
  assumes "well_formed d" and "insert_card_sql row now d = Some d'" and "homed d (row now)"
    and "counted d (row now)" and "slot (row now) \<notin> slot ` set (cards d)"
  shows "well_formed d'"
proof -
  from assms(2) have d': "d' = d\<lparr>cards := cards d @ [row now]\<rparr>"
    and fresh: "c_id (row now) \<notin> c_id ` set (cards d)" "ref_key (row now) \<notin> ref_key ` set (cards d)"
    by (auto simp: insert_card_sql_def Let_def split: if_splits)
  show ?thesis
    unfolding d' by (rule well_formed_cards [OF assms(1)]) (use assms fresh in \<open>auto simp: well_formed_def\<close>)
qed

lemma repositioned_keeps:
  assumes "repositioned d d1"
  shows "map c_id (cards d1) = map c_id (cards d)" "map ref_key (cards d1) = map ref_key (cards d)"
    "homed d1 c = homed d c" "counted d1 c = counted d c"
    "\<forall>x \<in> set (cards d1). \<exists>y \<in> set (cards d). \<exists>p u. x = y\<lparr>c_position := p, c_updated := u\<rparr>"
    "d1 = d\<lparr>cards := cards d1\<rparr>"
proof -
  from assms obtain g where d1: "d1 = d\<lparr>cards := map g (cards d)\<rparr>"
    and g: "\<And>c. \<exists>p t. g c = c\<lparr>c_position := p, c_updated := t\<rparr>" by (auto simp: repositioned_def)
  have "c_id (g c) = c_id c" "ref_key (g c) = ref_key c" for c
    using g [of c] by (auto simp: ref_key_def)
  then show "map c_id (cards d1) = map c_id (cards d)" "map ref_key (cards d1) = map ref_key (cards d)"
    by (simp_all add: d1)
  show "\<forall>x \<in> set (cards d1). \<exists>y \<in> set (cards d). \<exists>p u. x = y\<lparr>c_position := p, c_updated := u\<rparr>"
    using g unfolding d1 by (simp del: split_paired_Ex) blast
  show "homed d1 c = homed d c" "counted d1 c = counted d c" "d1 = d\<lparr>cards := cards d1\<rparr>"
    by (simp_all add: d1 homed_def counted_def)
qed

lemma well_formed_placed:
  assumes wf: "well_formed d" and re: "repositioned d d1"
    and f: "\<And>c. c \<in> set (cards d1) \<Longrightarrow> card_key cid t c \<Longrightarrow>
        card_key cid t (f c) \<and> homed d (f c) \<and> counted d (f c)
        \<and> ref_key (f c) \<notin> ref_key ` {x \<in> set (cards d1). \<not> card_key cid t x}
        \<and> slot (f c) \<notin> slot ` {x \<in> set (cards d1). \<not> card_key cid t x}"
    and others: "distinct (map slot (filter (\<lambda>x. \<not> card_key cid t x) (cards d1)))"
  shows "well_formed (d1\<lparr>cards := upd_rows (card_key cid t) f (cards d1)\<rparr>)"
proof -
  note re' = repositioned_keeps [OF re]
  have ids: "distinct (map c_id (cards d1))" and refs: "distinct (map ref_key (cards d1))"
    using wf re'(1,2) by (simp_all add: well_formed_def)
  have one: "cnt_rows (card_key cid t) (cards d1) \<le> 1"
    by (rule cnt_rows_key [OF ids, of _ cid]) (simp add: card_key_def)
  have "map c_id (upd_rows (card_key cid t) f (cards d1)) = map c_id (cards d1)"
    using f by (auto simp: upd_rows_def card_key_def)
  moreover have "distinct (map ref_key (upd_rows (card_key cid t) f (cards d1)))"
    by (rule distinct_map_upd_rows [OF distinct_map_filter_key [OF refs] one]) (use f in blast)
  moreover have "distinct (map slot (upd_rows (card_key cid t) f (cards d1)))"
    by (rule distinct_map_upd_rows [OF others one]) (use f in blast)
  moreover have "homed d c \<and> counted d c" if "c \<in> set (upd_rows (card_key cid t) f (cards d1))" for c
  proof -
    from that obtain x where x: "x \<in> set (cards d1)" "c = (if card_key cid t x then f x else x)"
      by (auto simp: set_upd_rows)
    show ?thesis
    proof (cases "card_key cid t x")
      case True
      with x f show ?thesis by simp
    next
      case False
      from re'(5) x(1) obtain y p u where "y \<in> set (cards d)" "x = y\<lparr>c_position := p, c_updated := u\<rparr>" by blast
      with wf x False show ?thesis by (auto simp: well_formed_def homed_def counted_def)
    qed
  qed
  ultimately show ?thesis
    using ids by (subst re'(6)) (simp add: well_formed_cards [OF wf])
qed

lemma well_formed_deleted:
  assumes "well_formed d" and "delete_card_sql cid t now d = Some (n, d')"
  shows "well_formed d'"
proof -
  have "well_formed (d\<lparr>cards := del_rows P (cards d)\<rparr>)" for P
    by (rule well_formed_cards [OF assms(1)])
      (use assms(1) in \<open>auto simp: well_formed_def del_rows_def distinct_map_filter\<close>)
  then have "well_formed d'" if "d' \<noteq> d"
    by (rule well_formed_around) (use assms(2) that in \<open>auto simp: delete_card_sql_def core_eq_def Let_def split: if_splits\<close>)
  then show ?thesis using assms(1) by metis
qed

theorem card_step_well_formed: "card_step d d' \<Longrightarrow> well_formed d \<Longrightarrow> well_formed d'"
proof (induction rule: card_step.induct)
  case (around d d')
  then show ?case by (blast intro: well_formed_around)
next
  case (counted_ref p t now d r d')
  then show ?case by (blast intro: well_formed_counted_ref)
next
  case (emitted b v d d')
  then show ?case by (blast intro: well_formed_emitted)
next
  case (touched cid t chk f now d r d')
  then show ?case by (blast intro: well_formed_touched)
next
  case (opened col t pos now d d')
  then show ?case by (blast intro: well_formed_opened)
next
  case (inserted row now d d')
  then show ?case by (blast intro: well_formed_inserted)
next
  case (placed d d1 d' cid t f)
  show ?case
    unfolding placed(2) by (rule well_formed_placed [OF placed(5,1)]) (use placed(3,4) in blast)+
next
  case (deleted cid t now d n d')
  then show ?case by (blast intro: well_formed_deleted)
qed

lemma evolves_well_formed: "evolves d d' \<Longrightarrow> well_formed d \<Longrightarrow> well_formed d'"
  by (induction rule: rtranclp_induct) (auto intro: card_step_well_formed)

end
