(* ===== verification/Card_Refinement.thy ===== *)
theory Card_Refinement
  imports Card_Steps
begin

text \<open>
  Every handler of the card service runs as a sequence of \<open>card_step\<close>s, whatever the outside world
  does and however the run ends.
\<close>

section \<open>Statements\<close>

named_theorems core_simps \<open>statements that leave the card tables' core alone\<close>

lemma core_eq_refl [simp]: "core_eq d d"
  by (simp add: core_eq_def)

lemma evolves_step: "evolves d0 d \<Longrightarrow> card_step d d' \<Longrightarrow> evolves d0 d'"
  by (rule rtranclp.rtrancl_into_rtrancl)

lemma evolves_around: "evolves d0 d \<Longrightarrow> core_eq d d' \<Longrightarrow> evolves d0 d'"
  by (blast intro: evolves_step card_step.around)

lemma around_exec:
  "(\<And>t d d'. f t d = Some d' \<Longrightarrow> core_eq d d') \<Longrightarrow> upholds (evolves d0) (exec f)"
  by (rule upholds_exec) (blast intro: evolves_around)

lemma around_stmt:
  "(\<And>t d a d'. f t d = Some (a, d') \<Longrightarrow> core_eq d d') \<Longrightarrow> upholds (evolves d0) (stmt f)"
  by (rule upholds_stmt) (blast intro: evolves_around)

lemma around_fetch_one:
  "(\<And>t d a d'. f t d = Some (a, d') \<Longrightarrow> core_eq d d') \<Longrightarrow> upholds (evolves d0) (fetch_one f)"
  by (rule upholds_fetch_one) (blast intro: evolves_around)

lemma upholds_around [upholds_intros]:
  "upholds (evolves d0) (exec (insert_dependency_sql cid dep))"
  "upholds (evolves d0) (stmt (delete_dependency_sql cid dep))"
  "upholds (evolves d0) (exec (clear_labels_sql cid))"
  "upholds (evolves d0) (exec (insert_label_sql cid lid))"
  "upholds (evolves d0) (exec (scrub_labels_sql cid p))"
  "upholds (evolves d0) (exec (insert_assignee_sql t cid s))"
  "upholds (evolves d0) (exec (delete_assignee_sql t cid s))"
  "upholds (evolves d0) (exec (append_item_sql iid t cid txt))"
  "upholds (evolves d0) (exec (insert_item_sql iid t cid txt pos))"
  "upholds (evolves d0) (exec (shift_items_sql cid t pos))"
  "upholds (evolves d0) (stmt (update_item_sql iid cid t txt done))"
  "upholds (evolves d0) (stmt (delete_item_sql iid cid t))"
  "upholds (evolves d0) (fetch_one (insert_comment_sql i t cid author body))"
  "upholds (evolves d0) (stmt (edit_comment_sql i cid t author body))"
  "upholds (evolves d0) (stmt (delete_comment_sql P))"
  "upholds (evolves d0) (stmt (next_position_sql col t))"
  "upholds (evolves d0) (exec advisory_lock)"
  by (rule around_exec around_stmt around_fetch_one,
      auto simp: core_eq_def insert_dependency_sql_def delete_dependency_sql_def clear_labels_sql_def
        insert_label_sql_def scrub_labels_sql_def insert_assignee_sql_def delete_assignee_sql_def
        append_item_sql_def insert_item_sql_def shift_items_sql_def update_item_sql_def delete_item_sql_def
        insert_comment_sql_def edit_comment_sql_def delete_comment_sql_def next_position_sql_def
        advisory_lock_def Let_def split: if_splits)+

lemma evolves_bump: "evolves d0 d \<Longrightarrow> bump_card_sql cid t now d = Some (r, d') \<Longrightarrow> evolves d0 d'"
  unfolding bump_card_sql_def
  by (rule evolves_step, assumption, rule card_step.touched, assumption) (simp add: touch_def placement_def)

lemma upholds_bump [upholds_intros]: "upholds (evolves d0) (fetch_one (bump_card_sql cid t))"
  by (rule upholds_fetch_one) (rule evolves_bump)

lemma upholds_allocate [upholds_intros]: "upholds (evolves d0) (allocate_card_ref p t)"
  unfolding allocate_card_ref_def
  by (intro upholds_intros upholds_fetch_one) (blast intro: evolves_step card_step.counted_ref)

lemma upholds_insert_board_event [upholds_intros]:
  "upholds (evolves d0) (insert_board_event t b ty (JObj obj))"
  unfolding upholds_def ensures_def
proof (intro allI impI)
  fix e w u w'
  assume ev: "evolves d0 (db w)" and tx: "tx_now w \<noteq> None"
    and run: "insert_board_event t b ty (JObj obj) e w = (Inr u, w')"
  from tx obtain now where now: "tx_now w = Some now" by auto
  show "evolves d0 (db w') \<and> tx_now w' \<noteq> None"
    using insert_board_event_emit [OF run now] ev by (blast intro: evolves_step card_step.emitted)
qed

lemma upholds_touch_and_log [upholds_intros]: "upholds (evolves d0) (touch_and_log t cur extra)"
  unfolding touch_and_log_def by (intro upholds_intros)

lemma upholds_bump_and_log [upholds_intros]:
  "upholds (evolves d0) (bump_and_log msg t cid b k other prev key)"
  unfolding bump_and_log_def by (intro upholds_intros)

lemma upholds_insert_item [upholds_intros]: "upholds (evolves d0) (insert_item iid t cid txt pos)"
  unfolding insert_item_def by (intro upholds_intros)

lemma evolves_store_key: "evolves d0 d \<Longrightarrow> store_key_sql t key cid payload now d = Some d' \<Longrightarrow> evolves d0 d'"
  by (erule evolves_around) (auto simp: store_key_sql_def core_eq_def split: option.splits)

lemma keeps_store_idempotency_card [keeps_intros]: "keeps (evolves d0) (store_idempotency_card t key cid)"
  unfolding store_idempotency_card_def by (intro keeps_intros keeps_exec) (blast intro: evolves_store_key)

lemma keeps_store_comment_key [keeps_intros]: "keeps (evolves d0) (store_comment_key t key cid)"
  unfolding store_comment_key_def by (intro keeps_intros keeps_exec) (blast intro: evolves_store_key)

lemma keeps_check_idempotency_card [keeps_intros]: "keeps I (check_idempotency_card t key)"
  unfolding check_idempotency_card_def by (intro keeps_intros)

lemma keeps_fetch_current [keeps_intros]: "keeps I (fetch_current cid t)"
  unfolding fetch_current_def by (intro keeps_intros)

lemma keeps_parent [keeps_intros]: "keeps I (grant_parent c cid b)" "keeps I (revoke_parent c cid b)"
  unfolding grant_parent_def revoke_parent_def by (intro keeps_intros)+

lemma keeps_check_milestone [keeps_intros]: "keeps I (check_milestone P)"
  unfolding check_milestone_def by (intro keeps_intros)

section \<open>Handlers around a card\<close>

lemma evolves_dependencies [keeps_intros]:
  "keeps (evolves d0) (add_card_dependency ctx req)" "keeps (evolves d0) (remove_card_dependency ctx req)"
  unfolding add_card_dependency_def remove_card_dependency_def add_dependency_tx_def remove_dependency_tx_def
  by (intro keeps_intros upholds_intros)+

lemma evolves_labels [keeps_intros]: "keeps (evolves d0) (bulk_update_card_labels ctx req)"
proof -
  have "keeps I (fetch_each_ok t ids)" for I t ids
    unfolding fetch_each_ok_def by (intro keeps_intros)
  moreover have "keeps (evolves d0) (case xs of [] \<Rightarrow> ret () | x # _ \<Rightarrow> store_idempotency_card t k x)" for xs t k
    by (cases xs) (auto intro: keeps_intros)
  ultimately show ?thesis
    unfolding bulk_update_card_labels_def relabel_card_def by (intro keeps_intros upholds_intros)
qed

lemma evolves_assignees [keeps_intros]:
  "keeps (evolves d0) (assign_card ctx s)" "keeps (evolves d0) (unassign_card ctx s)"
  unfolding assign_card_def unassign_card_def by (intro keeps_intros upholds_intros)+

lemma evolves_checklist [keeps_intros]:
  "keeps (evolves d0) (add_checklist_item ctx txt pos)"
  "keeps (evolves d0) (update_checklist_item ctx iid item)"
  "keeps (evolves d0) (remove_checklist_item ctx iid)"
  unfolding add_checklist_item_def update_checklist_item_def remove_checklist_item_def
  by (intro keeps_intros upholds_intros)+

lemma evolves_comments [keeps_intros]:
  "keeps (evolves d0) (add_comment ctx creq)" "keeps (evolves d0) (edit_comment ctx cid body)"
  "keeps (evolves d0) (delete_comment ctx cid)" "keeps (evolves d0) (list_comments ctx n cur)"
proof -
  have "keeps I (replayed_comment t k)" for I t k
    unfolding replayed_comment_def by (intro keeps_intros)
  then show "keeps (evolves d0) (add_comment ctx creq)"
    unfolding add_comment_def add_comment_tx_def by (intro keeps_intros upholds_intros)
  show "keeps (evolves d0) (edit_comment ctx cid body)" "keeps (evolves d0) (delete_comment ctx cid)"
    "keeps (evolves d0) (list_comments ctx n cur)"
    unfolding edit_comment_def edit_comment_tx_def delete_comment_def delete_comment_tx_def list_comments_def
    by (intro keeps_intros upholds_intros)+
qed

lemma evolves_update [keeps_intros]: "keeps (evolves d0) (update_card ctx req)"
proof -
  have "keeps (evolves d0) (stmt (update_card_sql cid t (\<lambda>_ _. True) (apply_patch p due b m)))" for cid t p due b m
    by (rule keeps_stmt, rule evolves_step, assumption, rule card_step.touched, assumption)
      (simp add: apply_patch_def placement_def)
  then show ?thesis
    unfolding update_card_def by (intro keeps_intros upholds_intros)
qed

lemma evolves_delete [keeps_intros]: "keeps (evolves d0) (delete_card ctx)"
proof -
  have "upholds (evolves d0) (stmt (delete_card_sql cid t))" for cid t
    by (rule upholds_stmt) (blast intro: evolves_step card_step.deleted)
  then show ?thesis
    unfolding delete_card_def delete_card_tx_def by (intro keeps_intros upholds_intros)
qed


section \<open>CreateCard\<close>

lemma check_milestone_ok [ok_iffs]:
  "check_milestone P e w = (Inr u, w') \<longleftrightarrow> \<not> aborted w \<and> \<not> db_fault e (step w) \<and> P (db w) \<and> w' = tick w"
  by (auto simp: check_milestone_def ok_iffs)

lemma allocate_card_ref_ok [ok_iffs]:
  "allocate_card_ref p t e w = (Inr r, w') \<longleftrightarrow> \<not> aborted w \<and> \<not> db_fault e (step w) \<and> \<not> db_fault e (Suc (step w))
     \<and> (\<exists>pre n d1. allocate_ref_sql p t (sql_now e (tick w)) (db w) = Some (Some (pre, n), d1)
          \<and> r = pre @ ''-'' @ show_int_pad 3 n \<and> w' = (tick (tick w))\<lparr>db := d1\<rparr>)"
  unfolding allocate_card_ref_def
  by (auto simp: ok_iffs advisory_lock_def sql_now_def split: option.splits)

text \<open>The position of a new card, on the database: appended, or at the request's own position
  after the cards from there on have moved up.\<close>

definition open_slot :: "ident \<Rightarrow> string \<Rightarrow> int \<Rightarrow> datetime \<Rightarrow> db \<Rightarrow> (int \<times> db) option" where
  "open_slot col t pos now d =
     (if pos = 0 then next_position_sql col t now d
      else map_option (Pair pos) (shift_sql (\<lambda>c. in_column col t c \<and> pos \<le> c_position c) 1 now d))"

lemma create_position_ok:
  assumes "create_position col t pos e w = (Inr p, w')" and "tx_now w = Some now" and "\<not> aborted w'"
  shows "\<exists>d'. open_slot col t pos now (db w) = Some (p, d') \<and> w' = (tick w)\<lparr>db := d'\<rparr>"
  using assms
  by (auto simp: create_position_def open_slot_def ok_iffs stmt_def mark_failed_def
      sql_now_def split: if_splits sum.splits option.splits)

lemma create_card_tx_effect:
  assumes run: "create_card_tx req sub t bid project col is_done e w = (Inr cid, w')" and now: "tx_now w = Some now"
  shows "\<exists>pre n d1 p d2 mil d3 i.
    allocate_ref_sql project t now (db w) = Some (Some (pre, n), d1)
    \<and> open_slot col t (cr_position req) now d1 = Some (p, d2)
    \<and> (case mil of None \<Rightarrow> cr_milestone_id req = '''' | Some m \<Rightarrow> milestone_exists m t project d2)
    \<and> insert_card_sql (new_card_row req cid t project bid col (pre @ ''-'' @ show_int_pad 3 n) p
         (parse_due e (cr_due req)) mil is_done sub) now d2 = Some d3
    \<and> emit_board bid (i, t, ''CardCreated'',
         created_payload (codec e) req cid bid col (pre @ ''-'' @ show_int_pad 3 n) p, now) d3 = Some (db w')
    \<and> cid = Ident (new_ulid e (step w + 2)) Ulid \<and> tx_now w' = Some now"
proof -
  from run obtain pre n d1 p w2 mil w3 d3 u where
    al: "allocate_ref_sql project t now (db w) = Some (Some (pre, n), d1)"
    and pos: "create_position col t (cr_position req) e (tick ((tick (tick w))\<lparr>db := d1\<rparr>)) = (Inr p, w2)"
    and mil: "(if cr_milestone_id req = [] then mil = None
               else (\<exists>i. id_from_str (codec e) (cr_milestone_id req) = Inr i \<and> mil = Some i))"
    and chk: "(case mil of None \<Rightarrow> ret () | Some m \<Rightarrow> check_milestone (milestone_exists m t project)) e w2 = (Inr (), w3)"
    and ins: "\<not> aborted w3" "insert_card_sql (new_card_row req cid t project bid col (pre @ ''-'' @ show_int_pad 3 n) p
         (parse_due e (cr_due req)) mil is_done sub) (sql_now e w3) (db w3) = Some d3"
    and ev: "insert_board_event t bid ''CardCreated''
         (JObj (created_payload (codec e) req cid bid col (pre @ ''-'' @ show_int_pad 3 n) p)) e
         ((tick w3)\<lparr>db := d3\<rparr>) = (Inr u, w')"
    and cid: "cid = Ident (new_ulid e (step w + 2)) Ulid"
    unfolding create_card_tx_def using now
    by (auto simp: ok_iffs sql_now_def simp del: split_paired_Ex)
  have w3: "(mil = None \<and> w3 = w2) \<or> (\<exists>m. mil = Some m \<and> \<not> aborted w2 \<and> milestone_exists m t project (db w2) \<and> w3 = tick w2)"
    using chk by (cases mil) (auto simp: ok_iffs)
  then have "\<not> aborted w2" using ins(1) by auto
  from create_position_ok [OF pos _ this, of now] now obtain d2 where
    p: "open_slot col t (cr_position req) now d1 = Some (p, d2)" and w2: "db w2 = d2" "tx_now w2 = Some now"
    by auto
  have now3: "sql_now e w3 = now" "db w3 = d2" "tx_now w3 = Some now" using w2 w3 by (auto simp: sql_now_def)
  from insert_board_event_emit [OF ev, of now] now3
  have "emit_board bid (Ident (new_ulid e (Suc (Suc (step w3)))) Ulid, t, ''CardCreated'',
      created_payload (codec e) req cid bid col (pre @ ''-'' @ show_int_pad 3 n) p, now) d3 = Some (db w')
      \<and> tx_now w' = Some now"
    by simp
  moreover have "case mil of None \<Rightarrow> cr_milestone_id req = '''' | Some m \<Rightarrow> milestone_exists m t project d2"
    using w3 w2 mil by (auto split: option.splits if_splits)
  ultimately show ?thesis using al p ins(2) now3 cid by metis
qed



lemma next_position_gt: "x \<in> set ps \<Longrightarrow> x < next_position ps"
  using Max_ge [of "set ps" x] by (cases ps) (auto simp: next_position_def)

lemma open_slot_effect:
  assumes "open_slot col t pos now d = Some (p, d')"
  shows "evolves d d'" "\<And>c. c \<in> set (cards d') \<Longrightarrow> in_column col t c \<Longrightarrow> c_position c \<noteq> p"
    "columns d' = columns d" "boards d' = boards d" "project_ref_counter d' = project_ref_counter d"
    "milestones d' = milestones d"
proof -
  have "evolves d d' \<and> (\<forall>c \<in> set (cards d'). in_column col t c \<longrightarrow> c_position c \<noteq> p) \<and> columns d' = columns d
    \<and> boards d' = boards d \<and> project_ref_counter d' = project_ref_counter d \<and> milestones d' = milestones d"
  proof (cases "pos = 0")
    case True
    with assms have "d' = d" "p = next_position (map c_position (filter (in_column col t) (cards d)))"
      by (auto simp: open_slot_def next_position_sql_def Let_def split: if_splits)
    then show ?thesis using next_position_gt [of _ "map c_position (filter (in_column col t) (cards d))"] by force
  next
    case False
    with assms have sh: "shift_sql (\<lambda>c. in_column col t c \<and> pos \<le> c_position c) 1 now d = Some d'" and "p = pos"
      by (auto simp: open_slot_def)
    have "evolves d d'" using card_step.opened [OF sh] by (rule r_into_rtranclp)
    moreover have d': "d' = d\<lparr>cards := upd_rows (\<lambda>c. in_column col t c \<and> pos \<le> c_position c)
        (\<lambda>c. c\<lparr>c_position := c_position c + 1, c_updated := now\<rparr>) (cards d)\<rparr>"
      using sh by (simp add: shift_sql_def split: if_splits)
    moreover have "\<forall>c \<in> set (cards d'). in_column col t c \<longrightarrow> c_position c \<noteq> p"
    proof (intro ballI impI)
      fix c
      assume "c \<in> set (cards d')" and c: "in_column col t c"
      then obtain r where "c = (if in_column col t r \<and> pos \<le> c_position r
          then r\<lparr>c_position := c_position r + 1, c_updated := now\<rparr> else r)"
        unfolding d' by (force simp: set_upd_rows)
      with c \<open>p = pos\<close> show "c_position c \<noteq> p" by (cases "in_column col t r \<and> pos \<le> c_position r") auto
    qed
    ultimately show ?thesis by simp
  qed
  then show "evolves d d'" "\<And>c. c \<in> set (cards d') \<Longrightarrow> in_column col t c \<Longrightarrow> c_position c \<noteq> p"
    "columns d' = columns d" "boards d' = boards d" "project_ref_counter d' = project_ref_counter d"
    "milestones d' = milestones d" by blast+
qed

lemma allocate_ref_effect:
  assumes al: "allocate_ref_sql p t now d = Some (Some (pre, n), d')" and ok: "counters_ok d"
  shows "1 \<le> n" "\<exists>r \<in> set (project_ref_counter d'). n_project r = p \<and> n < n_next r"
    "cards d' = cards d" "columns d' = columns d" "boards d' = boards d" "projects d' = projects d"
proof -
  from al obtain q where q: "List.find (\<lambda>q. p_id q = p \<and> p_tenant q = t) (projects d) = Some q"
    by (auto simp: allocate_ref_sql_def split: option.splits)
  have "1 \<le> n \<and> (\<exists>r \<in> set (project_ref_counter d'). n_project r = p \<and> n < n_next r)"
  proof (cases "List.find (\<lambda>r. n_project r = p) (project_ref_counter d)")
    case None
    with al q show ?thesis by (auto simp: allocate_ref_sql_def)
  next
    case (Some r)
    then have r: "r \<in> set (project_ref_counter d)" "n_project r = p" by (auto dest: find_Some_set)
    with ok have "2 \<le> n_next r" by (auto simp: counters_ok_def)
    let ?f = "\<lambda>r. r\<lparr>n_next := n_next r + 1, n_prefix := p_prefix q\<rparr>"
    from al q Some have n: "n = n_next r"
      and d': "project_ref_counter d' = upd_rows (\<lambda>r. n_project r = p) ?f (project_ref_counter d)"
      by (auto simp: allocate_ref_sql_def split: if_splits)
    have "?f r \<in> set (project_ref_counter d')"
      unfolding d' set_upd_rows by (rule image_eqI [OF _ r(1)]) (simp add: r(2))
    then show ?thesis using n r(2) \<open>2 \<le> n_next r\<close> by (intro conjI bexI [of _ "?f r"]) simp_all
  qed
  then show "1 \<le> n" "\<exists>r \<in> set (project_ref_counter d'). n_project r = p \<and> n < n_next r" by blast+
  show "cards d' = cards d" "columns d' = columns d" "boards d' = boards d" "projects d' = projects d"
    using al by (auto simp: allocate_ref_sql_def split: option.splits if_splits)
qed

lemma find_board_Some:
  "find_board bid t d = Some b \<Longrightarrow> b \<in> set (boards d) \<and> b_id b = bid \<and> b_tenant b = t"
  by (auto simp: find_board_def dest: find_Some_set)

lemma find_column_Some:
  "find_column col t d = Some k \<Longrightarrow> k \<in> set (columns d) \<and> k_id k = col \<and> k_tenant k = t"
  by (auto simp: find_column_def dest: find_Some_set)

lemma create_card_tx_evolves:
  assumes wf0: "well_formed d0"
  shows "ensures (\<lambda>d. evolves d0 d \<and> find_board bid t d = Some board
      \<and> k \<in> set (columns d) \<and> k_id k = col \<and> k_board k = bid \<and> k_tenant k = t)
    (create_card_tx req sub t bid (b_project board) col (k_is_done k)) (\<lambda>_. evolves d0)"
  unfolding ensures_def
proof (intro allI impI)
  fix e w cid w'
  assume pre: "evolves d0 (db w) \<and> find_board bid t (db w) = Some board
      \<and> k \<in> set (columns (db w)) \<and> k_id k = col \<and> k_board k = bid \<and> k_tenant k = t"
    and tx: "tx_now w \<noteq> None"
    and run: "create_card_tx req sub t bid (b_project board) col (k_is_done k) e w = (Inr cid, w')"
  from tx obtain now where now: "tx_now w = Some now" by auto
  have wf: "well_formed (db w)" using evolves_well_formed pre wf0 by blast
  obtain pr n d1 p d2 mil d3 i where
    al: "allocate_ref_sql (b_project board) t now (db w) = Some (Some (pr, n), d1)"
    and op: "open_slot col t (cr_position req) now d1 = Some (p, d2)"
    and ins: "insert_card_sql (new_card_row req cid t (b_project board) bid col (pr @ ''-'' @ show_int_pad 3 n) p
         (parse_due e (cr_due req)) mil (k_is_done k) sub) now d2 = Some d3"
    and em: "emit_board bid (i, t, ''CardCreated'',
         created_payload (codec e) req cid bid col (pr @ ''-'' @ show_int_pad 3 n) p, now) d3 = Some (db w')"
      "tx_now w' = Some now"
    using create_card_tx_effect [OF run now] by blast
  note a = allocate_ref_effect [OF al] and o = open_slot_effect [OF op]
  let ?row = "new_card_row req cid t (b_project board) bid col (pr @ ''-'' @ show_int_pad 3 n) p
         (parse_due e (cr_due req)) mil (k_is_done k) sub now"
  have cok: "counters_ok (db w)" using wf by (simp add: well_formed_def)
  have "evolves d0 d1" using pre al by (blast intro: evolves_step card_step.counted_ref)
  then have "evolves d0 d2" using o(1) by simp
  moreover have "card_step d2 d3"
  proof (rule card_step.inserted [OF ins])
    show "homed d2 ?row"
      using pre find_board_Some [of bid t "db w" board] a(4,5) [OF cok] o(3,4)
      by (auto simp: homed_def new_card_row_def)
    show "counted d2 ?row"
      using a(1,2) [OF cok] o(5) by (auto simp: counted_def new_card_row_def)
    show "slot ?row \<notin> slot ` set (cards d2)"
      using o(2) by (auto simp: slot_def new_card_row_def in_column_def)
  qed
  ultimately have "evolves d0 d3" by (rule evolves_step)
  then show "evolves d0 (db w') \<and> tx_now w' \<noteq> None"
    using evolves_step [OF _ card_step.emitted [OF em(1)]] em(2) by simp
qed


lemma settles_insert_board_event: "settles (insert_board_event t b ty p)"
  unfolding insert_board_event_def insert_row_def by (intro settles_bnd settles_internal settles_exec)

lemma keeps_facts:
  "keeps (\<lambda>d. I d \<and> F) m \<longleftrightarrow> (F \<longrightarrow> keeps I m)"
  by (auto simp: keeps_def)

lemma settles_create_card_tx: "settles (create_card_tx req sub t bid project col is_done)"
  unfolding create_card_tx_def
  by (intro settles_bnd settles_insert_board_event settles_ret)
    (auto intro!: settles_bnd settles_ret settles_insert_board_event split: prod.split)

lemma evolves_create:
  assumes wf0: "well_formed d0"
  shows "keeps (evolves d0) (create_card ctx req)"
  unfolding create_card_def
  apply (rule keeps_bnd keeps_checked_object_id keeps_parse_id keeps_subject_from_request
      keeps_tenant_id_from_request keeps_require keeps_check_idempotency_card)+
  apply (rule keeps_option)
   defer
   apply (rule keeps_fetch_full_card)
  apply (simp only: triple_keeps [symmetric])
  apply (rule triple_lookup, assumption)
  apply (rule triple_skip, intro keeps_intros, simp)
  apply (rule triple_lookup, simp)
  apply (rule triple_commit [OF _ settles_create_card_tx create_card_tx_evolves [OF wf0]])
    apply simp
   apply (auto dest: find_Some_set)[1]
  by (intro keeps_intros)

section \<open>MoveCard\<close>

text \<open>The shifts of a move as one function of the database, and their effect on the slots.\<close>

definition make_room :: "string \<Rightarrow> ident \<Rightarrow> int \<Rightarrow> ident \<Rightarrow> int \<Rightarrow> datetime \<Rightarrow> db \<Rightarrow> db option" where
  "make_room t from_col from_pos to_col to_pos now d =
     (if from_col = to_col then
        (if from_pos \<noteq> to_pos then
           (if to_pos > from_pos then
              shift_sql (\<lambda>c. in_column from_col t c \<and> from_pos < c_position c \<and> c_position c \<le> to_pos) (-1) now d
            else
              shift_sql (\<lambda>c. in_column from_col t c \<and> to_pos \<le> c_position c \<and> c_position c < from_pos) 1 now d)
         else Some d)
      else
        Option.bind (shift_sql (\<lambda>c. in_column from_col t c \<and> from_pos < c_position c) (-1) now d)
          (shift_sql (\<lambda>c. in_column to_col t c \<and> to_pos \<le> c_position c) 1 now))"

definition moved_pos :: "ident \<Rightarrow> int \<Rightarrow> ident \<Rightarrow> int \<Rightarrow> ident \<Rightarrow> int \<Rightarrow> int" where
  "moved_pos from_col from_pos to_col to_pos k p =
     (if from_col = to_col then
        (if k = from_col \<and> from_pos < p \<and> p \<le> to_pos then p - 1
         else if k = from_col \<and> to_pos \<le> p \<and> p < from_pos then p + 1 else p)
      else if k = from_col \<and> from_pos < p then p - 1
      else if k = to_col \<and> to_pos \<le> p then p + 1 else p)"

definition moved_slot ::
  "string \<Rightarrow> ident \<Rightarrow> int \<Rightarrow> ident \<Rightarrow> int \<Rightarrow> string \<times> ident \<times> int \<Rightarrow> string \<times> ident \<times> int" where
  "moved_slot t from_col from_pos to_col to_pos =
     (\<lambda>(t', k, p). (t', k, if t' = t then moved_pos from_col from_pos to_col to_pos k p else p))"

lemma shift_for_move_ok:
  assumes "shift_for_move t from_col from_pos to_col to_pos e w = (Inr u, w')" and "tx_now w = Some now"
  shows "make_room t from_col from_pos to_col to_pos now (db w) = Some (db w') \<and> tx_now w' = Some now"
  using assms unfolding shift_for_move_def make_room_def
  by (auto simp: ok_iffs sql_now_def split: if_splits)

definition shift_row :: "(card_row \<Rightarrow> bool) \<Rightarrow> int \<Rightarrow> datetime \<Rightarrow> card_row \<Rightarrow> card_row" where
  "shift_row P k now c = (if P c then c\<lparr>c_position := c_position c + k, c_updated := now\<rparr> else c)"

lemma shift_sql_row: "shift_sql P k now d = Some d' \<Longrightarrow> d' = d\<lparr>cards := map (shift_row P k now) (cards d)\<rparr>"
  by (simp add: shift_sql_def upd_rows_def shift_row_def [abs_def] split: if_splits)

lemma shift_row_shape: "\<exists>p u. shift_row P k now c = c\<lparr>c_position := p, c_updated := u\<rparr>"
proof (cases "P c")
  case True
  then show ?thesis by (auto simp: shift_row_def simp del: split_paired_Ex)
next
  case False
  then have "shift_row P k now c = c\<lparr>c_position := c_position c, c_updated := c_updated c\<rparr>"
    by (simp add: shift_row_def)
  then show ?thesis by blast
qed

lemma make_room_shape:
  assumes "make_room t from_col from_pos to_col to_pos now d = Some d1"
  shows "\<exists>g. d1 = d\<lparr>cards := map g (cards d)\<rparr> \<and> (\<forall>c. \<exists>p u. g c = c\<lparr>c_position := p, c_updated := u\<rparr>)
    \<and> (\<forall>c. slot (g c) = moved_slot t from_col from_pos to_col to_pos (slot c))"
proof (cases "from_col = to_col")
  case True
  let ?up = "shift_row (\<lambda>c. in_column from_col t c \<and> from_pos < c_position c \<and> c_position c \<le> to_pos) (-1) now"
  let ?dn = "shift_row (\<lambda>c. in_column from_col t c \<and> to_pos \<le> c_position c \<and> c_position c < from_pos) 1 now"
  consider "from_pos = to_pos" | "from_pos < to_pos" | "to_pos < from_pos" by linarith
  then show ?thesis
  proof cases
    case 1
    then have "d1 = d\<lparr>cards := map id (cards d)\<rparr>" using assms True by (simp add: make_room_def)
    moreover have "\<exists>p u. id c = c\<lparr>c_position := p, c_updated := u\<rparr>" for c :: card_row
      by (rule exI [of _ "c_position c"], rule exI [of _ "c_updated c"]) simp
    moreover have "slot (id c) = moved_slot t from_col from_pos to_col to_pos (slot c)" for c
      using 1 True by (auto simp: slot_def moved_slot_def moved_pos_def)
    ultimately show ?thesis by blast
  next
    case 2
    then have "d1 = d\<lparr>cards := map ?up (cards d)\<rparr>" using assms True by (auto simp: make_room_def dest: shift_sql_row)
    moreover have "slot (?up c) = moved_slot t from_col from_pos to_col to_pos (slot c)" for c
      using 2 True by (auto simp: slot_def moved_slot_def moved_pos_def shift_row_def in_column_def)
    ultimately show ?thesis using shift_row_shape by blast
  next
    case 3
    then have "d1 = d\<lparr>cards := map ?dn (cards d)\<rparr>" using assms True by (auto simp: make_room_def dest: shift_sql_row)
    moreover have "slot (?dn c) = moved_slot t from_col from_pos to_col to_pos (slot c)" for c
      using 3 True by (auto simp: slot_def moved_slot_def moved_pos_def shift_row_def in_column_def)
    ultimately show ?thesis using shift_row_shape by blast
  qed
next
  case False
  let ?close = "shift_row (\<lambda>c. in_column from_col t c \<and> from_pos < c_position c) (-1) now"
  let ?open = "shift_row (\<lambda>c. in_column to_col t c \<and> to_pos \<le> c_position c) 1 now"
  from assms False obtain d2 where
    "shift_sql (\<lambda>c. in_column from_col t c \<and> from_pos < c_position c) (-1) now d = Some d2"
    "shift_sql (\<lambda>c. in_column to_col t c \<and> to_pos \<le> c_position c) 1 now d2 = Some d1"
    by (auto simp: make_room_def bind_eq_Some_conv)
  then have "d2 = d\<lparr>cards := map ?close (cards d)\<rparr>" "d1 = d2\<lparr>cards := map ?open (cards d2)\<rparr>"
    by (blast dest: shift_sql_row)+
  then have "d1 = d\<lparr>cards := map (?open \<circ> ?close) (cards d)\<rparr>" by simp
  moreover have "\<exists>p u. (?open \<circ> ?close) c = c\<lparr>c_position := p, c_updated := u\<rparr>" for c
  proof -
    obtain p u where c1: "?close c = c\<lparr>c_position := p, c_updated := u\<rparr>" using shift_row_shape by blast
    obtain p' u' where "?open (?close c) = (?close c)\<lparr>c_position := p', c_updated := u'\<rparr>" using shift_row_shape by blast
    then have "(?open \<circ> ?close) c = c\<lparr>c_position := p', c_updated := u'\<rparr>" by (simp add: c1)
    then show ?thesis by blast
  qed
  moreover have "slot ((?open \<circ> ?close) c) = moved_slot t from_col from_pos to_col to_pos (slot c)" for c
    using False by (auto simp: slot_def moved_slot_def moved_pos_def shift_row_def in_column_def)
  ultimately show ?thesis by blast
qed

lemma moved_slot_inj:
  "inj_on (moved_slot t from_col from_pos to_col to_pos) (- {(t, from_col, from_pos)})"
  by (auto simp: inj_on_def moved_slot_def moved_pos_def split: if_splits)

lemma moved_slot_free:
  "s \<noteq> (t, from_col, from_pos) \<Longrightarrow> moved_slot t from_col from_pos to_col to_pos s \<noteq> (t, to_col, to_pos)"
  by (auto simp: moved_slot_def moved_pos_def split: prod.splits if_splits)

lemma move_card_tx_effect:
  assumes run: "move_card_tx t cur to_col to_board to_pos to_done from_done key e w = (Inr u, w')"
    and now: "tx_now w = Some now"
  shows "\<exists>d1 d2 r i. make_room t (c_column cur) (c_position cur) to_col to_pos now (db w) = Some d1
    \<and> update_card_sql (c_id cur) t (\<lambda>d c. fk_ok d c \<and> i32_ok (c_position c))
        (place_card to_col to_board to_pos to_done (from_done \<and> \<not> to_done)) now d1 = Some (Some r, d2)
    \<and> emit_board (c_board cur) (i, t, ''CardMoved'', moved_payload (codec e) (c_id cur) (c_column cur) to_col to_pos
        (c_revision cur) r key, now) d2 = Some (db w')
    \<and> tx_now w' = Some now"
proof -
  from run obtain w1 r d2 where
    sh: "shift_for_move t (c_column cur) (c_position cur) to_col to_pos e w = (Inr (), w1)"
    and up: "update_card_sql (c_id cur) t (\<lambda>d c. fk_ok d c \<and> i32_ok (c_position c))
        (place_card to_col to_board to_pos to_done (from_done \<and> \<not> to_done)) (sql_now e w1) (db w1) = Some (Some r, d2)"
    and ev: "insert_board_event t (c_board cur) ''CardMoved'' (JObj (moved_payload (codec e) (c_id cur)
        (c_column cur) to_col to_pos (c_revision cur) r key)) e ((tick w1)\<lparr>db := d2\<rparr>) = (Inr u, w')"
    unfolding move_card_tx_def by (auto simp: ok_iffs)
  from shift_for_move_ok [OF sh now] have room: "make_room t (c_column cur) (c_position cur) to_col to_pos now (db w) = Some (db w1)"
    and now1: "tx_now w1 = Some now" by auto
  have "emit_board (c_board cur) (Ident (new_ulid e (Suc (Suc (step w1)))) Ulid, t, ''CardMoved'',
      moved_payload (codec e) (c_id cur) (c_column cur) to_col to_pos (c_revision cur) r key, now) d2 = Some (db w')
      \<and> tx_now w' = Some now"
    using insert_board_event_emit [OF ev, of now] now1 by simp
  with room up now1 show ?thesis by (auto simp: sql_now_def)
qed


text \<open>Placing one card, given where the other cards went.\<close>

lemma find_card_Some: "find_card cid t d = Some c \<Longrightarrow> c \<in> set (cards d) \<and> card_key cid t c"
  by (auto simp: find_card_def dest: find_Some_set)

lemma placed_step:
  assumes wf: "well_formed d" and d1: "d1 = d\<lparr>cards := map g (cards d)\<rparr>"
    and g: "\<And>c. \<exists>p u. g c = c\<lparr>c_position := p, c_updated := u\<rparr>"
    and cur: "find_card cid t d = Some cur"
    and f: "card_key cid t (f (g cur))" "c_revision (f (g cur)) = c_revision (g cur) + 1"
      "homed d (f (g cur))" "counted d (f (g cur))"
    and fresh: "ref_key (f (g cur)) \<notin> ref_key ` set (filter (\<lambda>c. \<not> card_key cid t c) (cards d))"
      "slot (f (g cur)) \<notin> (\<lambda>c. slot (g c)) ` set (filter (\<lambda>c. \<not> card_key cid t c) (cards d))"
    and others: "distinct (map (\<lambda>c. slot (g c)) (filter (\<lambda>c. \<not> card_key cid t c) (cards d)))"
  shows "card_step d (d1\<lparr>cards := upd_rows (card_key cid t) f (cards d1)\<rparr>)"
proof (rule card_step.placed)
  have key: "card_key cid t (g c) = card_key cid t c" and ref: "ref_key (g c) = ref_key c" for c
    using g [of c] by (auto simp: card_key_def ref_key_def)
  have only: "c = cur" if "c \<in> set (cards d)" "card_key cid t c" for c
    using wf find_card_Some [OF cur] that
    by (auto simp: well_formed_def card_key_def distinct_map inj_on_def)
  show "repositioned d d1" unfolding repositioned_def using d1 g by blast
  show "d1\<lparr>cards := upd_rows (card_key cid t) f (cards d1)\<rparr> = d1\<lparr>cards := upd_rows (card_key cid t) f (cards d1)\<rparr>" ..
  show "distinct (map slot (filter (\<lambda>x. \<not> card_key cid t x) (cards d1)))"
    using others by (simp add: d1 filter_map comp_def key)
  fix c
  assume "c \<in> set (cards d1)" and k: "card_key cid t c"
  then obtain y where y: "y \<in> set (cards d)" "c = g y" by (auto simp: d1)
  with k key have "y = cur" using only by simp
  moreover have "ref_key ` {x \<in> set (cards d1). \<not> card_key cid t x}
      = ref_key ` set (filter (\<lambda>c. \<not> card_key cid t c) (cards d))"
    using key ref by (force simp: d1 image_iff)
  moreover have "slot ` {x \<in> set (cards d1). \<not> card_key cid t x}
      = (\<lambda>c. slot (g c)) ` set (filter (\<lambda>c. \<not> card_key cid t c) (cards d))"
    using key by (force simp: d1 image_iff)
  ultimately show "card_key cid t (f c) \<and> c_revision (f c) = c_revision c + 1 \<and> homed d (f c) \<and> counted d (f c)
        \<and> ref_key (f c) \<notin> ref_key ` {x \<in> set (cards d1). \<not> card_key cid t x}
        \<and> slot (f c) \<notin> slot ` {x \<in> set (cards d1). \<not> card_key cid t x}"
    using f fresh y by simp
qed

lemma others_differ:
  assumes "well_formed d" and "find_card cid t d = Some cur"
    and "c \<in> set (filter (\<lambda>c. \<not> card_key cid t c) (cards d))"
  shows "slot c \<noteq> slot cur" "ref_key c \<noteq> ref_key cur"
  using assms find_card_Some [OF assms(2)]
  by (auto simp: well_formed_def distinct_map inj_on_def)

text \<open>Whether the column a card leaves is a done column, as the handlers read it.\<close>

definition source_done :: "card_row \<Rightarrow> string \<Rightarrow> db \<Rightarrow> bool" where
  "source_done cur t d = (case find_column (c_column cur) t d of Some x \<Rightarrow> k_is_done x | None \<Rightarrow> False)"

lemma homedI:
  assumes "find_column (c_column c) (c_tenant c) d = Some k" and "k_board k = c_board c"
    and "k_is_done k = (c_completed c \<noteq> None)"
    and "find_board (c_board c) (c_tenant c) d = Some b" and "b_project b = c_project c"
  shows "homed d c"
  using find_column_Some [OF assms(1)] find_board_Some [OF assms(4)] assms(2,3,5)
  unfolding homed_def by metis

lemma completed_source_done:
  assumes wf: "well_formed d" and cur: "find_card cid t d = Some cur"
  shows "source_done cur t d = (c_completed cur \<noteq> None)"
proof -
  have c: "cur \<in> set (cards d)" "c_tenant cur = t" using find_card_Some [OF cur] by (simp_all add: card_key_def)
  with wf obtain k where k: "k \<in> set (columns d)" "k_id k = c_column cur" "k_tenant k = t"
    "k_is_done k = (c_completed cur \<noteq> None)" by (auto simp: well_formed_def homed_def)
  have "find_column (c_column cur) t d \<noteq> None" using k by (auto simp: find_column_def find_None_iff)
  then obtain x where x: "find_column (c_column cur) t d = Some x" by blast
  have "x = k"
    using find_column_Some [OF x] k wf by (auto simp: well_formed_def distinct_map inj_on_def)
  then show ?thesis using x k(4) by (simp add: source_done_def)
qed

lemma move_card_tx_evolves:
  assumes wf0: "well_formed d0"
  shows "ensures (\<lambda>d. evolves d0 d \<and> find_card cid t d = Some cur \<and> find_column to_col t d = Some k
      \<and> find_board (k_board k) t d = Some b \<and> c_project cur = b_project b \<and> from_done = source_done cur t d)
    (move_card_tx t cur to_col (k_board k) to_pos (k_is_done k) from_done key) (\<lambda>_. evolves d0)"
  unfolding ensures_def
proof (intro allI impI)
  fix e w u w'
  assume pre: "evolves d0 (db w) \<and> find_card cid t (db w) = Some cur \<and> find_column to_col t (db w) = Some k
      \<and> find_board (k_board k) t (db w) = Some b \<and> c_project cur = b_project b
      \<and> from_done = source_done cur t (db w)"
    and tx: "tx_now w \<noteq> None"
    and run: "move_card_tx t cur to_col (k_board k) to_pos (k_is_done k) from_done key e w = (Inr u, w')"
  from tx obtain now where now: "tx_now w = Some now" by auto
  have wf: "well_formed (db w)" using evolves_well_formed pre wf0 by blast
  from pre have cur: "find_card cid t (db w) = Some cur" by blast
  note cur' = find_card_Some [OF cur]
  then have cid: "c_id cur = cid" "c_tenant cur = t" by (simp_all add: card_key_def)
  let ?f = "place_card to_col (k_board k) to_pos (k_is_done k) (from_done \<and> \<not> k_is_done k) now"
  obtain d1 d2 r i where room: "make_room t (c_column cur) (c_position cur) to_col to_pos now (db w) = Some d1"
    and up: "update_card_sql cid t (\<lambda>d c. fk_ok d c \<and> i32_ok (c_position c))
        (place_card to_col (k_board k) to_pos (k_is_done k) (from_done \<and> \<not> k_is_done k)) now d1 = Some (Some r, d2)"
    and em: "emit_board (c_board cur) (i, t, ''CardMoved'', moved_payload (codec e) cid (c_column cur) to_col to_pos
        (c_revision cur) r key, now) d2 = Some (db w')" "tx_now w' = Some now"
    using move_card_tx_effect [OF run now] cid(1) by auto
  obtain g where d1: "d1 = (db w)\<lparr>cards := map g (cards (db w))\<rparr>"
    and g: "\<And>c. \<exists>p u. g c = c\<lparr>c_position := p, c_updated := u\<rparr>"
    and slots: "\<And>c. slot (g c) = moved_slot t (c_column cur) (c_position cur) to_col to_pos (slot c)"
    using make_room_shape [OF room] by blast
  have d2: "d2 = d1\<lparr>cards := upd_rows (card_key cid t) ?f (cards d1)\<rparr>"
    using update_card_sql_cards [OF up] by auto
  have scur: "slot cur = (t, c_column cur, c_position cur)" by (simp add: slot_def cid)
  obtain p0 u0 where gc: "g cur = cur\<lparr>c_position := p0, c_updated := u0\<rparr>" using g by blast
  let ?others = "filter (\<lambda>c. \<not> card_key cid t c) (cards (db w))"
  have "card_step (db w) d2"
    unfolding d2
  proof (rule placed_step [OF wf d1 g cur])
    show "card_key cid t (?f (g cur))" "c_revision (?f (g cur)) = c_revision (g cur) + 1"
      using cur' by (simp_all add: gc place_card_def card_key_def)
    show "homed (db w) (?f (g cur))"
      by (rule homedI [of _ _ k b])
        (use pre cid completed_source_done [OF wf cur] in \<open>auto simp: gc place_card_def completed_after_def split: option.split\<close>)
    have "counted (db w) cur" using wf cur' by (simp add: well_formed_def)
    then show "counted (db w) (?f (g cur))" by (simp add: gc place_card_def counted_def)
    have "ref_key (?f (g cur)) = ref_key cur" by (simp add: gc place_card_def ref_key_def)
    then show "ref_key (?f (g cur)) \<notin> ref_key ` set ?others" using others_differ(2) [OF wf cur] by force
    have "slot (?f (g cur)) = (t, to_col, to_pos)" by (simp add: gc place_card_def slot_def cid)
    moreover have "(t, to_col, to_pos) \<notin> (\<lambda>c. slot (g c)) ` set ?others"
    proof
      assume "(t, to_col, to_pos) \<in> (\<lambda>c. slot (g c)) ` set ?others"
      then obtain c where c: "(t, to_col, to_pos) = slot (g c)" "c \<in> set ?others" by (rule imageE)
      have "slot c \<noteq> (t, c_column cur, c_position cur)" using others_differ(1) [OF wf cur c(2)] scur by simp
      then show False using moved_slot_free [of "slot c" t "c_column cur" "c_position cur" to_col to_pos] c(1)
        unfolding slots by metis
    qed
    ultimately show "slot (?f (g cur)) \<notin> (\<lambda>c. slot (g c)) ` set ?others" by simp
    have "distinct (map slot ?others)" using wf by (simp add: well_formed_def distinct_map_filter)
    moreover have "inj_on (moved_slot t (c_column cur) (c_position cur) to_col to_pos) (slot ` set ?others)"
    proof (rule inj_on_subset [OF moved_slot_inj], rule subsetI)
      fix s
      assume "s \<in> slot ` set ?others"
      then obtain c where c: "s = slot c" "c \<in> set ?others" by (rule imageE)
      with others_differ(1) [OF wf cur c(2)] show "s \<in> - {(t, c_column cur, c_position cur)}" by (simp add: scur)
    qed
    ultimately have "distinct (map (moved_slot t (c_column cur) (c_position cur) to_col to_pos) (map slot ?others))"
      by (subst distinct_map) simp
    then show "distinct (map (\<lambda>c. slot (g c)) ?others)" by (simp add: slots comp_def)
  qed
  then have "evolves d0 d2" using pre by (blast intro: evolves_step)
  then show "evolves d0 (db w') \<and> tx_now w' \<noteq> None"
    using evolves_step [OF _ card_step.emitted [OF em(1)]] em(2) by simp
qed


section \<open>TransferCard\<close>

lemma transfer_card_tx_effect:
  assumes run: "transfer_card_tx t cur project to_board to_col to_done from_done key e w = (Inr u, w')"
    and now: "tx_now w = Some now"
  shows "\<exists>pre n d1 p d2 r d3 d4 i j.
    allocate_ref_sql project t now (db w) = Some (Some (pre, n), d1)
    \<and> next_position_sql to_col t now d1 = Some (p, d1)
    \<and> update_card_sql (c_id cur) t (\<lambda>d c. fk_ok d c \<and> ref_free d c \<and> i32_ok (c_position c))
        (transfer_place project to_board to_col (pre @ ''-'' @ show_int_pad 3 n) p to_done (from_done \<and> \<not> to_done))
        now d1 = Some (Some r, d2)
    \<and> scrub_labels_sql (c_id cur) project now d2 = Some d3
    \<and> emit_board (c_board cur) (i, t, ''CardTransferred'',
        transferred_payload (codec e) cur to_board to_col p r key, now) d3 = Some d4
    \<and> emit_board to_board (j, t, ''CardTransferred'',
        transferred_payload (codec e) cur to_board to_col p r key, now) d4 = Some (db w')
    \<and> tx_now w' = Some now"
proof -
  from run now obtain pre n d1 p d1' r d2 d3 w5 u1 where
    al: "allocate_ref_sql project t now (db w) = Some (Some (pre, n), d1)"
    and np: "next_position_sql to_col t now d1 = Some (p, d1')"
    and up: "update_card_sql (c_id cur) t (\<lambda>d c. fk_ok d c \<and> ref_free d c \<and> i32_ok (c_position c))
        (transfer_place project to_board to_col (pre @ ''-'' @ show_int_pad 3 n) p to_done (from_done \<and> \<not> to_done))
        now d1' = Some (Some r, d2)"
    and sc: "scrub_labels_sql (c_id cur) project now d2 = Some d3"
    and ev1: "insert_board_event t (c_board cur) ''CardTransferred''
        (JObj (transferred_payload (codec e) cur to_board to_col p r key)) e
        ((tick ((tick ((tick ((tick (tick w))\<lparr>db := d1\<rparr>))\<lparr>db := d1'\<rparr>))\<lparr>db := d2\<rparr>))\<lparr>db := d3\<rparr>) = (Inr u1, w5)"
    and ev2: "insert_board_event t to_board ''CardTransferred''
        (JObj (transferred_payload (codec e) cur to_board to_col p r key)) e w5 = (Inr u, w')"
    unfolding transfer_card_tx_def Let_def
    by (auto simp: ok_iffs sql_now_def simp del: split_paired_Ex)
  have "d1' = d1" using np by (auto simp: next_position_sql_def Let_def split: if_splits)
  moreover from insert_board_event_emit [OF ev1, of now] now obtain i where
    "emit_board (c_board cur) (i, t, ''CardTransferred'',
        transferred_payload (codec e) cur to_board to_col p r key, now) d3 = Some (db w5)" and n5: "tx_now w5 = Some now"
    by auto
  moreover from insert_board_event_emit [OF ev2 n5] obtain j where
    "emit_board to_board (j, t, ''CardTransferred'',
        transferred_payload (codec e) cur to_board to_col p r key, now) (db w5) = Some (db w')" "tx_now w' = Some now"
    by auto
  ultimately show ?thesis using al np up sc by blast
qed

lemma transfer_card_tx_evolves:
  assumes wf0: "well_formed d0"
  shows "ensures (\<lambda>d. evolves d0 d \<and> find_card cid t d = Some cur \<and> find_column to_col t d = Some k
      \<and> find_board to_board t d = Some b \<and> k_board k = to_board \<and> from_done = source_done cur t d)
    (transfer_card_tx t cur (b_project b) to_board to_col (k_is_done k) from_done key) (\<lambda>_. evolves d0)"
  unfolding ensures_def
proof (intro allI impI)
  fix e w u w'
  assume pre: "evolves d0 (db w) \<and> find_card cid t (db w) = Some cur \<and> find_column to_col t (db w) = Some k
      \<and> find_board to_board t (db w) = Some b \<and> k_board k = to_board
      \<and> from_done = source_done cur t (db w)"
    and tx: "tx_now w \<noteq> None"
    and run: "transfer_card_tx t cur (b_project b) to_board to_col (k_is_done k) from_done key e w = (Inr u, w')"
  from tx obtain now where now: "tx_now w = Some now" by auto
  have wf: "well_formed (db w)" using evolves_well_formed pre wf0 by blast
  from pre have "find_card cid t (db w) = Some cur" by blast
  note cur' = find_card_Some [OF this]
  then have cid: "c_id cur = cid" "c_tenant cur = t" by (simp_all add: card_key_def)
  obtain pr n d1 p d2 r d3 d4 i j where
    al: "allocate_ref_sql (b_project b) t now (db w) = Some (Some (pr, n), d1)"
    and np: "next_position_sql to_col t now d1 = Some (p, d1)"
    and up: "update_card_sql cid t (\<lambda>d c. fk_ok d c \<and> ref_free d c \<and> i32_ok (c_position c))
        (transfer_place (b_project b) to_board to_col (pr @ ''-'' @ show_int_pad 3 n) p (k_is_done k) (from_done \<and> \<not> k_is_done k))
        now d1 = Some (Some r, d2)"
    and sc: "scrub_labels_sql cid (b_project b) now d2 = Some d3"
    and em: "emit_board (c_board cur) (i, t, ''CardTransferred'',
        transferred_payload (codec e) cur to_board to_col p r key, now) d3 = Some d4"
      "emit_board to_board (j, t, ''CardTransferred'',
        transferred_payload (codec e) cur to_board to_col p r key, now) d4 = Some (db w')"
      "tx_now w' = Some now"
    using transfer_card_tx_effect [OF run now] unfolding cid(1) by blast
  have cok: "counters_ok (db w)" using wf by (simp add: well_formed_def)
  note a = allocate_ref_effect [OF al cok]
  have step1: "card_step (db w) d1" using al by (rule card_step.counted_ref)
  have wf1: "well_formed d1" using card_step_well_formed [OF step1 wf] .
  have cur1: "find_card cid t d1 = Some cur" using pre a(3) by (simp add: find_card_def)
  let ?f = "transfer_place (b_project b) to_board to_col (pr @ ''-'' @ show_int_pad 3 n) p (k_is_done k) (from_done \<and> \<not> k_is_done k) now"
  have d2: "d2 = d1\<lparr>cards := upd_rows (card_key cid t) ?f (cards d1)\<rparr>" and free: "ref_free d1 (?f cur)"
    using update_card_sql_cards [OF up] cur1 by auto
  let ?others = "filter (\<lambda>c. \<not> card_key cid t c) (cards d1)"
  have "card_step d1 (d1\<lparr>cards := upd_rows (card_key cid t) ?f (cards d1)\<rparr>)"
  proof (rule placed_step [OF wf1 _ _ cur1, of d1 id])
    show "\<exists>p u. id c = c\<lparr>c_position := p, c_updated := u\<rparr>" for c :: card_row
      by (rule exI [of _ "c_position c"], rule exI [of _ "c_updated c"]) simp
    show "card_key cid t (?f (id cur))" "c_revision (?f (id cur)) = c_revision (id cur) + 1"
      using cur' by (simp_all add: transfer_place_def card_key_def)
    show "homed d1 (?f (id cur))"
      by (rule homedI [of _ _ k b])
        (use pre cid a(4,5) completed_source_done [OF wf, of cid t cur] in \<open>auto simp: transfer_place_def find_column_def
          find_board_def completed_after_def split: option.split\<close>)
    show "counted d1 (?f (id cur))" using a(1,2) by (auto simp: transfer_place_def counted_def)
    show "ref_key (?f (id cur)) \<notin> ref_key ` set ?others"
    proof
      assume "ref_key (?f (id cur)) \<in> ref_key ` set ?others"
      then obtain x where x: "ref_key (?f cur) = ref_key x" "x \<in> set (cards d1)" "\<not> card_key cid t x" by auto
      have "c_id x = cid \<Longrightarrow> x = cur"
        using wf1 x(2) find_card_Some [OF cur1] cid by (auto simp: well_formed_def distinct_map inj_on_def)
      then have "c_id x \<noteq> cid" using x(3) cur' by auto
      then show False using free x cid by (auto simp: ref_free_def transfer_place_def)
    qed
    show "slot (?f (id cur)) \<notin> (\<lambda>c. slot (id c)) ` set ?others"
    proof
      assume "slot (?f (id cur)) \<in> (\<lambda>c. slot (id c)) ` set ?others"
      then obtain x where x: "slot (?f cur) = slot x" "x \<in> set (cards d1)" by auto
      then have "c_position x \<in> set (map c_position (filter (in_column to_col t) (cards d1)))" and px: "c_position x = p"
        using cid by (auto simp: slot_def transfer_place_def in_column_def)
      from next_position_gt [OF this(1)] have "c_position x < p"
        using np by (simp add: next_position_sql_def Let_def split: if_splits)
      with px show False by simp
    qed
    show "distinct (map (\<lambda>c. slot (id c)) ?others)" using wf1 by (simp add: well_formed_def distinct_map_filter)
  qed simp
  then have "evolves d0 d2"
    using pre step1 unfolding d2 by (blast intro: evolves_step)
  moreover have "core_eq d2 d3" using sc by (auto simp: scrub_labels_sql_def core_eq_def)
  ultimately have "evolves d0 d3" by (rule evolves_around)
  then have "evolves d0 d4" using card_step.emitted [OF em(1)] by (rule evolves_step)
  then have "evolves d0 (db w')" using card_step.emitted [OF em(2)] by (rule evolves_step)
  then show "evolves d0 (db w') \<and> tx_now w' \<noteq> None" using em(3) by simp
qed


section \<open>The handlers of MoveCard and TransferCard\<close>

lemma settles_move_card_tx: "settles (move_card_tx t cur to_col to_board to_pos to_done from_done key)"
  unfolding move_card_tx_def by (intro settles_bnd settles_insert_board_event)

lemma triple_source_done:
  assumes "\<And>d. P d \<Longrightarrow> I d" and "\<And>d. P d \<Longrightarrow> find_column to_col t d = Some kr"
  shows "triple P (if c_column cur = to_col then ret (k_is_done kr)
      else bnd (internal msg (select (find_column (c_column cur) t))) (\<lambda>k.
        ret (case k of Some x \<Rightarrow> k_is_done x | None \<Rightarrow> False)))
    (\<lambda>fd d. P d \<and> fd = source_done cur t d) I"
proof (rule triple_if)
  assume "c_column cur = to_col"
  then show "triple P (ret (k_is_done kr)) (\<lambda>fd d. P d \<and> fd = source_done cur t d) I"
    by (intro triple_weaken [OF triple_ret [of P]]) (auto simp: source_done_def dest: assms(2))
next
  show "triple P (bnd (internal msg (select (find_column (c_column cur) t))) (\<lambda>k.
        ret (case k of Some x \<Rightarrow> k_is_done x | None \<Rightarrow> False))) (\<lambda>fd d. P d \<and> fd = source_done cur t d) I"
    by (rule triple_bnd [OF triple_select [OF assms(1)]], assumption, rule triple_weaken [OF triple_ret])
      (auto simp: source_done_def)
qed

lemma evolves_move:
  assumes wf0: "well_formed d0"
  shows "keeps (evolves d0) (move_card ctx req)"
  unfolding move_card_def Let_def
  apply (rule keeps_bnd keeps_checked_object_id keeps_parse_id
      keeps_tenant_id_from_request keeps_check_idempotency_card)+
  apply (rule keeps_option)
   defer
   apply (rule keeps_fetch_full_card)
  apply (simp only: triple_keeps [symmetric])
  apply (rule triple_lookup, assumption)
  apply (rule triple_lookup, simp)
  apply (rule triple_bnd, rule triple_source_done, simp, force)
  apply (rule triple_lookup, simp)
  apply (rule triple_check, simp)
  apply (rule triple_commit [OF _ settles_move_card_tx move_card_tx_evolves [OF wf0]])
    apply simp
   apply force
  by (intro keeps_intros)

lemma settles_transfer_card_tx: "settles (transfer_card_tx t cur project to_board to_col to_done from_done key)"
  unfolding transfer_card_tx_def Let_def by (intro settles_bnd settles_insert_board_event)

lemma evolves_transfer:
  assumes wf0: "well_formed d0"
  shows "keeps (evolves d0) (transfer_card ctx req)"
  unfolding transfer_card_def Let_def
  apply (rule keeps_bnd keeps_checked_object_id keeps_parse_id keeps_ask
      keeps_tenant_id_from_request keeps_check_idempotency_card)+
  apply (rule keeps_option)
   defer
   apply (intro keeps_intros)
  apply (simp only: triple_keeps [symmetric])
  apply (rule triple_lookup, assumption)
  apply (rule triple_lookup, simp)
  apply (rule triple_check, simp)
  apply (rule triple_skip, intro keeps_intros, simp)
  apply (rule triple_skip, intro keeps_intros, simp)
  apply (rule triple_skip, intro keeps_intros, simp)
  apply (rule triple_check, simp)
  apply (rule triple_lookup, simp)
  apply (rule triple_check, simp)
  apply (rule triple_bnd, rule triple_select, simp)
  apply (rule triple_commit [OF _ settles_transfer_card_tx transfer_card_tx_evolves [OF wf0]])
    apply simp
   apply (elim conjE, intro conjI, assumption+, simp add: source_done_def)
  by (intro keeps_intros)


end
