(* ===== verification/Card_Service.thy ===== *)
theory Card_Service
  imports Card_Refinement
begin

text \<open>
  The card service as a whole (\<open>impl KanbanCardService for CardsService\<close>, \<open>src/services/cards.rs\<close>): the
  calls a client can make, a sequence of them, and what holds of the database over any such sequence,
  whatever the database connection, the gateway and the clock do.
\<close>

datatype card_call =
    GetCard
  | BatchGetCards "string list"
  | ListCardsByBoard list_cards_request
  | CreateCard create_card_request
  | UpdateCard update_card_request
  | MoveCard move_card_request
  | TransferCard transfer_card_request
  | DeleteCard
  | AddCardDependency dependency_request
  | RemoveCardDependency dependency_request
  | BulkUpdateCardLabels bulk_labels_request
  | AssignCard string
  | UnassignCard string
  | AddChecklistItem string int
  | UpdateChecklistItem string "(string \<times> bool) option"
  | RemoveChecklistItem string
  | AddComment add_comment_request
  | EditComment string string
  | DeleteComment string
  | ListComments int string

definition void :: "(cerr, 'a) act \<Rightarrow> (cerr, unit) act" where
  "void m = bnd m (\<lambda>_. ret ())"

fun serve :: "request_context \<Rightarrow> card_call \<Rightarrow> (cerr, unit) act" where
  "serve ctx GetCard = void (get_card ctx)"
| "serve ctx (BatchGetCards ids) = void (batch_get_cards ctx ids)"
| "serve ctx (ListCardsByBoard req) = void (list_cards_by_board ctx req)"
| "serve ctx (CreateCard req) = void (create_card ctx req)"
| "serve ctx (UpdateCard req) = void (update_card ctx req)"
| "serve ctx (MoveCard req) = void (move_card ctx req)"
| "serve ctx (TransferCard req) = void (transfer_card ctx req)"
| "serve ctx DeleteCard = delete_card ctx"
| "serve ctx (AddCardDependency req) = void (add_card_dependency ctx req)"
| "serve ctx (RemoveCardDependency req) = void (remove_card_dependency ctx req)"
| "serve ctx (BulkUpdateCardLabels req) = void (bulk_update_card_labels ctx req)"
| "serve ctx (AssignCard sub) = void (assign_card ctx sub)"
| "serve ctx (UnassignCard sub) = void (unassign_card ctx sub)"
| "serve ctx (AddChecklistItem txt pos) = void (add_checklist_item ctx txt pos)"
| "serve ctx (UpdateChecklistItem iid item) = void (update_checklist_item ctx iid item)"
| "serve ctx (RemoveChecklistItem iid) = remove_checklist_item ctx iid"
| "serve ctx (AddComment req) = void (add_comment ctx req)"
| "serve ctx (EditComment cid body) = void (edit_comment ctx cid body)"
| "serve ctx (DeleteComment cid) = delete_comment ctx cid"
| "serve ctx (ListComments n cur) = void (list_comments ctx n cur)"

text \<open>Requests served one after the other; a failed one does not stop the service.\<close>

primrec serve_all :: "(request_context \<times> card_call) list \<Rightarrow> (cerr, unit) act" where
  "serve_all [] = ret ()"
| "serve_all (x # xs) = bnd (attempt (serve (fst x) (snd x))) (\<lambda>_. serve_all xs)"

lemma keeps_void [keeps_intros]: "keeps I m \<Longrightarrow> keeps I (void m)"
  unfolding void_def by (intro keeps_intros)

lemma evolves_serve: "well_formed d0 \<Longrightarrow> keeps (evolves d0) (serve ctx call)"
  by (cases call) (auto intro: keeps_intros evolves_create evolves_move evolves_transfer)

lemma evolves_serve_all: "well_formed d0 \<Longrightarrow> keeps (evolves d0) (serve_all calls)"
  by (induction calls) (auto intro!: keeps_intros evolves_serve)

lemma served_evolves: "well_formed (db w) \<Longrightarrow> evolves (db w) (db (snd (serve_all calls e w)))"
  using evolves_serve_all [of "db w" calls] by (simp add: keeps_def)

section \<open>A sample database\<close>

definition sid :: "nat \<Rightarrow> ident" where
  "sid n = Ident (of_nat n) Ulid"

definition sample_card :: "nat \<Rightarrow> nat \<Rightarrow> string \<Rightarrow> int \<Rightarrow> datetime option \<Rightarrow> card_row" where
  "sample_card i col ref pos fin = \<lparr>c_id = sid i, c_tenant = ''t'', c_project = sid 1, c_board = sid 2,
     c_column = sid col, c_ref = ref, c_title = ''a title'', c_description = None, c_position = pos,
     c_priority = None, c_urgency = None, c_due = None, c_completed = fin, c_blocked = False,
     c_cover = None, c_milestone = None, c_revision = 0, c_created_by = ''s'', c_created = (0, 0),
     c_updated = (0, 0)\<rparr>"

definition sample_project :: "nat \<Rightarrow> string \<Rightarrow> project_row" where
  "sample_project i prefix = \<lparr>p_id = sid i, p_tenant = ''t'', p_prefix = prefix, p_name = prefix, p_slug = prefix,
     p_description = None, p_owner = ''s'', p_visibility = ''private'', p_created = (0, 0), p_updated = (0, 0)\<rparr>"

definition sample_board :: "nat \<Rightarrow> nat \<Rightarrow> board_row" where
  "sample_board i p = \<lparr>b_id = sid i, b_tenant = ''t'', b_project = sid p, b_revision = 0, b_name = ''a board'',
     b_slug = ''aboard'', b_description = None, b_icon = None, b_visibility = ''private'',
     b_created = (0, 0), b_updated = (0, 0)\<rparr>"

definition sample_column :: "nat \<Rightarrow> nat \<Rightarrow> int \<Rightarrow> bool \<Rightarrow> column_row" where
  "sample_column i b pos fin = \<lparr>k_id = sid i, k_tenant = ''t'', k_board = sid b, k_is_done = fin, k_title = ''a column'',
     k_position = pos, k_accent = None, k_wip = None, k_created = (0, 0), k_updated = (0, 0)\<rparr>"

text \<open>Two projects with a board each; the first board has a todo and a done column, and three cards.\<close>

definition sample_db :: db where
  "sample_db = empty_db\<lparr>
     projects := [sample_project 1 ''SUN'', sample_project 7 ''SKY''],
     boards := [sample_board 2 1, sample_board 8 7],
     columns := [sample_column 3 2 0 False, sample_column 4 2 1 True, sample_column 9 8 0 False],
     cards := [sample_card 5 3 ''SUN-001'' 0 None, sample_card 6 3 ''SUN-002'' 1 None,
               sample_card 10 4 ''SUN-003'' 0 (Some (0, 0))],
     project_ref_counter := [\<lparr>n_project = sid 1, n_tenant = ''t'', n_prefix = ''SUN'', n_next = 4\<rparr>]\<rparr>"

definition sample_context :: "ident \<Rightarrow> request_context" where
  "sample_context i = \<lparr>auth_ext = Some \<lparr>auth_subject = Some ''s'', auth_tenant_id = Some ''t''\<rparr>,
     checked_ext = Some (id_str crockford i)\<rparr>"

lemma show_pads: "show_int_pad 3 1 = ''001''" "show_int_pad 3 2 = ''002''" "show_int_pad 3 3 = ''003''"
  "show_int_pad 3 4 = ''004''"
  by code_simp+

lemma sample_gapless: "board_log.gapless sample_db" "aggregated_log.gapless sample_db"
  unfolding board_log.gapless_def aggregated_log.gapless_def
  by (auto simp: sample_db_def sample_board_def empty_db_def board_revision_def board_log_def aggregated_revision_def
      split: if_splits)

lemma sample_counted:
  "ref = ''SUN-'' @ show_int_pad 3 n \<Longrightarrow> 1 \<le> n \<Longrightarrow> n < 4 \<Longrightarrow> counted sample_db (sample_card i k ref p c)"
  unfolding counted_def
  by (simp add: sample_db_def empty_db_def sample_card_def) (rule exI [of _ "''SUN''"], rule exI [of _ n], simp)

lemma sid_inject [simp]: "n < 2 ^ 128 \<Longrightarrow> m < 2 ^ 128 \<Longrightarrow> sid n = sid m \<longleftrightarrow> n = m"
proof -
  have "unat (of_nat k :: u128) = k" if "k < 2 ^ 128" for k
    using that by (simp add: unsigned_of_nat take_bit_nat_eq_self)
  then show "n < 2 ^ 128 \<Longrightarrow> m < 2 ^ 128 \<Longrightarrow> ?thesis" by (metis ident.inject sid_def)
qed

lemma sample_db_fields [simp]:
  "cards sample_db = [sample_card 5 3 ''SUN-001'' 0 None, sample_card 6 3 ''SUN-002'' 1 None,
     sample_card 10 4 ''SUN-003'' 0 (Some (0, 0))]"
  "event_log sample_db = []" "idempotency_keys sample_db = []" "card_labels sample_db = []"
  by (simp_all add: sample_db_def empty_db_def)

lemma sample_homed: "homed sample_db (sample_card i 3 ref p None)" "homed sample_db (sample_card i 4 ref p (Some x))"
  by (simp_all add: homed_def sample_db_def sample_card_def sample_column_def sample_board_def)

lemma sample_well_formed: "well_formed sample_db"
proof -
  have "counted sample_db (sample_card i k ''SUN-001'' p c)" for i k p c
    by (rule sample_counted [of _ 1]) (simp_all add: show_pads)
  moreover have "counted sample_db (sample_card i k ''SUN-002'' p c)" for i k p c
    by (rule sample_counted [of _ 2]) (simp_all add: show_pads)
  moreover have "counted sample_db (sample_card i k ''SUN-003'' p c)" for i k p c
    by (rule sample_counted [of _ 3]) (simp_all add: show_pads)
  ultimately have "\<forall>c \<in> set (cards sample_db). homed sample_db c \<and> counted sample_db c"
    by (simp add: sample_homed)
  moreover have "distinct (map c_id (cards sample_db))" "distinct (map ref_key (cards sample_db))"
    "distinct (map slot (cards sample_db))"
    by (simp_all add: sample_card_def ref_key_def slot_def)
  moreover have "distinct (map k_id (columns sample_db))" "counters_ok sample_db"
    by (simp_all add: sample_db_def sample_column_def counters_ok_def)
  ultimately show ?thesis
    unfolding well_formed_def using sample_gapless by blast
qed

lemmas request_evals = checked_object_id_def parse_id_def sample_context_def crockford.id_from_str_show
  tenant_id_from_request_def subject_from_request_def tenant_client_for_def tenant_client_def

lemmas sample_evals = sample_db_def empty_db_def sample_card_def sample_project_def sample_board_def sample_column_def sample_world_def tick_def sql_now_def

lemmas event_evals = insert_board_event_def insert_row_def bump_board_revision_def insert_event_sql_def
  pg_notify_def i64_ok_def upd_rows_def with_board_revision_def jstr_def jnum_def

lemmas delete_card_evals = delete_card_def find_card_def card_key_def delete_card_tx_def delete_card_sql_def
  del_rows_def cnt_rows_def deleted_payload_def delete_relation_tuples_def list_relation_tuples_def numeral_3_eq_3

end
