(* ===== verification/Card_Properties.thy ===== *)
theory Card_Properties
  imports Card_Service
begin

text \<open>
  Properties of the card service (\<open>src/services/cards.rs\<close>), over any sequence of requests and over
  single handlers.
\<close>

section \<open>Any sequence of requests\<close>

text \<open>
  C3. Every sequence of card requests, in any environment (failing statements, failing gateway,
  failing commits), keeps the card tables well formed: card ids and refs are unique, no two cards share
  a position in a column, every card's column belongs to its board and its board to its project and
  tenant, a card is completed exactly while it is in a done column, every ref was drawn from its project's
  counter, and the events of each board carry the revisions 1, 2, \<dots> up to the board's own, without a gap.
\<close>

theorem service_invariant:
  assumes "well_formed (db w)"
  shows "well_formed (db (snd (serve_all calls e w)))"
  using evolves_well_formed [OF served_evolves [OF assms] assms] .

theorem service_invariant_witness:
  "well_formed sample_db \<and> well_formed (db (snd (serve_all
     [(sample_context (sid 5), MoveCard \<lparr>mv_to_column_id = id_str crockford (sid 4), mv_to_position = 1, mv_idempotency_key = ''''\<rparr>),
      (sample_context (sid 6), DeleteCard)] sample_env (sample_world sample_db))))"
  using service_invariant [of "sample_world sample_db"] sample_well_formed unfolding sample_world_fields by blast

text \<open>The log only grows, and the revisions of the boards and the ref counters never go back.\<close>

definition extends :: "db \<Rightarrow> db \<Rightarrow> bool" where
  "extends d d' \<longleftrightarrow> (\<exists>more. event_log d' = event_log d @ more)
     \<and> (\<forall>b r. board_revision d b = Some r \<longrightarrow> (\<exists>r'. board_revision d' b = Some r' \<and> r \<le> r'))
     \<and> (\<forall>x \<in> set (project_ref_counter d). \<exists>y \<in> set (project_ref_counter d'). n_project y = n_project x \<and> n_next x \<le> n_next y)
     \<and> map (\<lambda>b. (b_id b, b_tenant b, b_project b)) (boards d') = map (\<lambda>b. (b_id b, b_tenant b, b_project b)) (boards d)
     \<and> columns d' = columns d \<and> projects d' = projects d"

lemma extends_refl: "extends d d"
  by (auto simp: extends_def)

lemma extends_trans:
  assumes "extends a b" and "extends b c"
  shows "extends a c"
proof -
  have "\<exists>z \<in> set (project_ref_counter c). n_project z = n_project x \<and> n_next x \<le> n_next z"
    if "x \<in> set (project_ref_counter a)" for x
  proof -
    from assms(1) that obtain y where y: "y \<in> set (project_ref_counter b)" "n_project y = n_project x" "n_next x \<le> n_next y"
      by (auto simp: extends_def)
    with assms(2) obtain z where "z \<in> set (project_ref_counter c)" "n_project z = n_project y" "n_next y \<le> n_next z"
      by (auto simp: extends_def)
    with y show ?thesis by (intro bexI [of _ z]) auto
  qed
  moreover have "\<exists>r'. board_revision c k = Some r' \<and> r \<le> r'" if "board_revision a k = Some r" for k r
    using assms that unfolding extends_def by (meson order_trans)
  ultimately show ?thesis using assms by (auto simp: extends_def)
qed

lemma extends_same:
  "event_log d' = event_log d \<Longrightarrow> boards d' = boards d \<Longrightarrow> project_ref_counter d' = project_ref_counter d \<Longrightarrow>
   columns d' = columns d \<Longrightarrow> projects d' = projects d \<Longrightarrow> extends d d'"
  by (auto simp: extends_def board_revision_def)

lemma extends_counted_ref:
  assumes "allocate_ref_sql p t now d = Some (r, d')"
  shows "extends d d'"
proof -
  let ?up = "\<lambda>q. upd_rows (\<lambda>r. n_project r = p) (\<lambda>r. r\<lparr>n_next := n_next r + 1, n_prefix := q\<rparr>) (project_ref_counter d)"
  have "project_ref_counter d' = project_ref_counter d \<or> (\<exists>y. project_ref_counter d' = project_ref_counter d @ [y])
      \<or> (\<exists>q. project_ref_counter d' = ?up q)"
    using assms by (auto simp: allocate_ref_sql_def split: option.splits if_splits)
  moreover have "\<exists>y \<in> set (?up q). n_project y = n_project x \<and> n_next x \<le> n_next y"
    if "x \<in> set (project_ref_counter d)" for x q
    by (rule bexI [of _ "if n_project x = p then x\<lparr>n_next := n_next x + 1, n_prefix := q\<rparr> else x"])
      (use that in \<open>auto simp: set_upd_rows\<close>)
  ultimately have "\<exists>y \<in> set (project_ref_counter d'). n_project y = n_project x \<and> n_next x \<le> n_next y"
    if "x \<in> set (project_ref_counter d)" for x
    using that by auto
  moreover have "event_log d' = event_log d" "boards d' = boards d" "columns d' = columns d" "projects d' = projects d"
    using assms by (auto simp: allocate_ref_sql_def split: option.splits if_splits)
  ultimately show ?thesis by (auto simp: extends_def board_revision_def)
qed

lemma extends_emitted:
  assumes "emit_board b v d = Some d'"
  shows "extends d d'"
proof -
  obtain i t ty obj now where v: "v = (i, t, ty, obj, now)" by (cases v) auto
  from emit_board_Some [OF assms] obtain r where r: "board_revision d b = Some r"
    "board_revision d' = (board_revision d)(b \<mapsto> r + 1)" by blast
  have "\<exists>more. event_log d' = event_log d @ more"
    using assms [unfolded v] by (rule emit_board_cases) (auto simp: log_event_def)
  then show ?thesis using r emit_board_frame [OF assms] by (auto simp: extends_def)
qed

lemma card_step_extends: "card_step d d' \<Longrightarrow> extends d d'"
proof (induction rule: card_step.induct)
  case (around d d')
  then show ?case by (intro extends_same) (simp_all add: core_eq_def)
next
  case (counted_ref p t now d r d')
  then show ?case by (rule extends_counted_ref)
next
  case (emitted b v d d')
  then show ?case by (rule extends_emitted)
next
  case (touched cid t chk f now d r d')
  from update_card_sql_cards [OF touched(1)]
  have "d' = d \<or> (\<exists>cs. d' = d\<lparr>cards := cs\<rparr>)" by blast
  then show ?case by (auto intro!: extends_same)
next
  case (opened col t pos now d d')
  then show ?case by (intro extends_same) (auto simp: shift_sql_def split: if_splits)
next
  case (inserted row now d d')
  from inserted(1) show ?case by (intro extends_same) (auto simp: insert_card_sql_def Let_def split: if_splits)
next
  case (placed d d1 d' cid t f)
  from placed(1) obtain g where "d1 = d\<lparr>cards := g\<rparr>" unfolding repositioned_def by blast
  then show ?case using placed(2) by (intro extends_same) simp_all
next
  case (deleted cid t now d n d')
  then show ?case by (intro extends_same) (auto simp: delete_card_sql_def Let_def split: if_splits)
qed

lemma evolves_extends: "evolves d d' \<Longrightarrow> extends d d'"
  by (induction rule: rtranclp_induct) (auto intro: extends_refl extends_trans card_step_extends)

text \<open>
  C4. The event stream of a board can be followed by revision: whatever requests are served, the log of
  a board keeps what it had and continues with exactly the revisions after the one it was at, up to
  the board's new revision.
\<close>

theorem service_event_stream:
  assumes wf: "well_formed (db w)" and r: "board_revision (db w) b = Some r"
  shows "\<exists>r'. board_revision (db (snd (serve_all calls e w))) b = Some r' \<and> r \<le> r'
    \<and> board_log (db (snd (serve_all calls e w))) b = board_log (db w) b @ [r + 1..r']"
proof -
  let ?d = "db (snd (serve_all calls e w))"
  have ev: "evolves (db w) ?d" by (rule served_evolves [OF wf])
  from evolves_extends [OF ev] r obtain r' where r': "board_revision ?d b = Some r'" "r \<le> r'"
    unfolding extends_def by blast
  have "0 \<le> r \<and> board_log (db w) b = [1..r]" "board_log ?d b = [1..r']"
    using wf evolves_well_formed [OF ev wf] r r' by (simp_all add: well_formed_def board_log.gapless_def)
  moreover have "[1..r'] = [1..r] @ [r + 1..r']" if "0 \<le> r"
    using r'(2) that by (cases "r = 0") (auto intro: upto_split2)
  ultimately show ?thesis using r' by simp
qed

theorem service_event_stream_witness:
  "\<exists>r'. board_revision (db (snd (serve_all [(sample_context (sid 6), DeleteCard)] sample_env (sample_world sample_db)))) (sid 2)
        = Some r' \<and> 0 \<le> r'
    \<and> board_log (db (snd (serve_all [(sample_context (sid 6), DeleteCard)] sample_env (sample_world sample_db)))) (sid 2)
        = board_log sample_db (sid 2) @ [0 + 1..r']"
proof -
  have "board_revision (db (sample_world sample_db)) (sid 2) = Some 0"
    by (simp add: board_revision_def sample_db_def sample_board_def)
  from service_event_stream [OF _ this, of "[(sample_context (sid 6), DeleteCard)]" sample_env]
  show ?thesis using sample_well_formed unfolding sample_world_fields by blast
qed

section \<open>Refs\<close>

lemma counter_bound:
  assumes "well_formed d" and "c \<in> set (cards d)"
  shows "\<exists>x \<in> set (project_ref_counter d). n_project x = c_project c \<and>
    (\<exists>q k. c_ref c = q @ ''-'' @ show_int_pad 3 k \<and> 1 \<le> k \<and> k < n_next x)"
  using assms by (auto simp: well_formed_def counted_def)

lemma ref_text_inject:
  assumes "p @ ''-'' @ show_int_pad 3 n = q @ ''-'' @ show_int_pad 3 k" and "0 \<le> n" and "0 \<le> k"
  shows "n = k"
proof -
  have d: "\<forall>c \<in> set (show_int_pad 3 i). is_digit c" "read_nat (show_int_pad 3 i) = nat i" if "0 \<le> i" for i
    using that pad0_digits [OF show_nat_digits] by (simp_all add: show_int_pad_def)
  have "show_int_pad 3 n = show_int_pad 3 k"
    using dash_suffix_inject [of p "show_int_pad 3 n" q "show_int_pad 3 k"] assms d by simp
  then have "nat n = nat k" using d(2) assms(2,3) by metis
  then show ?thesis using assms by simp
qed

lemma allocated_number:
  assumes "allocate_ref_sql p t now d = Some (Some (pre, n), d')" and "counters_ok d"
    and "x \<in> set (project_ref_counter d)" and "n_project x = p"
  shows "n = n_next x"
proof -
  have "List.find (\<lambda>r. n_project r = p) (project_ref_counter d) = Some x"
    by (rule find_distinct_key [of n_project]) (use assms in \<open>auto simp: counters_ok_def\<close>)
  then show ?thesis using assms(1) by (auto simp: allocate_ref_sql_def split: option.splits if_splits)
qed

text \<open>
  C24. A ref is never given out twice: the ref that \<open>allocate_card_ref\<close> returns for a project differs from every ref
  that it returned for this project before, whatever requests were served in between: cards deleted or
  transferred away, prefixes changed. Nor does any card of the project carry it already, so that the unique
  constraint on refs never rejects a new card.
\<close>

theorem allocated_ref_fresh:
  assumes wf: "well_formed (db w)" and first: "allocate_card_ref project tenant e w = (Inr ref, w1)"
    and next_one: "allocate_card_ref project tenant' e' (snd (serve_all calls e w1)) = (Inr ref', w2)"
  shows "ref' \<noteq> ref \<and> (\<forall>c \<in> set (cards (db w2)). c_project c = project \<longrightarrow> c_ref c \<noteq> ref')"
proof -
  let ?v = "snd (serve_all calls e w1)"
  from first [unfolded allocate_card_ref_ok] obtain pre n d1 where
    al: "allocate_ref_sql project tenant (sql_now e (tick w)) (db w) = Some (Some (pre, n), d1)"
    and ref: "ref = pre @ ''-'' @ show_int_pad 3 n" and "w1 = (tick (tick w))\<lparr>db := d1\<rparr>"
    by blast
  then have w1: "db w1 = d1" by simp
  from next_one [unfolded allocate_card_ref_ok] obtain pre' n' d2 where
    al': "allocate_ref_sql project tenant' (sql_now e' (tick ?v)) (db ?v) = Some (Some (pre', n'), d2)"
    and ref': "ref' = pre' @ ''-'' @ show_int_pad 3 n'" and "w2 = (tick (tick ?v))\<lparr>db := d2\<rparr>"
    by blast
  then have w2: "db w2 = d2" by simp
  have cok: "counters_ok (db w)" using wf by (simp add: well_formed_def)
  note a = allocate_ref_effect [OF al cok]
  have wf1: "well_formed (db w1)" using card_step_well_formed [OF card_step.counted_ref [OF al] wf] w1 by simp
  have ev: "evolves (db w1) (db ?v)" by (rule served_evolves [OF wf1])
  have wfv: "well_formed (db ?v)" by (rule evolves_well_formed [OF ev wf1])
  then have cokv: "counters_ok (db ?v)" by (simp add: well_formed_def)
  note b = allocate_ref_effect [OF al' cokv]
  from a(2) w1 obtain x where x: "x \<in> set (project_ref_counter (db w1))" "n_project x = project" "n < n_next x" by blast
  with evolves_extends [OF ev] obtain y where "y \<in> set (project_ref_counter (db ?v))" "n_project y = project" "n_next x \<le> n_next y"
    unfolding extends_def by metis
  with allocated_number [OF al' cokv, of y] x(3) have "n < n'" by simp
  then have "ref' \<noteq> ref" using ref_text_inject [of pre n pre' n'] a(1) b(1) unfolding ref ref' by auto
  moreover have "c_ref c \<noteq> ref'" if c: "c \<in> set (cards (db w2))" "c_project c = project" for c
  proof
    assume same: "c_ref c = ref'"
    have "c \<in> set (cards (db ?v))" using c(1) w2 b(3) by simp
    from counter_bound [OF wfv this] obtain z q k where z: "z \<in> set (project_ref_counter (db ?v))" "n_project z = project"
      "c_ref c = q @ ''-'' @ show_int_pad 3 k" "1 \<le> k" "k < n_next z" using c(2) by blast
    have "n' = k" using ref_text_inject [of pre' n' q k] ref' z(3,4) same b(1) by simp
    with allocated_number [OF al' cokv z(1,2)] z(5) show False by simp
  qed
  ultimately show ?thesis by blast
qed

theorem allocated_ref_fresh_witness:
  "\<exists>w1 w2. allocate_card_ref (sid 1) ''t'' sample_env (sample_world sample_db) = (Inr ''SUN-004'', w1)
     \<and> allocate_card_ref (sid 1) ''t'' sample_env (snd (serve_all [] sample_env w1)) = (Inr ''SUN-005'', w2)
     \<and> ''SUN-005'' \<noteq> ''SUN-004'' \<and> (\<forall>c \<in> set (cards (db w2)). c_project c = sid 1 \<longrightarrow> c_ref c \<noteq> ''SUN-005'')"
proof -
  let ?d = "\<lambda>k. sample_db\<lparr>project_ref_counter := [\<lparr>n_project = sid 1, n_tenant = ''t'', n_prefix = ''SUN'', n_next = k\<rparr>]\<rparr>"
  define w1 where "w1 = (tick (tick (sample_world sample_db)))\<lparr>db := ?d 5\<rparr>"
  define w2 where "w2 = (tick (tick w1))\<lparr>db := ?d 6\<rparr>"
  have texts: "''SUN-004'' = ''SUN'' @ ''-'' @ show_int_pad 3 4" "''SUN-005'' = ''SUN'' @ ''-'' @ show_int_pad 3 5"
    by code_simp+
  have "allocate_ref_sql (sid 1) ''t'' now sample_db = Some (Some (''SUN'', 4), ?d 5)"
    "allocate_ref_sql (sid 1) ''t'' now (?d 5) = Some (Some (''SUN'', 5), ?d 6)" for now
    by (simp_all add: allocate_ref_sql_def sample_db_def sample_project_def i32_ok_def upd_rows_def)
  then have run: "allocate_card_ref (sid 1) ''t'' sample_env (sample_world sample_db) = (Inr ''SUN-004'', w1)"
    and run2: "allocate_card_ref (sid 1) ''t'' sample_env (snd (serve_all [] sample_env w1)) = (Inr ''SUN-005'', w2)"
    unfolding allocate_card_ref_ok w1_def w2_def texts by (simp_all add: ret_def)
  have "well_formed (db (sample_world sample_db))" using sample_well_formed by simp
  from allocated_ref_fresh [OF this run run2] run run2 show ?thesis by blast
qed

end
