(* ===== verification/Card_Isolation.thy ===== *)
theory Card_Isolation
  imports Card_Service
begin

text \<open>
  Tenant isolation of the card service: a request of one tenant leaves the cards, the events and the
  idempotency keys of every other tenant alone.
\<close>

section \<open>What other tenants own\<close>

definition foreign :: "string \<Rightarrow> db \<Rightarrow> card_row list \<times> event_row list \<times> idempotency_row list" where
  "foreign t d = (filter (\<lambda>c. c_tenant c \<noteq> t) (cards d), filter (\<lambda>r. e_tenant r \<noteq> t) (event_log d),
     filter (\<lambda>r. q_tenant r \<noteq> t) (idempotency_keys d))"

abbreviation isolated where
  "isolated t X \<equiv> (\<lambda>d. foreign t d = X)"

lemma foreign_around:
  "cards d' = cards d \<Longrightarrow> event_log d' = event_log d \<Longrightarrow> idempotency_keys d' = idempotency_keys d \<Longrightarrow>
   foreign t d' = foreign t d"
  by (simp add: foreign_def)

lemma isolated_exec:
  "(\<And>n d d'. f n d = Some d' \<Longrightarrow> foreign t d' = foreign t d) \<Longrightarrow> upholds (isolated t X) (exec f)"
  by (rule upholds_exec) auto

lemma isolated_stmt:
  "(\<And>n d a d'. f n d = Some (a, d') \<Longrightarrow> foreign t d' = foreign t d) \<Longrightarrow> upholds (isolated t X) (stmt f)"
  by (rule upholds_stmt) blast

lemma isolated_fetch_one:
  "(\<And>n d a d'. f n d = Some (a, d') \<Longrightarrow> foreign t d' = foreign t d) \<Longrightarrow> upholds (isolated t X) (fetch_one f)"
  by (rule upholds_fetch_one) blast

section \<open>Statements\<close>

lemma isolated_around [upholds_intros]:
  "upholds (isolated t X) (exec (insert_dependency_sql cid dep))"
  "upholds (isolated t X) (stmt (delete_dependency_sql cid dep))"
  "upholds (isolated t X) (exec (clear_labels_sql cid))"
  "upholds (isolated t X) (exec (insert_label_sql cid lid))"
  "upholds (isolated t X) (exec (scrub_labels_sql cid p))"
  "upholds (isolated t X) (exec (insert_assignee_sql u cid s))"
  "upholds (isolated t X) (exec (delete_assignee_sql u cid s))"
  "upholds (isolated t X) (exec (append_item_sql iid u cid txt))"
  "upholds (isolated t X) (exec (insert_item_sql iid u cid txt pos))"
  "upholds (isolated t X) (exec (shift_items_sql cid u pos))"
  "upholds (isolated t X) (stmt (update_item_sql iid cid u txt done))"
  "upholds (isolated t X) (stmt (delete_item_sql iid cid u))"
  "upholds (isolated t X) (fetch_one (insert_comment_sql i u cid author body))"
  "upholds (isolated t X) (stmt (edit_comment_sql i cid u author body))"
  "upholds (isolated t X) (stmt (delete_comment_sql P))"
  "upholds (isolated t X) (stmt (next_position_sql col u))"
  "upholds (isolated t X) (exec advisory_lock)"
  "upholds (isolated t X) (fetch_one (allocate_ref_sql p u))"
  "upholds (isolated t X) (fetch_one (bump_board_revision b))"
  "upholds (isolated t X) (exec pg_notify)"
  by (rule isolated_exec isolated_stmt isolated_fetch_one, rule foreign_around;
      auto simp: insert_dependency_sql_def delete_dependency_sql_def clear_labels_sql_def
        insert_label_sql_def scrub_labels_sql_def insert_assignee_sql_def delete_assignee_sql_def
        append_item_sql_def insert_item_sql_def shift_items_sql_def update_item_sql_def delete_item_sql_def
        insert_comment_sql_def edit_comment_sql_def delete_comment_sql_def next_position_sql_def
        advisory_lock_def allocate_ref_sql_def bump_board_revision_def pg_notify_def Let_def
        split: if_splits option.splits)+

lemma foreign_update_card:
  assumes "update_card_sql cid t chk f now d = Some (r, d')" and "\<And>c. c_tenant (f now c) = c_tenant c"
  shows "foreign t d' = foreign t d"
proof -
  have "filter (\<lambda>c. c_tenant c \<noteq> t) (upd_rows (card_key cid t) (f now) (cards d)) = filter (\<lambda>c. c_tenant c \<noteq> t) (cards d)"
    by (rule filter_upd_rows_other) (simp add: card_key_def assms(2))
  then show ?thesis using update_card_sql_cards [OF assms(1)] by (auto simp: foreign_def)
qed

lemma isolated_cards [upholds_intros]:
  "upholds (isolated t X) (fetch_one (bump_card_sql cid t))"
  "upholds (isolated t X) (fetch_one (update_card_sql cid t chk (place_card col b pos x y)))"
  "upholds (isolated t X) (fetch_one (update_card_sql cid t chk (transfer_place p b col ref pos x y)))"
  unfolding bump_card_sql_def
  by (rule isolated_fetch_one, erule foreign_update_card,
      simp add: touch_def place_card_def transfer_place_def)+

lemma isolated_patch [keeps_intros]:
  "keeps (isolated t X) (stmt (update_card_sql cid t chk (apply_patch p due ba m)))"
proof (rule keeps_stmt)
  fix n d a d'
  assume "isolated t X d" and "update_card_sql cid t chk (apply_patch p due ba m) n d = Some (a, d')"
  then show "isolated t X d'" using foreign_update_card [of cid t chk "apply_patch p due ba m" n d a d']
    by (simp add: apply_patch_def)
qed

lemma isolated_shift: "(\<And>c. P c \<Longrightarrow> c_tenant c = t) \<Longrightarrow> upholds (isolated t X) (exec (shift_sql P k))"
proof (rule isolated_exec)
  fix n d d'
  assume P: "\<And>c. P c \<Longrightarrow> c_tenant c = t" and "shift_sql P k n d = Some d'"
  moreover have "filter (\<lambda>c. c_tenant c \<noteq> t) (upd_rows P (\<lambda>c. c\<lparr>c_position := c_position c + k, c_updated := n\<rparr>) (cards d))
      = filter (\<lambda>c. c_tenant c \<noteq> t) (cards d)"
    by (rule filter_upd_rows_other) (use P in auto)
  ultimately show "foreign t d' = foreign t d" by (auto simp: shift_sql_def foreign_def split: if_splits)
qed

lemma isolated_delete [upholds_intros]: "upholds (isolated t X) (stmt (delete_card_sql cid t))"
  by (rule isolated_stmt)
    (auto simp: delete_card_sql_def foreign_def Let_def del_rows_def card_key_def filter_filter
      intro!: filter_cong split: if_splits)

lemma isolated_insert [upholds_intros]:
  "upholds (isolated t X) (exec (insert_card_sql (new_card_row req cid t p b col ref pos due m dn sub)))"
  by (rule isolated_exec) (auto simp: insert_card_sql_def foreign_def Let_def new_card_row_def split: if_splits)

lemma isolated_event [upholds_intros]: "upholds (isolated t X) (exec (insert_event_sql i t bo ag pr ty payload))"
  by (rule isolated_exec) (auto simp: insert_event_sql_def foreign_def split: if_splits)

lemma isolated_store_key:
  "foreign t d = X \<Longrightarrow> store_key_sql t key cid p now d = Some d' \<Longrightarrow> foreign t d' = X"
  by (auto simp: store_key_sql_def foreign_def split: option.splits)

lemma isolated_store [keeps_intros]:
  "keeps (isolated t X) (store_idempotency_card t key cid)" "keeps (isolated t X) (store_comment_key t key cid)"
  unfolding store_idempotency_card_def store_comment_key_def
  by (intro keeps_intros keeps_exec, erule (1) isolated_store_key)+

section \<open>Transaction bodies\<close>

lemma isolated_steps [upholds_intros]:
  "upholds (isolated t X) (insert_board_event t b ty p)"
  "upholds (isolated t X) (allocate_card_ref proj t)"
  "upholds (isolated t X) (touch_and_log t cur extra)"
  "upholds (isolated t X) (bump_and_log msg t cid b k other prev key)"
  "upholds (isolated t X) (insert_item iid t cid txt pos)"
proof -
  show ev: "upholds (isolated t X) (insert_board_event t b ty p)" for b ty p
    unfolding insert_board_event_def insert_row_def by (intro upholds_intros)
  show "upholds (isolated t X) (allocate_card_ref proj t)"
    unfolding allocate_card_ref_def by (intro upholds_intros)
  show "upholds (isolated t X) (touch_and_log t cur extra)" "upholds (isolated t X) (bump_and_log msg t cid b k other prev key)"
    unfolding touch_and_log_def bump_and_log_def by (intro upholds_intros ev)+
  show "upholds (isolated t X) (insert_item iid t cid txt pos)"
    unfolding insert_item_def by (intro upholds_intros)
qed


lemma upholds_default_read:
  assumes "\<And>n d a d'. f n d = Some (a, d') \<Longrightarrow> d' = d"
  shows "upholds I (or_default x (stmt f))"
  unfolding upholds_def ensures_def or_default_ok
proof (intro allI impI)
  fix e w a w'
  assume "I (db w)" and "tx_now w \<noteq> None" and run: "stmt f e w = (Inr a, w') \<or> (\<exists>y. stmt f e w = (Inl y, w') \<and> a = x)"
  moreover from run have "db w' = db w \<and> tx_now w' = tx_now w"
    using assms [of "sql_now e w" "db w"] by (auto simp: stmt_def split: if_splits option.splits)
  ultimately show "I (db w') \<and> tx_now w' \<noteq> None" by simp
qed

lemma isolated_create_position [upholds_intros]: "upholds (isolated t X) (create_position col t pos)"
  unfolding create_position_def
  by (intro upholds_intros upholds_default_read isolated_shift)
    (auto simp: next_position_sql_def in_column_def Let_def split: if_splits)

lemma isolated_shift_for_move [upholds_intros]: "upholds (isolated t X) (shift_for_move t fc fp tc tp)"
  unfolding shift_for_move_def by (intro upholds_intros isolated_shift) (auto simp: in_column_def)

lemma isolated_parse [upholds_intros]: "upholds I (parse_opt_id msg s)" "upholds I (check_milestone P)"
proof -
  have "upholds I (parse_id m x)" for m x
    unfolding parse_id_def by (intro upholds_intros) (simp add: upholds_raise split: invalid_id.split)
  then show "upholds I (parse_opt_id msg s)" unfolding parse_opt_id_def by (intro upholds_intros)
  show "upholds I (check_milestone P)" unfolding check_milestone_def by (intro upholds_intros)
qed

lemma isolated_bodies [upholds_intros]:
  "upholds (isolated t X) (create_card_tx req sub t bid project col is_done)"
  "upholds (isolated t X) (move_card_tx t cur to_col to_board to_pos to_done from_done key)"
  "upholds (isolated t X) (transfer_card_tx t cur project to_board to_col to_done from_done key)"
  "upholds (isolated t X) (delete_card_tx t cur)"
  "upholds (isolated t X) (add_dependency_tx t bid cid dep key)"
  "upholds (isolated t X) (remove_dependency_tx t bid cid dep key)"
  "upholds (isolated t X) (relabel_card t bid lids key cid)"
  "upholds (isolated t X) (add_comment_tx t cur sub creq)"
  "upholds (isolated t X) (edit_comment_tx t cur sub comment body)"
  "upholds (isolated t X) (delete_comment_tx t cur sub comment)"
  unfolding create_card_tx_def move_card_tx_def transfer_card_tx_def delete_card_tx_def add_dependency_tx_def
    remove_dependency_tx_def relabel_card_def add_comment_tx_def edit_comment_tx_def delete_comment_tx_def
  by (intro upholds_intros)+

section \<open>Handlers\<close>

lemma bnd_ret [simp]: "bnd (ret a) f = f a"
  by (simp add: bnd_def ret_def)

lemma tenant_known: "auth_ext ctx = Some a \<Longrightarrow> auth_tenant_id a = Some t \<Longrightarrow> tenant_id_from_request ctx = ret t"
  by (simp add: tenant_id_from_request_def ok_or_def)

lemma isolated_handlers:
  assumes "tenant_id_from_request ctx = ret t"
  shows "keeps (isolated t X) (create_card ctx c1)" "keeps (isolated t X) (update_card ctx c2)"
    "keeps (isolated t X) (move_card ctx c3)" "keeps (isolated t X) (transfer_card ctx c4)"
    "keeps (isolated t X) (delete_card ctx)"
    "keeps (isolated t X) (add_card_dependency ctx c5)" "keeps (isolated t X) (remove_card_dependency ctx c5)"
    "keeps (isolated t X) (assign_card ctx s)" "keeps (isolated t X) (unassign_card ctx s)"
    "keeps (isolated t X) (add_checklist_item ctx s pos)" "keeps (isolated t X) (update_checklist_item ctx s item)"
    "keeps (isolated t X) (remove_checklist_item ctx s)"
    "keeps (isolated t X) (edit_comment ctx s s2)" "keeps (isolated t X) (delete_comment ctx s)"
  unfolding create_card_def update_card_def move_card_def transfer_card_def delete_card_def
    add_card_dependency_def remove_card_dependency_def assign_card_def unassign_card_def
    add_checklist_item_def update_checklist_item_def remove_checklist_item_def edit_comment_def
    delete_comment_def assms bnd_ret
  by (intro keeps_intros upholds_intros)+


lemma isolated_bulk_labels:
  assumes "tenant_id_from_request ctx = ret t"
  shows "keeps (isolated t X) (bulk_update_card_labels ctx req)"
proof -
  have "keeps I (fetch_each_ok t ids)" for I ids
    unfolding fetch_each_ok_def by (intro keeps_intros)
  moreover have "keeps (isolated t X) (case xs of [] \<Rightarrow> ret () | x # _ \<Rightarrow> store_idempotency_card t k x)" for xs k
    by (cases xs) (auto intro: keeps_intros)
  ultimately show ?thesis
    unfolding bulk_update_card_labels_def assms bnd_ret by (intro keeps_intros upholds_intros)
qed

lemma isolated_comments:
  assumes "tenant_id_from_request ctx = ret t"
  shows "keeps (isolated t X) (add_comment ctx creq)" "keeps (isolated t X) (list_comments ctx n cur)"
proof -
  have "keeps I (replayed_comment t k)" for I k
    unfolding replayed_comment_def by (intro keeps_intros)
  then show "keeps (isolated t X) (add_comment ctx creq)"
    unfolding add_comment_def assms bnd_ret by (intro keeps_intros upholds_intros)
  show "keeps (isolated t X) (list_comments ctx n cur)"
    unfolding list_comments_def Let_def assms bnd_ret by (intro keeps_intros)
qed

lemma isolated_serve: "tenant_id_from_request ctx = ret t \<Longrightarrow> keeps (isolated t X) (serve ctx call)"
  by (cases call) (auto intro: keeps_intros isolated_handlers isolated_bulk_labels isolated_comments)

text \<open>
  C2. Tenant isolation: a card request made in one tenant leaves the cards, the event log and the idempotency keys
  of every other tenant exactly as they were, whatever ids the request names and however it ends.
\<close>

theorem tenant_isolation:
  assumes "auth_ext ctx = Some a" and "auth_tenant_id a = Some t" and "u \<noteq> t"
  shows "filter (\<lambda>c. c_tenant c = u) (cards (db (snd (serve ctx call e w)))) = filter (\<lambda>c. c_tenant c = u) (cards (db w))
    \<and> filter (\<lambda>r. e_tenant r = u) (event_log (db (snd (serve ctx call e w)))) = filter (\<lambda>r. e_tenant r = u) (event_log (db w))
    \<and> filter (\<lambda>r. q_tenant r = u) (idempotency_keys (db (snd (serve ctx call e w))))
        = filter (\<lambda>r. q_tenant r = u) (idempotency_keys (db w))"
proof -
  have "foreign t (db (snd (serve ctx call e w))) = foreign t (db w)"
    using isolated_serve [OF tenant_known [OF assms(1,2)]] by (simp add: keeps_def)
  moreover have "filter (\<lambda>x. g x = u) xs = filter (\<lambda>x. g x = u) (filter (\<lambda>x. g x \<noteq> t) xs)" for g :: "'x \<Rightarrow> string" and xs
    unfolding filter_filter by (rule filter_cong) (use assms(3) in auto)
  ultimately show ?thesis unfolding foreign_def by (metis prod.inject)
qed

theorem tenant_isolation_witness:
  "let ctx = \<lparr>auth_ext = Some \<lparr>auth_subject = Some ''s'', auth_tenant_id = Some ''other''\<rparr>,
              checked_ext = Some (id_str crockford (sid 6))\<rparr>
   in filter (\<lambda>c. c_tenant c = ''t'') (cards (db (snd (serve ctx DeleteCard sample_env (sample_world sample_db)))))
      = filter (\<lambda>c. c_tenant c = ''t'') (cards sample_db)"
  using tenant_isolation [of "\<lparr>auth_ext = Some \<lparr>auth_subject = Some ''s'', auth_tenant_id = Some ''other''\<rparr>,
    checked_ext = Some (id_str crockford (sid 6))\<rparr>" _ "''other''" "''t''" DeleteCard sample_env "sample_world sample_db"]
  unfolding Let_def by (simp only: request_context.simps auth_context.simps sample_world_fields) simp

end
