(* ===== verification/Card_Functional.thy ===== *)
theory Card_Functional
  imports Card_Isolation
begin

text \<open>
  What single handlers of the card service do: comments belong to their authors, a deletion takes
  everything that refers to the card with it, and a transfer needs permission on the target board.
\<close>

section \<open>Comments\<close>

lemma upholds_touch_comments: "upholds (\<lambda>d. Q (comments d)) (touch_and_log t cur extra)"
proof -
  have "upholds (\<lambda>d. Q (comments d)) (fetch_one (bump_card_sql cid t))" for cid
    unfolding bump_card_sql_def by (rule upholds_fetch_one) (auto simp: update_card_sql_def split: option.splits if_splits)
  moreover have "upholds (\<lambda>d. Q (comments d)) (insert_board_event t b ty p)" for b ty p
    unfolding insert_board_event_def insert_row_def
    by (intro upholds_intros upholds_fetch_one upholds_exec)
      (auto simp: bump_board_revision_def insert_event_sql_def pg_notify_def split: option.splits if_splits)
  ultimately show ?thesis unfolding touch_and_log_def by (intro upholds_intros)
qed

lemma subject_known: "auth_ext ctx = Some a \<Longrightarrow> auth_subject a = Some s \<Longrightarrow> subject_from_request ctx = ret s"
  by (simp add: subject_from_request_def ok_or_def)

text \<open>
  C25. Only its author edits a comment: EditComment adds and removes no comment, and leaves every comment that
  the caller did not write exactly as it was, in every environment and whatever ids the request names. (The
  service knows no administrator of comments, whom \<open>cards.proto\<close> would let edit them too.)
\<close>

theorem edit_comment_only_own:
  assumes "auth_ext ctx = Some a" and "auth_subject a = Some s"
  shows "map t_id (comments (db (snd (edit_comment ctx cid body e w)))) = map t_id (comments (db w))
    \<and> filter (\<lambda>c. t_author c \<noteq> s) (comments (db (snd (edit_comment ctx cid body e w))))
      = filter (\<lambda>c. t_author c \<noteq> s) (comments (db w))"
proof -
  let ?I = "\<lambda>d. map t_id (comments d) = X \<and> filter (\<lambda>c. t_author c \<noteq> s) (comments d) = Y"
  have edit: "upholds (\<lambda>d. map t_id (comments d) = X \<and> filter (\<lambda>c. t_author c \<noteq> s) (comments d) = Y)
      (stmt (edit_comment_sql i c t s b))" for X Y i c t b
  proof (rule upholds_stmt)
    fix n d r d'
    assume I: "map t_id (comments d) = X \<and> filter (\<lambda>c. t_author c \<noteq> s) (comments d) = Y"
      and "edit_comment_sql i c t s b n d = Some (r, d')"
    then have d': "comments d' = upd_rows (authored i c t s) (\<lambda>r. r\<lparr>t_body := b, t_updated := n\<rparr>) (comments d)"
      by (auto simp: edit_comment_sql_def Let_def)
    have "filter (\<lambda>c. t_author c \<noteq> s) (comments d') = filter (\<lambda>c. t_author c \<noteq> s) (comments d)"
      unfolding d' by (rule filter_upd_rows_other) (simp add: authored_def)
    then show "map t_id (comments d') = X \<and> filter (\<lambda>c. t_author c \<noteq> s) (comments d') = Y"
      using I by (simp add: d')
  qed
  have "upholds (\<lambda>d. map t_id (comments d) = X \<and> filter (\<lambda>c. t_author c \<noteq> s) (comments d) = Y)
      (edit_comment_tx t cur s i b)" for X Y t cur i b
    unfolding edit_comment_tx_def
    by (intro upholds_intros edit upholds_touch_comments [of "\<lambda>cs. map t_id cs = X \<and> filter (\<lambda>c. t_author c \<noteq> s) cs = Y"])
  then have "keeps (\<lambda>d. map t_id (comments d) = X \<and> filter (\<lambda>c. t_author c \<noteq> s) (comments d) = Y)
      (edit_comment ctx cid body)" for X Y
    unfolding edit_comment_def subject_known [OF assms] bnd_ret by (intro keeps_intros)
  then show ?thesis unfolding keeps_def by blast
qed

theorem edit_comment_only_own_witness:
  "let d = sample_db\<lparr>comments := [\<lparr>t_id = sid 20, t_tenant = ''t'', t_card = sid 5, t_author = ''other'', t_body = ''b'',
       t_created = (0, 0), t_updated = (0, 0)\<rparr>]\<rparr>
   in filter (\<lambda>c. t_author c \<noteq> ''s'') (comments (db (snd (edit_comment (sample_context (sid 5)) (id_str crockford (sid 20)) ''x''
        sample_env (sample_world d))))) = comments d"
  unfolding Let_def
  using edit_comment_only_own [of "sample_context (sid 5)" "\<lparr>auth_subject = Some ''s'', auth_tenant_id = Some ''t''\<rparr>" "''s''"]
  by (simp add: sample_context_def)

section \<open>Deletion\<close>

text \<open>The rows that \<open>refers\<close> to a card.\<close>

definition without_card :: "ident \<Rightarrow> string \<Rightarrow> db \<Rightarrow> db" where
  "without_card cid t d = d\<lparr>
     cards := filter (\<lambda>c. \<not> card_key cid t c) (cards d),
     card_labels := filter (\<lambda>r. cl_card r \<noteq> cid) (card_labels d),
     card_assignees := filter (\<lambda>r. a_card r \<noteq> cid) (card_assignees d),
     comments := filter (\<lambda>r. t_card r \<noteq> cid) (comments d),
     checklist_items := filter (\<lambda>r. i_card r \<noteq> cid) (checklist_items d),
     card_attachments := filter (\<lambda>r. f_card r \<noteq> cid) (card_attachments d),
     card_dependencies := filter (\<lambda>r. d_card r \<noteq> cid \<and> d_depends_on r \<noteq> cid) (card_dependencies d)\<rparr>"

lemma delete_card_tx_ok:
  assumes run: "delete_card_tx t cur e w = (Inr u, w')" and now: "tx_now w = Some now"
  shows "c_id cur \<notin> g_card ` set (github_links (db w)) \<and> (\<exists>i.
    emit_board (c_board cur) (i, t, ''CardDeleted'', deleted_payload (codec e) cur, now) (without_card (c_id cur) t (db w)) = Some (db w')) \<and> \<not> aborted w'"
proof -
  from run obtain n d1 w1 where del: "delete_card_sql (c_id cur) t now (db w) = Some (n, d1)" "n \<noteq> 0"
    and ev: "insert_board_event t (c_board cur) ''CardDeleted'' (JObj (deleted_payload (codec e) cur)) e ((tick w)\<lparr>db := d1\<rparr>) = (Inr u, w')"
    using now by (auto simp: delete_card_tx_def ok_iffs sql_now_def)
  have "d1 = without_card (c_id cur) t (db w) \<and> c_id cur \<notin> g_card ` set (github_links (db w))"
    using del by (auto simp: delete_card_sql_def without_card_def del_rows_def Let_def split: if_splits)
  then show ?thesis using insert_board_event_emit [OF ev, of now] now by auto
qed

text \<open>
  C26. A successful DeleteCard removes the card and every row that refers to it (labels, assignees, comments,
  checklist, attachments, dependencies in both directions) and no other row of any table, and appends exactly
  one event, CardDeleted, to the log, for the card's board, whose revision goes up by one; it succeeds only for a
  card of the caller's tenant that has no GitHub link.
\<close>

theorem delete_card_cascades:
  assumes run: "delete_card ctx e w = (Inr u, w')"
  shows "\<exists>cid t cur b i now. Option.bind (checked_ext ctx) (\<lambda>s. case id_from_str (codec e) s of Inr i \<Rightarrow> Some i | Inl _ \<Rightarrow> None) = Some cid
    \<and> Option.bind (auth_ext ctx) auth_tenant_id = Some t
    \<and> find_card cid t (db w) = Some cur \<and> cid \<notin> g_card ` set (github_links (db w))
    \<and> List.find (\<lambda>r. b_id r = c_board cur) (boards (db w)) = Some b
    \<and> db w' = (without_card cid t (db w))\<lparr>
        boards := map (\<lambda>r. if b_id r = c_board cur then r\<lparr>b_revision := b_revision r + 1\<rparr> else r) (boards (db w)),
        event_log := event_log (db w) @ [\<lparr>e_id = i, e_tenant = t, e_board = Some (c_board cur), e_aggregated = None, e_project = None,
          e_type = ''CardDeleted'', e_payload = with_board_revision (JObj (deleted_payload (codec e) cur)) (b_revision b + 1),
          e_created = now, e_nats_seq = None\<rparr>],
        notified := Suc (notified (db w))\<rparr>"
proof -
  from run obtain s cid t cur w1 w2 c w3 r where
    ctx: "checked_ext ctx = Some s" "id_from_str (codec e) s = Inr cid" "Option.bind (auth_ext ctx) auth_tenant_id = Some t"
    and cur: "find_card cid t (db w) = Some cur"
    and tx: "in_tx (delete_card_tx t cur) e (tick w) = (Inr (), w1)"
    and perm: "tenant_client_for ctx e w1 = (Inr c, w2)"
    and del: "delete_relation_tuples c PERMISSION_TYPE_CARD (Some (id_str (codec e) cid)) None None e w2 = (r, w')"
    by (auto simp: delete_card_def ok_iffs)
  have "db w' = db w1"
    using keepsD [OF keeps_tenant_client_for, of "\<lambda>d. d = db w1", OF refl perm]
      keepsD [OF keeps_delete_relation_tuples, of "\<lambda>d. d = db w2", OF refl del] by simp
  moreover from find_card_Some [OF cur] have cid: "c_id cur = cid" by (simp add: card_key_def)
  define now where "now = now_at e (Suc (step w))"
  from tx obtain w4 where body: "delete_card_tx t cur e ((tick (tick w))\<lparr>tx_now := Some now, aborted := False\<rparr>) = (Inr (), w4)"
    and w1: "w1 = (if aborted w4 then rollback (db (tick w)) (tick w4) else (tick w4)\<lparr>tx_now := None\<rparr>)"
    by (auto simp: ok_iffs now_def)
  from delete_card_tx_ok [OF body, of now] obtain i where
    link: "cid \<notin> g_card ` set (github_links (db w))" and "\<not> aborted w4"
    and ev: "emit_board (c_board cur) (i, t, ''CardDeleted'', deleted_payload (codec e) cur, now) (without_card cid t (db w)) = Some (db w4)"
    using cid by auto
  moreover from this(2) w1 have "db w1 = db w4" by simp
  moreover have "Option.bind (checked_ext ctx) (\<lambda>s. case id_from_str (codec e) s of Inr i \<Rightarrow> Some i | Inl _ \<Rightarrow> None) = Some cid"
    using ctx(1,2) by simp
  moreover from ev obtain b where "List.find (\<lambda>r. b_id r = c_board cur) (boards (db w)) = Some b"
    "db w4 = (without_card cid t (db w))\<lparr>
        boards := map (\<lambda>r. if b_id r = c_board cur then r\<lparr>b_revision := b_revision r + 1\<rparr> else r) (boards (db w)),
        event_log := event_log (db w) @ [\<lparr>e_id = i, e_tenant = t, e_board = Some (c_board cur), e_aggregated = None, e_project = None,
          e_type = ''CardDeleted'', e_payload = with_board_revision (JObj (deleted_payload (codec e) cur)) (b_revision b + 1),
          e_created = now, e_nats_seq = None\<rparr>],
        notified := Suc (notified (db w))\<rparr>"
    by (rule emit_board_cases) (simp add: without_card_def log_event_def upd_rows_def with_board_revision_def)
  ultimately show ?thesis using ctx(3) cur link by (intro exI conjI) simp_all
qed

lemma delete_card_runs: "\<exists>w'. delete_card (sample_context (sid 5)) sample_env (sample_world sample_db) = (Inr (), w')"
  by (simp add: evals request_evals sample_evals event_evals delete_card_evals)

theorem delete_card_cascades_witness:
  "\<exists>w' t i now p. delete_card (sample_context (sid 5)) sample_env (sample_world sample_db) = (Inr (), w')
     \<and> cards (db w') = cards (without_card (sid 5) t sample_db)
     \<and> event_log (db w') = [\<lparr>e_id = i, e_tenant = t, e_board = Some (sid 2), e_aggregated = None, e_project = None,
          e_type = ''CardDeleted'', e_payload = p, e_created = now, e_nats_seq = None\<rparr>]"
proof -
  obtain w' where run: "delete_card (sample_context (sid 5)) sample_env (sample_world sample_db) = (Inr (), w')"
    using delete_card_runs by blast
  have ctx: "Option.bind (checked_ext (sample_context (sid 5)))
      (\<lambda>s. case id_from_str crockford s of Inr i \<Rightarrow> Some i | Inl _ \<Rightarrow> None) = Some (sid 5)"
    by (simp add: sample_context_def crockford.id_from_str_show)
  from delete_card_cascades [OF run, unfolded sample_env_fields sample_world_fields ctx] obtain cid t cur and b :: board_row and i now where
    cid: "Some (sid 5) = Some cid" and cur: "find_card cid t sample_db = Some cur"
    and w': "db w' = (without_card cid t sample_db)\<lparr>
        boards := map (\<lambda>r. if b_id r = c_board cur then r\<lparr>b_revision := b_revision r + 1\<rparr> else r) (boards sample_db),
        event_log := event_log sample_db @ [\<lparr>e_id = i, e_tenant = t, e_board = Some (c_board cur), e_aggregated = None, e_project = None,
          e_type = ''CardDeleted'', e_payload = with_board_revision (JObj (deleted_payload crockford cur)) (b_revision b + 1),
          e_created = now, e_nats_seq = None\<rparr>],
        notified := Suc (notified sample_db)\<rparr>"
    by (elim exE conjE)
  have "c_board cur = sid 2"
    using find_card_Some [OF cur] cid by (auto simp: card_key_def sample_db_def sample_card_def)
  moreover have "event_log sample_db = []" by (simp add: sample_db_def empty_db_def)
  ultimately have "cards (db w') = cards (without_card (sid 5) t sample_db)"
    "event_log (db w') = [\<lparr>e_id = i, e_tenant = t, e_board = Some (sid 2), e_aggregated = None, e_project = None, e_type = ''CardDeleted'',
       e_payload = with_board_revision (JObj (deleted_payload crockford cur)) (b_revision b + 1), e_created = now, e_nats_seq = None\<rparr>]"
    using cid unfolding w' by simp_all
  with run cid show ?thesis by auto
qed

end
