(* ===== verification/Dispatch.thy ===== *)
theory Dispatch
  imports Card_Service
begin

text \<open>
  \<open>src/auth/permission_dispatch.rs\<close>: the middleware that authorises every RPC before its handler
  runs. A static matrix gives each RPC path the permission namespace and relation to check on the object
  named by the \<open>x-sunbeam-object-id\<close> header; a successful check stores the object id in the
  request's extensions, where the handlers read it. \<open>is_authenticated\<close> belongs to the crate of the auth
  middleware and is a parameter here, as is the tenant the middleware put into the request.
\<close>

section \<open>The matrix\<close>

datatype object_id_source = Header | NoObject

record dispatch_entry =
  de_method :: string
  de_namespace :: string
  de_relation :: string
  de_source :: object_id_source

definition entry :: "string \<Rightarrow> string \<times> string \<times> string \<times> object_id_source \<Rightarrow> dispatch_entry" where
  "entry service = (\<lambda>(rpc, namespace, relation, source).
     \<lparr>de_method = service @ rpc, de_namespace = namespace, de_relation = relation, de_source = source\<rparr>)"

definition ProjectService_entries :: "dispatch_entry list" where
  "ProjectService_entries = map (entry ''/sunbeam.kanban.v1.ProjectService/'')
    [(''ListProjects'', '''', '''', NoObject),
     (''GetProject'', ''KanbanProject'', ''view'', Header),
     (''CreateProject'', '''', '''', NoObject),
     (''UpdateProject'', ''KanbanProject'', ''edit'', Header),
     (''DeleteProject'', ''KanbanProject'', ''manage'', Header),
     (''ListMembers'', ''KanbanProject'', ''view'', Header),
     (''AddMember'', ''KanbanProject'', ''manage'', Header),
     (''RemoveMember'', ''KanbanProject'', ''manage'', Header),
     (''SubscribeProject'', ''KanbanProject'', ''view'', Header)]"

definition BoardService_entries :: "dispatch_entry list" where
  "BoardService_entries = map (entry ''/sunbeam.kanban.v1.BoardService/'')
    [(''ListBoards'', '''', '''', NoObject),
     (''GetBoard'', '''', '''', NoObject),
     (''CreateBoard'', ''KanbanProject'', ''edit'', Header),
     (''UpdateBoard'', ''KanbanBoard'', ''edit'', Header),
     (''DeleteBoard'', ''KanbanBoard'', ''manage'', Header),
     (''AddColumn'', ''KanbanBoard'', ''edit'', Header),
     (''UpdateColumn'', ''KanbanBoard'', ''edit'', Header),
     (''RemoveColumn'', ''KanbanBoard'', ''edit'', Header),
     (''MoveColumn'', ''KanbanBoard'', ''edit'', Header),
     (''SubscribeBoard'', '''', '''', NoObject)]"

definition CardService_entries :: "dispatch_entry list" where
  "CardService_entries = map (entry ''/sunbeam.kanban.v1.CardService/'')
    [(''GetCard'', ''KanbanCard'', ''view'', Header),
     (''BatchGetCards'', ''KanbanBoard'', ''view'', Header),
     (''ListCardsByBoard'', ''KanbanBoard'', ''view'', Header),
     (''CreateCard'', ''KanbanBoard'', ''edit'', Header),
     (''UpdateCard'', ''KanbanCard'', ''edit'', Header),
     (''MoveCard'', ''KanbanCard'', ''edit'', Header),
     (''TransferCard'', ''KanbanCard'', ''edit'', Header),
     (''DeleteCard'', ''KanbanCard'', ''manage'', Header),
     (''AddCardDependency'', ''KanbanBoard'', ''edit'', Header),
     (''RemoveCardDependency'', ''KanbanBoard'', ''edit'', Header),
     (''BulkUpdateCardLabels'', ''KanbanBoard'', ''edit'', Header),
     (''AssignCard'', ''KanbanCard'', ''edit'', Header),
     (''UnassignCard'', ''KanbanCard'', ''edit'', Header),
     (''AddChecklistItem'', ''KanbanCard'', ''edit'', Header),
     (''UpdateChecklistItem'', ''KanbanCard'', ''edit'', Header),
     (''RemoveChecklistItem'', ''KanbanCard'', ''edit'', Header),
     (''AddComment'', ''KanbanCard'', ''view'', Header),
     (''EditComment'', ''KanbanCard'', ''view'', Header),
     (''DeleteComment'', ''KanbanCard'', ''edit'', Header),
     (''ListComments'', ''KanbanCard'', ''view'', Header)]"

definition AttachmentService_entries :: "dispatch_entry list" where
  "AttachmentService_entries = map (entry ''/sunbeam.kanban.v1.AttachmentService/'')
    [(''RequestPresignedUpload'', ''KanbanCard'', ''edit'', Header),
     (''ConfirmUpload'', ''KanbanCard'', ''edit'', Header),
     (''RequestPresignedDownload'', ''KanbanCard'', ''view'', Header),
     (''DeleteAttachment'', ''KanbanCard'', ''edit'', Header),
     (''ListAttachmentsByCard'', ''KanbanCard'', ''view'', Header)]"

definition GithubLinkService_entries :: "dispatch_entry list" where
  "GithubLinkService_entries = map (entry ''/sunbeam.kanban.v1.GithubLinkService/'')
    [(''LinkIssue'', ''KanbanCard'', ''edit'', Header),
     (''UnlinkIssue'', ''KanbanCard'', ''edit'', Header),
     (''ListLinksByCard'', ''KanbanCard'', ''view'', Header),
     (''SearchGithubIssues'', ''KanbanCard'', ''view'', Header),
     (''ResyncLink'', ''KanbanCard'', ''edit'', Header)]"

definition AggregatedBoardService_entries :: "dispatch_entry list" where
  "AggregatedBoardService_entries = map (entry ''/sunbeam.kanban.v1.AggregatedBoardService/'')
    [(''CreateAggregatedBoard'', '''', '''', NoObject),
     (''GetAggregatedBoard'', '''', '''', NoObject),
     (''UpdateAggregatedBoard'', ''KanbanAggregatedBoard'', ''edit'', Header),
     (''DeleteAggregatedBoard'', ''KanbanAggregatedBoard'', ''manage'', Header),
     (''ListAggregatedBoards'', '''', '''', NoObject),
     (''AddSourceBoard'', ''KanbanAggregatedBoard'', ''manage'', Header),
     (''RemoveSourceBoard'', ''KanbanAggregatedBoard'', ''manage'', Header),
     (''MoveSourceBoard'', ''KanbanAggregatedBoard'', ''manage'', Header),
     (''SubscribeAggregatedBoard'', '''', '''', NoObject)]"

definition SearchService_entries :: "dispatch_entry list" where
  "SearchService_entries = map (entry ''/sunbeam.kanban.v1.SearchService/'')
    [(''SearchCards'', '''', '''', NoObject)]"

definition TemplatesService_entries :: "dispatch_entry list" where
  "TemplatesService_entries = map (entry ''/sunbeam.kanban.v1.TemplatesService/'')
    [(''ListTemplates'', '''', '''', NoObject),
     (''GetTemplate'', '''', '''', NoObject),
     (''CreateTemplate'', '''', '''', NoObject),
     (''UpdateTemplate'', '''', '''', NoObject),
     (''DeleteTemplate'', '''', '''', NoObject),
     (''ListCardTemplates'', '''', '''', NoObject),
     (''GetCardTemplate'', '''', '''', NoObject),
     (''CreateCardTemplate'', '''', '''', NoObject),
     (''UpdateCardTemplate'', '''', '''', NoObject),
     (''DeleteCardTemplate'', '''', '''', NoObject)]"

definition MilestoneService_entries :: "dispatch_entry list" where
  "MilestoneService_entries = map (entry ''/sunbeam.kanban.v1.MilestoneService/'')
    [(''CreateMilestone'', '''', '''', NoObject),
     (''ListMilestones'', '''', '''', NoObject),
     (''GetMilestone'', '''', '''', NoObject),
     (''UpdateMilestone'', '''', '''', NoObject),
     (''DeleteMilestone'', '''', '''', NoObject)]"

definition LabelService_entries :: "dispatch_entry list" where
  "LabelService_entries = map (entry ''/sunbeam.kanban.v1.LabelService/'')
    [(''CreateLabel'', '''', '''', NoObject),
     (''ListLabels'', '''', '''', NoObject),
     (''UpdateLabel'', '''', '''', NoObject),
     (''DeleteLabel'', '''', '''', NoObject)]"

definition MATRIX :: "dispatch_entry list" where
  "MATRIX = ProjectService_entries @ BoardService_entries @ CardService_entries @ AttachmentService_entries @ GithubLinkService_entries @ AggregatedBoardService_entries @ SearchService_entries @ TemplatesService_entries @ MilestoneService_entries @ LabelService_entries"

definition BYPASSED_METHODS :: "string list" where
  "BYPASSED_METHODS = [''/sunbeam.kanban.v1.PublicBoardService/GetPublicBoard'',
     ''/sunbeam.kanban.v1.PublicBoardService/ListPublicBoards'']"

section \<open>The check\<close>

type_synonym http_error = "nat \<times> string"

record http_request =
  rq_path :: string
  rq_headers :: "(string \<times> string) list"
  rq_ext :: request_context

text \<open>\<open>headers().get(name)\<close> followed by \<open>to_str().ok()\<close>: a value with other than visible ASCII
  characters (or tabs) has no text.\<close>

definition header_text :: "http_request \<Rightarrow> string \<Rightarrow> string option" where
  "header_text req name =
     (case map_of (rq_headers req) name of
        None \<Rightarrow> None
      | Some v \<Rightarrow> if list_all (\<lambda>c. let n = (of_char c :: nat) in 32 \<le> n \<and> n < 127 \<or> n = 9) v then Some v else None)"

definition check_error :: "permission_error \<Rightarrow> http_error" where
  "check_error x = (case x of
       Denied \<Rightarrow> (403, ''permission denied'')
     | Backend msg \<Rightarrow> (500, ''authorization check failed''))"

definition dispatch_check ::
  "(auth_context \<Rightarrow> bool) \<Rightarrow> auth_context \<Rightarrow> string \<Rightarrow> http_request \<Rightarrow> (http_error, http_request) act" where
  "dispatch_check is_authenticated auth tenant_id req =
     bnd (require (is_authenticated auth) (401, ''authentication required'')) (\<lambda>_.
     let sub = (case auth_subject auth of Some s \<Rightarrow> s | None \<Rightarrow> '''') in
     bnd (ok_or (500, ''unknown RPC method'') (List.find (\<lambda>en. de_method en = rq_path req) MATRIX)) (\<lambda>en.
     case de_source en of
       NoObject \<Rightarrow> ret req
     | Header \<Rightarrow>
         bnd (ok_or (400, ''x-sunbeam-object-id header is required for this RPC'')
               (case header_text req ''x-sunbeam-object-id'' of
                  Some i \<Rightarrow> if i \<noteq> '''' then Some i else None
                | None \<Rightarrow> None)) (\<lambda>object_id.
         bnd (map_err (\<lambda>_. (500, ''authorization client error'')) (tenant_client tenant_id)) (\<lambda>client.
         bnd (map_err check_error
               (check_permission client (de_namespace en) object_id (de_relation en) sub)) (\<lambda>allowed.
         bnd (require allowed (403, ''permission denied'')) (\<lambda>_.
         ret (req\<lparr>rq_ext := (rq_ext req)\<lparr>checked_ext := Some object_id\<rparr>\<rparr>)))))))"

definition dispatch ::
  "(auth_context \<Rightarrow> bool) \<Rightarrow> auth_context \<Rightarrow> string \<Rightarrow> http_request \<Rightarrow> (http_request \<Rightarrow> (http_error, 'a) act)
   \<Rightarrow> (http_error, 'a) act" where
  "dispatch is_authenticated auth tenant req next = bnd (dispatch_check is_authenticated auth tenant req) next"

section \<open>Every path names one entry\<close>

lemma method_entry [simp]: "de_method (entry s x) = s @ fst x"
  by (simp add: entry_def split: prod.split)

lemma distinct_entries: "distinct (map fst xs) \<Longrightarrow> distinct (map de_method (map (entry s) xs))"
  by (induction xs) (auto simp: image_iff)

lemma disjoint_entries:
  "(\<And>r r'. s @ r \<noteq> s' @ r') \<Longrightarrow> set (map de_method (map (entry s) xs)) \<inter> set (map de_method (map (entry s') ys)) = {}"
  by auto

lemmas service_entries_defs = ProjectService_entries_def BoardService_entries_def CardService_entries_def
  AttachmentService_entries_def GithubLinkService_entries_def AggregatedBoardService_entries_def
  SearchService_entries_def TemplatesService_entries_def MilestoneService_entries_def LabelService_entries_def

lemma distinct_services:
  "distinct (map de_method ProjectService_entries)" "distinct (map de_method BoardService_entries)"
  "distinct (map de_method CardService_entries)" "distinct (map de_method AttachmentService_entries)"
  "distinct (map de_method GithubLinkService_entries)" "distinct (map de_method AggregatedBoardService_entries)"
  "distinct (map de_method SearchService_entries)" "distinct (map de_method TemplatesService_entries)"
  "distinct (map de_method MilestoneService_entries)" "distinct (map de_method LabelService_entries)"
  unfolding service_entries_defs by (rule distinct_entries, simp)+

lemma MATRIX_distinct: "distinct (map de_method MATRIX)"
  unfolding MATRIX_def map_append distinct_append set_append Int_Un_distrib2 Int_Un_distrib Un_empty
  by (intro conjI; (rule distinct_services | (unfold service_entries_defs, rule disjoint_entries, simp)))


lemma find_method:
  assumes "en \<in> set MATRIX" and "de_method en = p"
  shows "List.find (\<lambda>en. de_method en = p) MATRIX = Some en"
  by (rule find_distinct_key [of de_method]) (use assms MATRIX_distinct in simp_all)

lemma no_public_entry: "list_all (\<lambda>en. strip_prefix ''/sunbeam.kanban.v1.PublicBoardService/'' (de_method en) = None) MATRIX"
  by code_simp

lemma bypassed_not_in_MATRIX: "set (map de_method MATRIX) \<inter> set BYPASSED_METHODS = {}"
proof -
  have "strip_prefix ''/sunbeam.kanban.v1.PublicBoardService/'' p \<noteq> None" if "p \<in> set BYPASSED_METHODS" for p
    using that by (auto simp: BYPASSED_METHODS_def)
  then show ?thesis using no_public_entry by (force simp: list_all_iff)
qed

text \<open>
  The dispatch matrix is a function of the path: it has 78 entries, no path twice and none of the
  paths that bypass the middleware; an entry with an object check names a namespace and a relation, one without
  names neither.
\<close>

theorem matrix_well_formed:
  "length MATRIX = 78 \<and> distinct (map de_method MATRIX) \<and> set (map de_method MATRIX) \<inter> set BYPASSED_METHODS = {}
   \<and> list_all (\<lambda>en. (de_source en = Header) = (de_namespace en \<noteq> '''') \<and> (de_source en = Header) = (de_relation en \<noteq> '''')) MATRIX"
proof (intro conjI)
  show "length MATRIX = 78" by (simp add: MATRIX_def service_entries_defs)
  show "distinct (map de_method MATRIX)" by (rule MATRIX_distinct)
  show "set (map de_method MATRIX) \<inter> set BYPASSED_METHODS = {}"
    by (rule bypassed_not_in_MATRIX)
  show "list_all (\<lambda>en. (de_source en = Header) = (de_namespace en \<noteq> '''') \<and> (de_source en = Header) = (de_relation en \<noteq> '''')) MATRIX"
    by code_simp
qed


section \<open>The decision\<close>

lemma tenant_client_ok [ok_iffs]:
  "tenant_client t e w = (Inr c, w') \<longleftrightarrow> has_credentials e \<and> c = t \<and>
     (if t \<in> set (tenants_ready w) then w' = w
      else gw_fault e (step w) = None \<and> w' = (tick w)\<lparr>tenants_ready := t # tenants_ready w\<rparr>)"
  by (auto simp: tenant_client_def split: option.splits)

lemma check_permission_ok [ok_iffs]:
  "check_permission c ns ob r s e w = (Inr b, w') \<longleftrightarrow>
     gw_fault e (step w) = None \<and> b = fga_check e (tuples w) c ns ob r s \<and> w' = (tick w)\<lparr>tuples := tuples w\<rparr>"
  by (auto simp: check_permission_def gateway_def ok_iffs split: option.splits)

definition subject_text :: "auth_context \<Rightarrow> string" where
  "subject_text auth = (case auth_subject auth of Some s \<Rightarrow> s | None \<Rightarrow> '''')"

text \<open>A request lets its caller through to the handler of a path, acting on an object.\<close>

definition authorised ::
  "(auth_context \<Rightarrow> bool) \<Rightarrow> auth_context \<Rightarrow> string \<Rightarrow> http_request \<Rightarrow> env \<Rightarrow> rel_tuple list \<Rightarrow> string \<times> string \<Rightarrow> string \<Rightarrow> bool" where
  "authorised is_authenticated auth tenant req e ts policy object_id \<longleftrightarrow> is_authenticated auth
     \<and> header_text req ''x-sunbeam-object-id'' = Some object_id \<and> object_id \<noteq> ''''
     \<and> fga_check e ts tenant (fst policy) object_id (snd policy) (subject_text auth)"

lemma dispatch_check_ok:
  assumes en: "en \<in> set MATRIX" "de_method en = rq_path req" "de_source en = Header"
    and run: "dispatch_check ok auth tenant req e w = (Inr r, w')"
  shows "\<exists>i. authorised ok auth tenant req e (tuples w) (de_namespace en, de_relation en) i
    \<and> r = req\<lparr>rq_ext := (rq_ext req)\<lparr>checked_ext := Some i\<rparr>\<rparr> \<and> db w' = db w \<and> tuples w' = tuples w
    \<and> tx_now w' = tx_now w \<and> aborted w' = aborted w"
proof -
  have "List.find (\<lambda>en. de_method en = rq_path req) MATRIX = Some en" by (rule find_method [OF en(1,2)])
  then show ?thesis
    using run en(3)
    by (auto simp: dispatch_check_def Let_def ok_iffs authorised_def subject_text_def split: option.splits if_splits)
qed

lemma keeps_source [keeps_intros]:
  "keeps I m \<Longrightarrow> keeps I n \<Longrightarrow> keeps I (case src of Header \<Rightarrow> m | NoObject \<Rightarrow> n)"
  by (cases src) simp_all

lemma keeps_dispatch_check [keeps_intros]: "keeps I (dispatch_check ok auth tenant req)"
  unfolding dispatch_check_def Let_def by (intro keeps_intros)

text \<open>
  C16. Where the gateway works, a request to a guarded path passes exactly if the caller is authenticated, names an
  object in a readable non-empty header, and holds the relation of the matrix on that object; the handler
  then sees this object id and nothing else of the request has changed.
\<close>

theorem dispatch_decides:
  assumes "en \<in> set MATRIX" and "de_method en = rq_path req" and "de_source en = Header"
    and "calm e" and "has_credentials e"
  shows "(\<exists>w'. dispatch_check ok auth tenant req e w = (Inr r, w')) \<longleftrightarrow>
    (\<exists>i. authorised ok auth tenant req e (tuples w) (de_namespace en, de_relation en) i
       \<and> r = req\<lparr>rq_ext := (rq_ext req)\<lparr>checked_ext := Some i\<rparr>\<rparr>)"
proof
  assume "\<exists>w'. dispatch_check ok auth tenant req e w = (Inr r, w')"
  then show "\<exists>i. authorised ok auth tenant req e (tuples w) (de_namespace en, de_relation en) i
       \<and> r = req\<lparr>rq_ext := (rq_ext req)\<lparr>checked_ext := Some i\<rparr>\<rparr>"
    using dispatch_check_ok [OF assms(1-3)] by blast
next
  assume "\<exists>i. authorised ok auth tenant req e (tuples w) (de_namespace en, de_relation en) i
       \<and> r = req\<lparr>rq_ext := (rq_ext req)\<lparr>checked_ext := Some i\<rparr>\<rparr>"
  then obtain i where i: "authorised ok auth tenant req e (tuples w) (de_namespace en, de_relation en) i"
    "r = req\<lparr>rq_ext := (rq_ext req)\<lparr>checked_ext := Some i\<rparr>\<rparr>" by blast
  have "List.find (\<lambda>en. de_method en = rq_path req) MATRIX = Some en" by (rule find_method [OF assms(1,2)])
  then show "\<exists>w'. dispatch_check ok auth tenant req e w = (Inr r, w')"
    using i assms(3-5)
    by (cases "tenant \<in> set (tenants_ready w)")
      (auto simp: dispatch_check_def Let_def ok_iffs authorised_def subject_text_def)
qed

section \<open>Card calls behind the middleware\<close>

text \<open>The service and the methods of \<open>cards.proto\<close>, and the check that each handler's comment states.\<close>

fun rpc_name :: "card_call \<Rightarrow> string" where
  "rpc_name GetCard = ''GetCard''"
| "rpc_name (BatchGetCards _) = ''BatchGetCards''"
| "rpc_name (ListCardsByBoard _) = ''ListCardsByBoard''"
| "rpc_name (CreateCard _) = ''CreateCard''"
| "rpc_name (UpdateCard _) = ''UpdateCard''"
| "rpc_name (MoveCard _) = ''MoveCard''"
| "rpc_name (TransferCard _) = ''TransferCard''"
| "rpc_name DeleteCard = ''DeleteCard''"
| "rpc_name (AddCardDependency _) = ''AddCardDependency''"
| "rpc_name (RemoveCardDependency _) = ''RemoveCardDependency''"
| "rpc_name (BulkUpdateCardLabels _) = ''BulkUpdateCardLabels''"
| "rpc_name (AssignCard _) = ''AssignCard''"
| "rpc_name (UnassignCard _) = ''UnassignCard''"
| "rpc_name (AddChecklistItem _ _) = ''AddChecklistItem''"
| "rpc_name (UpdateChecklistItem _ _) = ''UpdateChecklistItem''"
| "rpc_name (RemoveChecklistItem _) = ''RemoveChecklistItem''"
| "rpc_name (AddComment _) = ''AddComment''"
| "rpc_name (EditComment _ _) = ''EditComment''"
| "rpc_name (DeleteComment _) = ''DeleteComment''"
| "rpc_name (ListComments _ _) = ''ListComments''"

fun card_policy :: "card_call \<Rightarrow> string \<times> string" where
  "card_policy GetCard = (''KanbanCard'', ''view'')"
| "card_policy (BatchGetCards _) = (''KanbanBoard'', ''view'')"
| "card_policy (ListCardsByBoard _) = (''KanbanBoard'', ''view'')"
| "card_policy (CreateCard _) = (''KanbanBoard'', ''edit'')"
| "card_policy DeleteCard = (''KanbanCard'', ''manage'')"
| "card_policy (AddCardDependency _) = (''KanbanBoard'', ''edit'')"
| "card_policy (RemoveCardDependency _) = (''KanbanBoard'', ''edit'')"
| "card_policy (BulkUpdateCardLabels _) = (''KanbanBoard'', ''edit'')"
| "card_policy (AddComment _) = (''KanbanCard'', ''view'')"
| "card_policy (EditComment _ _) = (''KanbanCard'', ''view'')"
| "card_policy (ListComments _ _) = (''KanbanCard'', ''view'')"
| "card_policy _ = (''KanbanCard'', ''edit'')"

definition card_request ::
  "auth_context \<Rightarrow> (string \<times> string) list \<Rightarrow> card_call \<Rightarrow> http_request" where
  "card_request auth headers call = \<lparr>rq_path = ''/sunbeam.kanban.v1.CardService/'' @ rpc_name call,
     rq_headers = headers, rq_ext = \<lparr>auth_ext = Some auth, checked_ext = None\<rparr>\<rparr>"

text \<open>\<open>server.rs\<close>: the middleware around the router of the services.\<close>

definition handle_card ::
  "(auth_context \<Rightarrow> bool) \<Rightarrow> auth_context \<Rightarrow> string \<Rightarrow> (string \<times> string) list \<Rightarrow> card_call
   \<Rightarrow> (http_error + cerr, unit) act" where
  "handle_card is_authenticated auth tenant headers call =
     bnd (map_err Inl (dispatch_check is_authenticated auth tenant (card_request auth headers call))) (\<lambda>req.
     map_err Inr (serve (rq_ext req) call))"

lemma card_entry:
  "entry ''/sunbeam.kanban.v1.CardService/'' (rpc_name call, fst (card_policy call), snd (card_policy call), Header) \<in> set MATRIX"
  unfolding MATRIX_def CardService_entries_def by (cases call) simp_all

text \<open>
  C1. No unauthorised writes: a card call changes the database only if its caller is authenticated and
  holds, on the object named in the header, the relation that the dispatch matrix and the handler's own comment state
  (\<open>card_policy\<close>); otherwise the tables, the event log and the idempotency keys are exactly as before. (For DeleteCard this
  is manage on the card; \<open>cards.proto\<close> documents edit on the board.)
\<close>

theorem card_writes_authorised:
  assumes "\<nexists>i. authorised ok auth tenant (card_request auth headers call) e (tuples w) (card_policy call) i"
  shows "db (snd (handle_card ok auth tenant headers call e w)) = db w
    \<and> (\<exists>x. fst (handle_card ok auth tenant headers call e w) = Inl (Inl x))"
proof -
  let ?req = "card_request auth headers call"
  let ?en = "entry ''/sunbeam.kanban.v1.CardService/'' (rpc_name call, fst (card_policy call), snd (card_policy call), Header)"
  obtain r w1 where run: "dispatch_check ok auth tenant ?req e w = (r, w1)" by fastforce
  have en: "de_method ?en = rq_path ?req" "de_source ?en = Header"
    "(de_namespace ?en, de_relation ?en) = card_policy call"
    by (simp_all add: card_request_def entry_def)
  obtain x where x: "r = Inl x"
    using dispatch_check_ok [OF card_entry en(1,2), unfolded en(3)] run assms by (cases r) blast+
  have "db w1 = db w"
    using keepsD [OF keeps_dispatch_check, of "\<lambda>d. d = db w", OF refl run] .
  then show ?thesis using run x by (simp add: handle_card_def bnd_def map_err_def)
qed

theorem card_writes_authorised_witness:
  "let w = (sample_world sample_db)\<lparr>tuples := [\<lparr>tu_tenant = ''t'', tu_namespace = ''KanbanCard'', tu_object = ''5'',
         tu_relation = ''edit'', tu_subject = ''s''\<rparr>]\<rparr>;
     auth = \<lparr>auth_subject = Some ''s'', auth_tenant_id = Some ''t''\<rparr>
   in db (snd (handle_card (\<lambda>_. True) auth ''t'' [(''x-sunbeam-object-id'', ''5'')] DeleteCard sample_env w)) = sample_db
    \<and> (\<exists>x. fst (handle_card (\<lambda>_. True) auth ''t'' [(''x-sunbeam-object-id'', ''5'')] DeleteCard sample_env w) = Inl (Inl x))"
proof -
  let ?w = "(sample_world sample_db)\<lparr>tuples := [\<lparr>tu_tenant = ''t'', tu_namespace = ''KanbanCard'', tu_object = ''5'',
         tu_relation = ''edit'', tu_subject = ''s''\<rparr>]\<rparr>"
  have "\<nexists>i. authorised (\<lambda>_. True) auth ''t'' (card_request auth h DeleteCard) sample_env (tuples ?w) (card_policy DeleteCard) i"
    for auth h
    by (simp add: authorised_def)
  from card_writes_authorised [OF this] show ?thesis unfolding Let_def by simp
qed

theorem dispatch_decides_witness:
  "let req = card_request \<lparr>auth_subject = Some ''s'', auth_tenant_id = Some ''t''\<rparr> [(''x-sunbeam-object-id'', ''5'')] GetCard;
       auth = \<lparr>auth_subject = Some ''s'', auth_tenant_id = Some ''t''\<rparr>;
       w = (sample_world sample_db)\<lparr>tuples := [\<lparr>tu_tenant = ''t'', tu_namespace = ''KanbanCard'', tu_object = ''5'',
              tu_relation = ''view'', tu_subject = ''s''\<rparr>]\<rparr>
   in \<exists>w'. dispatch_check (\<lambda>_. True) auth ''t'' req sample_env w = (Inr (req\<lparr>rq_ext := (rq_ext req)\<lparr>checked_ext := Some ''5''\<rparr>\<rparr>), w')"
  unfolding Let_def
  by (subst dispatch_decides [OF card_entry [of GetCard]])
    (simp_all add: card_request_def entry_def authorised_def header_text_def subject_text_def)



end
