(* ===== verification/Outbox.thy ===== *)
theory Outbox
  imports Card_Service Event_Payloads
begin

text \<open>
  \<open>src/realtime/outbox.rs\<close>, with the subjects of \<open>src/realtime/jetstream_bootstrap.rs\<close> and the
  documents of \<open>src/search_indexing.rs\<close>: the dispatcher that drains the undispatched rows of
  \<open>event_log\<close> to JetStream, marks them, and keeps the search index in step. JetStream and OpenSearch
  are parameters (\<open>backends\<close>); a message carries the envelope itself, its protobuf encoding being the
  crate \<open>buffa\<close>'s. The loop that calls \<open>drain_once\<close> (LISTEN, poll tick, shutdown) only decides when
  a pass runs; here any sequence of passes is considered.
\<close>

section \<open>Search documents\<close>

record card_document =
  cd_id :: string
  cd_tenant_id :: string
  cd_board_id :: string
  cd_project_id :: string
  cd_card_ref :: string
  cd_title :: string
  cd_description :: string
  cd_priority :: string
  cd_labels :: "string list"
  cd_assignees :: "string list"
  cd_completed_at :: "datetime option"

text \<open>The column \<open>priority\<close> may be NULL; decoding it into a \<open>String\<close> then panics.\<close>

datatype decoded = Absent | Document card_document | NullPriority

definition card_document_from_db :: "ident \<Rightarrow> string \<Rightarrow> (unit, decoded) act" where
  "card_document_from_db cid tenant =
     bnd (select (find_card cid tenant)) (\<lambda>r. case r of
         None \<Rightarrow> ret Absent
       | Some row \<Rightarrow>
           bnd (ask (\<lambda>e. (codec e, text_le e))) (\<lambda>(u, le).
           bnd (select (\<lambda>d. map l_name (sort_rows (\<lambda>a b. le (l_name a) (l_name b))
             (concat (map (\<lambda>cl. filter (\<lambda>l. l_id l = cl_label cl \<and> l_tenant l = tenant) (labels d))
                (filter (\<lambda>cl. cl_card cl = cid) (card_labels d))))))) (\<lambda>ls.
           bnd (select (\<lambda>d. map a_subject (sort_rows (\<lambda>a b. dt_le (a_at a) (a_at b))
             (filter (\<lambda>r. a_card r = cid \<and> a_tenant r = tenant) (card_assignees d))))) (\<lambda>as.
           ret (case c_priority row of None \<Rightarrow> NullPriority | Some pri \<Rightarrow> Document \<lparr>cd_id = id_str u cid, cd_tenant_id = tenant, cd_board_id = id_str u (c_board row),
             cd_project_id = id_str u (c_project row), cd_card_ref = c_ref row, cd_title = c_title row,
             cd_description = (case c_description row of Some s \<Rightarrow> s | None \<Rightarrow> ''''), cd_priority = pri,
             cd_labels = ls, cd_assignees = as, cd_completed_at = c_completed row\<rparr>)))))"

section \<open>The dispatcher\<close>

record message =
  ms_subject :: string
  ms_id :: "string option"
  ms_body :: envelope

text \<open>
  What a publish comes to: refused, published with a failed acknowledgement, or acknowledged with a
  stream sequence. The broker's answer and the stream it leaves depend on the interaction count, the
  message and the stream so far; the index likewise.
\<close>

datatype publish_outcome = PublishFailed | AckFailed | Acked nat

type_synonym docs = "(string \<times> card_document) list"

record backends =
  jetstream_enabled :: bool
  mq_publish :: "nat \<Rightarrow> message \<Rightarrow> message list \<Rightarrow> publish_outcome \<times> message list"
  os_index :: "nat \<Rightarrow> card_document \<Rightarrow> docs \<Rightarrow> docs"
  os_delete :: "nat \<Rightarrow> string \<Rightarrow> docs \<Rightarrow> docs"

record dispatcher =
  batch_size :: int
  pod_name :: string
  opensearch :: bool
  outside :: backends

record spine =
  sp_world :: world
  sp_stream :: "message list"
  sp_docs :: docs

definition board_subject :: "string \<Rightarrow> string" where
  "board_subject board_id = ''kanban.board.'' @ board_id @ ''.events''"

definition project_subject :: "string \<Rightarrow> string" where
  "project_subject project_id = ''kanban.project.'' @ project_id @ ''.events''"

text \<open>The subject and the envelope's board id; \<open>None\<close> is the row that is skipped.\<close>

definition route :: "ulid_codec \<Rightarrow> event_row \<Rightarrow> (string \<times> string) option" where
  "route u row =
     (case (case e_aggregated row of Some i \<Rightarrow> Some i | None \<Rightarrow> e_board row) of
        Some i \<Rightarrow> Some (board_subject (id_str u i), id_str u i)
      | None \<Rightarrow>
          (case e_project row of
             Some i \<Rightarrow> Some (project_subject (id_str u i), '''')
           | None \<Rightarrow> None))"

definition payload_card_id :: "ulid_codec \<Rightarrow> json \<Rightarrow> ident option" where
  "payload_card_id u j =
     Option.bind (Option.bind (json_get j ''card_id'') as_str) (\<lambda>s. case id_from_str u s of Inr i \<Rightarrow> Some i | Inl _ \<Rightarrow> None)"

text \<open>\<open>OutboxDispatcher::build_payload\<close>: the two events that carry the card itself are hydrated.\<close>

definition hydrated :: "string \<Rightarrow> json \<Rightarrow> card_msg \<Rightarrow> payload option" where
  "hydrated event_type j msg =
     (if event_type = ''CardCreated''
      then Some (CardCreated (Some msg) (json_str j ''column_id'') (json_i32 j ''position'') (json_str j ''idempotency_key''))
      else Some (CardTransferred (Some msg) (json_str j ''from_board_id'') (json_str j ''to_board_id'')
        (json_str j ''to_column_id'') (json_i32 j ''to_position'') (json_str j ''previous_ref'') (json_str j ''idempotency_key'')))"

definition hydrate_payload :: "string \<Rightarrow> json \<Rightarrow> string \<Rightarrow> (cerr, payload option) act" where
  "hydrate_payload event_type j tenant_id =
     bnd (ask codec) (\<lambda>u.
     if event_type = ''CardCreated'' \<or> event_type = ''CardTransferred'' then
       (case payload_card_id u j of
          Some card_id \<Rightarrow>
            bnd (attempt (fetch_full_card card_id tenant_id)) (\<lambda>r. case r of
                Inr msg \<Rightarrow> ret (hydrated event_type j msg)
              | Inl _ \<Rightarrow> ret (build_payload event_type j))
        | None \<Rightarrow> ret (build_payload event_type j))
     else ret (build_payload event_type j))"

definition mark_dispatched_sql :: "ident \<Rightarrow> int \<Rightarrow> datetime \<Rightarrow> db \<Rightarrow> db option" where
  "mark_dispatched_sql i nats_seq now d =
     Some (d\<lparr>event_log := upd_rows (\<lambda>r. e_id r = i) (\<lambda>r. r\<lparr>e_nats_seq := Some nats_seq\<rparr>) (event_log d)\<rparr>)"

text \<open>An action of the handlers run on the dispatcher's state.\<close>

definition on_world :: "('e, 'a) act \<Rightarrow> env \<Rightarrow> spine \<Rightarrow> ('e + 'a) \<times> spine" where
  "on_world m e s = (case m e (sp_world s) of (r, w) \<Rightarrow> (r, s\<lparr>sp_world := w\<rparr>))"

definition publish :: "dispatcher \<Rightarrow> string \<Rightarrow> ident \<Rightarrow> envelope \<Rightarrow> env \<Rightarrow> spine \<Rightarrow> publish_outcome \<times> spine" where
  "publish c subj row_id envelope e s =
     (let b = outside c;
          msg = \<lparr>ms_subject = subj,
                 ms_id = (if jetstream_enabled b then Some (id_str (codec e) row_id) else None), ms_body = envelope\<rparr>
      in (case mq_publish b (step (sp_world s)) msg (sp_stream s) of
            (r, stream) \<Rightarrow> (r, s\<lparr>sp_world := tick (sp_world s), sp_stream := stream\<rparr>)))"

datatype turn = Skipped | Dispatched | Panicked

definition sync_index :: "dispatcher \<Rightarrow> event_row \<Rightarrow> env \<Rightarrow> spine \<Rightarrow> turn \<times> spine" where
  "sync_index c row e s =
     (if \<not> opensearch c then (Dispatched, s)
      else (case payload_card_id (codec e) (e_payload row) of
          None \<Rightarrow> (Dispatched, s)
        | Some card_id \<Rightarrow>
            if e_type row \<in> {''CardCreated'', ''CardUpdated'', ''CardMoved'', ''CardTransferred''} then
              (case on_world (card_document_from_db card_id (e_tenant row)) e s of
                 (Inr (Document doc), s1) \<Rightarrow>
                   (Dispatched, s1\<lparr>sp_world := tick (sp_world s1),
                      sp_docs := os_index (outside c) (step (sp_world s1)) doc (sp_docs s1)\<rparr>)
               | (Inr NullPriority, s1) \<Rightarrow> (Panicked, s1)
               | (_, s1) \<Rightarrow> (Dispatched, s1))
            else if e_type row = ''CardDeleted'' then
              (Dispatched, s\<lparr>sp_world := tick (sp_world s),
                sp_docs := os_delete (outside c) (step (sp_world s)) (id_str (codec e) card_id) (sp_docs s)\<rparr>)
            else (Dispatched, s)))"

text \<open>One turn of the loop over the batch, and the state after it.\<close>

definition drain_row :: "dispatcher \<Rightarrow> event_row \<Rightarrow> env \<Rightarrow> spine \<Rightarrow> turn \<times> spine" where
  "drain_row c row e s =
     (case route (codec e) row of
        None \<Rightarrow> (Skipped, s)
      | Some (subj, envelope_board_id) \<Rightarrow>
          (case on_world (hydrate_payload (e_type row) (e_payload row) (e_tenant row)) e s of
             (r, s1) \<Rightarrow>
               (case publish c subj (e_id row)
                       (build_envelope (codec e) (e_id row) envelope_board_id (e_payload row) (e_created row) (pod_name c)
                         (case r of Inr p \<Rightarrow> p | Inl _ \<Rightarrow> None)) e s1 of
                  (Acked n, s2) \<Rightarrow>
                    (case on_world (exec (mark_dispatched_sql (e_id row) (wrap_i64 (int n)))) e s2 of
                       (Inr _, s3) \<Rightarrow> sync_index c row e s3
                     | (Inl _, s3) \<Rightarrow> (Skipped, s3))
                | (_, s2) \<Rightarrow> (Skipped, s2))))"

text \<open>The number of dispatched rows, \<open>None\<close> when the task panicked on the way.\<close>

primrec drain_rows :: "dispatcher \<Rightarrow> event_row list \<Rightarrow> env \<Rightarrow> spine \<Rightarrow> nat option \<times> spine" where
  "drain_rows c [] e s = (Some 0, s)"
| "drain_rows c (row # rows) e s =
     (case drain_row c row e s of
        (Panicked, s1) \<Rightarrow> (None, s1)
      | (Dispatched, s1) \<Rightarrow> (case drain_rows c rows e s1 of (n, s2) \<Rightarrow> (map_option Suc n, s2))
      | (Skipped, s1) \<Rightarrow> drain_rows c rows e s1)"

text \<open>\<open>WHERE nats_seq IS NULL ORDER BY id LIMIT $1\<close>; the filter by board is for tests only.\<close>

definition undispatched :: "env \<Rightarrow> db \<Rightarrow> event_row list" where
  "undispatched e d = sort_rows (\<lambda>a b. id_le e (e_id a) (e_id b)) (filter (\<lambda>r. e_nats_seq r = None) (event_log d))"

definition batch_sql :: "env \<Rightarrow> int \<Rightarrow> datetime \<Rightarrow> db \<Rightarrow> (event_row list \<times> db) option" where
  "batch_sql e limit now d = (if limit < 0 then None else Some (take (nat limit) (undispatched e d), d))"

datatype pass_result = Failed | Panic | Drained nat

definition drain_once :: "dispatcher \<Rightarrow> env \<Rightarrow> spine \<Rightarrow> pass_result \<times> spine" where
  "drain_once c e s =
     (case on_world (stmt (batch_sql e (batch_size c))) e s of
        (Inl _, s1) \<Rightarrow> (Failed, s1)
      | (Inr rows, s1) \<Rightarrow>
          (case drain_rows c rows e s1 of
             (Some n, s2) \<Rightarrow> (Drained n, s2)
           | (None, s2) \<Rightarrow> (Panic, s2)))"

end
