(* ===== verification/Delivery.thy ===== *)
theory Delivery
  imports Outbox Card_Properties
begin

text \<open>
  What the dispatcher guarantees: every event reaches the stream at least once, as its row says; a marked
  row is never published again; and while the broker recognises repeated ids, exactly once.
  \<open>sp_stream\<close> is the history of the stream, every message ever stored in it: what JetStream still retains
  (24 hours and 10000 messages of a subject, by \<open>jetstream_bootstrap.rs\<close>) is the recent part of it.
\<close>

section \<open>Delivery\<close>

text \<open>
  What JetStream documents of a publish: the message is stored or it is not, and it is acknowledged only
  if it has been stored, now or, for a repeated \<open>Nats-Msg-Id\<close>, before. A repeated id is recognised only
  within the stream's duplicate window (two minutes by default), so nothing is assumed of when it is;
  \<open>refuses_repeats\<close> is the case where it always is, as when every retry comes within the window.
\<close>

definition dedupes :: "message \<Rightarrow> message list \<Rightarrow> bool" where
  "dedupes m s \<longleftrightarrow> ms_id m \<noteq> None \<and> ms_id m \<in> ms_id ` set s"

definition jetstream_documented :: "backends \<Rightarrow> bool" where
  "jetstream_documented b \<longleftrightarrow> jetstream_enabled b \<and>
     (\<forall>n m s r s'. mq_publish b n m s = (r, s') \<longrightarrow>
        (s' = s \<or> s' = s @ [m]) \<and> (\<forall>k. r = Acked k \<longrightarrow> s' = s @ [m] \<or> dedupes m s))"

definition refuses_repeats :: "backends \<Rightarrow> bool" where
  "refuses_repeats b \<longleftrightarrow> (\<forall>n m s r s'. mq_publish b n m s = (r, s') \<longrightarrow> dedupes m s \<longrightarrow> s' = s)"

text \<open>The message of a row: its id, its subject and the envelope's fields are the row's.\<close>

definition message_of :: "ulid_codec \<Rightarrow> event_row \<Rightarrow> message \<Rightarrow> bool" where
  "message_of u row m \<longleftrightarrow> ms_id m = Some (id_str u (e_id row))
     \<and> route u row = Some (ms_subject m, ev_board_id (ms_body m))
     \<and> ev_event_id (ms_body m) = id_str u (e_id row)
     \<and> ev_board_revision (ms_body m) = json_u64 (e_payload row) ''board_revision''
     \<and> ev_emitted_at (ms_body m) = Some (to_proto_ts (e_created row))"

definition marked :: "event_row \<Rightarrow> int \<Rightarrow> db \<Rightarrow> db" where
  "marked row n d = d\<lparr>event_log := upd_rows (\<lambda>r. e_id r = e_id row) (\<lambda>r. r\<lparr>e_nats_seq := Some n\<rparr>) (event_log d)\<rparr>"

inductive delivery :: "ulid_codec \<Rightarrow> backends \<Rightarrow> db \<times> message list \<Rightarrow> db \<times> message list \<Rightarrow> bool"
  for u b where
  attempted: "\<lbrakk>row \<in> set (event_log d); e_nats_seq row = None; message_of u row m; mq_publish b n m s = (r, s')\<rbrakk>
    \<Longrightarrow> delivery u b (d, s) (d, s')"
| acknowledged: "\<lbrakk>row \<in> set (event_log d); e_nats_seq row = None; message_of u row m; mq_publish b n m s = (Acked k, s')\<rbrakk>
    \<Longrightarrow> delivery u b (d, s) (marked row (wrap_i64 (int k)) d, s')"

abbreviation view :: "spine \<Rightarrow> db \<times> message list" where
  "view s \<equiv> (db (sp_world s), sp_stream s)"

lemma on_world_view: "keeps (\<lambda>d. d = d0) m \<Longrightarrow> db (sp_world s) = d0 \<Longrightarrow> on_world m e s = (r, s') \<Longrightarrow> view s' = (d0, sp_stream s)"
  by (auto simp: on_world_def keeps_def split: prod.splits dest!: spec [of _ e] spec [of _ "sp_world s"])

lemma keeps_hydrate_payload [keeps_intros]: "keeps I (hydrate_payload ty j t)"
  unfolding hydrate_payload_def by (intro keeps_intros)

lemma keeps_card_document [keeps_intros]: "keeps I (card_document_from_db i t)"
  unfolding card_document_from_db_def by (intro keeps_intros)

lemma sync_index_view: "view (snd (sync_index c row e s)) = view s"
proof -
  have "db (sp_world s') = db (sp_world s) \<and> sp_stream s' = sp_stream s"
    if "on_world (card_document_from_db i t) e s = (r, s')" for i t r s'
    using on_world_view [OF keeps_card_document refl that] by simp
  then show ?thesis
    by (auto simp: sync_index_def split: option.splits prod.splits sum.splits decoded.splits)
qed

lemma mark_effect:
  assumes "on_world (exec (mark_dispatched_sql i n)) e s = (r, s')"
  shows "sp_stream s' = sp_stream s \<and>
    (case r of Inl _ \<Rightarrow> db (sp_world s') = db (sp_world s)
     | Inr _ \<Rightarrow> db (sp_world s') = (db (sp_world s))\<lparr>event_log :=
         upd_rows (\<lambda>r. e_id r = i) (\<lambda>r. r\<lparr>e_nats_seq := Some n\<rparr>) (event_log (db (sp_world s)))\<rparr>)"
  using assms by (auto simp: on_world_def exec_def stmt_def mark_dispatched_sql_def split: if_splits)

lemma drain_row_delivers:
  assumes row: "row \<in> set (event_log (db (sp_world s)))" "e_nats_seq row = None"
    and js: "jetstream_enabled (outside c)" and run: "drain_row c row e s = (ok, s')"
  shows "(delivery (codec e) (outside c))\<^sup>*\<^sup>* (view s) (view s') \<and>
    (view s' = (db (sp_world s), sp_stream s') \<or> (\<exists>n. db (sp_world s') = marked row n (db (sp_world s))))"
proof (cases "route (codec e) row")
  case None
  then show ?thesis using run by (simp add: drain_row_def)
next
  case (Some p)
  obtain subj bid where p: "p = (subj, bid)" by (cases p)
  obtain r s1 where h: "on_world (hydrate_payload (e_type row) (e_payload row) (e_tenant row)) e s = (r, s1)" by fastforce
  from on_world_view [OF keeps_hydrate_payload refl h] have v1: "db (sp_world s1) = db (sp_world s)" "sp_stream s1 = sp_stream s"
    by simp_all
  let ?env = "build_envelope (codec e) (e_id row) bid (e_payload row) (e_created row) (pod_name c) (case r of Inr p \<Rightarrow> p | Inl _ \<Rightarrow> None)"
  let ?m = "\<lparr>ms_subject = subj, ms_id = Some (id_str (codec e) (e_id row)), ms_body = ?env\<rparr>"
  have m: "message_of (codec e) row ?m"
    using Some p by (simp add: message_of_def build_envelope_def)
  obtain q stream where q: "mq_publish (outside c) (step (sp_world s1)) ?m (sp_stream s) = (q, stream)" by fastforce
  define s2 where "s2 = s1\<lparr>sp_world := tick (sp_world s1), sp_stream := stream\<rparr>"
  have pub: "publish c subj (e_id row) ?env e s1 = (q, s2)"
    using q js v1 by (simp add: publish_def s2_def)
  have v2: "view s2 = (db (sp_world s), stream)" by (simp add: s2_def v1)
  have att: "delivery (codec e) (outside c) (view s) (view s2)"
    unfolding v2 by (rule attempted [OF row m q])
  show ?thesis
  proof (cases q)
    case (Acked k)
    obtain x s3 where mk: "on_world (exec (mark_dispatched_sql (e_id row) (wrap_i64 (int k)))) e s2 = (x, s3)" by fastforce
    note eff = mark_effect [OF mk]
    show ?thesis
    proof (cases x)
      case (Inl a)
      then have "s' = s3" "view s3 = view s2" using run Some p h pub Acked mk eff by (simp_all add: drain_row_def)
      then show ?thesis using att v2 by auto
    next
      case (Inr a)
      then have "s' = snd (sync_index c row e s3)" using run Some p h pub Acked mk by (simp add: drain_row_def)
      moreover have "view s3 = (marked row (wrap_i64 (int k)) (db (sp_world s)), stream)"
        using eff Inr v2 by (simp add: marked_def)
      ultimately have v: "view s' = (marked row (wrap_i64 (int k)) (db (sp_world s)), stream)"
        using sync_index_view [of c row e s3] by simp
      have "delivery (codec e) (outside c) (view s) (view s')"
        unfolding v by (rule acknowledged [OF row m]) (use q Acked in simp)
      then show ?thesis using v by auto
    qed
  qed (use run Some p h pub att v2 in \<open>auto simp: drain_row_def\<close>)
qed

section \<open>The invariant\<close>

text \<open>
  Event ids are a key; a dispatched row is in the stream; every message of the stream is that of a row.
\<close>

definition delivered :: "ulid_codec \<Rightarrow> db \<times> message list \<Rightarrow> bool" where
  "delivered u = (\<lambda>(d, s). distinct (map e_id (event_log d))
     \<and> (\<forall>row \<in> set (event_log d). e_nats_seq row \<noteq> None \<longrightarrow> (\<exists>m \<in> set s. message_of u row m))
     \<and> (\<forall>m \<in> set s. \<exists>row \<in> set (event_log d). message_of u row m))"

lemma message_of_unmarked [simp]: "message_of u (row\<lparr>e_nats_seq := x\<rparr>) m = message_of u row m"
  unfolding message_of_def route_def
  by (cases "e_aggregated row"; cases "e_board row"; cases "e_project row"; simp)

lemma message_of_inject:
  "ulid_crate u \<Longrightarrow> message_of u row m \<Longrightarrow> message_of u row' m' \<Longrightarrow> ms_id m = ms_id m' \<Longrightarrow> e_id row = e_id row'"
  by (simp add: message_of_def ulid_crate.id_str_inject)

lemma marked_log:
  "r \<in> set (event_log (marked row n d)) \<longleftrightarrow>
    (\<exists>q \<in> set (event_log d). r = (if e_id q = e_id row then q\<lparr>e_nats_seq := Some n\<rparr> else q))"
  by (auto simp: marked_def set_upd_rows)

lemma marked_keys [simp]: "map e_id (event_log (marked row n d)) = map e_id (event_log d)"
  by (simp add: marked_def map_upd_rows_same)

text \<open>One publish: the stream stays as it was, or gains the message.\<close>

lemma publish_step:
  assumes js: "jetstream_documented b" and pub: "mq_publish b n m s = (r, s')"
  shows "s' = s \<or> s' = s @ [m]"
    and "r = Acked k \<Longrightarrow> ms_id m \<noteq> None \<Longrightarrow> ms_id m \<in> ms_id ` set s'"
  using assms unfolding jetstream_documented_def dedupes_def by (metis (no_types, lifting))
    (use assms in \<open>force simp: jetstream_documented_def dedupes_def\<close>)

lemma delivered_attempt:
  assumes "delivered u (d, s)" and "jetstream_documented b" and "row \<in> set (event_log d)" and "message_of u row m"
    and "mq_publish b n m s = (r, s')"
  shows "delivered u (d, s')"
  using publish_step(1) [OF assms(2,5)] assms(1,3,4) by (auto simp: delivered_def)

lemma delivered_marked:
  assumes u: "ulid_crate u" and inv: "delivered u (d, s)" and row: "row \<in> set (event_log d)"
    and m: "m \<in> set s" "ms_id m = Some (id_str u (e_id row))"
  shows "delivered u (marked row n d, s)"
proof -
  from inv m(1) obtain q where q: "q \<in> set (event_log d)" "message_of u q m" by (auto simp: delivered_def)
  from q(2) m(2) u have "e_id q = e_id row" by (simp add: message_of_def ulid_crate.id_str_inject)
  moreover have keys: "distinct (map e_id (event_log d))" using inv by (simp add: delivered_def)
  ultimately have "q = row" using q(1) row by (blast dest: distinct_key)
  with q(2) have mrow: "message_of u row m" by simp
  have "\<exists>m \<in> set s. message_of u r m" if "r \<in> set (event_log (marked row n d))" "e_nats_seq r \<noteq> None" for r
  proof -
    from that(1) obtain p where p: "p \<in> set (event_log d)" "r = (if e_id p = e_id row then p\<lparr>e_nats_seq := Some n\<rparr> else p)"
      unfolding marked_log by blast
    show ?thesis
    proof (cases "e_id p = e_id row")
      case True
      with p(1) row keys have "p = row" by (blast dest: distinct_key)
      then show ?thesis using p(2) mrow m(1) by auto
    next
      case False
      then show ?thesis using p that(2) inv by (auto simp: delivered_def)
    qed
  qed
  moreover have "\<exists>r \<in> set (event_log (marked row n d)). message_of u r m'" if "m' \<in> set s" for m'
  proof -
    from inv that obtain p where "p \<in> set (event_log d)" "message_of u p m'" by (auto simp: delivered_def)
    moreover from this(1) have "(if e_id p = e_id row then p\<lparr>e_nats_seq := Some n\<rparr> else p) \<in> set (event_log (marked row n d))"
      unfolding marked_log by blast
    ultimately show ?thesis by (intro bexI) auto
  qed
  ultimately show ?thesis using inv unfolding delivered_def by simp
qed

lemma delivery_delivered:
  assumes "delivery u b x y" and "ulid_crate u" and "jetstream_documented b" and "delivered u x"
  shows "delivered u y"
  using assms
proof (induction rule: delivery.induct)
  case (attempted row d m n s r s')
  then show ?case by (blast intro: delivered_attempt)
next
  case (acknowledged row d m n s k s')
  then have "delivered u (d, s')" by (blast intro: delivered_attempt)
  moreover have id: "ms_id m = Some (id_str u (e_id row))" using acknowledged by (simp add: message_of_def)
  moreover obtain m' where "m' \<in> set s'" "ms_id m' = ms_id m"
    using publish_step(2) [OF \<open>jetstream_documented b\<close> acknowledged(4), of k] id by auto
  ultimately show ?case using acknowledged by (intro delivered_marked [of u d s' row m']) simp_all
qed

text \<open>A marked row stays marked, and the stream gains no message with its id.\<close>

definition marked_id :: "ident \<Rightarrow> db \<Rightarrow> bool" where
  "marked_id i d \<longleftrightarrow> (\<exists>r \<in> set (event_log d). e_id r = i \<and> e_nats_seq r \<noteq> None)"

definition copies :: "ulid_codec \<Rightarrow> ident \<Rightarrow> message list \<Rightarrow> message list" where
  "copies u i s = filter (\<lambda>m. ms_id m = Some (id_str u i)) s"

lemma marked_id_marked: "marked_id i d \<Longrightarrow> marked_id i (marked row n d)"
proof -
  assume "marked_id i d"
  then obtain r where r: "r \<in> set (event_log d)" "e_id r = i" "e_nats_seq r \<noteq> None" by (auto simp: marked_id_def)
  then have "(if e_id r = e_id row then r\<lparr>e_nats_seq := Some n\<rparr> else r) \<in> set (event_log (marked row n d))"
    unfolding marked_log by blast
  then show ?thesis unfolding marked_id_def by (rule bexI [rotated]) (use r in simp)
qed


lemma copies_attempt:
  assumes "ulid_crate u" and "jetstream_documented b" and "delivered u (d, s)" and "marked_id i d"
    and "row \<in> set (event_log d)" and "e_nats_seq row = None" and "message_of u row m" and "mq_publish b n m s = (r, s')"
  shows "copies u i s' = copies u i s"
proof -
  from assms(4) obtain q where q: "q \<in> set (event_log d)" "e_id q = i" "e_nats_seq q \<noteq> None" by (auto simp: marked_id_def)
  have "distinct (map e_id (event_log d))" using assms(3) by (simp add: delivered_def)
  with q assms(5,6) have "e_id row \<noteq> i" by (metis distinct_key)
  then have "ms_id m \<noteq> Some (id_str u i)" using assms(1,7) by (simp add: message_of_def ulid_crate.id_str_inject)
  then show ?thesis using publish_step(1) [OF assms(2,8)] by (auto simp: copies_def)
qed

lemma delivery_settled:
  assumes "delivery u b x y" and "ulid_crate u" and "jetstream_documented b" and "delivered u x" and "marked_id i (fst x)"
  shows "marked_id i (fst y) \<and> copies u i (snd y) = copies u i (snd x)"
  using assms
proof (induction rule: delivery.induct)
  case (attempted row d m n s r s')
  then show ?case using copies_attempt by simp
next
  case (acknowledged row d m n s k s')
  then show ?case using copies_attempt marked_id_marked by simp
qed

text \<open>Where the broker refuses repeated ids, no id is stored twice.\<close>

lemma delivery_no_repeats:
  assumes "delivery u b x y" and "jetstream_documented b" and "refuses_repeats b" and "distinct (map ms_id (snd x))"
  shows "distinct (map ms_id (snd y))"
proof -
  have "distinct (map ms_id s')"
    if p: "mq_publish b n m s = (r, s')" and m: "message_of u row m" and s: "distinct (map ms_id s)" for n m s r s' row
  proof (cases "dedupes m s")
    case True
    then show ?thesis using p s assms(3) by (metis refuses_repeats_def)
  next
    case False
    then have "ms_id m \<notin> ms_id ` set s" using m by (simp add: dedupes_def message_of_def)
    then show ?thesis using publish_step(1) [OF assms(2) p] s by auto
  qed
  with assms(1,4) show ?thesis by (induction rule: delivery.induct) auto
qed

section \<open>A pass\<close>

lemma drain_rows_delivers:
  assumes "\<forall>row \<in> set rows. row \<in> set (event_log (db (sp_world s))) \<and> e_nats_seq row = None"
    and "distinct (map e_id rows)" and js: "jetstream_enabled (outside c)" and "drain_rows c rows e s = (n, s')"
  shows "(delivery (codec e) (outside c))\<^sup>*\<^sup>* (view s) (view s')"
  using assms(1,2,4)
proof (induction rows arbitrary: s n s')
  case Nil
  then show ?case by simp
next
  case (Cons row rows)
  obtain ok s1 where one: "drain_row c row e s = (ok, s1)" by fastforce
  obtain k s2 where rest: "drain_rows c rows e s1 = (k, s2)" by fastforce
  have s2: "s' = s1 \<or> s' = s2" using Cons.prems(3) one rest by (cases ok) simp_all
  have r: "row \<in> set (event_log (db (sp_world s)))" "e_nats_seq row = None" using Cons.prems(1) by simp_all
  note d = drain_row_delivers [OF r js one]
  have "q \<in> set (event_log (db (sp_world s1)))" if "q \<in> set rows" for q
  proof -
    have "q \<in> set (event_log (db (sp_world s)))" "e_id q \<noteq> e_id row" using that Cons.prems(1,2) by (auto simp: image_iff)
    then show ?thesis using d by (auto simp: marked_log)
  qed
  then have "(delivery (codec e) (outside c))\<^sup>*\<^sup>* (view s1) (view s2)"
    using Cons.IH [of s1 k s2] Cons.prems(1,2) rest by auto
  then have "(delivery (codec e) (outside c))\<^sup>*\<^sup>* (view s1) (view s')" using s2 by auto
  then show ?case using d by (meson rtranclp_trans)
qed

lemma set_take_sort: "set (take k (sort_rows le xs)) \<subseteq> set xs"
  using set_take_subset by fastforce

lemma distinct_batch:
  assumes "distinct (map e_id (event_log d))"
  shows "distinct (map e_id (take k (undispatched e d)))"
proof -
  have "distinct (map e_id (undispatched e d))"
    using assms by (simp add: undispatched_def distinct_map_filter)
  then show ?thesis by (simp add: take_map [symmetric])
qed

lemma drain_once_delivers:
  assumes "distinct (map e_id (event_log (db (sp_world s))))" and js: "jetstream_enabled (outside c)"
  shows "(delivery (codec e) (outside c))\<^sup>*\<^sup>* (view s) (view (snd (drain_once c e s)))"
proof -
  obtain r s1 where b: "on_world (stmt (batch_sql e (batch_size c))) e s = (r, s1)" by fastforce
  then have v: "view s1 = view s"
    by (auto simp: on_world_def stmt_def batch_sql_def split: if_splits)
  show ?thesis
  proof (cases r)
    case (Inl a)
    then show ?thesis using b v by (simp add: drain_once_def)
  next
    case (Inr rows)
    then have rows: "rows = take (nat (batch_size c)) (undispatched e (db (sp_world s)))"
      using b by (auto simp: on_world_def stmt_def batch_sql_def split: if_splits)
    obtain n s2 where d: "drain_rows c rows e s1 = (n, s2)" by fastforce
    have "(delivery (codec e) (outside c))\<^sup>*\<^sup>* (view s1) (view s2)"
    proof (rule drain_rows_delivers [OF _ _ js d])
      show "distinct (map e_id rows)" unfolding rows by (rule distinct_batch [OF assms(1)])
      show "\<forall>row \<in> set rows. row \<in> set (event_log (db (sp_world s1))) \<and> e_nats_seq row = None"
        using set_take_sort v unfolding rows undispatched_def by fastforce
    qed
    then show ?thesis using b Inr d v by (cases n) (simp_all add: drain_once_def)
  qed
qed


section \<open>Requests and passes in any order\<close>

datatype spine_op = Request request_context card_call | Pass

primrec run_spine :: "dispatcher \<Rightarrow> spine_op list \<Rightarrow> env \<Rightarrow> spine \<Rightarrow> spine" where
  "run_spine c [] e s = s"
| "run_spine c (x # xs) e s =
     (case x of
        Request ctx call \<Rightarrow> run_spine c xs e (snd (on_world (serve ctx call) e s))
      | Pass \<Rightarrow> run_spine c xs e (snd (drain_once c e s)))"

text \<open>A request only appends to the log, rows that are not dispatched and have ids of their own.\<close>

definition appended :: "db \<Rightarrow> db \<Rightarrow> bool" where
  "appended d d' \<longleftrightarrow> (\<exists>more. event_log d' = event_log d @ more \<and> (\<forall>r \<in> set more. e_nats_seq r = None))
     \<and> (distinct (map e_id (event_log d)) \<longrightarrow> distinct (map e_id (event_log d')))"

lemma appended_same: "event_log d' = event_log d \<Longrightarrow> appended d d'"
  by (simp add: appended_def)

lemma appended_trans: "appended a b \<Longrightarrow> appended b c \<Longrightarrow> appended a c"
  by (auto simp: appended_def)

lemma card_step_appended: "card_step d d' \<Longrightarrow> appended d d'"
proof (induction rule: card_step.induct)
  case (emitted b v d d')
  obtain i t ty obj now where v: "v = (i, t, ty, obj, now)" by (cases v) auto
  from emitted [unfolded v] show ?case by (rule emit_board_cases) (simp add: appended_def log_event_def)
next
  case (around d d')
  then show ?case by (simp add: appended_same core_eq_def)
next
  case (placed d d1 d' cid t f)
  then show ?case by (auto simp: appended_same repositioned_def)
qed (auto simp: allocate_ref_sql_def update_card_sql_def shift_sql_def insert_card_sql_def delete_card_sql_def Let_def
  intro!: appended_same split: option.splits if_splits)

lemma evolves_appended: "evolves d d' \<Longrightarrow> appended d d'"
  by (induction rule: rtranclp_induct) (auto intro: appended_same appended_trans card_step_appended)

lemma delivered_appended:
  assumes "appended d d'" and "delivered u (d, s)"
  shows "delivered u (d', s)"
proof -
  from assms(1) obtain more where more: "event_log d' = event_log d @ more" "\<forall>r \<in> set more. e_nats_seq r = None"
    by (auto simp: appended_def)
  moreover have "distinct (map e_id (event_log d'))" using assms by (simp add: appended_def delivered_def)
  ultimately show ?thesis using assms(2) by (auto simp: delivered_def)
qed

lemma well_formed_marked: "well_formed (marked row n d) = well_formed d"
proof -
  have log: "board_log (marked row n d) = board_log d" "aggregated_log (marked row n d) = aggregated_log d"
    unfolding board_log_def aggregated_log_def marked_def
    by (auto simp: fun_eq_iff upd_rows_def filter_map comp_def List.map_filter_def intro!: arg_cong [of _ _ concat] map_cong)
  then show ?thesis
    unfolding well_formed_def board_log.gapless_def aggregated_log.gapless_def log
    by (simp add: marked_def homed_def counted_def counters_ok_def board_revision_def aggregated_revision_def)
qed

lemma delivery_well_formed: "delivery u b x y \<Longrightarrow> well_formed (fst x) \<Longrightarrow> well_formed (fst y)"
  by (induction rule: delivery.induct) (simp_all add: well_formed_marked)

text \<open>One request or one pass: steps of the dispatcher, or rows appended to the log.\<close>

definition spine_step :: "dispatcher \<Rightarrow> spine_op \<Rightarrow> env \<Rightarrow> spine \<Rightarrow> spine" where
  "spine_step c x e s =
     (case x of Request ctx call \<Rightarrow> snd (on_world (serve ctx call) e s) | Pass \<Rightarrow> snd (drain_once c e s))"

lemma run_spine_Cons: "run_spine c (x # ops) e s = run_spine c ops e (spine_step c x e s)"
  by (cases x) (simp_all add: spine_step_def)

lemma run_spine_append: "run_spine c (xs @ ys) e s = run_spine c ys e (run_spine c xs e s)"
  by (induction xs arbitrary: s) (simp_all only: append_Nil append_Cons run_spine_Cons run_spine.simps(1))

lemma request_appends:
  assumes "well_formed (db (sp_world s))"
  shows "evolves (db (sp_world s)) (db (sp_world (spine_step c (Request ctx call) e s)))
    \<and> sp_stream (spine_step c (Request ctx call) e s) = sp_stream s"
  using keepsD [OF evolves_serve [OF assms], of "sp_world s" ctx call e]
  by (cases "serve ctx call e (sp_world s)") (simp add: spine_step_def on_world_def)

lemma pass_delivers:
  assumes "delivered u (view s)" and "jetstream_enabled (outside c)"
  shows "(delivery (codec e) (outside c))\<^sup>*\<^sup>* (view s) (view (spine_step c Pass e s))"
  using drain_once_delivers assms by (simp add: spine_step_def delivered_def)

text \<open>Any run keeps what requests, by appending to the log, and the dispatcher's steps keep.\<close>

lemma run_spine_keeps:
  assumes u: "ulid_crate (codec e)" and js: "jetstream_documented (outside c)"
    and app: "\<And>d d' t. \<lbrakk>appended d d'; P (d, t)\<rbrakk> \<Longrightarrow> P (d', t)"
    and del: "\<And>x y. \<lbrakk>delivery (codec e) (outside c) x y; delivered (codec e) x; P x\<rbrakk> \<Longrightarrow> P y"
  shows "\<lbrakk>well_formed (db (sp_world s)); delivered (codec e) (view s); P (view s)\<rbrakk> \<Longrightarrow>
    delivered (codec e) (view (run_spine c ops e s)) \<and> well_formed (db (sp_world (run_spine c ops e s)))
    \<and> P (view (run_spine c ops e s))"
proof (induction ops arbitrary: s)
  case Nil
  then show ?case by simp
next
  case (Cons x ops)
  have "well_formed (db (sp_world s')) \<and> delivered (codec e) (view s') \<and> P (view s')"
    if s': "s' = spine_step c x e s" for s'
  proof (cases x)
    case (Request ctx call)
    have ev: "evolves (db (sp_world s)) (db (sp_world s'))" and st: "sp_stream s' = sp_stream s"
      using request_appends [OF Cons.prems(1)] s' Request by simp_all
    show ?thesis
      using Cons.prems evolves_well_formed [OF ev] delivered_appended [OF evolves_appended [OF ev]]
        app [OF evolves_appended [OF ev]] st by simp
  next
    case Pass
    have en: "jetstream_enabled (outside c)" using js by (simp add: jetstream_documented_def)
    from pass_delivers [OF Cons.prems(2) en, of e]
    have star: "(delivery (codec e) (outside c))\<^sup>*\<^sup>* (view s) (view s')" using s' Pass by simp
    have "delivered (codec e) y \<and> well_formed (fst y) \<and> P y" if "(delivery (codec e) (outside c))\<^sup>*\<^sup>* (view s) y" for y
      using that
    proof (induction rule: rtranclp_induct)
      case base
      then show ?case using Cons.prems by simp
    next
      case (step y z)
      then show ?case using delivery_delivered [OF _ u js] delivery_well_formed del by blast
    qed
    from this [OF star] show ?thesis by simp
  qed
  then show ?case using Cons.IH [of "spine_step c x e s"] unfolding run_spine_Cons by blast
qed

lemma exactly_one:
  assumes "distinct (map f xs)" and "x \<in> set xs" and "f x = k"
  shows "filter (\<lambda>y. f y = k) xs = [x]"
  using assms by (induction xs) (auto simp: filter_empty_conv image_iff)

lemma marked_id_appended: "appended d d' \<Longrightarrow> marked_id i d \<Longrightarrow> marked_id i d'"
  by (auto simp: appended_def marked_id_def)

lemma run_spine_settled:
  assumes "ulid_crate (codec e)" and "jetstream_documented (outside c)" and "well_formed (db (sp_world s))"
    and "delivered (codec e) (view s)" and "marked_id i (db (sp_world s))"
  shows "copies (codec e) i (sp_stream (run_spine c ops e s)) = copies (codec e) i (sp_stream s)"
  using run_spine_keeps [of e c "\<lambda>x. marked_id i (fst x) \<and> copies (codec e) i (snd x) = copies (codec e) i (sp_stream s)" s ops]
    assms marked_id_appended delivery_settled by fastforce

lemma run_spine_no_repeats:
  assumes "ulid_crate (codec e)" and "jetstream_documented (outside c)" and "refuses_repeats (outside c)"
    and "well_formed (db (sp_world s))" and "delivered (codec e) (view s)" and "distinct (map ms_id (sp_stream s))"
  shows "distinct (map ms_id (sp_stream (run_spine c ops e s)))"
  using run_spine_keeps [of e c "\<lambda>x. distinct (map ms_id (snd x))" s ops] assms delivery_no_repeats by fastforce

text \<open>
  C5. Delivery: whatever requests and dispatcher passes are interleaved, whatever statements, publishes and
  acknowledgements fail in between, an event marked as dispatched has reached the stream at least once, as the
  message of its row; the stream has nothing else than messages of logged events; an event once marked is not
  published again by anything that follows; and if the broker refuses every repeated id (a retry that comes within its
  duplicate window), every marked event is in the stream exactly once. Without that a retry may duplicate an event:
  when the UPDATE that marks the row fails after the publish, the row is published again.
\<close>

theorem dispatch_delivers:
  assumes "ulid_crate (codec e)" and "jetstream_documented (outside c)"
    and "well_formed (db (sp_world s))" and "delivered (codec e) (view s)"
    and s1: "s1 = run_spine c ops e s" and s2: "s2 = run_spine c later e s1"
  shows "(\<forall>row \<in> set (event_log (db (sp_world s1))). e_nats_seq row \<noteq> None \<longrightarrow>
      (\<exists>m \<in> set (sp_stream s1). message_of (codec e) row m)
      \<and> copies (codec e) (e_id row) (sp_stream s2) = copies (codec e) (e_id row) (sp_stream s1)
      \<and> (refuses_repeats (outside c) \<and> distinct (map ms_id (sp_stream s)) \<longrightarrow>
           (\<exists>m. copies (codec e) (e_id row) (sp_stream s2) = [m] \<and> message_of (codec e) row m)))
    \<and> (\<forall>m \<in> set (sp_stream s1). \<exists>row \<in> set (event_log (db (sp_world s1))). message_of (codec e) row m)"
proof -
  have inv: "delivered (codec e) (view s1)" "well_formed (db (sp_world s1))"
    using run_spine_keeps [OF assms(1,2), of "\<lambda>_. True"] assms(3,4) s1 by blast+
  have same: "copies (codec e) (e_id row) (sp_stream s2) = copies (codec e) (e_id row) (sp_stream s1)"
    if "row \<in> set (event_log (db (sp_world s1)))" "e_nats_seq row \<noteq> None" for row
    unfolding s2 using that by (intro run_spine_settled [OF assms(1,2) inv(2,1)]) (auto simp: marked_id_def)
  moreover have "\<exists>m. copies (codec e) (e_id row) (sp_stream s1) = [m] \<and> message_of (codec e) row m"
    if "refuses_repeats (outside c)" "distinct (map ms_id (sp_stream s))"
      "row \<in> set (event_log (db (sp_world s1)))" "e_nats_seq row \<noteq> None" for row
  proof -
    from inv that obtain m where m: "m \<in> set (sp_stream s1)" "message_of (codec e) row m" by (auto simp: delivered_def)
    have "copies (codec e) (e_id row) (sp_stream s1) = [m]"
      unfolding copies_def
      by (rule exactly_one) (use m run_spine_no_repeats [OF assms(1,2) that(1) assms(3,4) that(2)] s1 in \<open>simp_all add: message_of_def\<close>)
    with m(2) show ?thesis by blast
  qed
  ultimately show ?thesis using inv(1) by (auto simp: delivered_def)
qed

section \<open>A sample broker\<close>

definition sample_backends :: backends where
  "sample_backends = \<lparr>jetstream_enabled = True,
     mq_publish = (\<lambda>n m s. if dedupes m s then (Acked (length s), s) else (Acked (Suc (length s)), s @ [m])),
     os_index = (\<lambda>n doc ds. (cd_id doc, doc) # ds), os_delete = (\<lambda>n i ds. filter (\<lambda>x. fst x \<noteq> i) ds)\<rparr>"

definition sample_dispatcher :: dispatcher where
  "sample_dispatcher = \<lparr>batch_size = 100, pod_name = ''pod'', opensearch = True, outside = sample_backends\<rparr>"

definition sample_spine :: spine where
  "sample_spine = \<lparr>sp_world = sample_world sample_db, sp_stream = [], sp_docs = []\<rparr>"

lemma sample_documented: "jetstream_documented (outside sample_dispatcher)"
  by (auto simp: jetstream_documented_def sample_dispatcher_def sample_backends_def split: if_splits)

lemma sample_refuses: "refuses_repeats (outside sample_dispatcher)"
  by (auto simp: refuses_repeats_def sample_dispatcher_def sample_backends_def split: if_splits)

lemma sample_delivered: "delivered u (view sample_spine)"
  by (simp add: delivered_def sample_spine_def)

lemmas spine_evals = sample_spine_def sample_dispatcher_def sample_backends_def drain_once_def on_world_def batch_sql_def
  undispatched_def route_def publish_def hydrate_payload_def build_payload_def build_card_payload_def
  dedupes_def mark_dispatched_sql_def sync_index_def payload_card_id_def drain_row_def

lemma sample_run:
  "map e_nats_seq (event_log (db (sp_world (run_spine sample_dispatcher [Request (sample_context (sid 5)) DeleteCard, Pass] sample_env sample_spine)))) = [Some 1]"
  by (simp add: evals request_evals sample_evals event_evals delete_card_evals spine_evals)

theorem dispatch_delivers_witness:
  "let s1 = run_spine sample_dispatcher [Request (sample_context (sid 5)) DeleteCard, Pass] sample_env sample_spine;
     s2 = run_spine sample_dispatcher [Pass] sample_env s1
   in map e_nats_seq (event_log (db (sp_world s1))) = [Some 1]
    \<and> (\<forall>row \<in> set (event_log (db (sp_world s1))). \<exists>m. copies crockford (e_id row) (sp_stream s2) = [m] \<and> message_of crockford row m)
    \<and> (\<forall>m \<in> set (sp_stream s1). \<exists>row \<in> set (event_log (db (sp_world s1))). message_of crockford row m)"
proof -
  let ?s1 = "run_spine sample_dispatcher [Request (sample_context (sid 5)) DeleteCard, Pass] sample_env sample_spine"
  have wf: "well_formed (db (sp_world sample_spine))" by (simp add: sample_spine_def sample_well_formed)
  have "ulid_crate (codec sample_env)" by (simp add: crockford.ulid_crate_axioms)
  note th = dispatch_delivers [OF this sample_documented wf sample_delivered refl refl,
      of "[Request (sample_context (sid 5)) DeleteCard, Pass]" "[Pass]"]
  have "e_nats_seq row \<noteq> None" if "row \<in> set (event_log (db (sp_world ?s1)))" for row
    using arg_cong [OF sample_run, of set] that by auto
  moreover have "distinct (map ms_id (sp_stream sample_spine))" by (simp add: sample_spine_def)
  ultimately show ?thesis
    using th sample_refuses sample_run unfolding sample_env_fields Let_def by blast
qed

end
