(* ===== verification/Backlog.thy ===== *)
theory Backlog
  imports Delivery
begin

text \<open>
  Progress of the dispatcher: while the database and the broker work, its passes clear the backlog.
\<close>

section \<open>Progress\<close>

lemma stays_idle_resolve_profile [idle_intros]: "stays_idle (resolve_profile t s)"
proof (unfold stays_idle_def, intro allI impI)
  fix e w
  assume "idle w"
  moreover have "stays_idle (cache_insert t s p)" for p
    by (simp add: stays_idle_def cache_insert_def idle_def)
  moreover have "stays_idle (get_identity t i)" for i
    unfolding get_identity_def by (intro idle_intros)
  ultimately show "idle (snd (resolve_profile t s e w))"
    unfolding resolve_profile_def Let_def
    by (auto split: option.split intro!: idleI idle_intros)
qed

lemma stays_idle_fetch_full_card [idle_intros]: "stays_idle (fetch_full_card i t)"
  unfolding fetch_full_card_def hydrate_def Let_def fetch_labels_def fetch_assignees_def fetch_checklist_def
    fetch_comments_count_def fetch_attachments_count_def fetch_dependencies_def fetch_dependents_def
  by (intro idle_intros)

lemma stays_idle_hydrate_payload [idle_intros]: "stays_idle (hydrate_payload ty j t)"
  unfolding hydrate_payload_def by (intro idle_intros)

lemma stays_idle_card_document [idle_intros]: "stays_idle (card_document_from_db i t)"
  unfolding card_document_from_db_def by (intro idle_intros)

lemma on_world_idle: "stays_idle m \<Longrightarrow> idle (sp_world s) \<Longrightarrow> on_world m e s = (r, s') \<Longrightarrow> idle (sp_world s')"
  by (auto simp: on_world_def split: prod.splits dest: idleD)

lemma sync_index_idle: "idle (sp_world s) \<Longrightarrow> idle (sp_world (snd (sync_index c row e s)))"
  using on_world_idle [OF stays_idle_card_document]
  by (auto simp: sync_index_def split: option.splits prod.splits sum.splits decoded.splits)


text \<open>A broker that acknowledges everything, and a log whose rows all have an object.\<close>

definition always_acks :: "backends \<Rightarrow> bool" where
  "always_acks b \<longleftrightarrow> (\<forall>n m s. \<exists>k s'. mq_publish b n m s = (Acked k, s'))"

definition pending :: "spine \<Rightarrow> event_row list" where
  "pending s = filter (\<lambda>r. e_nats_seq r = None) (event_log (db (sp_world s)))"

definition routable :: "spine \<Rightarrow> bool" where
  "routable s \<longleftrightarrow> (\<forall>r \<in> set (event_log (db (sp_world s))). e_aggregated r \<noteq> None \<or> e_board r \<noteq> None \<or> e_project r \<noteq> None)"

text \<open>Every card has a priority (the handlers always write one), or no search index is attached.\<close>

definition indexable :: "dispatcher \<Rightarrow> spine \<Rightarrow> bool" where
  "indexable c s \<longleftrightarrow> \<not> opensearch c \<or> (\<forall>x \<in> set (cards (db (sp_world s))). c_priority x \<noteq> None)"

lemma sync_index_dispatched:
  assumes "indexable c s"
  shows "fst (sync_index c row e s) = Dispatched"
proof (cases "opensearch c")
  case True
  have "x \<noteq> NullPriority" if "card_document_from_db i t e (sp_world s) = (Inr x, w)" for i t x w
  proof
    assume "x = NullPriority"
    with that obtain r where "find_card i t (db (sp_world s)) = Some r" "c_priority r = None"
      by (auto simp: card_document_from_db_def ok_iffs split: option.splits)
    moreover from this(1) have "r \<in> set (cards (db (sp_world s)))" using find_card_Some by blast
    ultimately show False using assms True by (auto simp: indexable_def)
  qed
  then show ?thesis
    by (auto simp: sync_index_def on_world_def split: option.split prod.split sum.split decoded.split)
qed (simp add: sync_index_def)

lemma drain_row_progress:
  assumes e: "calm e" "always_acks (outside c)" and idle: "idle (sp_world s)" and r: "route (codec e) row \<noteq> None"
    and ix: "indexable c s"
  shows "\<exists>s' n. drain_row c row e s = (Dispatched, s') \<and> db (sp_world s') = marked row n (db (sp_world s)) \<and> idle (sp_world s')"
proof -
  obtain subj bid where p: "route (codec e) row = Some (subj, bid)" using r by fastforce
  obtain r s1 where h: "on_world (hydrate_payload (e_type row) (e_payload row) (e_tenant row)) e s = (r, s1)" by fastforce
  have v1: "db (sp_world s1) = db (sp_world s)" "idle (sp_world s1)"
    using on_world_view [OF keeps_hydrate_payload refl h] on_world_idle [OF stays_idle_hydrate_payload idle h] by simp_all
  let ?env = "build_envelope (codec e) (e_id row) bid (e_payload row) (e_created row) (pod_name c) (case r of Inr p \<Rightarrow> p | Inl _ \<Rightarrow> None)"
  let ?m = "\<lparr>ms_subject = subj, ms_id = (if jetstream_enabled (outside c) then Some (id_str (codec e) (e_id row)) else None), ms_body = ?env\<rparr>"
  obtain k stream where q: "mq_publish (outside c) (step (sp_world s1)) ?m (sp_stream s1) = (Acked k, stream)"
    using e(2) unfolding always_acks_def by blast
  define s2 where "s2 = s1\<lparr>sp_world := tick (sp_world s1), sp_stream := stream\<rparr>"
  have pub: "publish c subj (e_id row) ?env e s1 = (Acked k, s2)"
    using q by (simp add: publish_def s2_def)
  have s2: "db (sp_world s2) = db (sp_world s)" "idle (sp_world s2)" using v1 by (simp_all add: s2_def)
  obtain x s3 where mk: "on_world (exec (mark_dispatched_sql (e_id row) (wrap_i64 (int k)))) e s2 = (x, s3)" by fastforce
  then obtain u where x: "x = Inr u"
    using e(1) s2(2) by (auto simp: on_world_def exec_def stmt_def mark_dispatched_sql_def idle_def)
  have "idle (sp_world s3)" by (rule on_world_idle [OF stays_idle_stmt(3) s2(2) mk])
  moreover have "db (sp_world s3) = marked row (wrap_i64 (int k)) (db (sp_world s))"
    using mark_effect [OF mk] x s2(1) by (simp add: marked_def)
  moreover from this have "fst (sync_index c row e s3) = Dispatched"
    using ix by (intro sync_index_dispatched) (simp add: indexable_def marked_def)
  moreover obtain q s4 where s4: "sync_index c row e s3 = (q, s4)" by fastforce
  ultimately have "db (sp_world s4) = marked row (wrap_i64 (int k)) (db (sp_world s)) \<and> idle (sp_world s4)" "q = Dispatched"
    using sync_index_view [of c row e s3] sync_index_idle [of s3 c row e] by simp_all
  moreover have "drain_row c row e s = (q, s4)"
    using p h pub mk x s4 by (simp add: drain_row_def)
  ultimately show ?thesis by blast
qed

lemma undispatched_upd_rows:
  "filter (\<lambda>r. e_nats_seq r = None) (upd_rows (\<lambda>r. e_id r = i) (\<lambda>r. r\<lparr>e_nats_seq := Some n\<rparr>) rows)
   = filter (\<lambda>r. e_id r \<noteq> i) (filter (\<lambda>r. e_nats_seq r = None) rows)"
  by (induction rows) auto

lemma pending_marked:
  assumes "db (sp_world s') = marked row n (db (sp_world s))"
  shows "pending s' = filter (\<lambda>r. e_id r \<noteq> e_id row) (pending s)"
  unfolding pending_def assms marked_def by (simp add: undispatched_upd_rows)

lemma routable_marked:
  assumes "db (sp_world s') = marked row n (db (sp_world s))" and "routable s"
  shows "routable s'"
  unfolding routable_def
proof
  fix r
  assume "r \<in> set (event_log (db (sp_world s')))"
  then obtain q where q: "q \<in> set (event_log (db (sp_world s)))" "r = (if e_id q = e_id row then q\<lparr>e_nats_seq := Some n\<rparr> else q)"
    unfolding assms(1) marked_log by blast
  then show "e_aggregated r \<noteq> None \<or> e_board r \<noteq> None \<or> e_project r \<noteq> None"
    using assms(2) by (cases "e_id q = e_id row") (simp_all add: routable_def)
qed

lemma route_routable: "e_aggregated r \<noteq> None \<or> e_board r \<noteq> None \<or> e_project r \<noteq> None \<Longrightarrow> route u r \<noteq> None"
  by (auto simp: route_def split: option.splits)

lemma drain_rows_progress:
  assumes e: "calm e" "always_acks (outside c)"
  shows "set rows \<subseteq> set (pending s) \<Longrightarrow> distinct (map e_id rows) \<Longrightarrow> idle (sp_world s) \<Longrightarrow> routable s \<Longrightarrow> indexable c s \<Longrightarrow>
    \<exists>s'. drain_rows c rows e s = (Some (length rows), s') \<and> cards (db (sp_world s')) = cards (db (sp_world s)) \<and> idle (sp_world s') \<and> routable s'
      \<and> map e_id (event_log (db (sp_world s'))) = map e_id (event_log (db (sp_world s)))
      \<and> pending s' = filter (\<lambda>r. e_id r \<notin> e_id ` set rows) (pending s)"
proof (induction rows arbitrary: s)
  case Nil
  then show ?case by simp
next
  case (Cons row rows)
  have "route (codec e) row \<noteq> None"
    by (rule route_routable) (use Cons.prems(1,4) in \<open>auto simp: routable_def pending_def\<close>)
  from drain_row_progress [OF e Cons.prems(3) this Cons.prems(5)] obtain s1 n where
    one: "drain_row c row e s = (Dispatched, s1)" "db (sp_world s1) = marked row n (db (sp_world s))" "idle (sp_world s1)" by blast
  have p1: "pending s1 = filter (\<lambda>r. e_id r \<noteq> e_id row) (pending s)" by (rule pending_marked [OF one(2)])
  have "set rows \<subseteq> set (pending s1)" using Cons.prems(1,2) by (auto simp: p1 image_iff)
  moreover have "cards (db (sp_world s1)) = cards (db (sp_world s))" by (simp add: one(2) marked_def)
  ultimately obtain s' where
    s': "drain_rows c rows e s1 = (Some (length rows), s')" "cards (db (sp_world s')) = cards (db (sp_world s))" "idle (sp_world s')" "routable s'"
      "map e_id (event_log (db (sp_world s'))) = map e_id (event_log (db (sp_world s1)))"
      "pending s' = filter (\<lambda>r. e_id r \<notin> e_id ` set rows) (pending s1)"
    using Cons.IH [OF _ _ one(3) routable_marked [OF one(2) Cons.prems(4)]] Cons.prems(2,5) by (auto simp: indexable_def)
  have "pending s' = filter (\<lambda>r. e_id r \<notin> e_id ` set (row # rows)) (pending s)"
    unfolding s'(6) p1 filter_filter by (rule filter_cong) auto
  then show ?case using one(1,2) s' by simp
qed

lemma length_filter_removed:
  assumes "distinct (map f xs)" and "set ys \<subseteq> set xs" and "distinct (map f ys)"
  shows "length (filter (\<lambda>x. f x \<notin> f ` set ys) xs) = length xs - length ys"
proof -
  have "set (map f (filter (\<lambda>x. f x \<notin> f ` set ys) xs)) = set (map f xs) - set (map f ys)" by auto
  moreover have "distinct (map f (filter (\<lambda>x. f x \<notin> f ` set ys) xs))" using assms(1) by (simp add: distinct_map_filter)
  ultimately have "length (filter (\<lambda>x. f x \<notin> f ` set ys) xs) = card (set (map f xs) - set (map f ys))"
    by (metis distinct_card length_map)
  also have "\<dots> = card (set (map f xs)) - card (set (map f ys))"
    by (rule card_Diff_subset) (use assms(2) in auto)
  finally show ?thesis using assms(1,3) by (metis distinct_card length_map)
qed

lemma drain_once_progress:
  assumes e: "calm e" "always_acks (outside c)" and s: "idle (sp_world s)" "routable s"
    and ix: "indexable c s"
    and keys: "distinct (map e_id (event_log (db (sp_world s))))" and batch: "0 \<le> batch_size c"
  shows "\<exists>s'. drain_once c e s = (Drained (min (nat (batch_size c)) (length (pending s))), s') \<and> idle (sp_world s') \<and> routable s'
    \<and> indexable c s'
    \<and> map e_id (event_log (db (sp_world s'))) = map e_id (event_log (db (sp_world s)))
    \<and> length (pending s') = length (pending s) - nat (batch_size c)"
proof -
  let ?rows = "take (nat (batch_size c)) (undispatched e (db (sp_world s)))"
  have u: "set (undispatched e (db (sp_world s))) = set (pending s)" "length (undispatched e (db (sp_world s))) = length (pending s)"
    by (simp_all add: undispatched_def pending_def)
  define s1 where "s1 = s\<lparr>sp_world := tick (sp_world s)\<rparr>"
  have b: "on_world (stmt (batch_sql e (batch_size c))) e s = (Inr ?rows, s1)"
    using e(1) s(1) batch by (simp add: on_world_def stmt_def batch_sql_def idle_def s1_def)
  have s1: "pending s1 = pending s" "idle (sp_world s1)" "routable s1" "db (sp_world s1) = db (sp_world s)"
    using s by (simp_all add: s1_def pending_def routable_def)
  have sub: "set ?rows \<subseteq> set (pending s)" using set_take_subset u(1) by metis
  have dis: "distinct (map e_id ?rows)" by (rule distinct_batch [OF keys])
  obtain s' where s': "drain_rows c ?rows e s1 = (Some (length ?rows), s')" "idle (sp_world s')" "routable s'"
      "map e_id (event_log (db (sp_world s'))) = map e_id (event_log (db (sp_world s1)))"
      "pending s' = filter (\<lambda>r. e_id r \<notin> e_id ` set ?rows) (pending s1)"
      "cards (db (sp_world s')) = cards (db (sp_world s))"
    using drain_rows_progress [OF e _ dis s1(2,3)] sub s1(1,4) ix by (auto simp: indexable_def)
  have "distinct (map e_id (pending s))" unfolding pending_def using keys by (simp add: distinct_map_filter)
  then have "length (pending s') = length (pending s) - length ?rows"
    unfolding s'(5) s1(1) by (rule length_filter_removed [OF _ sub dis])
  moreover have "indexable c s'" using ix s'(6) by (simp add: indexable_def)
  ultimately show ?thesis using b s' s1(4) u(2) by (simp add: drain_once_def min.commute)
qed

text \<open>
  C15. Progress: while the database and the broker work, a pass dispatches as many rows as are pending, up to its
  batch size, and says how many; so after enough passes for the backlog nothing is pending.
\<close>

theorem backlog_drains:
  assumes "calm e" and "always_acks (outside c)" and "idle (sp_world s)" and "routable s" and "indexable c s"
    and "distinct (map e_id (event_log (db (sp_world s))))" and "0 < batch_size c"
  shows "fst (drain_once c e s) = Drained (min (nat (batch_size c)) (length (pending s)))
    \<and> length (pending (run_spine c (replicate k Pass) e s)) = length (pending s) - k * nat (batch_size c)"
proof
  show "fst (drain_once c e s) = Drained (min (nat (batch_size c)) (length (pending s)))"
    using drain_once_progress [OF assms(1-6)] assms(7) by fastforce
  show "length (pending (run_spine c (replicate k Pass) e s)) = length (pending s) - k * nat (batch_size c)"
    using assms(3-6)
  proof (induction k arbitrary: s)
    case 0
    then show ?case by simp
  next
    case (Suc k)
    from drain_once_progress [OF assms(1,2) Suc.prems] assms(7) obtain s' where
      "snd (drain_once c e s) = s'" "idle (sp_world s')" "routable s'" "indexable c s'"
      "map e_id (event_log (db (sp_world s'))) = map e_id (event_log (db (sp_world s)))"
      "length (pending s') = length (pending s) - nat (batch_size c)" by fastforce
    then show ?case using Suc.IH [of s'] Suc.prems(4) by simp
  qed
qed

definition pending_spine :: spine where
  "pending_spine = sample_spine\<lparr>sp_world := sample_world (sample_db\<lparr>cards := [], event_log := [\<lparr>e_id = sid 30, e_tenant = ''t'',
     e_board = Some (sid 2), e_aggregated = None, e_project = None, e_type = ''BoardRenamed'',
     e_payload = JObj [(''new_name'', JStr ''b'')], e_created = (0, 0), e_nats_seq = None\<rparr>]\<rparr>)\<rparr>"

theorem backlog_drains_witness:
  "fst (drain_once sample_dispatcher sample_env pending_spine) = Drained 1
   \<and> length (pending (run_spine sample_dispatcher (replicate 1 Pass) sample_env pending_spine)) = 0"
proof -
  have "always_acks (outside sample_dispatcher)"
    by (simp add: always_acks_def sample_dispatcher_def sample_backends_def)
  moreover have "idle (sp_world pending_spine)" "routable pending_spine" "indexable sample_dispatcher pending_spine" "batch_size sample_dispatcher = 100"
    "distinct (map e_id (event_log (db (sp_world pending_spine))))" "length (pending pending_spine) = 1"
    by (simp_all add: idle_def routable_def indexable_def pending_spine_def sample_dispatcher_def pending_def)
  ultimately show ?thesis
    using backlog_drains [OF sample_env_calm, of sample_dispatcher pending_spine 1] by (simp del: replicate.simps)
qed


end
