(* ===== verification/Event_Stream.thy ===== *)
theory Event_Stream
  imports Backlog
begin

text \<open>
  What the messages of the stream say, end to end: from the handler that logs an event, over the row of
  \<open>event_log\<close>, to the envelope the dispatcher publishes.
\<close>

section \<open>Envelopes\<close>

lemma json_u64_revision:
  "0 \<le> n \<Longrightarrow> n < 2 ^ 64 \<Longrightarrow> json_u64 (with_board_revision (JObj obj) n) ''board_revision'' = n"
  by (simp add: json_u64_def with_board_revision_def)

text \<open>The row stays in the log, but for its mark.\<close>

definition still_logged :: "event_row \<Rightarrow> db \<Rightarrow> bool" where
  "still_logged row d \<longleftrightarrow> (\<exists>x. row\<lparr>e_nats_seq := x\<rparr> \<in> set (event_log d))"

lemma still_logged_appended: "appended d d' \<Longrightarrow> still_logged row d \<Longrightarrow> still_logged row d'"
  by (auto simp: still_logged_def appended_def)

lemma still_logged_marked:
  assumes "still_logged row d"
  shows "still_logged row (marked q n d)"
proof -
  from assms obtain x where x: "row\<lparr>e_nats_seq := x\<rparr> \<in> set (event_log d)" by (auto simp: still_logged_def)
  then have "row\<lparr>e_nats_seq := if e_id row = e_id q then Some n else x\<rparr> \<in> set (event_log (marked q n d))"
    unfolding marked_log by (intro bexI [OF _ x]) simp
  then show ?thesis unfolding still_logged_def by blast
qed

lemma still_logged_delivery: "delivery u b x y \<Longrightarrow> still_logged row (fst x) \<Longrightarrow> still_logged row (fst y)"
  by (induction rule: delivery.induct) (simp_all add: still_logged_marked)

lemma run_spine_publishes:
  assumes "ulid_crate (codec e)" and "jetstream_documented (outside c)" and "well_formed (db (sp_world s))"
    and "delivered (codec e) (view s)" and "still_logged row (db (sp_world s))"
  shows "still_logged row (db (sp_world (run_spine c ops e s)))
    \<and> (marked_id (e_id row) (db (sp_world (run_spine c ops e s))) \<longrightarrow>
        (\<exists>m \<in> set (sp_stream (run_spine c ops e s)). message_of (codec e) row m))"
proof -
  let ?s = "run_spine c ops e s"
  have inv: "delivered (codec e) (view ?s)" and st: "still_logged row (db (sp_world ?s))"
    using run_spine_keeps [OF assms(1,2), of "\<lambda>x. still_logged row (fst x)" s ops] assms(3-5)
      still_logged_appended still_logged_delivery by fastforce+
  have "\<exists>m \<in> set (sp_stream ?s). message_of (codec e) row m" if marked: "marked_id (e_id row) (db (sp_world ?s))"
  proof -
    from st obtain x where x: "row\<lparr>e_nats_seq := x\<rparr> \<in> set (event_log (db (sp_world ?s)))" by (auto simp: still_logged_def)
    from marked obtain q where q: "q \<in> set (event_log (db (sp_world ?s)))" "e_id q = e_id row" "e_nats_seq q \<noteq> None"
      by (auto simp: marked_id_def)
    have "distinct (map e_id (event_log (db (sp_world ?s))))" using inv by (simp add: delivered_def)
    with x q(1,2) have "q = row\<lparr>e_nats_seq := x\<rparr>" by (auto dest: distinct_key)
    moreover obtain m where "m \<in> set (sp_stream ?s)" "message_of (codec e) q m" using q inv by (auto simp: delivered_def)
    ultimately show ?thesis by auto
  qed
  with st show ?thesis by blast
qed

lemma insert_board_event_row:
  assumes run: "insert_board_event t b ty (JObj obj) e w = (Inr u, w')" and now: "tx_now w = Some now"
    and r: "board_revision (db w) b = Some r" "0 \<le> r"
  obtains row where "event_log (db w') = event_log (db w) @ [row]" and "e_nats_seq row = None"
    and "board_revision (db w') b = Some (r + 1)" and "e_board row = Some b" and "e_aggregated row = None"
    and "json_u64 (e_payload row) ''board_revision'' = r + 1"
proof -
  from insert_board_event_emit [OF run now] obtain i where
    em: "emit_board b (i, t, ty, obj, now) (db w) = Some (db w')" by blast
  from em obtain x where x: "List.find (\<lambda>r. b_id r = b) (boards (db w)) = Some x" "i64_ok (b_revision x + 1)"
    "db w' = log_event i t (Some b) None None ty (JObj (obj_insert ''board_revision'' (JNum (b_revision x + 1)) obj)) now
       ((db w)\<lparr>boards := upd_rows (\<lambda>r. b_id r = b) (\<lambda>r. r\<lparr>b_revision := b_revision r + 1\<rparr>) (boards (db w))\<rparr>)"
    by (rule emit_board_cases)
  have rx: "b_revision x = r" using x(1) r(1) by (simp add: board_revision_def)
  have "board_revision (db w') b = Some (r + 1)"
    using emit_board_Some [OF em] r(1) by auto
  moreover have "json_u64 (JObj (obj_insert ''board_revision'' (JNum (r + 1)) obj)) ''board_revision'' = r + 1"
    using x(2) r(2) rx by (simp add: json_u64_def i64_ok_def)
  ultimately show thesis
    using that unfolding x(3) rx by (auto simp: log_event_def)
qed

text \<open>The message that tells subscribers of board b that event i took the board to revision n.\<close>

definition tells_revision :: "ulid_codec \<Rightarrow> ident \<Rightarrow> ident \<Rightarrow> int \<Rightarrow> message \<Rightarrow> bool" where
  "tells_revision u b i n m \<longleftrightarrow> ms_subject m = ''kanban.board.'' @ id_str u b @ ''.events'' \<and> ms_id m = Some (id_str u i)
     \<and> ev_board_id (ms_body m) = id_str u b \<and> ev_event_id (ms_body m) = id_str u i \<and> ev_board_revision (ms_body m) = n"

lemma message_tells_revision:
  "message_of u row m \<Longrightarrow> e_board row = Some b \<Longrightarrow> e_aggregated row = None \<Longrightarrow>
   json_u64 (e_payload row) ''board_revision'' = n \<Longrightarrow> tells_revision u b (e_id row) n m"
  by (auto simp: message_of_def route_def tells_revision_def board_subject_def)

text \<open>
  C11. A board event carries its revision to the stream. When a handler logs an event for a board at revision r, the
  log gains one row, and once the row is marked, whatever requests and passes of the dispatcher come between,
  the stream has a message to the board's subject that names the board and the event and has board revision r + 1.
  If database and broker work and the backlog fits a batch, the very next pass puts it there.
\<close>

theorem board_revision_published:
  assumes run: "insert_board_event t b ty (JObj obj) e w = (Inr u, w')" and now: "tx_now w = Some now"
    and r: "board_revision (db w) b = Some r" "0 \<le> r"
    and crate: "ulid_crate (codec e)" and js: "jetstream_documented (outside c)"
    and s: "db (sp_world s) = db w'" "well_formed (db w')" "delivered (codec e) (view s)"
  shows "\<exists>row. event_log (db w') = event_log (db w) @ [row] \<and> board_revision (db w') b = Some (r + 1)
    \<and> (marked_id (e_id row) (db (sp_world (run_spine c ops e s))) \<longrightarrow>
        (\<exists>m \<in> set (sp_stream (run_spine c ops e s)). tells_revision (codec e) b (e_id row) (r + 1) m))
    \<and> (calm e \<and> always_acks (outside c) \<and> idle (sp_world s) \<and> routable s \<and> indexable c s
         \<and> length (pending s) \<le> nat (batch_size c) \<longrightarrow>
        (\<exists>m \<in> set (sp_stream (snd (drain_once c e s))). tells_revision (codec e) b (e_id row) (r + 1) m))"
proof -
  from insert_board_event_row [OF run now r] obtain row where
    row: "event_log (db w') = event_log (db w) @ [row]" "e_nats_seq row = None" "board_revision (db w') b = Some (r + 1)"
      "e_board row = Some b" "e_aggregated row = None" "json_u64 (e_payload row) ''board_revision'' = r + 1" .
  have "row\<lparr>e_nats_seq := None\<rparr> = row" using row(2) by simp
  then have st: "still_logged row (db (sp_world s))"
    unfolding still_logged_def s(1) row(1) by (intro exI [of _ None]) simp
  have wf: "well_formed (db (sp_world s))" using s by simp
  note pub = run_spine_publishes [OF crate js wf s(3) st]
  have one: "\<exists>m \<in> set (sp_stream (run_spine c ops e s)). tells_revision (codec e) b (e_id row) (r + 1) m"
    if "marked_id (e_id row) (db (sp_world (run_spine c ops e s)))" for ops
    using pub [of ops] that message_tells_revision [OF _ row(4-6)] by blast
  have "\<exists>m \<in> set (sp_stream (snd (drain_once c e s))). tells_revision (codec e) b (e_id row) (r + 1) m"
    if live: "calm e" "always_acks (outside c)" "idle (sp_world s)" "routable s" "indexable c s"
      and fits: "length (pending s) \<le> nat (batch_size c)"
  proof -
    have keys: "distinct (map e_id (event_log (db (sp_world s))))" using s(3) by (simp add: delivered_def)
    have "row \<in> set (pending s)" using row(1,2) s(1) by (simp add: pending_def)
    then have "0 \<le> batch_size c" using fits by (cases "pending s") auto
    from drain_once_progress [OF live keys this] fits obtain s' where
      s': "snd (drain_once c e s) = s'" "length (pending s') = 0" by fastforce
    have sp: "run_spine c [Pass] e s = s'" using s'(1) by simp
    from pub [of "[Pass]"] obtain x where x: "row\<lparr>e_nats_seq := x\<rparr> \<in> set (event_log (db (sp_world s')))"
      unfolding sp still_logged_def by blast
    with s'(2) have "x \<noteq> None" by (auto simp: pending_def filter_empty_conv)
    then have "marked_id (e_id row) (db (sp_world s'))"
      unfolding marked_id_def by (intro bexI [OF _ x]) simp
    then show ?thesis using one [of "[Pass]"] unfolding sp s'(1) by blast
  qed
  then show ?thesis using row(1,3) one by blast
qed

definition in_transaction :: "world \<Rightarrow> world" where
  "in_transaction w = w\<lparr>tx_now := Some (0, 0)\<rparr>"

lemma sample_event_runs:
  "\<exists>w'. insert_board_event ''t'' (sid 2) ''BoardRenamed'' (JObj []) sample_env (in_transaction (sample_world sample_db)) = (Inr (), w')"
  by (simp add: evals sample_evals event_evals in_transaction_def)

theorem board_revision_published_witness:
  "\<exists>w' row. insert_board_event ''t'' (sid 2) ''BoardRenamed'' (JObj []) sample_env (in_transaction (sample_world sample_db)) = (Inr (), w')
     \<and> event_log (db w') = [row]
     \<and> (\<exists>m \<in> set (sp_stream (snd (drain_once (sample_dispatcher\<lparr>opensearch := False\<rparr>) sample_env
            (sample_spine\<lparr>sp_world := sample_world (db w')\<rparr>)))). tells_revision crockford (sid 2) (e_id row) 1 m)"
proof -
  let ?c = "sample_dispatcher\<lparr>opensearch := False\<rparr>"
  let ?w = "in_transaction (sample_world sample_db)"
  obtain w' where run: "insert_board_event ''t'' (sid 2) ''BoardRenamed'' (JObj []) sample_env ?w = (Inr (), w')"
    using sample_event_runs by blast
  let ?s = "sample_spine\<lparr>sp_world := sample_world (db w')\<rparr>"
  have now: "tx_now ?w = Some (0, 0)" and rev: "board_revision (db ?w) (sid 2) = Some 0" and log: "event_log (db ?w) = []"
    by (simp_all add: in_transaction_def board_revision_def sample_db_def sample_board_def empty_db_def)
  from insert_board_event_row [OF run now rev] log obtain row where
    row: "event_log (db w') = [row]" "e_nats_seq row = None" "e_board row = Some (sid 2)" by auto
  have wf: "well_formed (db w')"
    using well_formed_emitted [OF _ conjunct1 [OF insert_board_event_emit [OF run now]]] sample_well_formed
    by (simp add: in_transaction_def)
  have "ulid_crate (codec sample_env)" by (simp add: crockford.ulid_crate_axioms)
  moreover have "jetstream_documented (outside ?c)" "always_acks (outside ?c)" "indexable ?c ?s" "batch_size ?c = 100"
    using sample_documented by (simp_all add: always_acks_def sample_dispatcher_def sample_backends_def indexable_def)
  moreover have "db (sp_world ?s) = db w'" "delivered (codec sample_env) (view ?s)" "idle (sp_world ?s)" "routable ?s"
    "length (pending ?s) = 1"
    using row by (simp_all add: delivered_def sample_spine_def idle_def routable_def pending_def)
  ultimately show ?thesis
    using board_revision_published [OF run now rev _ _ _ _ wf, of ?c ?s "[]"] run row(1) sample_env_calm log by auto
qed

section \<open>Patches\<close>

lemma map_of_filtered:
  "distinct (map fst obj) \<Longrightarrow> fst ` set obj \<inter> fst ` set m = {} \<Longrightarrow>
   map_of (foldl (\<lambda>m (k, v). if \<not> is_unchanged_sentinel v then obj_insert k v m else m) m obj) k
   = (case map_of obj k of Some v \<Rightarrow> if is_unchanged_sentinel v then map_of m k else Some v | None \<Rightarrow> map_of m k)"
proof (induction obj arbitrary: m)
  case Nil
  then show ?case by simp
next
  case (Cons x obj)
  obtain l v where x: "x = (l, v)" by (cases x)
  have keys: "fst ` set (obj_insert l v m) = insert l (fst ` set m)"
    by (induction l v m rule: obj_insert.induct) auto
  have "map_of m l = None" using Cons.prems(2) by (simp add: x map_of_eq_None_iff)
  moreover have "map_of obj l = None" using Cons.prems(1) by (simp add: x map_of_eq_None_iff)
  ultimately show ?case
    using Cons.IH [of m] Cons.IH [of "obj_insert l v m"] Cons.prems keys
    by (auto simp: x split: option.splits)
qed

lemma map_of_patch_struct:
  assumes "distinct (map fst obj)"
  shows "map_of (build_patch_struct (Some (JObj obj)) n) k =
    (if k = ''revision'' then Some (JNum n)
     else case map_of obj k of Some v \<Rightarrow> if is_unchanged_sentinel v then None else Some v | None \<Rightarrow> None)"
  using map_of_filtered [OF assms, of "[]"] by (simp add: build_patch_struct_def split: option.splits)

definition published_patch :: "ulid_codec \<Rightarrow> update_card_request \<Rightarrow> card_patch \<Rightarrow> ident \<Rightarrow> int \<Rightarrow> int \<Rightarrow> bool \<Rightarrow> string \<Rightarrow> json option" where
  "published_patch u req p cid prev new cleared =
     map_of (build_patch_struct (json_get (JObj (updated_payload u req p cid prev new cleared)) ''patch'') new)"

lemma enum_sentinel:
  "is_unchanged_sentinel (enum_json CARD_PRIORITY v) \<longleftrightarrow> v = 0"
  "is_unchanged_sentinel (enum_json CARD_URGENCY v) \<longleftrightarrow> v = 0"
proof -
  have five: "v = 0 \<or> v = 1 \<or> v = 2 \<or> v = 3 \<or> v = 4 \<or> v < 0 \<or> 5 \<le> v" by arith
  have "is_unchanged_sentinel (enum_json CARD_PRIORITY 0) \<and> is_unchanged_sentinel (enum_json CARD_URGENCY 0)
    \<and> list_all (\<lambda>v. \<not> is_unchanged_sentinel (enum_json CARD_PRIORITY v) \<and> \<not> is_unchanged_sentinel (enum_json CARD_URGENCY v)) [1, 2, 3, 4]"
    by code_simp
  then show "is_unchanged_sentinel (enum_json CARD_PRIORITY v) \<longleftrightarrow> v = 0" "is_unchanged_sentinel (enum_json CARD_URGENCY v) \<longleftrightarrow> v = 0"
    using five by (auto simp: enum_json_def CARD_PRIORITY_def CARD_URGENCY_def)
qed

text \<open>
  What subscribers learn of UpdateCard: the patch of the published event has the new revision, and a
  text or an enum field exactly if the request sets it (to a text that is not one of the sentinels), with the value that
  the row then has. It always has the request's \<open>blocked\<close> flag, also where the row keeps its own.
\<close>

theorem update_event_patch:
  "published_patch u req p cid prev new cleared ''revision'' = Some (JNum new)
   \<and> published_patch u req p cid prev new cleared ''title''
      = (if pt_title p = '''' \<or> ends_with (pt_title p) ''_UNSPECIFIED'' then None
         else Some (JStr (c_title (apply_patch p due ba m now c))))
   \<and> published_patch u req p cid prev new cleared ''description''
      = (if pt_description p = '''' \<or> ends_with (pt_description p) ''_UNSPECIFIED'' then None
         else map_option JStr (c_description (apply_patch p due ba m now c)))
   \<and> published_patch u req p cid prev new cleared ''cover''
      = (if pt_cover p = '''' \<or> ends_with (pt_cover p) ''_UNSPECIFIED'' then None
         else map_option JStr (c_cover (apply_patch p due ba m now c)))
   \<and> (published_patch u req p cid prev new cleared ''priority'' = None) = (pt_priority p = 0)
   \<and> (published_patch u req p cid prev new cleared ''urgency'' = None) = (pt_urgency p = 0)
   \<and> published_patch u req p cid prev new cleared ''blocked'' = Some (JBool (pt_blocked p))
   \<and> c_blocked (apply_patch p due (pt_blocked p \<or> mask_has req ''blocked'') m now c)
      = (if pt_blocked p \<or> mask_has req ''blocked'' then pt_blocked p else c_blocked c)"
proof -
  let ?obj = "[jstr ''title'' (pt_title p), jstr ''description'' (pt_description p),
         (''priority'', enum_json CARD_PRIORITY (pt_priority p)),
         (''urgency'', enum_json CARD_URGENCY (pt_urgency p)),
         (''blocked'', JBool (pt_blocked p)), jstr ''cover'' (pt_cover p),
         jstr ''milestone_id'' (pt_milestone_id p), (''milestone_cleared'', JBool cleared)]"
  have "distinct (map fst ?obj)" by (simp add: jstr_def)
  note patch = map_of_patch_struct [OF this]
  have get: "json_get (JObj (updated_payload u req p cid prev new cleared)) ''patch'' = Some (JObj ?obj)"
    by (simp add: updated_payload_def jstr_def jnum_def)
  show ?thesis
    unfolding published_patch_def get patch
    by (simp add: jstr_def enum_sentinel apply_patch_def)
qed

end
