(* ===== verification/Columns.thy ===== *)
theory Columns
  imports Boards
begin

text \<open>
  \<open>src/services/boards.rs\<close>, lines 1132 to 1618: AddColumn, UpdateColumn, RemoveColumn and MoveColumn.
\<close>

section \<open>AddColumn\<close>

record add_column_request =
  nc_title :: string
  nc_accent :: string
  nc_wip_limit :: int
  nc_position :: int
  nc_is_done :: bool
  nc_idempotency_key :: string

definition new_column_row :: "add_column_request \<Rightarrow> ident \<Rightarrow> string \<Rightarrow> ident \<Rightarrow> datetime \<Rightarrow> int \<Rightarrow> column_row" where
  "new_column_row req col tenant bid now pos =
     \<lparr>k_id = col, k_tenant = tenant, k_board = bid, k_is_done = nc_is_done req, k_title = nc_title req,
      k_position = pos, k_accent = text_opt (nc_accent req),
      k_wip = (if nc_wip_limit req = 0 then None else Some (nc_wip_limit req)), k_created = now, k_updated = now\<rparr>"

definition add_column_tx :: "add_column_request \<Rightarrow> ident \<Rightarrow> string \<Rightarrow> ident \<Rightarrow> (cerr, column_msg) act" where
  "add_column_tx req col tenant bid =
     bnd (if nc_position req = 0
          then internal ''failed to insert column''
                 (stmt (append_column_sql (new_column_row req col tenant bid) bid))
          else internal ''failed to insert column at position''
                 (stmt (insert_column_sql (new_column_row req col tenant bid) bid (nc_position req)))) (\<lambda>row.
     bnd (ask codec) (\<lambda>u.
     let column = column_from_row u row in
     bnd (insert_board_event tenant bid ''ColumnAdded''
           (JObj [(''column'', event_column_json column), jnum ''position'' (km_position column)])) (\<lambda>_.
     ret column)))"

definition cached_column :: "string \<Rightarrow> string \<Rightarrow> (cerr, column_msg option) act" where
  "cached_column tenant key =
     bnd (check_idempotency_card tenant key) (\<lambda>cached. case cached of
         None \<Rightarrow> ret None
       | Some col \<Rightarrow>
           bnd (internal ''failed to fetch cached column'' (select (find_column col tenant))) (\<lambda>row.
           bnd (ask codec) (\<lambda>u.
           ret (map_option (column_from_row u) row))))"

definition add_column :: "request_context \<Rightarrow> add_column_request \<Rightarrow> (cerr, column_msg) act" where
  "add_column ctx req =
     bnd (checked_object_id ctx) (\<lambda>object_id.
     bnd (parse_id ''invalid board_id'' object_id) (\<lambda>board_id.
     bnd (tenant_id_from_request ctx) (\<lambda>tenant.
     bnd (require (nc_title req \<noteq> '''') (InvalidArgument, ''title is required'')) (\<lambda>_.
     bnd (cached_column tenant (nc_idempotency_key req)) (\<lambda>cached.
     case cached of
       Some m \<Rightarrow> ret m
     | None \<Rightarrow>
         bnd new_id (\<lambda>column_id.
         bnd (in_tx (add_column_tx req column_id tenant board_id)) (\<lambda>column.
         bnd (store_idempotency_card tenant (nc_idempotency_key req) column_id) (\<lambda>_.
         ret column))))))))"

section \<open>UpdateColumn\<close>

record column_patch =
  kp_title :: string
  kp_accent :: string
  kp_wip_limit :: int
  kp_is_done :: bool

definition apply_column_patch :: "column_patch \<Rightarrow> bool \<Rightarrow> datetime \<Rightarrow> column_row \<Rightarrow> column_row" where
  "apply_column_patch p is_done_apply now k = k\<lparr>
     k_title := (if kp_title p \<noteq> '''' then kp_title p else k_title k),
     k_accent := (if kp_accent p \<noteq> '''' then Some (kp_accent p) else k_accent k),
     k_wip := (if kp_wip_limit p \<noteq> 0 then Some (kp_wip_limit p) else k_wip k),
     k_is_done := (if is_done_apply then kp_is_done p else k_is_done k),
     k_updated := now\<rparr>"

definition update_column_tx :: "string \<Rightarrow> ident \<Rightarrow> ident \<Rightarrow> column_patch \<Rightarrow> bool \<Rightarrow> (cerr, column_msg) act" where
  "update_column_tx tenant bid col p is_done_apply =
     bnd (internal ''failed to update column'' (stmt (update_column_sql col bid tenant (apply_column_patch p is_done_apply)))) (\<lambda>r.
     bnd (ok_or (NotFound, ''column not found on this board'') r) (\<lambda>row.
     bnd (ask codec) (\<lambda>u.
     let column = column_from_row u row in
     bnd (insert_board_event tenant bid ''ColumnUpdated'' (JObj [(''column'', event_column_json column)])) (\<lambda>_.
     ret column))))"

definition update_column ::
  "request_context \<Rightarrow> string \<Rightarrow> column_patch option \<Rightarrow> string list option \<Rightarrow> (cerr, column_msg) act" where
  "update_column ctx column_id column update_mask =
     bnd (tenant_id_from_request ctx) (\<lambda>tenant.
     bnd (checked_object_id ctx) (\<lambda>object_id.
     bnd (parse_id ''invalid board_id'' object_id) (\<lambda>board_id.
     bnd (parse_id ''invalid column_id'' column_id) (\<lambda>col_id.
     let patch = (case column of Some p \<Rightarrow> p
                  | None \<Rightarrow> \<lparr>kp_title = '''', kp_accent = '''', kp_wip_limit = 0, kp_is_done = False\<rparr>);
         is_done_apply = (case update_mask of Some paths \<Rightarrow> ''is_done'' \<in> set paths | None \<Rightarrow> False) in
     in_tx (update_column_tx tenant board_id col_id patch is_done_apply)))))"

section \<open>RemoveColumn\<close>

definition remove_column_tx :: "string \<Rightarrow> ident \<Rightarrow> ident \<Rightarrow> (cerr, unit) act" where
  "remove_column_tx tenant bid col =
     bnd (internal ''failed to verify column ownership''
           (select (\<lambda>d. \<exists>k \<in> set (columns d). column_key col bid tenant k))) (\<lambda>exists.
     bnd (require exists (NotFound, ''column not found on this board'')) (\<lambda>_.
     bnd (internal ''failed to delete column'' (stmt (delete_column_sql col bid tenant))) (\<lambda>n.
     bnd (require (n \<noteq> 0) (NotFound, ''column not found'')) (\<lambda>_.
     bnd (attempt (exec (gap_fill_sql bid tenant))) (\<lambda>_.
     bnd (ask codec) (\<lambda>u.
     insert_board_event tenant bid ''ColumnRemoved''
       (JObj [jstr ''column_id'' (id_str u col), jstr ''move_cards_to_column'' '''']))))))) "

definition remove_column :: "request_context \<Rightarrow> string \<Rightarrow> (cerr, unit) act" where
  "remove_column ctx column_id =
     bnd (tenant_id_from_request ctx) (\<lambda>tenant.
     bnd (checked_object_id ctx) (\<lambda>object_id.
     bnd (parse_id ''invalid board_id'' object_id) (\<lambda>board_id.
     bnd (parse_id ''invalid column_id'' column_id) (\<lambda>col_id.
     in_tx (remove_column_tx tenant board_id col_id)))))"

section \<open>MoveColumn\<close>

definition tenant_column :: "ident \<Rightarrow> string \<Rightarrow> column_row \<Rightarrow> bool" where
  "tenant_column bid tenant k \<longleftrightarrow> k_board k = bid \<and> k_tenant k = tenant"

definition reorder_columns :: "string \<Rightarrow> ident \<Rightarrow> ident \<Rightarrow> int \<Rightarrow> int \<Rightarrow> (cerr, unit) act" where
  "reorder_columns tenant bid col current_pos target_pos =
     (if current_pos = target_pos then ret ()
      else
        bnd (if current_pos < target_pos
             then internal ''failed to shift columns (forward move)''
                    (exec (shift_columns (\<lambda>k. tenant_column bid tenant k \<and> current_pos < k_position k \<and> k_position k \<le> target_pos) (- 1)))
             else internal ''failed to shift columns (backward move)''
                    (exec (shift_columns (\<lambda>k. tenant_column bid tenant k \<and> target_pos \<le> k_position k \<and> k_position k < current_pos) 1))) (\<lambda>_.
        internal ''failed to place moved column'' (exec (place_column_sql col tenant target_pos))))"

definition move_column_tx :: "string \<Rightarrow> ident \<Rightarrow> ident \<Rightarrow> int \<Rightarrow> (cerr, column_msg list) act" where
  "move_column_tx tenant bid col target_pos =
     bnd (internal ''failed to fetch column position''
           (select (\<lambda>d. List.find (column_key col bid tenant) (columns d)))) (\<lambda>r.
     bnd (ok_or (NotFound, ''column not found on this board'') r) (\<lambda>k.
     bnd (reorder_columns tenant bid col (k_position k) target_pos) (\<lambda>_.
     bnd (internal ''failed to fetch columns''
           (select (\<lambda>d. by_position (filter (tenant_column bid tenant) (columns d))))) (\<lambda>rows.
     bnd (ask codec) (\<lambda>u.
     let cols = map (column_from_row u) rows in
     bnd (insert_board_event tenant bid ''ColumnsReordered''
           (JObj [(''columns'', JArr (map event_column_json cols))])) (\<lambda>_.
     ret cols))))))"

definition move_column :: "request_context \<Rightarrow> string \<Rightarrow> int \<Rightarrow> (cerr, column_msg list) act" where
  "move_column ctx column_id to_position =
     bnd (tenant_id_from_request ctx) (\<lambda>tenant.
     bnd (checked_object_id ctx) (\<lambda>object_id.
     bnd (parse_id ''invalid board_id'' object_id) (\<lambda>board_id.
     bnd (parse_id ''invalid column_id'' column_id) (\<lambda>col_id.
     bnd (require (1 \<le> to_position) (InvalidArgument, ''to_position must be >= 1'')) (\<lambda>_.
     in_tx (move_column_tx tenant board_id col_id (to_position - 1)))))))"

end
