(* ===== verification/Column_Order.thy ===== *)
theory Column_Order
  imports Columns Card_Service
begin

text \<open>
  The order of a board's columns: what the column handlers do to it, against the obvious operations on
  a list. The database holds positions; the order is the list of the board's columns by position.
\<close>

section \<open>Order and invariant\<close>

definition shown :: "string \<Rightarrow> ident \<Rightarrow> db \<Rightarrow> column_row list" where
  "shown t b d = by_position (filter (tenant_column b t) (columns d))"

definition column_order :: "string \<Rightarrow> ident \<Rightarrow> db \<Rightarrow> ident list" where
  "column_order t b d = map k_id (shown t b d)"

definition column_slot :: "column_row \<Rightarrow> string \<times> ident \<times> int" where
  "column_slot k = (k_tenant k, k_board k, k_position k)"

definition columns_ok :: "db \<Rightarrow> bool" where
  "columns_ok d \<longleftrightarrow> distinct (map k_id (columns d)) \<and> distinct (map column_slot (columns d))"

text \<open>The positions are 0, 1, 2 and so on without a gap.\<close>

definition contiguous :: "string \<Rightarrow> ident \<Rightarrow> db \<Rightarrow> bool" where
  "contiguous t b d \<longleftrightarrow> map k_position (shown t b d) = map int [0..<length (shown t b d)]"

abbreviation ascending :: "column_row list \<Rightarrow> bool" where
  "ascending \<equiv> sorted_wrt (\<lambda>a b. k_position a < k_position b)"

lemma by_position_sorted: "sorted (map k_position (by_position ks))"
  unfolding by_position_def sorted_map by (rule sorted_sort_rows) auto

lemma set_by_position [simp]: "set (by_position ks) = set ks"
  by (simp add: by_position_def)

lemma distinct_by_position [simp]: "distinct (map f (by_position ks)) = distinct (map f ks)"
  by (simp add: by_position_def)

lemma ascending_iff: "ascending ks \<longleftrightarrow> sorted (map k_position ks) \<and> distinct (map k_position ks)"
  by (induction ks) (auto simp: less_le)

lemma by_position_eq:
  assumes "ascending ls" and "set ls = set ks" and "distinct (map k_position ks)"
  shows "by_position ks = ls"
proof (rule map_inj_on)
  show "map k_position (by_position ks) = map k_position ls"
    by (rule sorted_distinct_set_unique) (use assms by_position_sorted in \<open>auto simp: ascending_iff\<close>)
  show "inj_on k_position (set (by_position ks) \<union> set ls)"
    using assms(2,3) by (simp add: distinct_map)
qed

lemma ascending_shown:
  assumes "columns_ok d"
  shows "ascending (shown t b d)"
proof -
  have "distinct (map column_slot (filter (tenant_column b t) (columns d)))"
    using assms by (simp add: columns_ok_def distinct_map_filter)
  moreover have "map column_slot ks = map (\<lambda>p. (t, b, p)) (map k_position ks)" if "\<forall>k \<in> set ks. tenant_column b t k" for ks
    using that by (induction ks) (auto simp: column_slot_def tenant_column_def)
  ultimately have "distinct (map k_position (filter (tenant_column b t) (columns d)))"
    by (simp add: distinct_map inj_on_def) 
  then show ?thesis by (simp add: ascending_iff shown_def by_position_sorted)
qed

lemma shown_eqI:
  assumes "ascending ls" and "set ls = {k \<in> set (columns d). tenant_column b t k}"
    and "columns_ok d"
  shows "shown t b d = ls"
proof -
  have "distinct (map k_position (filter (tenant_column b t) (columns d)))"
    using ascending_shown [OF assms(3), of t b] by (simp add: ascending_iff shown_def)
  then show ?thesis
    unfolding shown_def using assms(1,2) by (intro by_position_eq) auto
qed

lemma columns_okI:
  assumes "map k_id (columns d') = map k_id (columns d)" and "columns_ok d"
    and "\<And>x y. x \<in> set (columns d') \<Longrightarrow> y \<in> set (columns d') \<Longrightarrow> column_slot x = column_slot y \<Longrightarrow> x = y"
  shows "columns_ok d'"
proof -
  have "distinct (map k_id (columns d'))" using assms(1,2) by (simp add: columns_ok_def)
  moreover from this have "distinct (columns d')" by (rule distinct_map [THEN iffD1, THEN conjunct1])
  ultimately show ?thesis using assms(3) by (auto simp: columns_ok_def distinct_map inj_on_def)
qed


section \<open>MoveColumn\<close>

definition moved_position :: "int \<Rightarrow> int \<Rightarrow> int \<Rightarrow> int" where
  "moved_position cur tgt p =
     (if p = cur then tgt else if cur < p \<and> p \<le> tgt then p - 1 else if tgt \<le> p \<and> p < cur then p + 1 else p)"

lemma moved_position_mono:
  "p \<noteq> cur \<Longrightarrow> q \<noteq> cur \<Longrightarrow> p < q \<Longrightarrow> moved_position cur tgt p < moved_position cur tgt q"
  by (auto simp: moved_position_def)

lemma moved_position_inject: "moved_position cur tgt p = moved_position cur tgt q \<longleftrightarrow> p = q"
  by (auto simp: moved_position_def split: if_splits)

text \<open>The effect on the rows: their new positions, whatever becomes of the update times.\<close>

definition column_moved :: "string \<Rightarrow> ident \<Rightarrow> int \<Rightarrow> int \<Rightarrow> db \<Rightarrow> db \<Rightarrow> bool" where
  "column_moved t b cur tgt d d' \<longleftrightarrow> (\<exists>g. columns d' = map g (columns d) \<and>
     (\<forall>k \<in> set (columns d). if tenant_column b t k
        then \<exists>u. g k = k\<lparr>k_position := moved_position cur tgt (k_position k), k_updated := u\<rparr>
        else g k = k))"

lemma columns_key:
  "columns_ok d \<Longrightarrow> x \<in> set (columns d) \<Longrightarrow> y \<in> set (columns d) \<Longrightarrow> k_id x = k_id y \<Longrightarrow> x = y"
  by (auto simp: columns_ok_def dest: distinct_key)

lemma columns_place:
  "columns_ok d \<Longrightarrow> x \<in> set (columns d) \<Longrightarrow> y \<in> set (columns d) \<Longrightarrow> tenant_column b t x \<Longrightarrow> tenant_column b t y \<Longrightarrow>
   k_position x = k_position y \<Longrightarrow> x = y"
  using distinct_key [of column_slot "columns d" x y] by (auto simp: columns_ok_def column_slot_def tenant_column_def)

lemma column_updated_same: "\<exists>u. k = k\<lparr>k_updated := u\<rparr>" for k :: column_row
  by (rule exI [of _ "k_updated k"]) simp

lemma reorder_columns_effect:
  assumes run: "reorder_columns t b col cur tgt e w = (Inr u, w')"
    and k: "k \<in> set (columns (db w))" "column_key col b t k" "k_position k = cur" and ok: "columns_ok (db w)"
  shows "column_moved t b cur tgt (db w) (db w')"
proof (cases "cur = tgt")
  case True
  then have "db w' = db w" using run by (simp add: reorder_columns_def ok_iffs)
  moreover have "moved_position cur tgt p = p" for p using True by (simp add: moved_position_def)
  ultimately show ?thesis
    unfolding column_moved_def
    by (intro exI [of _ "\<lambda>k. k"]) (auto simp: column_updated_same simp del: split_paired_Ex)
next
  case False
  define S where "S x \<longleftrightarrow> tenant_column b t x \<and>
    (if cur < tgt then cur < k_position x \<and> k_position x \<le> tgt else tgt \<le> k_position x \<and> k_position x < cur)" for x
  define s :: int where "s = (if cur < tgt then - 1 else 1)"
  define g where "g n1 n2 x = (let y = (if S x then x\<lparr>k_position := k_position x + s, k_updated := n1\<rparr> else x) in
    if k_id y = col \<and> k_tenant y = t then y\<lparr>k_position := tgt, k_updated := n2\<rparr> else y)" for n1 n2 x
  have "S = (if cur < tgt then (\<lambda>k. tenant_column b t k \<and> cur < k_position k \<and> k_position k \<le> tgt)
      else (\<lambda>k. tenant_column b t k \<and> tgt \<le> k_position k \<and> k_position k < cur))"
    by (simp add: fun_eq_iff S_def)
  then have step: "reorder_columns t b col cur tgt = bnd (internal (if cur < tgt then ''failed to shift columns (forward move)''
      else ''failed to shift columns (backward move)'') (exec (shift_columns S s))) (\<lambda>_.
      internal ''failed to place moved column'' (exec (place_column_sql col t tgt)))"
    using False by (simp add: reorder_columns_def s_def)
  obtain n1 n2 d1 where sql: "shift_columns S s n1 (db w) = Some d1" "place_column_sql col t tgt n2 d1 = Some (db w')"
    using run unfolding step ok_iffs by (elim exE conjE) simp
  have "columns d1 = upd_rows S (\<lambda>c. c\<lparr>k_position := k_position c + s, k_updated := n1\<rparr>) (columns (db w))"
    using sql(1) by (auto simp: shift_columns_def split: if_split_asm)
  moreover have "columns (db w') = upd_rows (\<lambda>k. k_id k = col \<and> k_tenant k = t)
      (\<lambda>k. k\<lparr>k_position := tgt, k_updated := n2\<rparr>) (columns d1)"
  proof -
    have "db w' = d1\<lparr>columns := upd_rows (\<lambda>k. k_id k = col \<and> k_tenant k = t)
      (\<lambda>k. k\<lparr>k_position := tgt, k_updated := n2\<rparr>) (columns d1)\<rparr>"
      using sql(2) by (simp add: place_column_sql_def)
    then show ?thesis by simp
  qed
  ultimately have cols: "columns (db w') = map (g n1 n2) (columns (db w))"
    by (simp add: upd_rows_def g_def [abs_def] Let_def)
  have "if tenant_column b t x then \<exists>u. g n1 n2 x = x\<lparr>k_position := moved_position cur tgt (k_position x), k_updated := u\<rparr>
      else g n1 n2 x = x" if x: "x \<in> set (columns (db w))" for x
  proof (cases "x = k")
    case True
    then have "g n1 n2 x = x\<lparr>k_position := tgt, k_updated := n2\<rparr>"
      using k(2,3) by (simp add: g_def S_def column_key_def)
    then show ?thesis using True k(2,3) by (auto simp: tenant_column_def column_key_def moved_position_def simp del: split_paired_Ex)
  next
    case False
    then have "k_id x \<noteq> col" using columns_key [OF ok x k(1)] k(2) by (auto simp: column_key_def)
    then have gx: "g n1 n2 x = (if S x then x\<lparr>k_position := k_position x + s, k_updated := n1\<rparr> else x)"
      by (simp add: g_def Let_def)
    have "k_position x \<noteq> cur" if "tenant_column b t x"
      using columns_place [OF ok x k(1) that] k False by (auto simp: tenant_column_def column_key_def)
    then have mp: "tenant_column b t x \<Longrightarrow> moved_position cur tgt (k_position x) = (if S x then k_position x + s else k_position x)"
      using \<open>cur \<noteq> tgt\<close> by (simp add: S_def s_def moved_position_def)
    show ?thesis
    proof (cases "S x")
      case True
      then have "tenant_column b t x" by (simp add: S_def)
      with True mp show ?thesis unfolding gx by (auto simp del: split_paired_Ex)
    next
      case False
      then show ?thesis unfolding gx using mp by (auto simp: column_updated_same simp del: split_paired_Ex)
    qed
  qed
  then show ?thesis unfolding column_moved_def using cols by blast
qed

lemma column_moved_ok:
  assumes ok: "columns_ok d" and mv: "column_moved t b cur tgt d d'"
  shows "columns_ok d'"
proof -
  from mv obtain g where g: "columns d' = map g (columns d)"
    "\<And>k. k \<in> set (columns d) \<Longrightarrow> if tenant_column b t k
        then \<exists>u. g k = k\<lparr>k_position := moved_position cur tgt (k_position k), k_updated := u\<rparr> else g k = k"
    unfolding column_moved_def by blast
  have slot: "column_slot (g k) = (if tenant_column b t k then (t, b, moved_position cur tgt (k_position k)) else column_slot k)
      \<and> k_id (g k) = k_id k" if "k \<in> set (columns d)" for k
    using g(2) [OF that] by (auto simp: column_slot_def tenant_column_def split: if_splits)
  show ?thesis
  proof (rule columns_okI [OF _ ok])
    show "map k_id (columns d') = map k_id (columns d)" using g(1) slot by simp
    fix x y
    assume "x \<in> set (columns d')" "y \<in> set (columns d')" and eq: "column_slot x = column_slot y"
    then obtain p q where pq: "p \<in> set (columns d)" "q \<in> set (columns d)" "x = g p" "y = g q" using g(1) by auto
    then have "column_slot p = column_slot q"
      using eq slot [of p] slot [of q]
      by (auto simp: column_slot_def tenant_column_def moved_position_inject split: if_splits)
    then have "p = q" using ok pq(1,2) by (auto simp: columns_ok_def dest: distinct_key)
    then show "x = y" using pq by simp
  qed
qed

lemma ascending_filter: "ascending ks \<Longrightarrow> ascending (filter P ks)"
  by (rule sorted_wrt_filter)

text \<open>The columns that end up to the left of the moved one.\<close>

definition left_of :: "int \<Rightarrow> int \<Rightarrow> column_row \<Rightarrow> bool" where
  "left_of cur tgt x \<longleftrightarrow> k_position x < tgt \<or> (cur < tgt \<and> k_position x = tgt)"

lemma column_moved_order:
  assumes ok: "columns_ok d" and mv: "column_moved t b cur tgt d d'"
    and k: "k \<in> set (columns d)" "tenant_column b t k" "k_position k = cur"
  defines "others \<equiv> filter (\<lambda>x. k_id x \<noteq> k_id k) (shown t b d)"
  shows "column_order t b d' = map k_id (filter (left_of cur tgt) others) @ [k_id k]
    @ map k_id (filter (\<lambda>x. \<not> left_of cur tgt x) others)"
    and "map k_position (shown t b d') = map (moved_position cur tgt \<circ> k_position) (filter (left_of cur tgt) others) @ [tgt]
    @ map (moved_position cur tgt \<circ> k_position) (filter (\<lambda>x. \<not> left_of cur tgt x) others)"
proof -
  from mv obtain g where g: "columns d' = map g (columns d)"
    "\<And>x. x \<in> set (columns d) \<Longrightarrow> if tenant_column b t x
        then \<exists>u. g x = x\<lparr>k_position := moved_position cur tgt (k_position x), k_updated := u\<rparr> else g x = x"
    unfolding column_moved_def by blast
  have gx: "k_id (g x) = k_id x \<and> tenant_column b t (g x) = tenant_column b t x
      \<and> (tenant_column b t x \<longrightarrow> k_position (g x) = moved_position cur tgt (k_position x))" if "x \<in> set (columns d)" for x
    using g(2) [OF that] by (auto simp: tenant_column_def split: if_splits)
  have sh: "set (shown t b d) = {x \<in> set (columns d). tenant_column b t x}" by (auto simp: shown_def)
  have others: "x \<in> set (columns d) \<and> tenant_column b t x \<and> k_position x \<noteq> cur" if "x \<in> set others" for x
  proof -
    have x: "x \<in> set (columns d)" "tenant_column b t x" "k_id x \<noteq> k_id k" using that by (simp_all add: others_def sh)
    with columns_place [OF ok x(1) k(1) x(2) k(2)] k(3) have "k_position x \<noteq> cur" by metis
    with x show ?thesis by simp
  qed
  let ?ls = "map g (filter (left_of cur tgt) others) @ [g k] @ map g (filter (\<lambda>x. \<not> left_of cur tgt x) others)"
  have asc: "ascending (map g (filter P others))" for P
  proof -
    have "ascending (filter P others)"
      unfolding others_def by (intro ascending_filter ascending_shown [OF ok])
    then show ?thesis
      unfolding sorted_wrt_map
      by (rule sorted_wrt_mono_rel [rotated]) (use others gx moved_position_mono in auto)
  qed
  have gk: "k_position (g k) = tgt" using gx [OF k(1)] k by (simp add: moved_position_def)
  have left: "k_position (g x) < tgt" if "x \<in> set others" "left_of cur tgt x" for x
    using others [OF that(1)] gx [of x] that(2) by (auto simp: left_of_def moved_position_def)
  have right: "tgt < k_position (g x)" if "x \<in> set others" "\<not> left_of cur tgt x" for x
    using others [OF that(1)] gx [of x] that(2) by (auto simp: left_of_def moved_position_def)
  have across: "k_position (g x) < k_position (g y)"
    if "x \<in> set others" "left_of cur tgt x" "y \<in> set others" "\<not> left_of cur tgt y" for x y
    using left [OF that(1,2)] right [OF that(3,4)] by simp
  have "shown t b d' = ?ls"
  proof (rule shown_eqI [OF _ _ column_moved_ok [OF ok mv]])
    show "ascending ?ls"
      using asc by (auto simp: sorted_wrt_append gk left right across)
    have "set ?ls = g ` insert k (set others)" by auto
    also have "insert k (set others) = {x \<in> set (columns d). tenant_column b t x}"
      unfolding others_def using k columns_key [OF ok] by (auto simp: sh)
    also have "g ` \<dots> = {x \<in> set (columns d'). tenant_column b t x}" unfolding g(1) using gx by auto
    finally show "set ?ls = {x \<in> set (columns d'). tenant_column b t x}" .
  qed
  moreover have "map k_id (map g (filter P others)) = map k_id (filter P others)"
    "map k_position (map g (filter P others)) = map (moved_position cur tgt \<circ> k_position) (filter P others)" for P
    using others gx by auto
  ultimately show "column_order t b d' = map k_id (filter (left_of cur tgt) others) @ [k_id k]
      @ map k_id (filter (\<lambda>x. \<not> left_of cur tgt x) others)"
    "map k_position (shown t b d') = map (moved_position cur tgt \<circ> k_position) (filter (left_of cur tgt) others) @ [tgt]
      @ map (moved_position cur tgt \<circ> k_position) (filter (\<lambda>x. \<not> left_of cur tgt x) others)"
    using gx [OF k(1)] gk by (simp_all add: column_order_def)
qed



lemma filter_take:
  "(\<And>i. i < length xs \<Longrightarrow> P (xs ! i) \<longleftrightarrow> i < n) \<Longrightarrow> filter P xs = take n xs \<and> filter (\<lambda>x. \<not> P x) xs = drop n xs"
proof (induction xs arbitrary: n)
  case Nil
  then show ?case by simp
next
  case (Cons x xs)
  have x: "P x \<longleftrightarrow> 0 < n" using Cons.prems [of 0] by simp
  have "P (xs ! i) \<longleftrightarrow> i < n - 1" if "i < length xs" for i
    using Cons.prems [of "Suc i"] that by auto
  from Cons.IH [OF this] x show ?case by (cases n) auto
qed

lemma contiguous_nth: "contiguous t b d \<Longrightarrow> i < length (shown t b d) \<Longrightarrow> k_position (shown t b d ! i) = int i"
  unfolding contiguous_def by (metis (no_types, lifting) add_0 length_map length_upt nth_map nth_upt minus_nat.diff_0)

lemma distinct_shown: "columns_ok d \<Longrightarrow> distinct (map k_id (shown t b d))"
  by (simp add: columns_ok_def shown_def distinct_map_filter)

lemma filter_other_key:
  assumes "distinct (map f (xs @ k # ys))"
  shows "filter (\<lambda>x. f x \<noteq> f k) (xs @ k # ys) = xs @ ys"
proof -
  have "f x \<noteq> f k" if "x \<in> set xs \<union> set ys" for x
    using assms that by (metis Un_iff distinct_append distinct.simps(2) disjoint_iff imageI list.set_intros(1) list.simps(9) map_append set_map)
  then show ?thesis by simp
qed

lemma contiguous_split:
  assumes ok: "columns_ok d" and cont: "contiguous t b d" and k: "k \<in> set (columns d)" "tenant_column b t k"
  defines "c \<equiv> nat (k_position k)"
  shows "c < length (shown t b d)" and "int c = k_position k"
    and "filter (\<lambda>x. k_id x \<noteq> k_id k) (shown t b d) = take c (shown t b d) @ drop (Suc c) (shown t b d)"
proof -
  let ?xs = "shown t b d"
  have "k \<in> set ?xs" using k by (simp add: shown_def)
  then obtain i where i: "i < length ?xs" "?xs ! i = k" by (auto simp: in_set_conv_nth)
  with contiguous_nth [OF cont i(1)] have c: "c = i" by (simp add: c_def)
  show "c < length ?xs" "int c = k_position k" using i c contiguous_nth [OF cont i(1)] by simp_all
  have dis: "distinct (map k_id (take i ?xs @ ?xs ! i # drop (Suc i) ?xs))"
    using distinct_shown [OF ok] i(1) by (simp add: id_take_nth_drop [symmetric])
  have "filter (\<lambda>x. k_id x \<noteq> k_id k) (take i ?xs @ ?xs ! i # drop (Suc i) ?xs) = take i ?xs @ drop (Suc i) ?xs"
    using filter_other_key [OF dis] i(2) by simp
  then show "filter (\<lambda>x. k_id x \<noteq> k_id k) ?xs = take c ?xs @ drop (Suc c) ?xs"
    using i(1) c by (simp add: id_take_nth_drop [symmetric])
qed

lemma contiguous_left_of:
  assumes ok: "columns_ok d" and cont: "contiguous t b d" and k: "k \<in> set (columns d)" "tenant_column b t k"
    and tgt: "0 \<le> tgt"
  defines "others \<equiv> filter (\<lambda>x. k_id x \<noteq> k_id k) (shown t b d)"
  shows "filter (left_of (k_position k) tgt) others = take (nat tgt) others
    \<and> filter (\<lambda>x. \<not> left_of (k_position k) tgt x) others = drop (nat tgt) others"
proof (rule filter_take)
  fix i
  assume i: "i < length others"
  note s = contiguous_split [OF ok cont k]
  have "k_position (others ! i) = (if int i < k_position k then int i else int i + 1)"
    using i s(1,2) contiguous_nth [OF cont]
    by (auto simp: others_def s(3) nth_append min_def)
  then show "left_of (k_position k) tgt (others ! i) \<longleftrightarrow> i < nat tgt"
    using tgt by (auto simp: left_of_def)
qed

section \<open>The handler\<close>

lemma columns_of_event:
  assumes "insert_board_event t b ty (JObj obj) e w = (Inr u, w')" and "tx_now w = Some now"
  shows "columns (db w') = columns (db w) \<and> \<not> aborted w'"
proof -
  from insert_board_event_emit [OF assms] obtain i where
    em: "emit_board b (i, t, ty, obj, now) (db w) = Some (db w')" and "\<not> aborted w'" by blast
  moreover from em have "columns (db w') = columns (db w)" by (rule emit_board_cases) (simp add: log_event_def)
  ultimately show ?thesis by simp
qed

lemma reorder_columns_tx:
  assumes "reorder_columns t b col cur tgt e w = (Inr u, w')" and "tx_now w = Some now"
  shows "tx_now w' = Some now"
  using assms by (auto simp: reorder_columns_def ok_iffs split: if_split_asm)

lemma move_column_tx_effect:
  assumes run: "move_column_tx t b col tgt e w = (Inr ms, w')" and now: "tx_now w = Some now" and ok: "columns_ok (db w)"
  shows "\<exists>k d1. k \<in> set (columns (db w)) \<and> column_key col b t k \<and> column_moved t b (k_position k) tgt (db w) d1
    \<and> columns (db w') = columns d1 \<and> ms = map (column_from_row (codec e)) (shown t b (db w')) \<and> \<not> aborted w'"
proof -
  from run obtain k w1 obj where k: "List.find (column_key col b t) (columns (db w)) = Some k"
    and re: "reorder_columns t b col (k_position k) tgt e (tick w) = (Inr (), w1)"
    and ms: "ms = map (column_from_row (codec e)) (shown t b (db w1))"
    and ev: "insert_board_event t b ''ColumnsReordered'' (JObj obj) e (tick w1) = (Inr (), w')"
    by (auto simp: move_column_tx_def ok_iffs Let_def shown_def)
  have k': "k \<in> set (columns (db w))" "column_key col b t k" using k by (auto simp: find_Some_iff)
  have "column_moved t b (k_position k) tgt (db w) (db w1)"
    using reorder_columns_effect [OF re _ k'(2)] k'(1) ok by simp
  moreover have "columns (db w') = columns (db w1) \<and> \<not> aborted w'"
    using columns_of_event [OF ev, of now] reorder_columns_tx [OF re, of now] now by simp
  moreover from this have "shown t b (db w') = shown t b (db w1)" by (simp add: shown_def)
  ultimately show ?thesis using k' ms by auto
qed

text \<open>A successful transaction is the run of its body on the same database, committed.\<close>

lemma in_tx_run:
  assumes "in_tx body e w = (Inr a, w')"
    and "\<And>w1. body e ((tick w)\<lparr>tx_now := Some (now_at e (step w)), aborted := False\<rparr>) = (Inr a, w1) \<Longrightarrow> \<not> aborted w1"
  shows "\<exists>w0 w1. db w0 = db w \<and> tx_now w0 = Some (now_at e (step w)) \<and> aborted w0 = False
    \<and> body e w0 = (Inr a, w1) \<and> db w' = db w1"
proof -
  let ?w0 = "(tick w)\<lparr>tx_now := Some (now_at e (step w)), aborted := False\<rparr>"
  from assms(1) obtain w1 where run: "body e ?w0 = (Inr a, w1)"
    and w': "w' = (if aborted w1 then rollback (db w) (tick w1) else (tick w1)\<lparr>tx_now := None\<rparr>)"
    by (auto simp: ok_iffs)
  have "db w' = db w1" using assms(2) [OF run] w' by simp
  with run show ?thesis by (intro exI [of _ ?w0] exI [of _ w1]) simp
qed



text \<open>A board's columns are contiguous exactly when their positions are the first numbers, in any order.\<close>

lemma contiguous_iff:
  assumes "columns_ok d"
  shows "contiguous t b d \<longleftrightarrow> k_position ` set (shown t b d) = int ` {0..<length (shown t b d)}"
proof
  assume "contiguous t b d"
  then have "set (map k_position (shown t b d)) = set (map int [0..<length (shown t b d)])"
    unfolding contiguous_def by (rule arg_cong)
  then show "k_position ` set (shown t b d) = int ` {0..<length (shown t b d)}" by simp
next
  assume eq: "k_position ` set (shown t b d) = int ` {0..<length (shown t b d)}"
  from ascending_shown [OF assms, of t b] show "contiguous t b d"
    unfolding contiguous_def ascending_iff
    by (intro sorted_distinct_set_unique) (use eq in \<open>simp_all add: distinct_map sorted_map sorted_wrt_upt\<close>)
qed

lemma moved_position_range:
  assumes "cur < n" "0 \<le> cur" "0 \<le> tgt" "tgt < n"
  shows "moved_position cur tgt ` {0..<n} = {0..<n}"
proof (rule endo_inj_surj)
  show "finite {0..<n}" by simp
  show "moved_position cur tgt ` {0..<n} \<subseteq> {0..<n}" using assms by (auto simp: moved_position_def)
  show "inj_on (moved_position cur tgt) {0..<n}" by (simp add: inj_on_def moved_position_inject)
qed

lemma column_moved_contiguous:
  assumes ok: "columns_ok d" and mv: "column_moved t b cur tgt d d'" and cont: "contiguous t b d"
    and k: "k \<in> set (columns d)" "tenant_column b t k" "k_position k = cur" and tgt: "0 \<le> tgt"
  shows "contiguous t b d' \<longleftrightarrow> tgt < int (length (shown t b d))"
proof -
  let ?n = "length (shown t b d)"
  let ?others = "filter (\<lambda>x. k_id x \<noteq> k_id k) (shown t b d)"
  note s = contiguous_split [OF ok cont k(1,2)]
  note m = column_moved_order [OF ok mv k]
  have at: "moved_position cur tgt cur = tgt" by (simp add: moved_position_def)
  have cur: "0 \<le> cur" "cur < int ?n" using s(1,2) k(3) by (simp_all split: if_splits)
  have sh: "set (shown t b d) = insert k (set ?others)"
    using k columns_key [OF ok] by (auto simp: shown_def)
  have range: "int ` {0..<?n} = {0..<int ?n}" by (simp add: image_int_atLeastLessThan)
  have len: "length (shown t b d') = ?n"
  proof -
    have "length (shown t b d') = length (column_order t b d')" by (simp add: column_order_def)
    also have "\<dots> = Suc (length ?others)" unfolding m(1) using sum_length_filter_compl [of "left_of cur tgt" ?others] by simp
    also have "\<dots> = ?n" using s(1) unfolding s(3) by simp
    finally show ?thesis .
  qed
  have "k_position ` set (shown t b d') = insert tgt (moved_position cur tgt ` k_position ` set ?others)"
    using arg_cong [OF m(2), of set] by (auto simp: image_image)
  also have "\<dots> = moved_position cur tgt ` k_position ` set (shown t b d)"
    unfolding sh using k(3) at by simp
  also have "k_position ` set (shown t b d) = {0..<int ?n}"
    using cont contiguous_iff [OF ok] range by simp
  finally have pos: "k_position ` set (shown t b d') = moved_position cur tgt ` {0..<int ?n}" .
  have "contiguous t b d' \<longleftrightarrow> moved_position cur tgt ` {0..<int ?n} = {0..<int ?n}"
    using contiguous_iff [OF column_moved_ok [OF ok mv], of t b] pos len range by simp
  also have "\<dots> \<longleftrightarrow> tgt < int ?n"
  proof
    assume eq: "moved_position cur tgt ` {0..<int ?n} = {0..<int ?n}"
    have "tgt \<in> moved_position cur tgt ` {0..<int ?n}" using cur at by (intro image_eqI [of _ _ cur]) simp_all
    then show "tgt < int ?n" using eq by simp
  qed (use moved_position_range cur tgt in blast)
  finally show ?thesis .
qed

text \<open>The board and the tenant that a request is about.\<close>

definition board_request :: "env \<Rightarrow> request_context \<Rightarrow> string \<Rightarrow> ident \<Rightarrow> bool" where
  "board_request e ctx t b \<longleftrightarrow> Option.bind (auth_ext ctx) auth_tenant_id = Some t
     \<and> (\<exists>s. checked_ext ctx = Some s \<and> id_from_str (codec e) s = Inr b)"

lemma columns_of_shown: "columns d = columns d' \<Longrightarrow> shown t b d = shown t b d'
   \<and> columns_ok d = columns_ok d' \<and> contiguous t b d = contiguous t b d' \<and> column_order t b d = column_order t b d'"
  by (simp add: shown_def columns_ok_def contiguous_def column_order_def)

lemma move_column_effect:
  assumes run: "move_column ctx column_id to_position e w = (Inr ms, w')" and req: "board_request e ctx t b"
    and col: "id_from_str (codec e) column_id = Inr col" and ok: "columns_ok (db w)"
  shows "1 \<le> to_position \<and> (\<exists>k d1. k \<in> set (columns (db w)) \<and> column_key col b t k
    \<and> column_moved t b (k_position k) (to_position - 1) (db w) d1
    \<and> columns (db w') = columns d1 \<and> ms = map (column_from_row (codec e)) (shown t b (db w')))"
proof -
  from run req col have to: "1 \<le> to_position" and tx: "in_tx (move_column_tx t b col (to_position - 1)) e w = (Inr ms, w')"
    by (auto simp: move_column_def ok_iffs board_request_def)
  have "\<not> aborted w2" if "move_column_tx t b col (to_position - 1) e ((tick w)\<lparr>tx_now := Some (now_at e (step w)), aborted := False\<rparr>) = (Inr ms, w2)" for w2
    using move_column_tx_effect [OF that] ok by auto
  from in_tx_run [OF tx this] obtain w0 w1 where w: "db w0 = db w" "tx_now w0 = Some (now_at e (step w))"
    "move_column_tx t b col (to_position - 1) e w0 = (Inr ms, w1)" "db w' = db w1" by blast
  from move_column_tx_effect [OF w(3,2)] ok w(1) obtain k d1 where "k \<in> set (columns (db w))" "column_key col b t k"
    "column_moved t b (k_position k) (to_position - 1) (db w) d1" "columns (db w1) = columns d1"
    "ms = map (column_from_row (codec e)) (shown t b (db w1))" by auto
  then show ?thesis unfolding w(4) using to by blast
qed

text \<open>
  C12. MoveColumn on a board whose positions have no gap takes the column out and puts it back before the
  \<open>to_position\<close>-th of the others (at the end when there are fewer), whichever direction it moves; the
  reply is the board's columns in their new order, no column is lost, no two share a position, and the
  positions stay without a gap exactly when the position asked for exists.
\<close>

theorem move_column_reorders:
  assumes run: "move_column ctx column_id to_position e w = (Inr ms, w')" and req: "board_request e ctx t b"
    and col: "id_from_str (codec e) column_id = Inr col" and ok: "columns_ok (db w)" and cont: "contiguous t b (db w)"
  shows "let others = filter (\<lambda>i. i \<noteq> col) (column_order t b (db w)); n = nat (to_position - 1) in
      column_order t b (db w') = take n others @ [col] @ drop n others
      \<and> map km_id ms = map (id_str (codec e)) (column_order t b (db w'))
      \<and> columns_ok (db w')
      \<and> (contiguous t b (db w') \<longleftrightarrow> to_position \<le> int (length (column_order t b (db w))))"
proof -
  from move_column_effect [OF run req col ok] obtain k d1 where to: "1 \<le> to_position"
    and k: "k \<in> set (columns (db w))" "column_key col b t k"
    and mv: "column_moved t b (k_position k) (to_position - 1) (db w) d1"
    and d1: "columns (db w') = columns d1" and ms: "ms = map (column_from_row (codec e)) (shown t b (db w'))" by blast
  have tc: "tenant_column b t k" and kid: "k_id k = col" using k(2) by (simp_all add: column_key_def tenant_column_def)
  note same = columns_of_shown [OF d1, of t b]
  have tgt: "0 \<le> to_position - 1" using to by simp
  have "column_order t b (db w') = take (nat (to_position - 1)) (filter (\<lambda>i. i \<noteq> col) (column_order t b (db w)))
      @ [col] @ drop (nat (to_position - 1)) (filter (\<lambda>i. i \<noteq> col) (column_order t b (db w)))"
    using column_moved_order(1) [OF ok mv k(1) tc refl] contiguous_left_of [OF ok cont k(1) tc tgt] same kid
    by (simp add: column_order_def filter_map o_def take_map drop_map)
  moreover have "map km_id ms = map (id_str (codec e)) (column_order t b (db w'))"
    using ms by (simp add: column_order_def column_from_row_def)
  moreover have "columns_ok (db w')" using column_moved_ok [OF ok mv] same by simp
  moreover have "contiguous t b (db w') \<longleftrightarrow> to_position \<le> int (length (column_order t b (db w)))"
    using column_moved_contiguous [OF ok mv cont k(1) tc refl tgt] same by (auto simp: column_order_def)
  ultimately show ?thesis by simp
qed


lemmas column_evals = move_column_def move_column_tx_def reorder_columns_def column_key_def tenant_column_def
  shift_columns_def place_column_sql_def by_position_def sort_rows_def column_from_row_def event_column_json_def
  i32_ok_def

lemma sample_columns_ok: "columns_ok sample_db" "contiguous ''t'' (sid 2) sample_db"
  "column_order ''t'' (sid 2) sample_db = [sid 3, sid 4]"
  by (simp_all add: columns_ok_def contiguous_def column_order_def shown_def by_position_def sort_rows_def
      tenant_column_def column_slot_def sample_evals)

lemma move_column_runs:
  "\<exists>ms w'. move_column (sample_context (sid 2)) (id_str crockford (sid 3)) 2 sample_env (sample_world sample_db) = (Inr ms, w')"
  by (simp add: evals request_evals sample_evals event_evals column_evals)

theorem move_column_reorders_witness:
  "\<exists>ms w'. move_column (sample_context (sid 2)) (id_str crockford (sid 3)) 2 sample_env (sample_world sample_db) = (Inr ms, w')
     \<and> column_order ''t'' (sid 2) (db w') = [sid 4, sid 3] \<and> contiguous ''t'' (sid 2) (db w')"
proof -
  obtain ms w' where run: "move_column (sample_context (sid 2)) (id_str crockford (sid 3)) 2 sample_env (sample_world sample_db) = (Inr ms, w')"
    using move_column_runs by blast
  have "board_request sample_env (sample_context (sid 2)) ''t'' (sid 2)"
    by (simp add: board_request_def sample_context_def crockford.id_from_str_show)
  from move_column_reorders [OF run this] run show ?thesis
    by (simp add: sample_columns_ok crockford.id_from_str_show)
qed


end
