(* ===== verification/Column_Edits.thy ===== *)
theory Column_Edits
  imports Column_Order
begin

text \<open>
  AddColumn and RemoveColumn against insertion into and removal from a list, and what every column
  handler keeps: ids and places stay distinct.
\<close>

section \<open>AddColumn\<close>

definition column_inserted :: "string \<Rightarrow> ident \<Rightarrow> column_row \<Rightarrow> db \<Rightarrow> db \<Rightarrow> bool" where
  "column_inserted t b new d d' \<longleftrightarrow> tenant_column b t new \<and> k_id new \<notin> k_id ` set (columns d) \<and>
     (\<exists>g. columns d' = map g (columns d) @ [new] \<and>
     (\<forall>k \<in> set (columns d). if tenant_column b t k
        then \<exists>u. g k = k\<lparr>k_position := k_position k + of_bool (k_position new \<le> k_position k), k_updated := u\<rparr>
        else g k = k))"

lemma shift_inject: "p + of_bool (n \<le> p) = q + of_bool (n \<le> q) \<longleftrightarrow> p = q" for p q n :: int
  by (auto simp: of_bool_def)

lemma shift_avoids: "p + of_bool (n \<le> p) \<noteq> n" for p n :: int
  by (auto simp: of_bool_def)

lemma column_inserted_ok:
  assumes ok: "columns_ok d" and ins: "column_inserted t b new d d'"
  shows "columns_ok d'"
proof -
  from ins obtain g where g: "columns d' = map g (columns d) @ [new]"
    "\<And>k. k \<in> set (columns d) \<Longrightarrow> if tenant_column b t k
        then \<exists>u. g k = k\<lparr>k_position := k_position k + of_bool (k_position new \<le> k_position k), k_updated := u\<rparr> else g k = k"
    and new: "tenant_column b t new" "k_id new \<notin> k_id ` set (columns d)"
    unfolding column_inserted_def by blast
  have slot: "column_slot (g k) = (if tenant_column b t k then (t, b, k_position k + of_bool (k_position new \<le> k_position k)) else column_slot k)
      \<and> k_id (g k) = k_id k" if "k \<in> set (columns d)" for k
    using g(2) [OF that] by (auto simp: column_slot_def tenant_column_def split: if_splits)
  have ids: "map k_id (map g (columns d)) = map k_id (columns d)" using slot by simp
  have "inj_on (column_slot \<circ> g) (set (columns d))"
  proof (rule inj_onI)
    fix p q
    assume pq: "p \<in> set (columns d)" "q \<in> set (columns d)" and eq: "(column_slot \<circ> g) p = (column_slot \<circ> g) q"
    then have "column_slot p = column_slot q"
      using slot [of p] slot [of q] by (auto simp: column_slot_def tenant_column_def shift_inject split: if_split_asm)
    then show "p = q" using ok pq(1,2) by (auto simp: columns_ok_def dest: distinct_key)
  qed
  moreover have "column_slot new \<notin> column_slot ` g ` set (columns d)"
  proof
    assume "column_slot new \<in> column_slot ` g ` set (columns d)"
    then obtain p where "p \<in> set (columns d)" "column_slot new = column_slot (g p)" by blast
    then show False using slot [of p] new(1) shift_avoids [of "k_position p" "k_position new"]
      by (auto simp: column_slot_def tenant_column_def split: if_split_asm)
  qed
  moreover have "distinct (columns d)" using ok by (simp add: columns_ok_def distinct_map)
  ultimately show ?thesis
    using ok new(2) ids by (simp add: columns_ok_def g(1) distinct_map image_image inj_on_def)
qed

lemma column_inserted_order:
  assumes ok: "columns_ok d" and ins: "column_inserted t b new d d'"
  shows "column_order t b d' = map k_id (filter (\<lambda>x. k_position x < k_position new) (shown t b d)) @ [k_id new]
    @ map k_id (filter (\<lambda>x. \<not> k_position x < k_position new) (shown t b d))"
    and "k_position ` set (shown t b d') = insert (k_position new)
      ((\<lambda>p. p + of_bool (k_position new \<le> p)) ` k_position ` set (shown t b d))"
proof -
  from ins obtain g where g: "columns d' = map g (columns d) @ [new]"
    "\<And>k. k \<in> set (columns d) \<Longrightarrow> if tenant_column b t k
        then \<exists>u. g k = k\<lparr>k_position := k_position k + of_bool (k_position new \<le> k_position k), k_updated := u\<rparr> else g k = k"
    and new: "tenant_column b t new"
    unfolding column_inserted_def by blast
  have sh: "set (shown t b d) = {x \<in> set (columns d). tenant_column b t x}" by (auto simp: shown_def)
  have gx: "k_id (g x) = k_id x \<and> tenant_column b t (g x) = tenant_column b t x
      \<and> (tenant_column b t x \<longrightarrow> k_position (g x) = k_position x + of_bool (k_position new \<le> k_position x))"
    if "x \<in> set (columns d)" for x
    using g(2) [OF that] by (auto simp: tenant_column_def split: if_splits)
  let ?L = "filter (\<lambda>x. k_position x < k_position new) (shown t b d)"
  let ?R = "filter (\<lambda>x. \<not> k_position x < k_position new) (shown t b d)"
  let ?ls = "map g ?L @ [new] @ map g ?R"
  have pos: "k_position (g x) = k_position x + of_bool (k_position new \<le> k_position x)" if "x \<in> set (shown t b d)" for x
    using gx [of x] that by (simp add: sh)
  have asc: "ascending (map g (filter P (shown t b d)))" for P
    unfolding sorted_wrt_map
    by (rule sorted_wrt_mono_rel [rotated, OF ascending_filter [OF ascending_shown [OF ok]]]) (auto simp: pos of_bool_def)
  have "shown t b d' = ?ls"
  proof (rule shown_eqI [OF _ _ column_inserted_ok [OF ok ins]])
    have "k_position (g x) < k_position new" if "x \<in> set ?L" for x using that pos [of x] by (auto simp: of_bool_def)
    moreover have "k_position new < k_position (g x)" if "x \<in> set ?R" for x using that pos [of x] by (auto simp: of_bool_def)
    ultimately show "ascending ?ls" unfolding sorted_wrt_append using asc by (auto intro: less_trans)
    show "set ?ls = {x \<in> set (columns d'). tenant_column b t x}"
      using gx new by (auto simp: g(1) sh)
  qed
  moreover have "map k_id (map g (filter P (shown t b d))) = map k_id (filter P (shown t b d))" for P
    using gx by (auto simp: sh)
  ultimately show "column_order t b d' = map k_id ?L @ [k_id new] @ map k_id ?R" by (simp add: column_order_def)
  have "k_position ` set (shown t b d') = insert (k_position new) (k_position ` g ` set (shown t b d))"
    unfolding \<open>shown t b d' = ?ls\<close> by auto
  also have "k_position ` g ` set (shown t b d) = (\<lambda>p. p + of_bool (k_position new \<le> p)) ` k_position ` set (shown t b d)"
    unfolding image_image by (rule image_cong [OF refl]) (rule pos)
  finally show "k_position ` set (shown t b d') = insert (k_position new)
      ((\<lambda>p. p + of_bool (k_position new \<le> p)) ` k_position ` set (shown t b d))" .
qed

lemma shift_range:
  fixes p n :: int
  assumes "0 \<le> p"
  shows "insert p ((\<lambda>x. x + of_bool (p \<le> x)) ` {0..<n}) = {0..<n + 1} \<longleftrightarrow> p \<le> n"
proof
  assume "insert p ((\<lambda>x. x + of_bool (p \<le> x)) ` {0..<n}) = {0..<n + 1}"
  then show "p \<le> n" using assms by auto
next
  assume p: "p \<le> n"
  show "insert p ((\<lambda>x. x + of_bool (p \<le> x)) ` {0..<n}) = {0..<n + 1}" (is "?A = _")
  proof
    show "?A \<subseteq> {0..<n + 1}" using assms p by (auto simp: of_bool_def)
    show "{0..<n + 1} \<subseteq> ?A"
    proof
      fix x assume x: "x \<in> {0..<n + 1}"
      consider "x < p" | "x = p" | "p < x" by linarith
      then show "x \<in> ?A"
      proof cases
        case 1
        then have "x = x + of_bool (p \<le> x)" "x \<in> {0..<n}" using x p by auto
        then show ?thesis by blast
      next
        case 3
        then have "x = (x - 1) + of_bool (p \<le> x - 1)" "x - 1 \<in> {0..<n}" using x assms by auto
        then show ?thesis by blast
      qed simp
    qed
  qed
qed

lemma column_inserted_contiguous:
  assumes ok: "columns_ok d" and ins: "column_inserted t b new d d'" and cont: "contiguous t b d" and p: "0 \<le> k_position new"
  shows "column_order t b d' = take (nat (k_position new)) (column_order t b d) @ [k_id new] @ drop (nat (k_position new)) (column_order t b d)
    \<and> (contiguous t b d' \<longleftrightarrow> k_position new \<le> int (length (column_order t b d)))"
proof -
  let ?xs = "shown t b d"
  note o = column_inserted_order [OF ok ins]
  have "k_position (?xs ! i) < k_position new \<longleftrightarrow> i < nat (k_position new)" if "i < length ?xs" for i
    using contiguous_nth [OF cont that] p by auto
  from filter_take [OF this] have order: "column_order t b d' = take (nat (k_position new)) (column_order t b d) @ [k_id new]
      @ drop (nat (k_position new)) (column_order t b d)"
    unfolding o(1) by (simp add: column_order_def take_map drop_map)
  have len: "int (length (shown t b d')) = int (length ?xs) + 1"
    using arg_cong [OF order, of length] by (simp add: column_order_def)
  have range: "int ` {0..<k} = {0..<int k}" for k by (simp add: image_int_atLeastLessThan)
  have "k_position ` set ?xs = {0..<int (length ?xs)}" using cont contiguous_iff [OF ok] range by simp
  then have "contiguous t b d' \<longleftrightarrow> k_position new \<le> int (length ?xs)"
    unfolding contiguous_iff [OF column_inserted_ok [OF ok ins]] o(2) range len using shift_range [OF p] by simp
  with order show ?thesis by (simp add: column_order_def)
qed


text \<open>The columns of a board all belong to its tenant.\<close>

definition board_owned :: "string \<Rightarrow> ident \<Rightarrow> db \<Rightarrow> bool" where
  "board_owned t b d \<longleftrightarrow> (\<forall>k \<in> set (columns d). k_board k = b \<longrightarrow> k_tenant k = t)"

lemma append_column_effect:
  assumes run: "append_column_sql (new_column_row req col t b) b now d = Some (row, d')" and own: "board_owned t b d"
  shows "column_inserted t b row d d' \<and> row = new_column_row req col t b now (next_position (map k_position (shown t b d)))
    \<and> i32_ok (k_position row)"
proof -
  let ?p = "next_position (map k_position (board_columns b d))"
  from run have row: "row = new_column_row req col t b now ?p" and d': "columns d' = columns d @ [row]"
    and fresh: "k_id row \<notin> k_id ` set (columns d)" and fit: "i32_ok (k_position row)"
    by (auto simp: append_column_sql_def insert_column_row_def split: if_split_asm)
  have below: "k_position k < k_position row" if "k \<in> set (columns d)" "tenant_column b t k" for k
    using that next_position_gt [of "k_position k" "map k_position (board_columns b d)"]
    by (auto simp: row new_column_row_def board_columns_def tenant_column_def)
  have "set (board_columns b d) = set (shown t b d)"
    using own by (auto simp: board_columns_def shown_def tenant_column_def board_owned_def)
  then have "?p = next_position (map k_position (shown t b d))"
    by (auto simp: next_position_def)
  moreover have "column_inserted t b row d d'"
    unfolding column_inserted_def
  proof (intro conjI exI [of _ "\<lambda>k. k"] ballI)
    show "tenant_column b t row" by (simp add: row new_column_row_def tenant_column_def)
    fix k
    assume "k \<in> set (columns d)"
    from below [OF this] show "if tenant_column b t k
        then \<exists>u. k = k\<lparr>k_position := k_position k + of_bool (k_position row \<le> k_position k), k_updated := u\<rparr> else k = k"
      by (auto simp: column_updated_same simp del: split_paired_Ex)
  qed (simp_all add: d' fresh)
  ultimately show ?thesis using row fit by simp
qed

lemma insert_column_effect:
  assumes run: "insert_column_sql (new_column_row req col t b) b p now d = Some (row, d')" and own: "board_owned t b d"
  shows "column_inserted t b row d d' \<and> row = new_column_row req col t b now p"
proof -
  let ?P = "\<lambda>k. k_board k = b \<and> p \<le> k_position k"
  let ?g = "\<lambda>k. if ?P k then k\<lparr>k_position := k_position k + 1, k_updated := now\<rparr> else k"
  from run have row: "row = new_column_row req col t b now p" and d': "columns d' = map ?g (columns d) @ [row]"
    and fresh: "k_id row \<notin> k_id ` set (map ?g (columns d))"
    by (auto simp: insert_column_sql_def shift_columns_def insert_column_row_def upd_rows_def bind_eq_Some_conv
        split: if_split_asm)
  have pos: "k_position row = p" by (simp add: row new_column_row_def)
  have ids: "k_id ` set (map ?g (columns d)) = k_id ` set (columns d)"
    unfolding set_map image_image by (rule image_cong [OF refl]) simp
  have "column_inserted t b row d d'"
    unfolding column_inserted_def
  proof (intro conjI exI [of _ ?g] ballI)
    show "tenant_column b t row" by (simp add: row new_column_row_def tenant_column_def)
    fix k
    assume "k \<in> set (columns d)"
    then show "if tenant_column b t k
        then \<exists>u. ?g k = k\<lparr>k_position := k_position k + of_bool (k_position row \<le> k_position k), k_updated := u\<rparr> else ?g k = k"
      using own by (auto simp: pos tenant_column_def board_owned_def column_updated_same simp del: split_paired_Ex)
  qed (use d' fresh ids in auto)
  then show ?thesis using row by simp
qed

definition requested_position :: "add_column_request \<Rightarrow> string \<Rightarrow> ident \<Rightarrow> db \<Rightarrow> int" where
  "requested_position req t b d =
     (if nc_position req = 0 then next_position (map k_position (shown t b d)) else nc_position req)"

lemma new_column_row_fields [simp]:
  "k_id (new_column_row req col t b now p) = col" "k_position (new_column_row req col t b now p) = p"
  "tenant_column b t (new_column_row req col t b now p)"
  by (simp_all add: new_column_row_def tenant_column_def)

lemma add_column_tx_effect:
  assumes run: "add_column_tx req col t b e w = (Inr m, w')" and now: "tx_now w = Some now" and own: "board_owned t b (db w)"
  shows "\<exists>row d1. column_inserted t b row (db w) d1 \<and> k_id row = col \<and> k_position row = requested_position req t b (db w)
    \<and> columns (db w') = columns d1 \<and> m = column_from_row (codec e) row \<and> \<not> aborted w'"
proof -
  from run obtain row d1 obj where
    sql: "(if nc_position req = 0 then append_column_sql (new_column_row req col t b) b
           else insert_column_sql (new_column_row req col t b) b (nc_position req)) now (db w) = Some (row, d1)"
    and m: "m = column_from_row (codec e) row"
    and ev: "insert_board_event t b ''ColumnAdded'' (JObj obj) e ((tick w)\<lparr>db := d1\<rparr>) = (Inr (), w')"
    using now by (auto simp: add_column_tx_def ok_iffs Let_def sql_now_def split: if_split_asm)
  have "column_inserted t b row (db w) d1 \<and> k_id row = col \<and> k_position row = requested_position req t b (db w)"
  proof (cases "nc_position req = 0")
    case True
    then have "append_column_sql (new_column_row req col t b) b now (db w) = Some (row, d1)" using sql by simp
    from append_column_effect [OF this own] have "column_inserted t b row (db w) d1"
      and row: "row = new_column_row req col t b now (next_position (map k_position (shown t b (db w))))" by blast+
    then show ?thesis by (simp only: True requested_position_def if_True new_column_row_fields) simp
  next
    case False
    then have "insert_column_sql (new_column_row req col t b) b (nc_position req) now (db w) = Some (row, d1)" using sql by simp
    from insert_column_effect [OF this own] have "column_inserted t b row (db w) d1"
      and row: "row = new_column_row req col t b now (nc_position req)" by blast+
    then show ?thesis using False by (simp add: requested_position_def)
  qed
  moreover have "columns (db w') = columns d1 \<and> \<not> aborted w'"
    using columns_of_event [OF ev, of now] now by simp
  ultimately show ?thesis using m by blast
qed

lemma next_position_contiguous:
  "contiguous t b d \<Longrightarrow> next_position (map k_position (shown t b d)) = int (length (column_order t b d))"
  unfolding contiguous_def column_order_def next_position_def
  by (cases "shown t b d" rule: rev_cases) (auto intro!: Max_eqI)

lemma keeps_cached_column [keeps_intros]: "keeps I (cached_column t key)"
  unfolding cached_column_def by (intro keeps_intros keeps_check_idempotency_card)

lemma store_key_columns: "keeps (\<lambda>d. columns d = X) (store_idempotency_card t key cid)"
  unfolding store_idempotency_card_def
  by (intro keeps_intros keeps_exec) (auto simp: store_key_sql_def split: if_split_asm option.splits)

lemma add_column_effect:
  assumes run: "add_column ctx req e w = (Inr m, w')" and req: "board_request e ctx t b" and own: "board_owned t b (db w)"
  shows "columns (db w') = columns (db w) \<and> nc_idempotency_key req \<noteq> '''' \<or>
    (\<exists>row d1. column_inserted t b row (db w) d1 \<and> k_position row = requested_position req t b (db w)
      \<and> columns (db w') = columns d1 \<and> m = column_from_row (codec e) row)"
proof -
  from run req obtain cached w1 where c: "cached_column t (nc_idempotency_key req) e w = (Inr cached, w1)"
    and rest: "(case cached of Some m \<Rightarrow> ret m
     | None \<Rightarrow> bnd new_id (\<lambda>column_id.
         bnd (in_tx (add_column_tx req column_id t b)) (\<lambda>column.
         bnd (store_idempotency_card t (nc_idempotency_key req) column_id) (\<lambda>_. ret column)))) e w1 = (Inr m, w')"
    unfolding add_column_def by (auto simp: ok_iffs board_request_def simp del: split_paired_Ex)
  have w1: "db w1 = db w" using keepsD [OF keeps_cached_column, of "\<lambda>d. d = db w", OF refl c] by simp
  show ?thesis
  proof (cases cached)
    case (Some m')
    then have "nc_idempotency_key req \<noteq> ''''"
      using c by (auto simp: cached_column_def check_idempotency_card_def ok_iffs)
    then show ?thesis using Some rest w1 by (simp add: ok_iffs)
  next
    case None
    then obtain col w3 where tx: "in_tx (add_column_tx req col t b) e (tick w1) = (Inr m, w3)"
      and st: "store_idempotency_card t (nc_idempotency_key req) col e w3 = (Inr (), w')"
      using rest by (auto simp: ok_iffs new_id_def)
    have own1: "board_owned t b (db (tick w1))" using own w1 by simp
    have "\<not> aborted w2" if "add_column_tx req col t b e ((tick (tick w1))\<lparr>tx_now := Some (now_at e (step (tick w1))), aborted := False\<rparr>) = (Inr m, w2)" for w2
      using add_column_tx_effect [OF that] own1 by auto
    from in_tx_run [OF tx this] obtain w0 w2 where w: "db w0 = db (tick w1)" "tx_now w0 = Some (now_at e (step (tick w1)))"
      "add_column_tx req col t b e w0 = (Inr m, w2)" "db w3 = db w2" by blast
    have "columns (db w') = columns (db w3)"
      using keepsD [OF store_key_columns, of w3 "columns (db w3)", OF refl st] by simp
    with add_column_tx_effect [OF w(3,2)] own1 w(1,4) w1 show ?thesis by auto
  qed
qed

text \<open>
  AddColumn on a board whose positions have no gap puts the new column where the request says: at the end
  for position 0, else before the column at that 0-based position, without changing the order of the
  others; the board's places stay distinct, and they stay without a gap unless the position lies beyond the
  end. A request whose idempotency key is known changes nothing.
\<close>

theorem add_column_inserts:
  assumes run: "add_column ctx req e w = (Inr m, w')" and req: "board_request e ctx t b"
    and own: "board_owned t b (db w)" and ok: "columns_ok (db w)" and cont: "contiguous t b (db w)" and pos: "0 \<le> nc_position req"
  shows "let old = column_order t b (db w); n = (if nc_position req = 0 then length old else nat (nc_position req)) in
      columns (db w') = columns (db w) \<and> nc_idempotency_key req \<noteq> ''''
      \<or> (\<exists>col. km_id m = id_str (codec e) col \<and> km_position m = int n
          \<and> column_order t b (db w') = take n old @ [col] @ drop n old
          \<and> columns_ok (db w') \<and> (contiguous t b (db w') \<longleftrightarrow> n \<le> length old))"
  using add_column_effect [OF run req own]
proof (elim disjE exE conjE)
  fix row d1
  assume ins: "column_inserted t b row (db w) d1" and p: "k_position row = requested_position req t b (db w)"
    and d1: "columns (db w') = columns d1" and m: "m = column_from_row (codec e) row"
  let ?n = "if nc_position req = 0 then length (column_order t b (db w)) else nat (nc_position req)"
  have n: "k_position row = int ?n" using p pos cont by (simp add: requested_position_def next_position_contiguous)
  note same = columns_of_shown [OF d1, of t b]
  have "column_order t b (db w') = take ?n (column_order t b (db w)) @ [k_id row] @ drop ?n (column_order t b (db w))
      \<and> (contiguous t b (db w') \<longleftrightarrow> ?n \<le> length (column_order t b (db w)))"
    using column_inserted_contiguous [OF ok ins cont] same unfolding n by simp
  moreover have "columns_ok (db w')" using column_inserted_ok [OF ok ins] same by simp
  moreover have "km_id m = id_str (codec e) (k_id row)" "km_position m = int ?n"
    using n by (simp_all add: m column_from_row_def)
  ultimately show ?thesis unfolding Let_def by blast
qed (simp add: Let_def)



definition sample_new_column :: "int \<Rightarrow> add_column_request" where
  "sample_new_column p = \<lparr>nc_title = ''review'', nc_accent = '''', nc_wip_limit = 0, nc_position = p, nc_is_done = False,
     nc_idempotency_key = ''''\<rparr>"

lemma sample_board_owned: "board_owned ''t'' (sid 2) sample_db"
  by (simp add: board_owned_def sample_evals)

lemma sample_board_request: "board_request sample_env (sample_context (sid 2)) ''t'' (sid 2)"
  by (simp add: board_request_def sample_context_def crockford.id_from_str_show)

lemmas add_column_evals = add_column_def cached_column_def check_idempotency_card_def add_column_tx_def
  insert_column_sql_def append_column_sql_def insert_column_row_def store_idempotency_card_def sample_new_column_def
  new_column_row_def text_opt_def board_columns_def

lemma add_column_runs:
  "\<exists>m w'. add_column (sample_context (sid 2)) (sample_new_column 1) sample_env (sample_world sample_db) = (Inr m, w')"
  by (simp add: evals request_evals sample_evals event_evals column_evals add_column_evals) (simp add: sid_def)

theorem add_column_inserts_witness:
  "\<exists>m w' col. add_column (sample_context (sid 2)) (sample_new_column 1) sample_env (sample_world sample_db) = (Inr m, w')
     \<and> column_order ''t'' (sid 2) (db w') = [sid 3, col, sid 4] \<and> contiguous ''t'' (sid 2) (db w')"
proof -
  obtain m w' where run: "add_column (sample_context (sid 2)) (sample_new_column 1) sample_env (sample_world sample_db) = (Inr m, w')"
    using add_column_runs by blast
  from add_column_inserts [OF run sample_board_request] run show ?thesis
    by (simp add: sample_columns_ok sample_board_owned sample_new_column_def) blast
qed

section \<open>RemoveColumn\<close>

lemma rank_of_nth: "distinct ids \<Longrightarrow> i < length ids \<Longrightarrow> rank_of ids (ids ! i) = i"
proof (induction ids arbitrary: i)
  case (Cons x ids)
  then show ?case by (cases i) (auto simp: rank_of_def)
qed (simp add: rank_of_def)

text \<open>The database after gap filling: same columns, and the ranks for positions.\<close>

lemma gap_fill_effect:
  assumes run: "gap_fill_sql b t now d = Some d'" and ok: "columns_ok d"
  shows "columns_ok d' \<and> column_order t b d' = column_order t b d \<and> contiguous t b d'"
proof -
  let ?ids = "map k_id (shown t b d)"
  define g where "g k = (if k_id k \<in> set ?ids then k\<lparr>k_position := int (rank_of ?ids (k_id k)), k_updated := now\<rparr> else k)" for k :: column_row
  define rk where "rk k = int (rank_of ?ids (k_id k))" for k :: column_row
  have ranked: "map k_id (by_position (filter (\<lambda>k. k_board k = b \<and> k_tenant k = t) (columns d))) = ?ids"
    by (simp add: shown_def tenant_column_def [abs_def])
  from run have d': "columns d' = map g (columns d)"
    unfolding gap_fill_sql_def Let_def ranked upd_rows_def by (auto simp: g_def [abs_def] split: if_split_asm)
  have dist: "distinct ?ids" by (rule distinct_shown [OF ok])
  have own: "k_id k \<in> set ?ids \<longleftrightarrow> tenant_column b t k" if "k \<in> set (columns d)" for k
    using that columns_key [OF ok] by (auto simp: shown_def)
  have pos: "k_position (g (shown t b d ! i)) = int i" if i: "i < length (shown t b d)" for i
    using i rank_of_nth [OF dist, of i] by (simp add: g_def)
  have inj: "rk x = rk y \<Longrightarrow> x = y"
    if xy: "x \<in> set (columns d)" "y \<in> set (columns d)" "tenant_column b t x" "tenant_column b t y" for x y
  proof -
    assume r: "rk x = rk y"
    from xy have "x \<in> set (shown t b d)" "y \<in> set (shown t b d)" by (simp_all add: shown_def)
    then obtain i j where ij: "i < length (shown t b d)" "x = shown t b d ! i" "j < length (shown t b d)" "y = shown t b d ! j"
      by (auto simp: in_set_conv_nth)
    then show "x = y" using r rank_of_nth [OF dist, of i] rank_of_nth [OF dist, of j] by (simp add: rk_def)
  qed
  have slot: "column_slot (g k) = (if tenant_column b t k then (t, b, rk k) else column_slot k)
      \<and> k_id (g k) = k_id k \<and> tenant_column b t (g k) = tenant_column b t k" if "k \<in> set (columns d)" for k
    using own [OF that] by (auto simp: column_slot_def tenant_column_def g_def rk_def)
  have ok': "columns_ok d'"
  proof (rule columns_okI [OF _ ok])
    show "map k_id (columns d') = map k_id (columns d)" unfolding d' using slot by simp
    fix x y
    assume "x \<in> set (columns d')" "y \<in> set (columns d')" and eq: "column_slot x = column_slot y"
    then obtain p q where pq: "p \<in> set (columns d)" "q \<in> set (columns d)" "x = g p" "y = g q" unfolding d' by auto
    have "p = q"
    proof (cases "tenant_column b t p \<and> tenant_column b t q")
      case True
      then show ?thesis using eq inj [OF pq(1,2)] slot [OF pq(1)] slot [OF pq(2)] pq(3,4) by simp
    next
      case False
      then have "column_slot p = column_slot q"
        using eq slot [OF pq(1)] slot [OF pq(2)] pq(3,4) by (auto simp: column_slot_def tenant_column_def split: if_split_asm)
      then show ?thesis using ok pq(1,2) by (auto simp: columns_ok_def dest: distinct_key)
    qed
    then show "x = y" using pq(3,4) by simp
  qed
  have sh: "shown t b d' = map g (shown t b d)"
  proof (rule shown_eqI [OF _ _ ok'])
    show "ascending (map g (shown t b d))"
      unfolding sorted_wrt_iff_nth_less using pos by simp
    show "set (map g (shown t b d)) = {k \<in> set (columns d'). tenant_column b t k}"
      unfolding d' using slot by (auto simp: shown_def)
  qed
  moreover have "contiguous t b d'"
    unfolding contiguous_def sh using pos by (intro nth_equalityI) simp_all
  moreover have "column_order t b d' = column_order t b d"
    unfolding column_order_def sh by (simp add: g_def)
  ultimately show ?thesis using ok' by simp
qed

lemma delete_column_effect:
  assumes run: "delete_column_sql col b t now d = Some (n, d')" and n: "n \<noteq> 0" and ok: "columns_ok d"
  shows "columns_ok d' \<and> column_order t b d' = filter (\<lambda>i. i \<noteq> col) (column_order t b d)
    \<and> cards d' = filter (\<lambda>c. c_column c \<noteq> col) (cards d) \<and> col \<in> set (column_order t b d)"
proof -
  from run n have cols: "columns d' = filter (\<lambda>k. \<not> column_key col b t k) (columns d)"
    and cards: "cards d' = filter (\<lambda>c. c_column c \<noteq> col) (cards d)"
    and some: "filter (column_key col b t) (columns d) \<noteq> []"
    by (auto simp: delete_column_sql_def drop_cards_def del_rows_def cnt_rows_def Let_def split: if_split_asm)
  have ok': "columns_ok d'" using ok by (simp add: columns_ok_def cols distinct_map_filter)
  from some obtain k where k: "k \<in> set (columns d)" "column_key col b t k" by (auto simp: filter_empty_conv)
  have key: "column_key col b t x \<longleftrightarrow> k_id x = col" if "x \<in> set (columns d)" "tenant_column b t x" for x
    using that by (simp add: column_key_def tenant_column_def)
  have "shown t b d' = filter (\<lambda>x. k_id x \<noteq> col) (shown t b d)"
  proof (rule shown_eqI [OF ascending_filter [OF ascending_shown [OF ok]] _ ok'])
    show "set (filter (\<lambda>x. k_id x \<noteq> col) (shown t b d)) = {x \<in> set (columns d'). tenant_column b t x}"
      unfolding cols using key by (auto simp: shown_def)
  qed
  then have "column_order t b d' = filter (\<lambda>i. i \<noteq> col) (column_order t b d)"
    by (simp add: column_order_def filter_map o_def)
  moreover have "col \<in> set (column_order t b d)"
    using k by (auto simp: column_order_def shown_def tenant_column_def column_key_def)
  ultimately show ?thesis using ok' cards by simp
qed

lemma remove_column_tx_effect:
  assumes run: "remove_column_tx t b col e w = (Inr u, w')" and now: "tx_now w = Some now" and ok: "columns_ok (db w)"
  shows "columns_ok (db w') \<and> contiguous t b (db w') \<and> column_order t b (db w') = filter (\<lambda>i. i \<noteq> col) (column_order t b (db w))
    \<and> cards (db w') = filter (\<lambda>c. c_column c \<noteq> col) (cards (db w)) \<and> col \<in> set (column_order t b (db w)) \<and> \<not> aborted w'"
proof -
  from run obtain n d1 r w2 obj where del: "delete_column_sql col b t now (db w) = Some (n, d1)" "n \<noteq> 0"
    and gap: "exec (gap_fill_sql b t) e ((tick (tick w))\<lparr>db := d1\<rparr>) = (r, w2)"
    and ev: "insert_board_event t b ''ColumnRemoved'' (JObj obj) e w2 = (Inr u, w')"
    using now by (auto simp: remove_column_tx_def ok_iffs sql_now_def)
  obtain d2 where fill: "gap_fill_sql b t now d1 = Some d2" and w2: "w2 = (tick (tick (tick w)))\<lparr>db := d2\<rparr>"
  proof (cases r)
    case (Inl x)
    then have "aborted w2"
      using gap now by (auto simp: exec_def stmt_def mark_failed_def split: if_split_asm option.splits)
    then show ?thesis using ev by (simp add: insert_board_event_def ok_iffs)
  next
    case (Inr x)
    then show ?thesis using gap now that by (auto simp: ok_iffs sql_now_def tick_def)
  qed
  note d1 = delete_column_effect [OF del ok]
  have d2: "columns_ok d2 \<and> column_order t b d2 = column_order t b d1 \<and> contiguous t b d2"
    using gap_fill_effect [OF fill] d1 by blast
  have "cards d2 = cards d1" using fill by (auto simp: gap_fill_sql_def Let_def split: if_split_asm)
  moreover obtain i where em: "emit_board b (i, t, ''ColumnRemoved'', obj, now) (db w2) = Some (db w')" and "\<not> aborted w'"
    using insert_board_event_emit [OF ev, of now] w2 now by auto
  moreover from em have "columns (db w') = columns d2 \<and> cards (db w') = cards d2"
    unfolding w2 by (rule emit_board_cases) (simp add: log_event_def)
  ultimately show ?thesis using columns_of_shown [of "db w'" d2 t b] d1 d2 by simp
qed

text \<open>
  C13. A successful RemoveColumn takes the column out of its board and leaves the order of the others as it was,
  closes the gap (the positions are 0, 1, 2 and so on afterwards, whatever they were before), and
  deletes the cards of that column and no others.
\<close>

theorem remove_column_closes_gap:
  assumes run: "remove_column ctx column_id e w = (Inr u, w')" and req: "board_request e ctx t b"
    and col: "id_from_str (codec e) column_id = Inr col" and ok: "columns_ok (db w)"
  shows "col \<in> set (column_order t b (db w))
    \<and> column_order t b (db w') = filter (\<lambda>i. i \<noteq> col) (column_order t b (db w))
    \<and> contiguous t b (db w') \<and> columns_ok (db w')
    \<and> cards (db w') = filter (\<lambda>c. c_column c \<noteq> col) (cards (db w))"
proof -
  from run req col have tx: "in_tx (remove_column_tx t b col) e w = (Inr u, w')"
    by (auto simp: remove_column_def ok_iffs board_request_def)
  have "\<not> aborted w2" if "remove_column_tx t b col e ((tick w)\<lparr>tx_now := Some (now_at e (step w)), aborted := False\<rparr>) = (Inr u, w2)" for w2
    using remove_column_tx_effect [OF that] ok by auto
  from in_tx_run [OF tx this] obtain w0 w1 where w: "db w0 = db w" "tx_now w0 = Some (now_at e (step w))"
    "remove_column_tx t b col e w0 = (Inr u, w1)" "db w' = db w1" by blast
  from remove_column_tx_effect [OF w(3,2)] ok w(1,4) show ?thesis by simp
qed

lemmas remove_column_evals = remove_column_def remove_column_tx_def delete_column_sql_def drop_cards_def gap_fill_sql_def rank_of_def

lemma remove_column_runs:
  "\<exists>w'. remove_column (sample_context (sid 2)) (id_str crockford (sid 3)) sample_env (sample_world sample_db) = (Inr (), w')"
  by (simp add: evals request_evals sample_evals event_evals column_evals remove_column_evals del_rows_def cnt_rows_def)

theorem remove_column_closes_gap_witness:
  "\<exists>w'. remove_column (sample_context (sid 2)) (id_str crockford (sid 3)) sample_env (sample_world sample_db) = (Inr (), w')
     \<and> column_order ''t'' (sid 2) (db w') = [sid 4] \<and> map c_id (cards (db w')) = [sid 10]"
proof -
  obtain w' where run: "remove_column (sample_context (sid 2)) (id_str crockford (sid 3)) sample_env (sample_world sample_db) = (Inr (), w')"
    using remove_column_runs by blast
  from remove_column_closes_gap [OF run sample_board_request] run show ?thesis
    by (simp add: sample_columns_ok sample_card_def crockford.id_from_str_show)
qed


end
