(* ===== verification/Board_Access.thy ===== *)
theory Board_Access
  imports Quiet Column_Edits
begin

text \<open>
  Who sees a board, who changes its visibility, and what its deletion takes along.
\<close>

section \<open>Reading\<close>

text \<open>\<open>seen\<close>: the rule of ListBoards for one row, over the gateway's answer about the caller.\<close>

definition seen :: "env \<Rightarrow> rel_tuple list \<Rightarrow> string \<Rightarrow> string \<Rightarrow> board_row \<Rightarrow> bool" where
  "seen e ts t s b \<longleftrightarrow> is_public_or_internal (b_visibility b)
     \<or> id_str (codec e) (b_id b) \<in> objects_of e ts t PERMISSION_TYPE_BOARD ''view'' s"

lemma quiet_counts [quiet_intros]:
  "quiet (fetch_columns_count b t)" "quiet (fetch_cards_count b t)" "quiet (fetch_board_columns b)" "quiet (with_counts x r)"
  unfolding fetch_columns_count_def fetch_cards_count_def fetch_board_columns_def with_counts_def
  by (intro quiet_intros)+

lemma quiet_list_boards: "quiet (list_boards ctx p)"
  unfolding list_boards_def by (intro quiet_intros)

lemma quiet_get_board: "quiet (get_board ctx b)"
  unfolding get_board_def by (intro quiet_intros)

lemma with_counts_id: "with_counts t b e w = (Inr m, w') \<Longrightarrow> bm_id m = id_str (codec e) (b_id b)"
  by (auto simp: with_counts_def ok_iffs board_from_row_def)

lemma each_with_counts:
  "each (with_counts t) bs e w = (Inr ms, w') \<Longrightarrow> map bm_id ms = map (id_str (codec e) \<circ> b_id) bs"
proof (induction bs arbitrary: ms w)
  case (Cons b bs)
  then show ?case by (auto simp: ok_iffs dest: with_counts_id)
qed (simp add: ok_iffs)

text \<open>
  C27. A private board is shown only to who may view it. ListBoards returns exactly the boards of the project that are
  public or internal, or on which the gateway lists the caller with \<open>view\<close>, oldest first; GetBoard returns
  a board only where it is public or internal or the gateway's check of \<open>view\<close> on it says yes. Both leave
  the database and the tuple store as they were.
\<close>

theorem board_reads_guarded:
  assumes "Option.bind (auth_ext ctx) auth_tenant_id = Some t" and "Option.bind (auth_ext ctx) auth_subject = Some s"
  shows "(\<forall>ms w'. list_boards ctx project e w = (Inr ms, w') \<longrightarrow>
      (\<exists>p. id_from_str (codec e) project = Inr p \<and>
         map bm_id ms = map (id_str (codec e) \<circ> b_id) (filter (seen e (tuples w) t s)
           (sort_rows (\<lambda>a b. dt_le (b_created a) (b_created b))
              (filter (\<lambda>b. b_tenant b = t \<and> b_project b = p) (boards (db w)))))
         \<and> db w' = db w \<and> tuples w' = tuples w))
    \<and> (\<forall>m cols w'. get_board ctx board e w = (Inr (m, cols), w') \<longrightarrow>
      (\<exists>i b. id_from_str (codec e) board = Inr i \<and> find_board i t (db w) = Some b \<and> bm_id m = id_str (codec e) (b_id b)
         \<and> (is_public_or_internal (b_visibility b)
              \<or> fga_check e (tuples w) t PERMISSION_TYPE_BOARD (id_str (codec e) i) ''view'' s)
         \<and> db w' = db w \<and> tuples w' = tuples w))"
proof (intro conjI allI impI)
  fix ms w'
  assume run: "list_boards ctx project e w = (Inr ms, w')"
  note quietD [OF quiet_list_boards run]
  moreover from run assms obtain p w1 w2 allowed w3 where p: "id_from_str (codec e) project = Inr p"
    and cl: "tenant_client_for ctx e w = (Inr t, w1)"
    and ex: "expand_objects t PERMISSION_TYPE_BOARD ''view'' s 10000 e (tick w1) = (Inr allowed, w2)"
    and ev: "each (with_counts t) (filter (\<lambda>b. is_public_or_internal (b_visibility b) \<or> id_str (codec e) (b_id b) \<in> allowed)
        (sort_rows (\<lambda>a b. dt_le (b_created a) (b_created b))
              (filter (\<lambda>b. b_tenant b = t \<and> b_project b = p) (boards (db w1))))) e w2 = (Inr ms, w')"
    unfolding list_boards_def by (auto simp: ok_iffs dest: tenant_client_is)
  moreover note quietD [OF quiet_request(4) cl] expand_objects_answer [OF ex] each_with_counts [OF ev]
  ultimately show "\<exists>p. id_from_str (codec e) project = Inr p \<and>
         map bm_id ms = map (id_str (codec e) \<circ> b_id) (filter (seen e (tuples w) t s)
           (sort_rows (\<lambda>a b. dt_le (b_created a) (b_created b))
              (filter (\<lambda>b. b_tenant b = t \<and> b_project b = p) (boards (db w)))))
         \<and> db w' = db w \<and> tuples w' = tuples w"
    by (auto simp: seen_def [abs_def])
next
  fix m cols w'
  assume run: "get_board ctx board e w = (Inr (m, cols), w')"
  note quietD [OF quiet_get_board run]
  moreover from run assms obtain i w1 b w2 where i: "id_from_str (codec e) board = Inr i"
    and cl: "tenant_client_for ctx e w = (Inr t, w1)" and b: "find_board i t (db w1) = Some b" "bm_id m = id_str (codec e) (b_id b)"
    and guard: "is_public_or_internal (b_visibility b)
      \<or> check_permission_with_retry t PERMISSION_TYPE_BOARD (id_str (codec e) i) ''view'' s e (tick w1) = (Inr True, w2)"
    unfolding get_board_def
    by (auto simp: ok_iffs board_from_row_def dest: tenant_client_is split: if_split_asm) blast
  moreover note quietD [OF quiet_request(4) cl]
  ultimately show "\<exists>i b. id_from_str (codec e) board = Inr i \<and> find_board i t (db w) = Some b \<and> bm_id m = id_str (codec e) (b_id b)
         \<and> (is_public_or_internal (b_visibility b)
              \<or> fga_check e (tuples w) t PERMISSION_TYPE_BOARD (id_str (codec e) i) ''view'' s)
         \<and> db w' = db w \<and> tuples w' = tuples w"
    by (auto dest: check_with_retry_answer)
qed

definition sample_viewer :: "nat \<Rightarrow> rel_tuple" where
  "sample_viewer i = \<lparr>tu_tenant = ''t'', tu_namespace = PERMISSION_TYPE_BOARD, tu_object = id_str crockford (sid i),
     tu_relation = ''view'', tu_subject = ''s''\<rparr>"

lemmas list_boards_evals = list_boards_def expand_objects_def list_objects_def strip_prefix_Some with_counts_def
  fetch_columns_count_def fetch_cards_count_def board_from_row_def sort_rows_def

lemma list_boards_runs:
  "\<exists>ms w'. list_boards (sample_context (sid 1)) (id_str crockford (sid 1)) sample_env
     ((sample_world sample_db)\<lparr>tuples := [sample_viewer 2]\<rparr>) = (Inr ms, w')"
  by (simp add: evals request_evals sample_evals list_boards_evals sample_viewer_def PERMISSION_TYPE_BOARD_def List.map_filter_def)

theorem board_reads_guarded_witness:
  "\<exists>ms w'. list_boards (sample_context (sid 1)) (id_str crockford (sid 1)) sample_env
     ((sample_world sample_db)\<lparr>tuples := [sample_viewer 2]\<rparr>) = (Inr ms, w') \<and> map bm_id ms = [id_str crockford (sid 2)]"
proof -
  let ?w = "(sample_world sample_db)\<lparr>tuples := [sample_viewer 2]\<rparr>"
  obtain ms w' where run: "list_boards (sample_context (sid 1)) (id_str crockford (sid 1)) sample_env ?w = (Inr ms, w')"
    using list_boards_runs by blast
  have ctx: "Option.bind (auth_ext (sample_context (sid 1))) auth_tenant_id = Some ''t''"
    "Option.bind (auth_ext (sample_context (sid 1))) auth_subject = Some ''s''" by (simp_all add: sample_context_def)
  have "sort_rows (\<lambda>a b. dt_le (b_created a) (b_created b))
      (filter (\<lambda>b. b_tenant b = ''t'' \<and> b_project b = sid 1) (boards (db ?w))) = [sample_board 2 1]"
    by (simp add: sample_db_def sample_board_def sort_rows_def)
  moreover have "seen sample_env (tuples ?w) ''t'' ''s'' (sample_board 2 1)"
    by (simp add: seen_def objects_of_def sample_viewer_def sample_board_def)
  ultimately show ?thesis
    using board_reads_guarded [OF ctx, where e = sample_env and project = "id_str crockford (sid 1)" and w = ?w] run
    by (simp add: crockford.id_from_str_show sample_board_def)
qed

section \<open>Changing the visibility\<close>

definition visibilities :: "db \<Rightarrow> (ident \<times> string \<times> string) list" where
  "visibilities d = map (\<lambda>b. (b_id b, b_tenant b, b_visibility b)) (boards d)"

lemma upholds_visibilities_event: "upholds (\<lambda>d. visibilities d = X) (insert_board_event t b ty p)"
  unfolding insert_board_event_def insert_row_def
  by (intro upholds_intros upholds_fetch_one upholds_exec)
    (auto simp: visibilities_def upd_rows_def bump_board_revision_def insert_event_sql_def pg_notify_def
      split: option.splits if_splits)

lemma upholds_visibilities_update:
  "upholds (\<lambda>d. visibilities d = X) (stmt (update_board_sql b t (apply_board_patch p False)))"
  by (rule upholds_stmt) (auto simp: visibilities_def update_board_sql_def upd_rows_def apply_board_patch_def)

lemma upholds_visibilities_tx: "upholds (\<lambda>d. visibilities d = X) (update_board_tx t b p False)"
  unfolding update_board_tx_def
  by (intro upholds_intros upholds_visibilities_event upholds_visibilities_update)

lemma keeps_counts [keeps_intros]: "keeps I (with_counts t b)"
  unfolding with_counts_def fetch_columns_count_def fetch_cards_count_def by (intro keeps_intros)

text \<open>
  C28. Only a manager of a board changes its visibility: whatever UpdateBoard is asked, and however it ends, all
  boards keep their visibility if the gateway's check of \<open>manage\<close> says no for the caller.
\<close>

theorem update_board_visibility_guarded:
  assumes ctx: "Option.bind (auth_ext ctx) auth_tenant_id = Some t" "Option.bind (auth_ext ctx) auth_subject = Some s"
    and board: "checked_ext ctx = Some i" "id_from_str (codec e) i = Inr b"
    and no: "\<not> fga_check e (tuples w) t PERMISSION_TYPE_BOARD (id_str (codec e) b) ''manage'' s"
  shows "visibilities (db (snd (update_board ctx patch update_mask e w))) = visibilities (db w)"
proof (cases "case update_mask of Some paths \<Rightarrow> ''visibility'' \<in> set paths | None \<Rightarrow> False")
  case False
  then have "keeps (\<lambda>d. visibilities d = X) (update_board ctx patch update_mask)" for X
    unfolding update_board_def Let_def by (intro keeps_intros | simp only: if_False upholds_visibilities_tx)+
  then show ?thesis unfolding keeps_def by blast
next
  case True
  let ?p = "case patch of Some p \<Rightarrow> p | None \<Rightarrow> \<lparr>bp_name = '''', bp_description = '''', bp_icon = '''', bp_visibility = 0\<rparr>"
  obtain r w1 where cl: "tenant_client_for ctx e w = (r, w1)" by fastforce
  note same = quietD [OF quiet_request(4) cl]
  show ?thesis
  proof (cases r)
    case (Inl x)
    then show ?thesis using ctx cl same
      by (simp add: update_board_def bnd_def subject_from_request_def tenant_id_from_request_def ok_or_def ret_def)
  next
    case (Inr c)
    then have c: "c = t" using cl ctx(1) tenant_client_is by fastforce
    obtain r2 w2 where ch: "check_permission_with_retry t PERMISSION_TYPE_BOARD (id_str (codec e) b) ''manage'' s e w1 = (r2, w2)"
      by fastforce
    note reads = check_with_retry_reads [OF ch]
    with no same have "r2 \<noteq> Inr True" by auto
    then show ?thesis using ctx board cl same True Inr c ch reads
      by (cases r2) (simp_all add: update_board_def bnd_def subject_from_request_def tenant_id_from_request_def ok_or_def ret_def
          checked_object_id_def parse_id_def ask_def Let_def internal_def map_err_def require_def raise_def)
  qed
qed

theorem update_board_visibility_guarded_witness:
  "let open = \<lparr>bp_name = '''', bp_description = '''', bp_icon = '''', bp_visibility = 3\<rparr>
   in visibilities (db (snd (update_board (sample_context (sid 2)) (Some open) (Some [''visibility'']) sample_env (sample_world sample_db))))
     = [(sid 2, ''t'', ''private''), (sid 8, ''t'', ''private'')]"
  unfolding Let_def
  by (subst update_board_visibility_guarded [where t = "''t''" and s = "''s''" and b = "sid 2" and i = "id_str crockford (sid 2)"])
    (simp_all add: sample_context_def crockford.id_from_str_show visibilities_def sample_db_def sample_board_def)

section \<open>Deletion\<close>

lemma insert_project_event_effect:
  assumes "insert_project_event t p ty payload e w = (Inr u, w')" and "tx_now w = Some now"
  shows "\<exists>i. db w' = log_event i t None None (Some p) ty payload now (db w) \<and> tx_now w' = Some now"
  using assms
  by (auto simp: insert_project_event_def insert_row_def ok_iffs insert_event_sql_def log_event_def sql_now_def
      pg_notify_def new_id_def split: if_split_asm)

text \<open>What the deletion of a board leaves of the tables.\<close>

definition without_board :: "ident \<Rightarrow> string \<Rightarrow> db \<Rightarrow> db \<Rightarrow> bool" where
  "without_board b t d d' \<longleftrightarrow>
     boards d' = filter (\<lambda>r. \<not> (b_id r = b \<and> b_tenant r = t)) (boards d)
     \<and> columns d' = filter (\<lambda>k. k_board k \<noteq> b) (columns d)
     \<and> cards d' = filter (\<lambda>c. c_board c \<noteq> b \<and> (\<forall>k \<in> set (columns d). k_board k = b \<longrightarrow> k_id k \<noteq> c_column c)) (cards d)
     \<and> aggregated_board_sources d' = filter (\<lambda>s. s_board s \<noteq> b) (aggregated_board_sources d)
     \<and> set (comments d') \<subseteq> set (comments d) \<and> projects d' = projects d \<and> milestones d' = milestones d \<and> labels d' = labels d"

lemma drop_cards_effect:
  assumes "drop_cards P d = Some d'"
  shows "cards d' = filter (\<lambda>c. \<not> P c) (cards d)" and "set (comments d') \<subseteq> set (comments d)"
    and "boards d' = boards d" "columns d' = columns d" "event_log d' = event_log d"
    "aggregated_board_sources d' = aggregated_board_sources d" "projects d' = projects d"
    "milestones d' = milestones d" "labels d' = labels d"
proof -
  define gone where "gone = c_id ` set (filter P (cards d))"
  from assms have "d' = d\<lparr>cards := del_rows P (cards d),
          card_labels := del_rows (\<lambda>r. cl_card r \<in> gone) (card_labels d),
          card_assignees := del_rows (\<lambda>r. a_card r \<in> gone) (card_assignees d),
          comments := del_rows (\<lambda>r. t_card r \<in> gone) (comments d),
          checklist_items := del_rows (\<lambda>r. i_card r \<in> gone) (checklist_items d),
          card_attachments := del_rows (\<lambda>r. f_card r \<in> gone) (card_attachments d),
          card_dependencies := del_rows (\<lambda>r. d_card r \<in> gone \<or> d_depends_on r \<in> gone) (card_dependencies d)\<rparr>"
    unfolding drop_cards_def Let_def gone_def [symmetric] by (simp split: if_split_asm)
  then show "cards d' = filter (\<lambda>c. \<not> P c) (cards d)" "set (comments d') \<subseteq> set (comments d)"
    "boards d' = boards d" "columns d' = columns d" "event_log d' = event_log d"
    "aggregated_board_sources d' = aggregated_board_sources d" "projects d' = projects d"
    "milestones d' = milestones d" "labels d' = labels d"
    by (auto simp: del_rows_def)
qed

lemma delete_board_sql_effect:
  assumes run: "delete_board_sql b t now d = Some (n, d')" and n: "n \<noteq> 0"
  shows "without_board b t d d' \<and> event_log d' = filter (\<lambda>r. e_board r \<noteq> Some b) (event_log d)"
proof -
  let ?P = "\<lambda>c. c_board c = b \<or> c_column c \<in> k_id ` set (filter (\<lambda>k. k_board k = b) (columns d))"
  from run n obtain d1 where d1: "drop_cards ?P d = Some d1"
    and d': "d' = d1\<lparr>boards := del_rows (board_key b t) (boards d1), columns := del_rows (\<lambda>k. k_board k = b) (columns d1),
      event_log := del_rows (\<lambda>r. e_board r = Some b) (event_log d1),
      aggregated_board_sources := del_rows (\<lambda>s. s_board s = b) (aggregated_board_sources d1)\<rparr>"
    unfolding delete_board_sql_def Let_def by (auto split: if_split_asm)
  note e = drop_cards_effect [OF d1]
  have "cards d1 = filter (\<lambda>c. c_board c \<noteq> b \<and> (\<forall>k \<in> set (columns d). k_board k = b \<longrightarrow> k_id k \<noteq> c_column c)) (cards d)"
    unfolding e(1) by (rule filter_cong) (auto simp: image_iff eq_commute [of "k_id _"])
  then show ?thesis using e(2) unfolding d' by (simp add: without_board_def del_rows_def board_key_def e(3-))
qed

text \<open>
  A successful DeleteBoard removes the board, its columns, every card on it or in one of its columns, its events and
  its places in aggregated boards, and no other board, column or card; the last event of the log is
  BoardDeleted, addressed to the project, so that it outlives the board.
\<close>

theorem delete_board_cascades:
  assumes run: "delete_board ctx e w = (Inr u, w')" and req: "board_request e ctx t b"
  shows "\<exists>row i now. find_board b t (db w) = Some row \<and> without_board b t (db w) (db w')
    \<and> event_log (db w') = filter (\<lambda>r. e_board r \<noteq> Some b) (event_log (db w))
        @ [\<lparr>e_id = i, e_tenant = t, e_board = None, e_aggregated = None, e_project = Some (b_project row),
            e_type = ''BoardDeleted'', e_payload = JObj [jstr ''project_id'' (id_str (codec e) (b_project row)),
              jstr ''board_id'' (id_str (codec e) b)], e_created = now, e_nats_seq = None\<rparr>]"
proof -
  from run req have tx: "in_tx (delete_board_tx t b) e w = (Inr u, w')"
    by (auto simp: delete_board_def ok_iffs board_request_def)
  have settled: "\<not> aborted w2" if "delete_board_tx t b e w1 = (Inr u, w2)" for w1 w2
    using that by (auto simp: delete_board_tx_def ok_iffs)
  have "\<exists>w0 w1. db w0 = db w \<and> tx_now w0 = Some (now_at e (step w)) \<and> aborted w0 = False
      \<and> delete_board_tx t b e w0 = (Inr u, w1) \<and> db w' = db w1"
    by (rule in_tx_run [OF tx]) (rule settled)
  then obtain w0 w1 where w: "db w0 = db w" "tx_now w0 = Some (now_at e (step w))"
    "delete_board_tx t b e w0 = (Inr u, w1)" "db w' = db w1" by blast
  from w(3) obtain row w2 n d3 where row: "find_board b t (db w0) = Some row"
    and ev: "insert_project_event t (b_project row) ''BoardDeleted'' (JObj [jstr ''project_id'' (id_str (codec e) (b_project row)),
              jstr ''board_id'' (id_str (codec e) b)]) e (tick w0) = (Inr (), w2)"
    and del: "delete_board_sql b t (sql_now e w2) (db w2) = Some (n, d3)" "n \<noteq> 0" and d3: "db w1 = d3"
    unfolding delete_board_tx_def by (auto simp: ok_iffs)
  obtain i where w2: "db w2 = log_event i t None None (Some (b_project row)) ''BoardDeleted''
      (JObj [jstr ''project_id'' (id_str (codec e) (b_project row)), jstr ''board_id'' (id_str (codec e) b)]) (now_at e (step w)) (db w)"
    using insert_project_event_effect [OF ev, of "now_at e (step w)"] w(1,2) by auto
  have "without_board b t (db w) (db w1)"
    using delete_board_sql_effect [OF del] unfolding d3 w2 by (simp add: without_board_def log_event_def)
  moreover have "event_log (db w1) = filter (\<lambda>r. e_board r \<noteq> Some b) (event_log (db w2))"
    using delete_board_sql_effect [OF del] d3 by simp
  ultimately show ?thesis using row w(1,4) unfolding w2 by (auto simp: log_event_def)
qed

lemma delete_board_runs:
  "\<exists>w'. delete_board (sample_context (sid 2)) sample_env (sample_world sample_db) = (Inr (), w')"
  by (simp add: evals request_evals sample_evals event_evals delete_board_def delete_board_tx_def find_board_def
      insert_project_event_def delete_board_sql_def drop_cards_def del_rows_def cnt_rows_def board_key_def)

theorem delete_board_cascades_witness:
  "\<exists>w'. delete_board (sample_context (sid 2)) sample_env (sample_world sample_db) = (Inr (), w')
     \<and> map b_id (boards (db w')) = [sid 8] \<and> map k_id (columns (db w')) = [sid 9] \<and> cards (db w') = []
     \<and> map e_type (event_log (db w')) = [''BoardDeleted'']"
proof -
  obtain w' where run: "delete_board (sample_context (sid 2)) sample_env (sample_world sample_db) = (Inr (), w')"
    using delete_board_runs by blast
  then show ?thesis
    using delete_board_cascades [OF run sample_board_request]
    by (auto simp: without_board_def sample_evals)
qed

end
