(* ===== verification/Registry.thy ===== *)
theory Registry
  imports Event_Payloads
begin

text \<open>
  \<open>src/realtime/registry.rs\<close>: live events of one board or project reach every subscription of this
  process over one shared channel. The registry maps a key to a channel with a count of its handles; the
  first subscriber opens the channel and a pump task that feeds it, the drop of the last handle removes
  it and aborts the pump. No lock is held across an await, so subscribe calls interleave: the step
  relation below has one step per locked section, and one for a pump that ends by itself.
\<close>

section \<open>State and operations\<close>

text \<open>A sender is identified with the pump task that feeds it.\<close>

record channel =
  sender :: nat
  refcount :: nat

text \<open>Where a call of \<open>subscribe_object\<close> is: before the read lock, between the two locks, in the slow path.\<close>

datatype call_phase = Checking | Joining | Opening

text \<open>\<open>exited\<close> are the pumps that ended by themselves; nothing in the code looks at them.\<close>

record registry =
  channels :: "string \<Rightarrow> channel option"
  pumps :: "nat list"
  exited :: "nat list"
  handles :: "(string \<times> nat) list"
  calls :: "(call_phase \<times> string) list"
  next_sender :: nat

definition registry_new :: registry where
  "registry_new = \<lparr>channels = (\<lambda>_. None), pumps = [], exited = [], handles = [], calls = [], next_sender = 0\<rparr>"

definition board_key_of :: "string \<Rightarrow> string" where
  "board_key_of i = ''board:'' @ i"

definition project_key_of :: "string \<Rightarrow> string" where
  "project_key_of i = ''project:'' @ i"

text \<open>The write-locked section of the fast path; \<open>None\<close> where the entry is gone.\<close>

definition join_channel :: "string \<Rightarrow> registry \<Rightarrow> registry option" where
  "join_channel key r = (case channels r key of
       None \<Rightarrow> None
     | Some ch \<Rightarrow> Some (r\<lparr>channels := (channels r)(key \<mapsto> ch\<lparr>refcount := refcount ch + 1\<rparr>),
                          handles := handles r @ [(key, sender ch)]\<rparr>))"

text \<open>
  The end of the slow path: the pump is spawned and the new channel put into the map. An entry that is
  already there is overwritten; dropping its \<open>JoinHandle\<close> detaches its pump, which goes on.
\<close>

definition insert_channel :: "string \<Rightarrow> registry \<Rightarrow> registry" where
  "insert_channel key r = r\<lparr>
     channels := (channels r)(key \<mapsto> \<lparr>sender = next_sender r, refcount = 1\<rparr>),
     pumps := pumps r @ [next_sender r],
     handles := handles r @ [(key, next_sender r)],
     next_sender := Suc (next_sender r)\<rparr>"

definition decrement_refcount :: "string \<Rightarrow> registry \<Rightarrow> registry" where
  "decrement_refcount key r = (case channels r key of
       None \<Rightarrow> r
     | Some ch \<Rightarrow>
         let n = refcount ch - 1 in
         if n = 0 then r\<lparr>channels := (channels r)(key := None), pumps := removeAll (sender ch) (pumps r)\<rparr>
         else r\<lparr>channels := (channels r)(key \<mapsto> ch\<lparr>refcount := n\<rparr>)\<rparr>)"

definition drop_handle :: "string \<times> nat \<Rightarrow> registry \<Rightarrow> registry" where
  "drop_handle h r = decrement_refcount (fst h) (r\<lparr>handles := remove1 h (handles r)\<rparr>)"

text \<open>The pump: what it broadcasts for the messages (or receive errors) of its consumer.\<close>

definition pump_message :: "('a \<Rightarrow> envelope option) \<Rightarrow> 'e + 'a \<times> nat option \<Rightarrow> envelope option" where
  "pump_message decode m = (case m of
       Inl _ \<Rightarrow> None
     | Inr (bytes, info) \<Rightarrow> map_option (\<lambda>env. case info of Some n \<Rightarrow> env\<lparr>ev_nats_seq := int n\<rparr> | None \<Rightarrow> env) (decode bytes))"

definition pump :: "('a \<Rightarrow> envelope option) \<Rightarrow> ('e + 'a \<times> nat option) list \<Rightarrow> envelope list" where
  "pump decode ms = List.map_filter (pump_message decode) ms"

section \<open>Interleaving\<close>

definition proceed :: "call_phase \<Rightarrow> call_phase \<Rightarrow> string \<Rightarrow> registry \<Rightarrow> registry" where
  "proceed p q key r = r\<lparr>calls := remove1 (p, key) (calls r) @ [(q, key)]\<rparr>"

definition finish :: "call_phase \<Rightarrow> string \<Rightarrow> registry \<Rightarrow> registry" where
  "finish p key r = r\<lparr>calls := remove1 (p, key) (calls r)\<rparr>"

text \<open>
  The pump returns because \<open>consumer.messages()\<close> failed or because the message stream ended; the channel stays in the map.
\<close>

definition pump_exit :: "nat \<Rightarrow> registry \<Rightarrow> registry" where
  "pump_exit p r = r\<lparr>pumps := removeAll p (pumps r), exited := exited r @ [p]\<rparr>"

inductive reg_step :: "registry \<Rightarrow> registry \<Rightarrow> bool" where
  call: "reg_step r (r\<lparr>calls := calls r @ [(Checking, key)]\<rparr>)"
| found: "(Checking, key) \<in> set (calls r) \<Longrightarrow> channels r key \<noteq> None \<Longrightarrow> reg_step r (proceed Checking Joining key r)"
| absent: "(Checking, key) \<in> set (calls r) \<Longrightarrow> channels r key = None \<Longrightarrow> reg_step r (proceed Checking Opening key r)"
| join: "(Joining, key) \<in> set (calls r) \<Longrightarrow> join_channel key (finish Joining key r) = Some r' \<Longrightarrow> reg_step r r'"
| gone: "(Joining, key) \<in> set (calls r) \<Longrightarrow> join_channel key (finish Joining key r) = None \<Longrightarrow>
    reg_step r (proceed Joining Opening key r)"
| opened: "(Opening, key) \<in> set (calls r) \<Longrightarrow> reg_step r (insert_channel key (finish Opening key r))"
| failed: "(Opening, key) \<in> set (calls r) \<Longrightarrow> reg_step r (finish Opening key r)"
| dropped: "h \<in> set (handles r) \<Longrightarrow> reg_step r (drop_handle h r)"
| pump_ended: "p \<in> set (pumps r) \<Longrightarrow> reg_step r (pump_exit p r)"

definition reg_reachable :: "registry \<Rightarrow> bool" where
  "reg_reachable r \<longleftrightarrow> reg_step\<^sup>*\<^sup>* registry_new r"

text \<open>Runs in which no two calls are in the slow path of one key at a time.\<close>

definition solo_step :: "registry \<Rightarrow> registry \<Rightarrow> bool" where
  "solo_step r r' \<longleftrightarrow> reg_step r r' \<and> (\<forall>key. count_list (calls r') (Opening, key) \<le> 1)"

inductive_cases reg_stepE: "reg_step r r'"

section \<open>Every interleaving\<close>

definition served :: "string \<Rightarrow> registry \<Rightarrow> nat" where
  "served key r = length (filter (\<lambda>h. fst h = key) (handles r))"

definition reg_inv :: "registry \<Rightarrow> bool" where
  "reg_inv r \<longleftrightarrow>
     (\<forall>key ch. channels r key = Some ch \<longrightarrow> 1 \<le> refcount ch \<and> refcount ch \<le> served key r
        \<and> (sender ch \<in> set (pumps r) \<or> sender ch \<in> set (exited r)) \<and> sender ch < next_sender r)
     \<and> (\<forall>k1 k2 c1 c2. channels r k1 = Some c1 \<longrightarrow> channels r k2 = Some c2 \<longrightarrow> sender c1 = sender c2 \<longrightarrow> k1 = k2)
     \<and> (\<forall>p \<in> set (pumps r). p < next_sender r \<and> p \<notin> set (exited r)) \<and> (\<forall>p \<in> set (exited r). p < next_sender r)"

lemma reg_invD:
  assumes "reg_inv r" and "channels r key = Some ch"
  shows "1 \<le> refcount ch" "refcount ch \<le> served key r" "sender ch \<in> set (pumps r) \<or> sender ch \<in> set (exited r)" "sender ch < next_sender r"
  using assms unfolding reg_inv_def by blast+

lemma reg_inv_calls: "reg_inv (r\<lparr>calls := cs\<rparr>) = reg_inv r" "served key (r\<lparr>calls := cs\<rparr>) = served key r"
  by (simp_all add: reg_inv_def served_def)

lemma filter_remove1_len:
  "length (filter P (remove1 x xs)) = (if x \<in> set xs \<and> P x then length (filter P xs) - 1 else length (filter P xs))"
  by (simp add: filter_remove1 length_remove1)

lemma served_drop:
  assumes "h \<in> set (handles r)"
  shows "served key (r\<lparr>handles := remove1 h (handles r)\<rparr>) = (if fst h = key then served key r - 1 else served key r)"
    and "1 \<le> served (fst h) r"
  using assms by (auto simp: served_def filter_remove1_len Suc_le_eq filter_empty_conv)

lemma reg_inv_join: "reg_inv r \<Longrightarrow> join_channel key r = Some r' \<Longrightarrow> reg_inv r'"
  by (auto simp: reg_inv_def join_channel_def served_def split: option.splits if_splits) blast+

lemma reg_inv_insert: "reg_inv r \<Longrightarrow> reg_inv (insert_channel key r)"
  by (auto simp: reg_inv_def insert_channel_def served_def le_SucI less_SucI split: if_splits) (metis less_irrefl)+

lemma reg_inv_drop:
  assumes inv: "reg_inv r" and h: "h \<in> set (handles r)"
  shows "reg_inv (drop_handle h r)"
proof (cases "channels r (fst h)")
  case None
  have "served key (r\<lparr>handles := remove1 h (handles r)\<rparr>) = served key r" if "channels r key = Some ch" for key ch
    using served_drop(1) [OF h, of key] None that by auto
  then show ?thesis using inv None
    by (auto simp: drop_handle_def decrement_refcount_def reg_inv_def)
next
  case (Some ch)
  note d = reg_invD [OF inv Some]
  note s = served_drop [OF h]
  show ?thesis
  proof (cases "refcount ch - 1 = 0")
    case True
    then have "drop_handle h r = r\<lparr>handles := remove1 h (handles r), channels := (channels r)(fst h := None),
        pumps := removeAll (sender ch) (pumps r)\<rparr>"
      using Some by (simp add: drop_handle_def decrement_refcount_def Let_def)
    moreover have "served key (r\<lparr>handles := remove1 h (handles r), channels := X, pumps := Y\<rparr>) = served key r"
      if "key \<noteq> fst h" for key X Y
      using s(1) [of key] that by (simp add: served_def)
    ultimately show ?thesis using inv Some unfolding reg_inv_def by (auto split: if_splits)
  next
    case False
    then have eq: "drop_handle h r = r\<lparr>handles := remove1 h (handles r), channels := (channels r)(fst h \<mapsto> ch\<lparr>refcount := refcount ch - 1\<rparr>)\<rparr>"
      using Some by (simp add: drop_handle_def decrement_refcount_def Let_def)
    have sv: "served key (r\<lparr>handles := remove1 h (handles r), channels := X\<rparr>) =
        (if fst h = key then served key r - 1 else served key r)" for key X
      using s(1) [of key] by (simp add: served_def)
    show ?thesis unfolding eq reg_inv_def using inv d False sv
      by (auto simp: reg_inv_def Some diff_le_mono split: if_splits)
  qed
qed

lemma reg_inv_exit: "reg_inv r \<Longrightarrow> p \<in> set (pumps r) \<Longrightarrow> reg_inv (pump_exit p r)"
  by (fastforce simp: reg_inv_def pump_exit_def served_def)

lemma reg_inv_step: "reg_step r r' \<Longrightarrow> reg_inv r \<Longrightarrow> reg_inv r'"
  by (induction rule: reg_step.induct)
    (auto simp: proceed_def finish_def reg_inv_calls intro: reg_inv_insert reg_inv_drop reg_inv_exit reg_inv_join [rotated])

lemma reg_inv_reachable: "reg_reachable r \<Longrightarrow> reg_inv r"
  unfolding reg_reachable_def
proof (induction rule: rtranclp_induct)
  case base
  show ?case by (simp add: reg_inv_def registry_new_def)
qed (rule reg_inv_step)

section \<open>Runs without a race\<close>

definition channel_inv :: "registry \<Rightarrow> bool" where
  "channel_inv r \<longleftrightarrow> reg_inv r
     \<and> (\<forall>key. served key r = (case channels r key of None \<Rightarrow> 0 | Some ch \<Rightarrow> refcount ch))
     \<and> (\<forall>h \<in> set (handles r). \<exists>ch. channels r (fst h) = Some ch \<and> sender ch = snd h)
     \<and> (\<forall>p \<in> set (pumps r). \<exists>key ch. channels r key = Some ch \<and> sender ch = p)"

definition opening_inv :: "registry \<Rightarrow> bool" where
  "opening_inv r \<longleftrightarrow> (\<forall>key. (Opening, key) \<in> set (calls r) \<longrightarrow> channels r key = None)
     \<and> (\<forall>key. count_list (calls r) (Opening, key) \<le> 1)"

lemma channel_inv_calls [simp]: "channel_inv (r\<lparr>calls := cs\<rparr>) = channel_inv r"
  by (simp add: channel_inv_def reg_inv_calls)

lemma served_snoc: "served key (r\<lparr>handles := handles r @ [h]\<rparr>) = served key r + of_bool (fst h = key)"
  by (simp add: served_def)

lemma served_only: "handles r = handles r' \<Longrightarrow> served key r = served key r'"
  by (simp add: served_def)

lemma served_0: "served key r = 0 \<longleftrightarrow> (\<forall>h \<in> set (handles r). fst h \<noteq> key)"
  by (auto simp: served_def filter_empty_conv)

lemma channel_inv_join:
  assumes inv: "channel_inv r" and run: "join_channel key r = Some r'"
  shows "channel_inv r'"
proof -
  from run obtain ch where ch: "channels r key = Some ch"
    and r': "r' = r\<lparr>channels := (channels r)(key \<mapsto> ch\<lparr>refcount := refcount ch + 1\<rparr>), handles := handles r @ [(key, sender ch)]\<rparr>"
    by (auto simp: join_channel_def split: option.splits)
  have sv: "served k r' = served k r + of_bool (k = key)" for k by (auto simp: r' served_def)
  have chans: "channels r' = (channels r)(key \<mapsto> ch\<lparr>refcount := refcount ch + 1\<rparr>)" by (simp add: r')
  have "reg_inv r'" using reg_inv_join [OF _ run] inv by (simp add: channel_inv_def)
  moreover have "served k r' = (case channels r' k of None \<Rightarrow> 0 | Some c \<Rightarrow> refcount c)" for k
    using inv ch unfolding sv chans channel_inv_def by auto
  moreover have "\<exists>c. channels r' (fst h) = Some c \<and> sender c = snd h" if "h \<in> set (handles r')" for h
    using that inv ch by (fastforce simp: r' channel_inv_def)
  moreover have "\<exists>k c. channels r' k = Some c \<and> sender c = p" if "p \<in> set (pumps r')" for p
  proof -
    from that inv obtain k c where "channels r k = Some c" "sender c = p" by (auto simp: r' channel_inv_def)
    then show ?thesis using ch by (cases "k = key") (auto simp: r')
  qed
  ultimately show ?thesis by (simp add: channel_inv_def)
qed

lemma channel_inv_insert:
  assumes inv: "channel_inv r" and none: "channels r key = None"
  shows "channel_inv (insert_channel key r)"
proof -
  let ?r = "insert_channel key r"
  have sv: "served k ?r = served k r + of_bool (k = key)" for k by (auto simp: insert_channel_def served_def)
  have chans: "channels ?r = (channels r)(key \<mapsto> \<lparr>sender = next_sender r, refcount = 1\<rparr>)" by (simp add: insert_channel_def)
  have "reg_inv ?r" using inv reg_inv_insert by (simp add: channel_inv_def)
  moreover have "served k ?r = (case channels ?r k of None \<Rightarrow> 0 | Some c \<Rightarrow> refcount c)" for k
    using inv none unfolding sv chans channel_inv_def by auto
  moreover have "\<exists>c. channels ?r (fst h) = Some c \<and> sender c = snd h" if "h \<in> set (handles ?r)" for h
    using that inv none by (fastforce simp: insert_channel_def channel_inv_def)
  moreover have "\<exists>k c. channels ?r k = Some c \<and> sender c = p" if p: "p \<in> set (pumps ?r)" for p
  proof -
    consider "p = next_sender r" | "p \<in> set (pumps r)" using p by (auto simp: insert_channel_def)
    then show ?thesis
    proof cases
      case 2
      then obtain k c where "channels r k = Some c" "sender c = p" using inv by (auto simp: channel_inv_def)
      then show ?thesis using none by (intro exI [of _ k] exI [of _ c]) (auto simp: insert_channel_def)
    qed (auto simp: insert_channel_def)
  qed
  ultimately show ?thesis by (simp add: channel_inv_def)
qed

lemma channel_inv_drop:
  assumes inv: "channel_inv r" and h: "h \<in> set (handles r)"
  shows "channel_inv (drop_handle h r)"
proof -
  let ?r = "drop_handle h r"
  from inv h obtain ch where ch: "channels r (fst h) = Some ch" "sender ch = snd h" by (auto simp: channel_inv_def)
  have reg: "reg_inv r" using inv by (simp add: channel_inv_def)
  have n: "served (fst h) r = refcount ch" using inv ch(1) by (simp add: channel_inv_def)
  have sv: "served k ?r = (if fst h = k then served k r - 1 else served k r)" for k
  proof -
    have "handles ?r = remove1 h (handles r)"
      by (simp add: drop_handle_def decrement_refcount_def Let_def split: option.split)
    then show ?thesis using served_drop(1) [OF h, of k] served_only [of ?r "r\<lparr>handles := remove1 h (handles r)\<rparr>" k] by simp
  qed
  have "reg_inv ?r" by (rule reg_inv_drop [OF reg h])
  moreover have chans: "channels ?r = (channels r)(fst h := if refcount ch = 1 then None else Some (ch\<lparr>refcount := refcount ch - 1\<rparr>))"
    using ch reg_invD(1) [OF reg ch(1)]
    by (auto simp: drop_handle_def decrement_refcount_def Let_def)
  moreover have "served k ?r = (case channels ?r k of None \<Rightarrow> 0 | Some c \<Rightarrow> refcount c)" for k
    using inv n ch by (auto simp: sv chans channel_inv_def)
  moreover have "\<exists>c. channels ?r (fst g) = Some c \<and> sender c = snd g" if g: "g \<in> set (handles ?r)" for g
  proof -
    have "handles ?r = remove1 h (handles r)"
      by (simp add: drop_handle_def decrement_refcount_def Let_def split: option.split)
    then have g': "g \<in> set (handles r)" using g by (auto dest: set_remove1_subset [THEN subsetD])
    then obtain c where c: "channels r (fst g) = Some c" "sender c = snd g" using inv by (auto simp: channel_inv_def)
    show ?thesis
    proof (cases "fst g = fst h")
      case True
      have "served (fst h) ?r \<noteq> 0" using g True by (auto simp: served_0)
      then have "refcount ch \<noteq> 1" using sv [of "fst h"] n by simp
      then show ?thesis using True c ch by (simp add: chans)
    qed (use c in \<open>simp add: chans\<close>)
  qed
  moreover have "\<exists>k c. channels ?r k = Some c \<and> sender c = p" if p: "p \<in> set (pumps ?r)" for p
  proof -
    have pumps: "pumps ?r = (if refcount ch = 1 then removeAll (sender ch) (pumps r) else pumps r)"
      using ch reg_invD(1) [OF reg ch(1)] by (auto simp: drop_handle_def decrement_refcount_def Let_def)
    then have p': "p \<in> set (pumps r)" "refcount ch = 1 \<Longrightarrow> p \<noteq> sender ch" using p by (auto split: if_splits)
    then obtain k c where k: "channels r k = Some c" "sender c = p" using inv by (auto simp: channel_inv_def)
    show ?thesis
    proof (cases "k = fst h")
      case True
      then have "refcount ch \<noteq> 1" using k ch p'(2) by auto
      then show ?thesis using True k ch by (intro exI [of _ k]) (simp add: chans)
    qed (use k in \<open>auto simp: chans\<close>)
  qed
  ultimately show ?thesis by (simp add: channel_inv_def)
qed

lemma channel_inv_exit: "channel_inv r \<Longrightarrow> p \<in> set (pumps r) \<Longrightarrow> channel_inv (pump_exit p r)"
  using reg_inv_exit [of r p] by (auto simp: channel_inv_def pump_exit_def served_def)

lemma count_list_remove1: "count_list xs x \<le> 1 \<Longrightarrow> x \<notin> set (remove1 x xs)"
  by (induction xs) (auto simp: count_list_0_iff [symmetric])

lemma opening_inv_step:
  assumes "reg_step r r'" and "opening_inv r" and "\<forall>key. count_list (calls r') (Opening, key) \<le> 1"
  shows "opening_inv r'"
proof -
  have "channels r' key = None" if key: "(Opening, key) \<in> set (calls r')" for key
    using assms(1)
  proof (cases rule: reg_step.cases)
    case (join k)
    then have "(Opening, key) \<in> set (calls r)" using key
      by (auto simp: join_channel_def finish_def split: option.splits dest: set_remove1_subset [THEN subsetD])
    then show ?thesis using join assms(2)
      by (auto simp: join_channel_def finish_def opening_inv_def split: option.splits)
  next
    case (opened k)
    have one: "count_list (calls r) (Opening, k) \<le> 1" using assms(2) by (simp add: opening_inv_def)
    have "(Opening, key) \<in> set (remove1 (Opening, k) (calls r))" using key opened by (simp add: insert_channel_def finish_def)
    moreover have "(Opening, k) \<notin> set (remove1 (Opening, k) (calls r))"
      using one by (rule count_list_remove1)
    ultimately have "key \<noteq> k" "(Opening, key) \<in> set (calls r)" by (auto dest: set_remove1_subset [THEN subsetD])
    then show ?thesis using opened assms(2) by (simp add: insert_channel_def finish_def opening_inv_def)
  next
    case (dropped h)
    then have "(Opening, key) \<in> set (calls r)" using key
      by (simp add: drop_handle_def decrement_refcount_def Let_def split: option.splits if_splits)
    then show ?thesis using dropped assms(2)
      by (auto simp: drop_handle_def decrement_refcount_def Let_def opening_inv_def split: option.splits if_splits)
  qed (use key assms(2) in \<open>auto simp: pump_exit_def proceed_def finish_def join_channel_def opening_inv_def
      split: option.splits dest: set_remove1_subset [THEN subsetD]\<close>)
  then show ?thesis using assms(3) by (simp add: opening_inv_def)
qed

lemma channel_inv_step:
  assumes "reg_step r r'" and "opening_inv r" and inv: "channel_inv r"
  shows "channel_inv r'"
  using assms(1)
proof (cases rule: reg_step.cases)
  case (join key)
  then show ?thesis using channel_inv_join [of "finish Joining key r"] inv by (simp add: finish_def)
next
  case (opened key)
  then show ?thesis using channel_inv_insert [of "finish Opening key r" key] inv assms(2)
    by (simp add: finish_def opening_inv_def)
next
  case (dropped h)
  then show ?thesis using channel_inv_drop inv by simp
next
  case (pump_ended p)
  then show ?thesis using channel_inv_exit inv by simp
qed (use inv in \<open>simp_all add: proceed_def finish_def\<close>)

lemma solo_invariants:
  "solo_step\<^sup>*\<^sup>* registry_new r \<Longrightarrow> opening_inv r \<and> channel_inv r"
proof (induction rule: rtranclp_induct)
  case base
  show ?case by (simp add: opening_inv_def channel_inv_def reg_inv_def registry_new_def served_def)
next
  case (step r r')
  then show ?case using opening_inv_step channel_inv_step unfolding solo_step_def by blast
qed

text \<open>
  Whatever calls of subscribe, drops of handles and ends of pumps interleave: a channel in the map has a positive count
  that never exceeds its live handles, its pump runs unless it ended by itself, and no two keys share one; so the count
  never underflows, and a key without handles has no channel. A board and a project never share a key.
\<close>

theorem registry_counts:
  assumes "reg_reachable r" and "channels r key = Some ch"
  shows "1 \<le> refcount ch \<and> refcount ch \<le> served key r \<and> (sender ch \<in> set (pumps r) \<or> sender ch \<in> set (exited r))
      \<and> (\<forall>key' ch'. channels r key' = Some ch' \<longrightarrow> sender ch' = sender ch \<longrightarrow> key' = key)
      \<and> board_key_of i \<noteq> project_key_of j"
  using reg_inv_reachable [OF assms(1)] assms(2) unfolding reg_inv_def
  by (auto simp: board_key_of_def project_key_of_def)

text \<open>
  C14. As long as no two calls are in the slow path of one key at a time, every live handle receives from the one
  channel of its key, the count of a channel is exactly the number of its handles, and a key has a channel exactly while it
  has handles. The pumps that run are those of the channels in the map, but for the pumps that ended by themselves
  (the consumer's messages could not be opened, or their stream ended): so a handle is served exactly while the
  pump of its channel has not ended, and a pump that has ended is not replaced while its key has handles.
\<close>

theorem registry_serves:
  assumes "solo_step\<^sup>*\<^sup>* registry_new r"
  shows "(\<forall>h \<in> set (handles r). channels r (fst h) = Some \<lparr>sender = snd h, refcount = served (fst h) r\<rparr>
          \<and> (snd h \<in> set (pumps r) \<longleftrightarrow> snd h \<notin> set (exited r)))
      \<and> (\<forall>key. served key r = 0 \<longleftrightarrow> channels r key = None)
      \<and> set (pumps r) = {sender ch | key ch. channels r key = Some ch} - set (exited r)
      \<and> (\<forall>r' key ch ch'. solo_step r r' \<longrightarrow> channels r key = Some ch \<longrightarrow> channels r' key = Some ch' \<longrightarrow> sender ch' = sender ch)"
proof (intro conjI ballI allI impI)
  from assms have inv: "channel_inv r" and op: "opening_inv r" and reg: "reg_inv r" using solo_invariants by (auto simp: channel_inv_def)
  show "set (pumps r) = {sender ch | key ch. channels r key = Some ch} - set (exited r)"
  proof (intro set_eqI iffI)
    fix p
    assume "p \<in> set (pumps r)"
    then show "p \<in> {sender ch | key ch. channels r key = Some ch} - set (exited r)"
      using inv reg by (fastforce simp: channel_inv_def reg_inv_def)
  next
    fix p
    assume "p \<in> {sender ch | key ch. channels r key = Some ch} - set (exited r)"
    then show "p \<in> set (pumps r)" using reg_invD(3) [OF reg] by blast
  qed
  show "served key r = 0 \<longleftrightarrow> channels r key = None" for key
  proof (cases "channels r key")
    case (Some ch)
    then show ?thesis using reg_invD(1,2) [OF reg Some] by simp
  qed (use inv in \<open>simp add: channel_inv_def\<close>)
  show "sender ch' = sender ch" if "solo_step r r'" "channels r key = Some ch" "channels r' key = Some ch'" for r' key ch ch'
    using that op unfolding solo_step_def
    by (elim conjE reg_stepE) (auto simp: proceed_def finish_def join_channel_def insert_channel_def drop_handle_def
      decrement_refcount_def pump_exit_def opening_inv_def Let_def split: option.splits if_splits)
  fix h
  assume h: "h \<in> set (handles r)"
  from inv h obtain ch where ch: "channels r (fst h) = Some ch" "sender ch = snd h" by (auto simp: channel_inv_def)
  moreover have "served (fst h) r = refcount ch" using inv ch(1) by (simp add: channel_inv_def)
  ultimately show "channels r (fst h) = Some \<lparr>sender = snd h, refcount = served (fst h) r\<rparr>" by simp
  show "snd h \<in> set (pumps r) \<longleftrightarrow> snd h \<notin> set (exited r)"
    using reg reg_invD(3) [OF reg ch(1)] ch(2) by (auto simp: reg_inv_def)
qed

section \<open>The race of two first subscribers\<close>

definition two_calls :: "string \<Rightarrow> registry" where
  "two_calls key = \<lparr>channels = (\<lambda>_. None), pumps = [], exited = [], handles = [], calls = [(Opening, key), (Opening, key)], next_sender = 0\<rparr>"

lemma two_calls_reachable: "reg_reachable (two_calls key)"
proof -
  let ?r1 = "registry_new\<lparr>calls := [(Checking, key)]\<rparr>"
  let ?r2 = "registry_new\<lparr>calls := [(Checking, key), (Checking, key)]\<rparr>"
  have "reg_step registry_new ?r1" using reg_step.call [of registry_new key] by (simp add: registry_new_def)
  moreover have "reg_step ?r1 ?r2" using reg_step.call [of ?r1 key] by (simp add: registry_new_def)
  moreover have "reg_step ?r2 (proceed Checking Opening key ?r2)"
    by (rule reg_step.absent) (simp_all add: registry_new_def)
  moreover have "reg_step (proceed Checking Opening key ?r2) (two_calls key)"
    using reg_step.absent [of key "proceed Checking Opening key ?r2"]
    by (simp add: proceed_def registry_new_def two_calls_def)
  ultimately show ?thesis unfolding reg_reachable_def by (meson rtranclp.rtrancl_into_rtrancl rtranclp.rtrancl_refl)
qed

lemma reg_reachable_step: "reg_reachable r \<Longrightarrow> reg_step r r' \<Longrightarrow> reg_reachable r'"
  unfolding reg_reachable_def by (rule rtranclp.rtrancl_into_rtrancl)

text \<open>
  Two first subscribers of one key that are in the slow path together break this: the second channel overwrites
  the first, so that dropping the first handle removes the channel and aborts the pump of the second, which
  stays subscribed and gets no event any more; and when both are gone the pump of the first runs on for ever.
\<close>

theorem registry_race:
  "\<exists>r1 r2. reg_reachable r1 \<and> handles r1 = [(key, 1)] \<and> 1 \<notin> set (pumps r1) \<and> channels r1 key = None
     \<and> reg_reachable r2 \<and> handles r2 = [] \<and> calls r2 = [] \<and> pumps r2 = [0]"
proof -
  define a where "a = insert_channel key (finish Opening key (two_calls key))"
  define b where "b = insert_channel key (finish Opening key a)"
  define c where "c = drop_handle (key, 0) b"
  have "reg_reachable a" unfolding a_def
    by (rule reg_reachable_step [OF two_calls_reachable reg_step.opened]) (simp add: two_calls_def)
  then have "reg_reachable b" unfolding b_def
    by (rule reg_reachable_step [OF _ reg_step.opened]) (simp add: a_def two_calls_def insert_channel_def finish_def)
  then have c: "reg_reachable c" unfolding c_def
    by (rule reg_reachable_step [OF _ reg_step.dropped]) (simp add: a_def b_def two_calls_def insert_channel_def finish_def)
  moreover have fields: "handles c = [(key, 1)]" "pumps c = [0]" "channels c key = None" "calls c = []"
    by (simp_all add: a_def b_def c_def two_calls_def insert_channel_def finish_def drop_handle_def decrement_refcount_def)
  moreover have "reg_reachable (drop_handle (key, 1) c)"
    by (rule reg_reachable_step [OF c reg_step.dropped]) (simp add: fields)
  moreover have "handles (drop_handle (key, 1) c) = [] \<and> pumps (drop_handle (key, 1) c) = [0] \<and> calls (drop_handle (key, 1) c) = []"
    by (simp add: drop_handle_def decrement_refcount_def fields)
  ultimately show ?thesis by (intro exI [of _ c] exI [of _ "drop_handle (key, 1) c"]) simp
qed

section \<open>Witnesses\<close>

text \<open>One subscriber of a board.\<close>

definition one_handle :: registry where
  "one_handle = insert_channel ''board:1'' registry_new"

lemma one_handle_solo: "solo_step\<^sup>*\<^sup>* registry_new one_handle"
proof -
  let ?r1 = "registry_new\<lparr>calls := [(Checking, ''board:1'')]\<rparr>"
  let ?r2 = "registry_new\<lparr>calls := [(Opening, ''board:1'')]\<rparr>"
  have "reg_step registry_new ?r1" using reg_step.call [of registry_new "''board:1''"] by (simp add: registry_new_def)
  then have "solo_step registry_new ?r1" by (simp add: solo_step_def)
  moreover have "reg_step ?r1 ?r2"
    using reg_step.absent [of "''board:1''" ?r1] by (simp add: proceed_def registry_new_def)
  then have "solo_step ?r1 ?r2" by (simp add: solo_step_def)
  moreover have "reg_step ?r2 one_handle"
    using reg_step.opened [of "''board:1''" ?r2] by (simp add: finish_def registry_new_def one_handle_def insert_channel_def)
  then have "solo_step ?r2 one_handle" by (simp add: solo_step_def one_handle_def insert_channel_def registry_new_def)
  ultimately show ?thesis by (meson rtranclp.rtrancl_into_rtrancl rtranclp.rtrancl_refl)
qed

theorem registry_serves_witness:
  "handles one_handle = [(''board:1'', 0)] \<and> channels one_handle ''board:1'' = Some \<lparr>sender = 0, refcount = 1\<rparr>
     \<and> 0 \<in> set (pumps one_handle)"
  using registry_serves [OF one_handle_solo] by (simp add: one_handle_def insert_channel_def registry_new_def served_def)

text \<open>
  When the pump of a channel has ended, the channel stays and is joined: its first handle and every later one get no
  event, and nothing opens a new consumer for the key.
\<close>

lemma dead_pump_joined:
  "\<exists>r. solo_step\<^sup>*\<^sup>* registry_new r \<and> handles r = [(''board:1'', 0), (''board:1'', 0)] \<and> calls r = [] \<and> pumps r = []
    \<and> channels r ''board:1'' = Some \<lparr>sender = 0, refcount = 2\<rparr>"
proof -
  let ?k = "''board:1''"
  let ?r1 = "pump_exit 0 one_handle"
  let ?r2 = "?r1\<lparr>calls := [(Checking, ?k)]\<rparr>"
  let ?r3 = "?r1\<lparr>calls := [(Joining, ?k)]\<rparr>"
  let ?r4 = "?r1\<lparr>channels := (channels ?r1)(?k \<mapsto> \<lparr>sender = 0, refcount = 2\<rparr>), handles := [(?k, 0), (?k, 0)]\<rparr>"
  note defs = one_handle_def insert_channel_def registry_new_def pump_exit_def finish_def proceed_def join_channel_def
  have "reg_step one_handle ?r1" by (rule reg_step.pump_ended) (simp add: defs)
  then have "solo_step one_handle ?r1" by (simp add: solo_step_def defs)
  moreover have "reg_step ?r1 ?r2" using reg_step.call [of ?r1 ?k] by (simp add: defs)
  then have "solo_step ?r1 ?r2" by (simp add: solo_step_def)
  moreover have "reg_step ?r2 ?r3" using reg_step.found [of ?k ?r2] by (simp add: defs)
  then have "solo_step ?r2 ?r3" by (simp add: solo_step_def)
  moreover have "reg_step ?r3 ?r4" by (rule reg_step.join [of ?k]) (simp_all add: defs numeral_2_eq_2)
  then have "solo_step ?r3 ?r4" by (simp add: solo_step_def defs)
  ultimately have "solo_step\<^sup>*\<^sup>* registry_new ?r4"
    using one_handle_solo by (meson rtranclp.rtrancl_into_rtrancl)
  then show ?thesis by (intro exI [of _ ?r4]) (simp add: defs)
qed

theorem registry_counts_witness:
  "\<exists>ch. channels one_handle ''board:1'' = Some ch \<and> 1 \<le> refcount ch \<and> refcount ch \<le> 1 \<and> sender ch \<in> set (pumps one_handle)"
proof -
  have "reg_reachable one_handle"
    unfolding reg_reachable_def using one_handle_solo
    by (rule rtranclp_mono [THEN predicate2D, rotated]) (auto simp: solo_step_def)
  from registry_counts [OF this, of "''board:1''"] show ?thesis
    by (simp add: one_handle_def insert_channel_def registry_new_def served_def)
qed

end
