(* ===== verification/Projects.thy ===== *)
theory Projects
  imports Boards
begin

text \<open>
  \<open>src/services/projects.rs\<close>: the unary handlers on projects and their members, with the SQL they run.
  A membership is written to the permission backend first and mirrored in \<open>project_members\<close>. The
  merged stream of SubscribeProject is not part of this theory. The fields icon, color, display_name and
  email of the messages, which the service always leaves empty, are left out.
\<close>

section \<open>Messages\<close>

definition PERMISSION_TYPE_PROJECT :: string where
  "PERMISSION_TYPE_PROJECT = ''KanbanProject''"

record project_msg =
  pj_id :: string
  pj_name :: string
  pj_prefix :: string
  pj_description :: string
  pj_created_at :: timestamp
  pj_updated_at :: timestamp
  pj_member_count :: int

record member_msg =
  mm_project_id :: string
  mm_subject :: string
  mm_relation :: string
  mm_added_at :: timestamp

definition upper_char :: "char \<Rightarrow> char" where
  "upper_char c = (let n = (of_char c :: nat) in if 97 \<le> n \<and> n \<le> 122 then char_of (n - 32) else c)"

definition to_upper :: "string \<Rightarrow> string" where
  "to_upper s = map upper_char s"

text \<open>\<open>prefix\<close> is the column where the statement selects it, and missing in the row that CreateProject gets back.\<close>

definition project_from_row :: "ulid_codec \<Rightarrow> project_row \<Rightarrow> string option \<Rightarrow> int \<Rightarrow> project_msg" where
  "project_from_row u p prefix member_count =
     \<lparr>pj_id = id_str u (p_id p), pj_name = p_name p,
      pj_prefix = (case prefix of Some s \<Rightarrow> if s \<noteq> '''' then s else to_upper (take 4 (p_slug p))
                   | None \<Rightarrow> to_upper (take 4 (p_slug p))),
      pj_description = opt_text (p_description p), pj_created_at = to_proto_ts (p_created p),
      pj_updated_at = to_proto_ts (p_updated p), pj_member_count = member_count\<rparr>"

definition member_from_row :: "ulid_codec \<Rightarrow> member_row \<Rightarrow> member_msg" where
  "member_from_row u r =
     \<lparr>mm_project_id = id_str u (pm_project r), mm_subject = pm_user r, mm_relation = pm_role r,
      mm_added_at = to_proto_ts (pm_created r)\<rparr>"

section \<open>Statements\<close>

definition project_key :: "ident \<Rightarrow> string \<Rightarrow> project_row \<Rightarrow> bool" where
  "project_key p tenant r \<longleftrightarrow> p_id r = p \<and> p_tenant r = tenant"

definition find_project :: "ident \<Rightarrow> string \<Rightarrow> db \<Rightarrow> project_row option" where
  "find_project p tenant d = List.find (project_key p tenant) (projects d)"

definition fetch_member_count :: "string \<Rightarrow> ident \<Rightarrow> (cerr, int) act" where
  "fetch_member_count tenant p = or_default 0 (select (\<lambda>d.
     as_i32 (int (cnt_rows (\<lambda>r. pm_tenant r = tenant \<and> pm_project r = p) (project_members d)))))"

text \<open>The constraint that an INSERT violates, by the name Postgres gives it in migration 0001.\<close>

definition project_violation :: "project_row \<Rightarrow> db \<Rightarrow> string option" where
  "project_violation row d =
     (if p_id row \<in> p_id ` set (projects d) then Some ''projects_pkey''
      else if (p_tenant row, p_slug row) \<in> (\<lambda>r. (p_tenant r, p_slug r)) ` set (projects d) then Some ''projects_tenant_id_slug_key''
      else None)"

definition insert_project_sql :: "(datetime \<Rightarrow> project_row) \<Rightarrow> datetime \<Rightarrow> db \<Rightarrow> (project_row \<times> db) option" where
  "insert_project_sql row now d =
     (case project_violation (row now) d of
        Some _ \<Rightarrow> None
      | None \<Rightarrow> Some (row now, d\<lparr>projects := projects d @ [row now]\<rparr>))"

definition insert_project :: "(datetime \<Rightarrow> project_row) \<Rightarrow> (cerr, project_row) act" where
  "insert_project row = (\<lambda>e w.
     (case stmt (insert_project_sql row) e w of
        (Inr p, w1) \<Rightarrow> (Inr p, w1)
      | (Inl _, w1) \<Rightarrow>
          (Inl (if \<not> aborted w \<and> \<not> db_fault e (step w)
                    \<and> project_violation (row (sql_now e w)) (db w) = Some ''projects_tenant_slug_key''
                then (AlreadyExists, ''project with that prefix already exists'')
                else (Internal, ''failed to insert project'')), w1)))"

definition update_project_sql ::
  "ident \<Rightarrow> string \<Rightarrow> (datetime \<Rightarrow> project_row \<Rightarrow> project_row) \<Rightarrow> datetime \<Rightarrow> db \<Rightarrow> (project_row option \<times> db) option" where
  "update_project_sql p tenant f now d =
     Some (map_option (f now) (find_project p tenant d),
       d\<lparr>projects := upd_rows (project_key p tenant) (f now) (projects d)\<rparr>)"

text \<open>DELETE of a project, with everything that references it (ON DELETE CASCADE).\<close>

definition delete_project_sql :: "ident \<Rightarrow> string \<Rightarrow> datetime \<Rightarrow> db \<Rightarrow> (nat \<times> db) option" where
  "delete_project_sql p tenant now d =
     (let n = cnt_rows (project_key p tenant) (projects d);
          bs = b_id ` set (filter (\<lambda>b. b_project b = p) (boards d));
          ks = k_id ` set (filter (\<lambda>k. k_board k \<in> bs) (columns d));
          ls = l_id ` set (filter (\<lambda>l. l_project l = Some p) (labels d)) in
      if n = 0 then Some (0, d)
      else map_option (\<lambda>d1. (n, d1\<lparr>projects := del_rows (project_key p tenant) (projects d1),
             project_members := del_rows (\<lambda>r. pm_project r = p) (project_members d1),
             boards := del_rows (\<lambda>b. b_project b = p) (boards d1),
             columns := del_rows (\<lambda>k. k_board k \<in> bs) (columns d1),
             milestones := del_rows (\<lambda>m. m_project m = p) (milestones d1),
             board_templates := del_rows (\<lambda>r. bt_project r = Some p) (board_templates d1),
             card_templates := del_rows (\<lambda>r. ct_project r = Some p) (card_templates d1),
             labels := del_rows (\<lambda>l. l_project l = Some p) (labels d1),
             card_labels := del_rows (\<lambda>r. cl_label r \<in> ls) (card_labels d1),
             aggregated_board_sources := del_rows (\<lambda>s. s_board s \<in> bs) (aggregated_board_sources d1),
             project_ref_counter := del_rows (\<lambda>r. n_project r = p) (project_ref_counter d1),
             event_log := del_rows (\<lambda>r. e_project r = Some p \<or> (\<exists>b \<in> bs. e_board r = Some b)) (event_log d1)\<rparr>))
           (drop_cards (\<lambda>c. c_project c = p \<or> c_board c \<in> bs \<or> c_column c \<in> ks) d))"

definition member_key :: "ident \<Rightarrow> string \<Rightarrow> member_row \<Rightarrow> bool" where
  "member_key p sub r \<longleftrightarrow> pm_project r = p \<and> pm_user r = sub"

definition new_member :: "ident \<Rightarrow> string \<Rightarrow> string \<Rightarrow> string \<Rightarrow> datetime \<Rightarrow> member_row" where
  "new_member p tenant sub role now = \<lparr>pm_project = p, pm_tenant = tenant, pm_user = sub, pm_role = role, pm_created = now\<rparr>"

definition insert_owner_sql :: "ident \<Rightarrow> string \<Rightarrow> string \<Rightarrow> datetime \<Rightarrow> db \<Rightarrow> db option" where
  "insert_owner_sql p tenant sub now d =
     (if \<exists>r \<in> set (project_members d). member_key p sub r then Some d
      else if p \<notin> p_id ` set (projects d) then None
      else Some (d\<lparr>project_members := project_members d @ [new_member p tenant sub ''owner'' now]\<rparr>))"

definition upsert_member_sql :: "ident \<Rightarrow> string \<Rightarrow> string \<Rightarrow> string \<Rightarrow> datetime \<Rightarrow> db \<Rightarrow> db option" where
  "upsert_member_sql p tenant sub role now d =
     (if \<exists>r \<in> set (project_members d). member_key p sub r
      then Some (d\<lparr>project_members := upd_rows (member_key p sub) (\<lambda>r. r\<lparr>pm_role := role\<rparr>) (project_members d)\<rparr>)
      else if p \<notin> p_id ` set (projects d) then None
      else Some (d\<lparr>project_members := project_members d @ [new_member p tenant sub role now]\<rparr>))"

definition delete_member_sql :: "ident \<Rightarrow> string \<Rightarrow> string \<Rightarrow> datetime \<Rightarrow> db \<Rightarrow> (nat \<times> db) option" where
  "delete_member_sql p tenant sub now d =
     Some (cnt_rows (\<lambda>r. member_key p sub r \<and> pm_tenant r = tenant) (project_members d),
       d\<lparr>project_members := del_rows (\<lambda>r. member_key p sub r \<and> pm_tenant r = tenant) (project_members d)\<rparr>)"

section \<open>CreateProject\<close>

record create_project_request =
  np_name :: string
  np_prefix :: string
  np_description :: string
  np_idempotency_key :: string

definition derive_slug :: "string \<Rightarrow> string \<Rightarrow> string" where
  "derive_slug name prefix =
     (if prefix = '''' then to_upper (take 8 (filter is_alphanumeric name)) else to_upper prefix)"

definition derive_prefix :: "string \<Rightarrow> string \<Rightarrow> string" where
  "derive_prefix name prefix = (if prefix = '''' then take 4 (derive_slug name prefix) else to_upper prefix)"

definition new_project_row :: "create_project_request \<Rightarrow> ident \<Rightarrow> string \<Rightarrow> string \<Rightarrow> datetime \<Rightarrow> project_row" where
  "new_project_row req p tenant sub now =
     \<lparr>p_id = p, p_tenant = tenant, p_prefix = derive_prefix (np_name req) (np_prefix req), p_name = np_name req,
      p_slug = derive_slug (np_name req) (np_prefix req), p_description = Some (np_description req), p_owner = sub,
      p_visibility = ''private'', p_created = now, p_updated = now\<rparr>"

definition cached_project :: "string \<Rightarrow> string \<Rightarrow> (cerr, project_msg option) act" where
  "cached_project tenant key =
     bnd (check_idempotency_card tenant key) (\<lambda>cached. case cached of
         None \<Rightarrow> ret None
       | Some p \<Rightarrow>
           bnd (internal ''failed to fetch cached project'' (select (find_project p tenant))) (\<lambda>row. case row of
               None \<Rightarrow> ret None
             | Some r \<Rightarrow>
                 bnd (fetch_member_count tenant p) (\<lambda>n.
                 bnd (ask codec) (\<lambda>u. ret (Some (project_from_row u r (Some (p_prefix r)) n))))))"

definition create_project :: "request_context \<Rightarrow> create_project_request \<Rightarrow> (cerr, project_msg) act" where
  "create_project ctx req =
     bnd (subject_from_request ctx) (\<lambda>sub.
     bnd (tenant_id_from_request ctx) (\<lambda>tenant.
     bnd (tenant_client_for ctx) (\<lambda>permission.
     bnd (cached_project tenant (np_idempotency_key req)) (\<lambda>cached.
     case cached of
       Some m \<Rightarrow> ret m
     | None \<Rightarrow>
         bnd (require (np_name req \<noteq> '''') (InvalidArgument, ''name is required'')) (\<lambda>_.
         bnd new_id (\<lambda>p.
         bnd (insert_project (new_project_row req p tenant sub)) (\<lambda>row.
         bnd (ask codec) (\<lambda>u.
         bnd (internal ''failed to write owner tuple to the permission backend''
               (grant_with_retry permission PERMISSION_TYPE_PROJECT (id_str u p) ''owner'' sub)) (\<lambda>_.
         bnd (internal ''failed to write viewer tuple to the permission backend''
               (grant_with_retry permission PERMISSION_TYPE_PROJECT (id_str u p) ''viewer'' sub)) (\<lambda>_.
         bnd (attempt (exec (insert_owner_sql p tenant sub))) (\<lambda>_.
         bnd (fetch_member_count tenant p) (\<lambda>n.
         bnd (store_idempotency_card tenant (np_idempotency_key req) p) (\<lambda>_.
         ret (project_from_row u row None n))))))))))))))"

section \<open>Reading, UpdateProject, DeleteProject\<close>

definition with_members :: "string \<Rightarrow> project_row \<Rightarrow> (cerr, project_msg) act" where
  "with_members tenant r =
     bnd (fetch_member_count tenant (p_id r)) (\<lambda>n.
     bnd (ask codec) (\<lambda>u. ret (project_from_row u r (Some (p_prefix r)) n)))"

definition get_project :: "request_context \<Rightarrow> (cerr, project_msg) act" where
  "get_project ctx =
     bnd (checked_object_id ctx) (\<lambda>object_id.
     bnd (tenant_id_from_request ctx) (\<lambda>tenant.
     bnd (parse_id ''invalid project_id'' object_id) (\<lambda>p.
     bnd (internal ''failed to fetch project'' (select (find_project p tenant))) (\<lambda>r.
     bnd (ok_or (NotFound, ''project not found'') r) (with_members tenant)))))"

text \<open>The ids that do not parse are skipped. \<open>MAX_PROJECTS\<close> is the ceiling of the expansion.\<close>

definition parsed_ids :: "ulid_codec \<Rightarrow> string set \<Rightarrow> project_row \<Rightarrow> bool" where
  "parsed_ids u ids r \<longleftrightarrow> (\<exists>s \<in> ids. id_from_str u s = Inr (p_id r))"

definition list_projects :: "request_context \<Rightarrow> (cerr, project_msg list) act" where
  "list_projects ctx =
     bnd (subject_from_request ctx) (\<lambda>sub.
     bnd (tenant_id_from_request ctx) (\<lambda>tenant.
     bnd (tenant_client_for ctx) (\<lambda>permission.
     bnd (internal ''permission expand failed''
           (expand_objects permission PERMISSION_TYPE_PROJECT ''view'' sub 10000)) (\<lambda>ids.
     if ids = {} then ret []
     else
       bnd (ask codec) (\<lambda>u.
       bnd (internal ''failed to list projects'' (select (\<lambda>d.
             filter (\<lambda>r. p_tenant r = tenant \<and> parsed_ids u ids r) (projects d)))) (\<lambda>rows.
       each (with_members tenant) rows))))))"

record project_patch =
  pp_name :: string
  pp_prefix :: string
  pp_description :: string

definition apply_project_patch :: "project_patch \<Rightarrow> datetime \<Rightarrow> project_row \<Rightarrow> project_row" where
  "apply_project_patch q now r = r\<lparr>
     p_name := (if pp_name q \<noteq> '''' then pp_name q else p_name r),
     p_prefix := (if to_upper (pp_prefix q) \<noteq> '''' then to_upper (pp_prefix q) else p_prefix r),
     p_description := (if pp_description q \<noteq> '''' then Some (pp_description q) else p_description r),
     p_updated := now\<rparr>"

definition update_project_tx :: "string \<Rightarrow> ident \<Rightarrow> project_patch \<Rightarrow> (cerr, project_row) act" where
  "update_project_tx tenant p q =
     bnd (internal ''failed to update project'' (stmt (update_project_sql p tenant (apply_project_patch q)))) (\<lambda>r.
     bnd (ok_or (NotFound, ''project not found'') r) (\<lambda>row.
     bnd (ask codec) (\<lambda>u.
     bnd (insert_project_event tenant p ''ProjectUpdated''
           (JObj [jstr ''project_id'' (id_str u p), jstr ''name'' (p_name row), jstr ''prefix'' (p_prefix row),
                  jstr ''description'' (opt_text (p_description row))])) (\<lambda>_.
     ret row))))"

definition update_project :: "request_context \<Rightarrow> project_patch option \<Rightarrow> (cerr, project_msg) act" where
  "update_project ctx patch =
     bnd (checked_object_id ctx) (\<lambda>object_id.
     bnd (tenant_id_from_request ctx) (\<lambda>tenant.
     bnd (parse_id ''invalid project_id'' object_id) (\<lambda>p.
     let q = (case patch of Some q \<Rightarrow> q | None \<Rightarrow> \<lparr>pp_name = '''', pp_prefix = '''', pp_description = ''''\<rparr>) in
     bnd (in_tx (update_project_tx tenant p q)) (with_members tenant))))"

definition delete_project :: "request_context \<Rightarrow> (cerr, unit) act" where
  "delete_project ctx =
     bnd (checked_object_id ctx) (\<lambda>object_id.
     bnd (tenant_id_from_request ctx) (\<lambda>tenant.
     bnd (parse_id ''invalid project_id'' object_id) (\<lambda>p.
     bnd (internal ''failed to delete project'' (stmt (delete_project_sql p tenant))) (\<lambda>n.
     require (n \<noteq> 0) (NotFound, ''project not found'')))))"

section \<open>Members\<close>

fun split_once :: "char \<Rightarrow> string \<Rightarrow> (string \<times> string) option" where
  "split_once c [] = None"
| "split_once c (x # xs) = (if x = c then Some ([], xs) else map_option (\<lambda>(a, b). (x # a, b)) (split_once c xs))"

definition subject_valid :: "string \<Rightarrow> bool" where
  "subject_valid s = (case split_once (CHR '':'') s of
       Some (kind, i) \<Rightarrow> (kind = ''user'' \<or> kind = ''agent'') \<and> i \<noteq> ''''
     | None \<Rightarrow> False)"

definition member_event :: "ulid_codec \<Rightarrow> ident \<Rightarrow> string \<Rightarrow> string \<Rightarrow> string option \<Rightarrow> string \<times> json" where
  "member_event u p sub relation existing =
     (case existing of
        Some old \<Rightarrow>
          if old \<noteq> relation
          then (''MemberRoleChanged'', JObj [jstr ''project_id'' (id_str u p), jstr ''subject'' sub,
                  jstr ''old_relation'' old, jstr ''new_relation'' relation])
          else (''MemberAdded'', JObj [jstr ''project_id'' (id_str u p), jstr ''subject'' sub, jstr ''relation'' relation,
                  jstr ''display_name'' '''', jstr ''email'' ''''])
      | None \<Rightarrow> (''MemberAdded'', JObj [jstr ''project_id'' (id_str u p), jstr ''subject'' sub, jstr ''relation'' relation,
                  jstr ''display_name'' '''', jstr ''email'' '''']))"

definition check_member_request :: "string \<Rightarrow> string \<Rightarrow> (cerr, unit) act" where
  "check_member_request sub relation =
     bnd (require (sub \<noteq> '''') (InvalidArgument, ''subject is required'')) (\<lambda>_.
     bnd (require (subject_valid sub) (InvalidArgument, ''subject must be of the form user:<id> or agent:<id>'')) (\<lambda>_.
     bnd (require (relation \<noteq> '''') (InvalidArgument, ''relation is required'')) (\<lambda>_.
     bnd (require (relation \<noteq> ''owner'') (PermissionDenied, ''owner relation cannot be granted via AddMember'')) (\<lambda>_.
     require (relation \<in> {''admin'', ''editor'', ''viewer''})
       (InvalidArgument, ''relation must be one of: admin, editor, viewer'')))))"

definition add_member :: "request_context \<Rightarrow> string \<Rightarrow> string \<Rightarrow> (cerr, unit) act" where
  "add_member ctx sub relation =
     bnd (checked_object_id ctx) (\<lambda>object_id.
     bnd (tenant_id_from_request ctx) (\<lambda>tenant.
     bnd (parse_id ''invalid project_id'' object_id) (\<lambda>p.
     bnd (tenant_client_for ctx) (\<lambda>permission.
     bnd (check_member_request sub relation) (\<lambda>_.
     bnd (internal ''failed to look up existing member role'' (select (\<lambda>d.
           map_option pm_role (List.find (\<lambda>r. member_key p sub r \<and> pm_tenant r = tenant) (project_members d))))) (\<lambda>existing.
     bnd (ask codec) (\<lambda>u.
     bnd (case existing of
            Some old \<Rightarrow>
              if old \<noteq> relation
              then bnd (attempt (delete_relation_tuples permission PERMISSION_TYPE_PROJECT (Some (id_str u p)) (Some old) (Some sub)))
                     (\<lambda>_. ret ())
              else ret ()
          | None \<Rightarrow> ret ()) (\<lambda>_.
     bnd (internal ''failed to write member tuple to the permission backend''
           (grant_with_retry permission PERMISSION_TYPE_PROJECT (id_str u p) relation sub)) (\<lambda>_.
     bnd (attempt (exec (upsert_member_sql p tenant sub relation))) (\<lambda>_.
     in_tx (case member_event u p sub relation existing of (ty, payload) \<Rightarrow> insert_project_event tenant p ty payload)))))))))))"

definition remove_member :: "request_context \<Rightarrow> string \<Rightarrow> (cerr, unit) act" where
  "remove_member ctx sub =
     bnd (checked_object_id ctx) (\<lambda>object_id.
     bnd (tenant_id_from_request ctx) (\<lambda>tenant.
     bnd (parse_id ''invalid project_id'' object_id) (\<lambda>p.
     bnd (tenant_client_for ctx) (\<lambda>permission.
     bnd (require (sub \<noteq> '''') (InvalidArgument, ''subject is required'')) (\<lambda>_.
     bnd (ask codec) (\<lambda>u.
     bnd (attempt (delete_relation_tuples permission PERMISSION_TYPE_PROJECT (Some (id_str u p)) None (Some sub))) (\<lambda>_.
     bnd (internal ''failed to delete member row'' (stmt (delete_member_sql p tenant sub))) (\<lambda>n.
     bnd (require (n \<noteq> 0) (NotFound, ''member not found'')) (\<lambda>_.
     in_tx (insert_project_event tenant p ''MemberRemoved''
       (JObj [jstr ''project_id'' (id_str u p), jstr ''subject'' sub])))))))))))"

definition list_members :: "request_context \<Rightarrow> (cerr, member_msg list) act" where
  "list_members ctx =
     bnd (checked_object_id ctx) (\<lambda>object_id.
     bnd (tenant_id_from_request ctx) (\<lambda>tenant.
     bnd (parse_id ''invalid project_id'' object_id) (\<lambda>p.
     bnd (internal ''failed to list members'' (select (\<lambda>d. sort_rows (\<lambda>a b. dt_le (pm_created a) (pm_created b))
           (filter (\<lambda>r. pm_tenant r = tenant \<and> pm_project r = p) (project_members d))))) (\<lambda>rows.
     bnd (ask codec) (\<lambda>u.
     ret (map (member_from_row u) rows))))))"

end
