(* ===== verification/Membership.thy ===== *)
theory Membership
  imports Projects Quiet Column_Edits
begin

text \<open>
  Membership of projects: the roles in the permission backend and their mirror in the database, under
  what the gateway documents (\<open>fga_documented\<close>) and without failures.
\<close>

section \<open>The gateway's tuples\<close>

definition about :: "string \<Rightarrow> string \<Rightarrow> string \<Rightarrow> string \<Rightarrow> rel_tuple \<Rightarrow> bool" where
  "about t ns obj s x \<longleftrightarrow> tu_tenant x = t \<and> tu_namespace x = ns \<and> tu_object x = obj \<and> tu_subject x = s"

definition roles :: "rel_tuple list \<Rightarrow> string \<Rightarrow> string \<Rightarrow> string \<Rightarrow> string set" where
  "roles ts t obj s = tu_relation ` set (filter (about t PERMISSION_TYPE_PROJECT obj s) ts)"

text \<open>Nothing but the tuples changes: what the calls of the gateway leave alone.\<close>

definition same_db :: "world \<Rightarrow> world \<Rightarrow> bool" where
  "same_db w w' \<longleftrightarrow> db w' = db w \<and> aborted w' = aborted w \<and> tx_now w' = tx_now w"

lemma same_dbD: "same_db w w' \<Longrightarrow> db w' = db w" "same_db w w' \<Longrightarrow> aborted w' = aborted w" "same_db w w' \<Longrightarrow> tx_now w' = tx_now w"
  by (simp_all add: same_db_def)

lemma delete_page:
  assumes "calm e" and "fga_documented e"
  shows "\<exists>us w'. each (\<lambda>tuple. if (case subject_id of Some s \<Rightarrow> tu_subject tuple \<noteq> s | None \<Rightarrow> False) then ret ()
        else map_err Backend (gateway (\<lambda>e ts. fga_delete e tuple ts))) page e w = (Inr us, w')
    \<and> same_db w w' \<and> tuples w' = filter (\<lambda>x. \<not> (x \<in> set page \<and> (case subject_id of Some s \<Rightarrow> tu_subject x = s | None \<Rightarrow> True))) (tuples w)"
proof (induction page arbitrary: w)
  case Nil
  then show ?case by (simp add: ret_def same_db_def)
next
  case (Cons tu page)
  show ?case
  proof (cases "case subject_id of Some s \<Rightarrow> tu_subject tu \<noteq> s | None \<Rightarrow> False")
    case True
    from Cons.IH [of w] obtain us w' where "each (\<lambda>tuple. if (case subject_id of Some s \<Rightarrow> tu_subject tuple \<noteq> s | None \<Rightarrow> False) then ret ()
        else map_err Backend (gateway (\<lambda>e ts. fga_delete e tuple ts))) page e w = (Inr us, w')"
      "same_db w w'" "tuples w' = filter (\<lambda>x. \<not> (x \<in> set page \<and> (case subject_id of Some s \<Rightarrow> tu_subject x = s | None \<Rightarrow> True))) (tuples w)"
      by blast
    with True show ?thesis by (auto simp: bnd_def ret_def split: option.splits intro!: filter_cong)
  next
    case False
    let ?w1 = "(tick w)\<lparr>tuples := filter (\<lambda>x. x \<noteq> tu) (tuples w)\<rparr>"
    have del: "map_err Backend (gateway (\<lambda>e ts. fga_delete e tu ts)) e w = (Inr (), ?w1)"
      using assms by (simp add: map_err_def gateway_def fga_documented_def)
    from Cons.IH [of ?w1] obtain us w' where "each (\<lambda>tuple. if (case subject_id of Some s \<Rightarrow> tu_subject tuple \<noteq> s | None \<Rightarrow> False) then ret ()
        else map_err Backend (gateway (\<lambda>e ts. fga_delete e tuple ts))) page e ?w1 = (Inr us, w')"
      "same_db ?w1 w'" "tuples w' = filter (\<lambda>x. \<not> (x \<in> set page \<and> (case subject_id of Some s \<Rightarrow> tu_subject x = s | None \<Rightarrow> True))) (tuples ?w1)"
      by blast
    with False del show ?thesis
      by (auto simp: bnd_def ret_def same_db_def split: option.splits intro!: filter_cong)
  qed
qed

lemma delete_relation_tuples_documented:
  assumes "calm e" and doc: "fga_documented e"
    and few: "length (filter (tuple_matches c ns (case object of None \<Rightarrow> '''' | Some i \<Rightarrow> i) (case relation of None \<Rightarrow> '''' | Some i \<Rightarrow> i)) (tuples w)) \<le> 200"
    and run: "delete_relation_tuples c ns object relation subject_id e w = (r, w')"
  shows "same_db w w' \<and> r = Inr () \<and> tuples w' = filter (\<lambda>x. \<not> (tuple_matches c ns (case object of None \<Rightarrow> '''' | Some i \<Rightarrow> i)
      (case relation of None \<Rightarrow> '''' | Some i \<Rightarrow> i) x \<and> (case subject_id of Some s \<Rightarrow> tu_subject x = s | None \<Rightarrow> True))) (tuples w)"
proof -
  let ?M = "tuple_matches c ns (case object of None \<Rightarrow> '''' | Some i \<Rightarrow> i) (case relation of None \<Rightarrow> '''' | Some i \<Rightarrow> i)"
  let ?page = "filter ?M (tuples w)"
  from doc have "page_fuel e \<noteq> 0" unfolding fga_documented_def by blast
  then obtain n where fuel: "page_fuel e = Suc n" by (cases "page_fuel e") auto
  have "list_relation_tuples c ns object relation '''' e w = (Inr (?page, ''''), (tick w)\<lparr>tuples := tuples w\<rparr>)"
    using assms(1) doc few by (simp add: list_relation_tuples_def map_err_def gateway_def fga_documented_def)
  moreover obtain us w2 where "each (\<lambda>tuple. if (case subject_id of Some s \<Rightarrow> tu_subject tuple \<noteq> s | None \<Rightarrow> False) then ret ()
        else map_err Backend (gateway (\<lambda>e ts. fga_delete e tuple ts))) ?page e ((tick w)\<lparr>tuples := tuples w\<rparr>) = (Inr us, w2)"
    "same_db ((tick w)\<lparr>tuples := tuples w\<rparr>) w2"
    "tuples w2 = filter (\<lambda>x. \<not> (x \<in> set ?page \<and> (case subject_id of Some s \<Rightarrow> tu_subject x = s | None \<Rightarrow> True))) (tuples w)"
    using delete_page [OF assms(1,2), of subject_id ?page "(tick w)\<lparr>tuples := tuples w\<rparr>"] by auto
  ultimately show ?thesis
    using run fuel by (auto simp: delete_relation_tuples_def bnd_def ask_def ret_def same_db_def intro!: filter_cong)
qed

lemma grant_documented:
  assumes "calm e" and doc: "fga_documented e" and run: "grant_with_retry c ns obj rel s e w = (r, w')"
  defines "tu \<equiv> \<lparr>tu_tenant = c, tu_namespace = ns, tu_object = obj, tu_relation = rel, tu_subject = s\<rparr>"
  shows "same_db w w' \<and> r = Inr () \<and> tuples w' = (if tu \<in> set (tuples w) then tuples w else tuples w @ [tu])"
proof (cases "tu \<in> set (tuples w)")
  case True
  then obtain msg where "fga_write e tu (tuples w) = (Inl msg, tuples w)" "contains_str DUPLICATE_TUPLE msg"
    using doc unfolding fga_documented_def by blast
  then show ?thesis using run True assms(1)
    by (auto simp: grant_with_retry_def retry_def MAX_RETRIES_def numeral_eq_Suc grant_def bnd_def attempt_def gateway_def
        tu_def ret_def same_db_def)
next
  case False
  then have "fga_write e tu (tuples w) = (Inr (), tuples w @ [tu])" using doc unfolding fga_documented_def by blast
  then show ?thesis using run False assms(1)
    by (auto simp: grant_with_retry_def retry_def MAX_RETRIES_def numeral_eq_Suc grant_def bnd_def attempt_def gateway_def
        tu_def ret_def same_db_def)
qed

section \<open>AddMember and RemoveMember\<close>

definition mirrored :: "db \<Rightarrow> string \<Rightarrow> ident \<Rightarrow> string \<Rightarrow> string option" where
  "mirrored d t p s = map_option pm_role (List.find (\<lambda>r. member_key p s r \<and> pm_tenant r = t) (project_members d))"

text \<open>The primary key of the mirror, and its tenant column in step with the project.\<close>

definition members_ok :: "db \<Rightarrow> string \<Rightarrow> ident \<Rightarrow> bool" where
  "members_ok d t p \<longleftrightarrow> (\<forall>r \<in> set (project_members d). pm_project r = p \<longrightarrow> pm_tenant r = t)"

definition few_tuples :: "world \<Rightarrow> string \<Rightarrow> string \<Rightarrow> bool" where
  "few_tuples w t obj \<longleftrightarrow> length (filter (tuple_matches t PERMISSION_TYPE_PROJECT obj '''') (tuples w)) \<le> 200"

lemma few_tuples_relation:
  assumes "few_tuples w t obj"
  shows "length (filter (tuple_matches t PERMISSION_TYPE_PROJECT obj rel) (tuples w)) \<le> 200"
proof -
  have "length (filter (tuple_matches t PERMISSION_TYPE_PROJECT obj rel) xs) \<le> length (filter (tuple_matches t PERMISSION_TYPE_PROJECT obj '''') xs)" for xs
    by (induction xs) (auto simp: tuple_matches_def)
  then show ?thesis using assms unfolding few_tuples_def by (rule le_trans)
qed

lemma id_str_nonempty:
  assumes "ulid_crate u"
  shows "id_str u p \<noteq> ''''"
proof
  assume "id_str u p = ''''"
  then have "id_from_str u '''' = Inr p" using ulid_crate.id_from_str_show [OF assms, of p] by simp
  moreover have "parse_ulid u '''' = None" by (simp add: parse_ulid_def)
  ultimately show False by (auto simp: id_from_str_def parse_uuid_def split: option.splits)
qed

lemma check_member_request_ok:
  "check_member_request s r e w = (Inr u, w') \<longleftrightarrow> w' = w \<and> subject_valid s \<and> r \<in> {''admin'', ''editor'', ''viewer''}"
  by (auto simp: check_member_request_def ok_iffs subject_valid_def)

lemma upsert_member_effect:
  assumes "upsert_member_sql p t s r now d = Some d'" and "members_ok d t p"
  shows "mirrored d' t p s = Some r
    \<and> filter (\<lambda>x. \<not> member_key p s x) (project_members d') = filter (\<lambda>x. \<not> member_key p s x) (project_members d)
    \<and> event_log d' = event_log d \<and> projects d' = projects d"
proof (cases "\<exists>x \<in> set (project_members d). member_key p s x")
  case True
  then have d': "d' = d\<lparr>project_members := upd_rows (member_key p s) (\<lambda>x. x\<lparr>pm_role := r\<rparr>) (project_members d)\<rparr>"
    using assms(1) by (simp add: upsert_member_sql_def)
  have "\<exists>x. List.find (\<lambda>x. member_key p s x \<and> pm_tenant x = t) (upd_rows (member_key p s) (\<lambda>x. x\<lparr>pm_role := r\<rparr>) ms) = Some x
      \<and> pm_role x = r" if "\<exists>x \<in> set ms. member_key p s x" "\<forall>x \<in> set ms. pm_project x = p \<longrightarrow> pm_tenant x = t" for ms
    using that by (induction ms) (auto simp: upd_rows_def member_key_def)
  with True assms(2) have "mirrored d' t p s = Some r" unfolding d' mirrored_def members_ok_def by fastforce
  moreover have "filter (\<lambda>x. \<not> member_key p s x) (upd_rows (member_key p s) (\<lambda>x. x\<lparr>pm_role := r\<rparr>) ms) = filter (\<lambda>x. \<not> member_key p s x) ms" for ms
    by (induction ms) (auto simp: upd_rows_def member_key_def)
  ultimately show ?thesis by (simp add: d')
next
  case False
  then have d': "d' = d\<lparr>project_members := project_members d @ [new_member p t s r now]\<rparr>"
    using assms(1) by (simp add: upsert_member_sql_def split: if_split_asm)
  have "List.find (\<lambda>x. member_key p s x \<and> pm_tenant x = t) (ms @ [new_member p t s r now]) = Some (new_member p t s r now)"
    if "\<forall>x \<in> set ms. \<not> member_key p s x" for ms
    using that by (induction ms) (auto simp: member_key_def new_member_def)
  with False have "mirrored d' t p s = Some r" by (simp add: d' mirrored_def) (simp add: new_member_def)
  then show ?thesis by (simp add: d' member_key_def new_member_def)
qed

lemma upsert_member_frame:
  assumes "upsert_member_sql p t s r now d = Some d'"
  shows "\<exists>ms. d' = d\<lparr>project_members := ms\<rparr> \<and> filter (\<lambda>x. \<not> member_key p s x) ms = filter (\<lambda>x. \<not> member_key p s x) (project_members d)"
proof -
  have "filter (\<lambda>x. \<not> member_key p s x) (upd_rows (member_key p s) (\<lambda>x. x\<lparr>pm_role := r\<rparr>) ms) = filter (\<lambda>x. \<not> member_key p s x) ms" for ms
    by (induction ms) (auto simp: upd_rows_def member_key_def)
  then show ?thesis using assms by (auto simp: upsert_member_sql_def member_key_def new_member_def split: if_split_asm)
qed

lemma project_event_effect:
  assumes "in_tx (insert_project_event t p ty payload) e w = (Inr u, w')"
  shows "db w' = log_event (Ident (new_ulid e (Suc (step w))) Ulid) t None None (Some p) ty payload (now_at e (step w)) (db w)
    \<and> tuples w' = tuples w
    \<and> p \<in> p_id ` set (projects (db w))"
  using assms
  by (auto simp: ok_iffs insert_project_event_def insert_row_def insert_event_sql_def pg_notify_def new_id_def log_event_def
      sql_now_def split: if_split_asm)

lemma log_event_members [simp]:
  "projects (log_event i t bo ag pr ty payload now d) = projects d"
  "project_members (log_event i t bo ag pr ty payload now d) = project_members d"
  by (simp_all add: log_event_def)

text \<open>
  A grant that succeeds, after whatever failures, has given the tuple, if no failure of the transport reads like the
  gateway's answer for a tuple that exists already.
\<close>

definition faults_distinct :: "env \<Rightarrow> bool" where
  "faults_distinct e \<longleftrightarrow> (\<forall>n msg. gw_fault e n = Some msg \<longrightarrow> \<not> contains_str DUPLICATE_TUPLE msg)"

lemma retry_loop_success: "retry_loop n l f e w = (Inr a, w') \<Longrightarrow> \<exists>w1. f e w1 = (Inr a, w')"
proof (induction n arbitrary: l w)
  case 0
  then show ?case by (simp add: raise_def)
next
  case (Suc n)
  obtain r w1 where run: "f e w = (r, w1)" by fastforce
  then show ?case
    using Suc by (cases r) (auto simp: bnd_def attempt_def ret_def raise_def split: permission_error.splits if_split_asm)
qed

lemma grant_given:
  assumes run: "grant_with_retry c ns obj rel s e w = (Inr u, w')" and e: "fga_documented e" "faults_distinct e"
  shows "\<lparr>tu_tenant = c, tu_namespace = ns, tu_object = obj, tu_relation = rel, tu_subject = s\<rparr> \<in> set (tuples w')"
proof -
  let ?tu = "\<lparr>tu_tenant = c, tu_namespace = ns, tu_object = obj, tu_relation = rel, tu_subject = s\<rparr>"
  obtain w1 where g: "grant c ns obj rel s e w1 = (Inr u, w')"
    using retry_loop_success [OF run [unfolded grant_with_retry_def retry_def]] by blast
  show ?thesis
  proof (cases "gw_fault e (step w1)")
    case (Some msg)
    then show ?thesis using g e(2) by (auto simp: grant_def bnd_def attempt_def gateway_def raise_def faults_distinct_def)
  next
    case None
    show ?thesis
    proof (cases "?tu \<in> set (tuples w1)")
      case True
      then obtain msg where "fga_write e ?tu (tuples w1) = (Inl msg, tuples w1)" using e(1) unfolding fga_documented_def by blast
      then show ?thesis using g None True by (auto simp: grant_def bnd_def attempt_def gateway_def raise_def ret_def split: if_split_asm)
    next
      case False
      then have "fga_write e ?tu (tuples w1) = (Inr (), tuples w1 @ [?tu])" using e(1) unfolding fga_documented_def by blast
      then show ?thesis using g None by (auto simp: grant_def bnd_def attempt_def gateway_def ret_def)
    qed
  qed
qed

lemma member_request_steps:
  assumes run: "add_member ctx s r e w = (Inr u, w')" and req: "board_request e ctx t p"
  shows "subject_valid s \<and> r \<in> {''admin'', ''editor'', ''viewer''} \<and> (\<exists>w1 w2 w3 w4 x y z.
      db w1 = db w \<and> tuples w1 = tuples w \<and> \<not> aborted w1
      \<and> (case mirrored (db w) t p s of
           Some old \<Rightarrow> if old \<noteq> r then delete_relation_tuples t PERMISSION_TYPE_PROJECT (Some (id_str (codec e) p)) (Some old) (Some s) e w1 = (x, w2)
                       else w2 = w1
         | None \<Rightarrow> w2 = w1)
      \<and> grant_with_retry t PERMISSION_TYPE_PROJECT (id_str (codec e) p) r s e w2 = (Inr y, w3)
      \<and> exec (upsert_member_sql p t s r) e w3 = (z, w4)
      \<and> in_tx (case member_event (codec e) p s r (mirrored (db w) t p s) of (ty, payload) \<Rightarrow> insert_project_event t p ty payload) e w4
         = (Inr u, w'))"
proof -
  from run req obtain w0 w2 w3 w4 z where cl: "tenant_client_for ctx e w = (Inr t, w0)"
    and ok: "subject_valid s \<and> r \<in> {''admin'', ''editor'', ''viewer''}" and ab: "\<not> aborted w0"
    and del: "(case mirrored (db w0) t p s of
            Some old \<Rightarrow>
              if old \<noteq> r
              then bnd (attempt (delete_relation_tuples t PERMISSION_TYPE_PROJECT (Some (id_str (codec e) p)) (Some old) (Some s)))
                     (\<lambda>_. ret ())
              else ret ()
          | None \<Rightarrow> ret ()) e (tick w0) = (Inr () :: cerr + unit, w2)"
    and gr: "grant_with_retry t PERMISSION_TYPE_PROJECT (id_str (codec e) p) r s e w2 = (Inr (), w3)"
    and up: "exec (upsert_member_sql p t s r) e w3 = (z, w4)"
    and ev: "in_tx (case member_event (codec e) p s r (mirrored (db w0) t p s) of (ty, payload) \<Rightarrow> insert_project_event t p ty payload) e w4 = (Inr u, w')"
    unfolding add_member_def
    by (auto simp: ok_iffs board_request_def mirrored_def check_member_request_ok dest: tenant_client_is)
  have same: "db w0 = db w" "tuples w0 = tuples w" using quietD [OF quiet_request(4) cl] by simp_all
  have "\<exists>x. case mirrored (db w) t p s of
           Some old \<Rightarrow> if old \<noteq> r then delete_relation_tuples t PERMISSION_TYPE_PROJECT (Some (id_str (codec e) p)) (Some old) (Some s) e (tick w0) = (x, w2)
                       else w2 = tick w0
         | None \<Rightarrow> w2 = tick w0"
    using del same by (auto simp: ok_iffs split: option.splits if_split_asm)
  moreover have "in_tx (case member_event (codec e) p s r (mirrored (db w) t p s) of (ty, payload) \<Rightarrow> insert_project_event t p ty payload) e w4
      = (Inr u, w')"
    using ev same by simp
  ultimately obtain x where "case mirrored (db w) t p s of
           Some old \<Rightarrow> if old \<noteq> r then delete_relation_tuples t PERMISSION_TYPE_PROJECT (Some (id_str (codec e) p)) (Some old) (Some s) e (tick w0) = (x, w2)
                       else w2 = tick w0
         | None \<Rightarrow> w2 = tick w0"
    and "in_tx (case member_event (codec e) p s r (mirrored (db w) t p s) of (ty, payload) \<Rightarrow> insert_project_event t p ty payload) e w4
      = (Inr u, w')" by blast
  moreover have "db (tick w0) = db w" "tuples (tick w0) = tuples w" "\<not> aborted (tick w0)" using same ab by simp_all
  ultimately show ?thesis using ok gr up by blast
qed

lemma roles_snoc: "roles (ts @ [x]) t obj s = roles ts t obj s \<union> (if about t PERMISSION_TYPE_PROJECT obj s x then {tu_relation x} else {})"
  by (auto simp: roles_def)

lemma grant_roles:
  assumes "calm e" and "fga_documented e" and run: "grant_with_retry t PERMISSION_TYPE_PROJECT obj r s e w = (x, w')"
  shows "same_db w w' \<and> roles (tuples w') t obj s = roles (tuples w) t obj s \<union> {r}
    \<and> filter (\<lambda>y. \<not> about t PERMISSION_TYPE_PROJECT obj s y) (tuples w') = filter (\<lambda>y. \<not> about t PERMISSION_TYPE_PROJECT obj s y) (tuples w)"
proof -
  let ?tu = "\<lparr>tu_tenant = t, tu_namespace = PERMISSION_TYPE_PROJECT, tu_object = obj, tu_relation = r, tu_subject = s\<rparr>"
  note g = grant_documented [OF assms]
  have A: "about t PERMISSION_TYPE_PROJECT obj s ?tu" by (simp add: about_def)
  show ?thesis
  proof (cases "?tu \<in> set (tuples w)")
    case True
    then have "r \<in> roles (tuples w) t obj s" using A unfolding roles_def by (force simp: image_iff)
    then show ?thesis using g True by auto
  next
    case False
    then show ?thesis using g A by (simp add: roles_snoc)
  qed
qed

text \<open>The steps of a successful AddMember where nothing fails.\<close>

lemma add_member_calm:
  assumes e: "calm e" "fga_documented e" "ulid_crate (codec e)"
    and few: "few_tuples w t (id_str (codec e) p)" and ok: "members_ok (db w) t p"
    and agree: "roles (tuples w) t (id_str (codec e) p) s \<subseteq> set_option (mirrored (db w) t p s)"
    and w1: "db w1 = db w" "tuples w1 = tuples w" "\<not> aborted w1"
    and del: "case mirrored (db w) t p s of
           Some old \<Rightarrow> if old \<noteq> r then delete_relation_tuples t PERMISSION_TYPE_PROJECT (Some (id_str (codec e) p)) (Some old) (Some s) e w1 = (x, w2)
                       else w2 = w1
         | None \<Rightarrow> w2 = w1"
    and gr: "grant_with_retry t PERMISSION_TYPE_PROJECT (id_str (codec e) p) r s e w2 = (Inr y, w3)"
    and up: "exec (upsert_member_sql p t s r) e w3 = (z, w4)"
    and ev: "in_tx (insert_project_event t p ty payload) e w4 = (Inr u, w')"
  shows "roles (tuples w') t (id_str (codec e) p) s = {r} \<and> mirrored (db w') t p s = Some r
    \<and> filter (\<lambda>x. \<not> about t PERMISSION_TYPE_PROJECT (id_str (codec e) p) s x) (tuples w')
      = filter (\<lambda>x. \<not> about t PERMISSION_TYPE_PROJECT (id_str (codec e) p) s x) (tuples w)"
proof -
  let ?o = "id_str (codec e) p"
  let ?A = "about t PERMISSION_TYPE_PROJECT ?o s"
  have o: "?o \<noteq> ''''" by (rule id_str_nonempty [OF e(3)])
  have w2: "same_db w1 w2 \<and> roles (tuples w2) t ?o s \<subseteq> {r} \<and> filter (\<lambda>x. \<not> ?A x) (tuples w2) = filter (\<lambda>x. \<not> ?A x) (tuples w)"
  proof (cases "\<exists>old. mirrored (db w) t p s = Some old \<and> old \<noteq> r")
    case True
    then obtain old where old: "mirrored (db w) t p s = Some old" "old \<noteq> r" by blast
    have few1: "length (filter (tuple_matches t PERMISSION_TYPE_PROJECT ?o old) (tuples w1)) \<le> 200"
      using few_tuples_relation [OF few, of old] w1(2) by simp
    have d: "same_db w1 w2 \<and> tuples w2 = filter (\<lambda>x. \<not> (tuple_matches t PERMISSION_TYPE_PROJECT ?o old x \<and> tu_subject x = s)) (tuples w1)"
      using delete_relation_tuples_documented [OF e(1,2), of t PERMISSION_TYPE_PROJECT "Some ?o" "Some old" w1 "Some s" x w2] del old few1
      by simp
    moreover have "roles (tuples w2) t ?o s = {}"
      using agree old o d w1 unfolding roles_def by (auto simp: tuple_matches_def about_def)
    moreover have "filter (\<lambda>x. \<not> ?A x) (tuples w2) = filter (\<lambda>x. \<not> ?A x) (tuples w)"
      unfolding conjunct2 [OF d] w1(2) filter_filter using o by (intro filter_cong) (auto simp: tuple_matches_def about_def)
    ultimately show ?thesis by simp
  next
    case False
    then have "w2 = w1" using del by (auto split: option.splits)
    then show ?thesis using agree False w1 by (cases "mirrored (db w) t p s") (auto simp: same_db_def)
  qed
  note g = grant_roles [OF e(1,2) gr]
  have roles3: "roles (tuples w3) t ?o s = {r}" using g w2 by auto
  have others3: "filter (\<lambda>x. \<not> ?A x) (tuples w3) = filter (\<lambda>x. \<not> ?A x) (tuples w)" using g w2 by simp
  have db3: "db w3 = db w" "\<not> aborted w3" using g w2 w1 by (auto simp: same_db_def)
  note fx = project_event_effect [OF ev]
  have "db w4 = db w3 \<or> (\<exists>d'. upsert_member_sql p t s r (sql_now e w3) (db w3) = Some d' \<and> db w4 = d')" "tuples w4 = tuples w3"
    using up by (auto simp: exec_def stmt_def split: if_split_asm option.splits)
  moreover have "projects (db w4) = projects (db w3)"
    using up by (auto simp: exec_def stmt_def upsert_member_sql_def split: if_split_asm option.splits)
  then have "p \<in> p_id ` set (projects (db w3))" using fx by simp
  then have "\<exists>d'. upsert_member_sql p t s r (sql_now e w3) (db w3) = Some d'" by (simp add: upsert_member_sql_def)
  then obtain d' where d': "upsert_member_sql p t s r (sql_now e w3) (db w3) = Some d'" by blast
  then have "db w4 = d'" using up db3(2) e(1) by (auto simp: exec_def stmt_def split: if_split_asm)
  moreover note upsert_member_effect [OF d'] ok db3(1)
  ultimately show ?thesis using roles3 others3 fx by (auto simp: mirrored_def)
qed


text \<open>The sample: the owner of a project.\<close>

definition sample_tuple :: "string \<Rightarrow> string \<Rightarrow> rel_tuple" where
  "sample_tuple role sub = \<lparr>tu_tenant = ''t'', tu_namespace = PERMISSION_TYPE_PROJECT, tu_object = id_str crockford (sid 1),
     tu_relation = role, tu_subject = sub\<rparr>"

definition owned_world :: world where
  "owned_world = (sample_world (sample_db\<lparr>project_members := [new_member (sid 1) ''t'' ''user:ada'' ''owner'' (0, 0),
       new_member (sid 1) ''t'' ''user:bob'' ''editor'' (0, 0)]\<rparr>))
     \<lparr>tuples := [sample_tuple ''owner'' ''user:ada'', sample_tuple ''editor'' ''user:bob'']\<rparr>"

lemma owned_world_fields [simp]:
  "project_members (db owned_world) = [new_member (sid 1) ''t'' ''user:ada'' ''owner'' (0, 0),
       new_member (sid 1) ''t'' ''user:bob'' ''editor'' (0, 0)]"
  "tuples owned_world = [sample_tuple ''owner'' ''user:ada'', sample_tuple ''editor'' ''user:bob'']"
  by (simp_all add: owned_world_def)

lemma sample_env_documented: "fga_documented sample_env"
proof -
  have "contains_str DUPLICATE_TUPLE ''cannot write a tuple which already exists''"
    by (simp add: DUPLICATE_TUPLE_def)
  then show ?thesis by (simp add: fga_documented_def tuple_matches_def [abs_def])
qed

lemma sample_project_request: "board_request sample_env (sample_context (sid 1)) ''t'' (sid 1)"
  by (simp add: board_request_def sample_context_def crockford.id_from_str_show)

lemma sample_documented_id: "ulid_crate (codec sample_env)"
  by (simp add: crockford.ulid_crate_axioms)

lemma retry_once: "retry f = bnd (attempt f) (\<lambda>r. case r of Inr v \<Rightarrow> ret v
    | Inl (Backend msg) \<Rightarrow> if is_retryable msg then retry_loop 7 (Some (Backend msg)) f else raise (Backend msg)
    | Inl Denied \<Rightarrow> raise Denied)"
proof -
  have "retry f = retry_loop (Suc 7) None f" by (simp add: retry_def MAX_RETRIES_def)
  then show ?thesis unfolding retry_loop.simps .
qed

lemmas member_evals = member_key_def subject_valid_def delete_relation_tuples_def list_relation_tuples_def
  grant_with_retry_def retry_once grant_def upsert_member_sql_def member_event_def insert_project_event_def new_member_def
  sample_tuple_def owned_world_def numeral_3_eq_3

lemma add_member_runs:
  "\<exists>w'. add_member (sample_context (sid 1)) ''user:ada'' ''editor'' sample_env owned_world = (Inr (), w')"
  by (simp add: evals request_evals sample_evals event_evals add_member_def check_member_request_def member_evals)

lemma owned_world_consistent:
  "few_tuples owned_world ''t'' (id_str crockford (sid 1))" "members_ok (db owned_world) ''t'' (sid 1)"
  "roles (tuples owned_world) ''t'' (id_str crockford (sid 1)) ''user:ada'' \<subseteq> set_option (mirrored (db owned_world) ''t'' (sid 1) ''user:ada'')"
  by (simp_all add: few_tuples_def members_ok_def roles_def mirrored_def new_member_def member_key_def about_def
      sample_tuple_def tuple_matches_def)



lemma remove_member_runs:
  "\<exists>w'. remove_member (sample_context (sid 1)) ''user:bob'' sample_env owned_world = (Inr (), w')"
  by (simp add: evals request_evals sample_evals event_evals remove_member_def delete_member_sql_def cnt_rows_def del_rows_def
      member_evals)


section \<open>CreateProject\<close>

lemma keeps_member_count: "keeps I (fetch_member_count t p)"
  unfolding fetch_member_count_def by (intro keeps_intros)

lemma quiet_member_count [quiet_intros]: "quiet (fetch_member_count t p)" "quiet (with_members t r)"
  unfolding with_members_def fetch_member_count_def by (intro quiet_intros)+

lemma quiet_check_idempotency [quiet_intros]: "quiet (check_idempotency_card t key)"
  unfolding check_idempotency_card_def by (intro quiet_intros)

lemma quiet_cached_project: "quiet (cached_project t key)"
  unfolding cached_project_def by (intro quiet_intros)

lemma store_key_frame:
  assumes "store_idempotency_card t key i e w = (r, w')"
  shows "projects (db w') = projects (db w) \<and> project_members (db w') = project_members (db w) \<and> tuples w' = tuples w"
  using assms
  by (auto simp: store_idempotency_card_def exec_def stmt_def bnd_def attempt_def ret_def store_key_sql_def
      split: if_split_asm option.splits)

lemma insert_project_ok:
  "insert_project row e w = (Inr p, w') \<Longrightarrow> \<exists>d. insert_project_sql row (sql_now e w) (db w) = Some (p, d) \<and> w' = (tick w)\<lparr>db := d\<rparr> \<and> \<not> aborted w"
  by (auto simp: insert_project_def stmt_def split: prod.splits sum.splits option.splits if_split_asm)

lemma create_project_steps:
  assumes run: "create_project ctx req e w = (Inr m, w')"
    and ctx: "Option.bind (auth_ext ctx) auth_tenant_id = Some t" "Option.bind (auth_ext ctx) auth_subject = Some s"
    and key: "np_idempotency_key req = ''''"
  shows "np_name req \<noteq> '''' \<and> (\<exists>p row w1 w2 w3 w4 w5 w6 n z.
      db w1 = db w \<and> tuples w1 = tuples w \<and> \<not> aborted w1
      \<and> insert_project_sql (new_project_row req p t s) (sql_now e w1) (db w1) = Some (row, db w2) \<and> w2 = (tick w1)\<lparr>db := db w2\<rparr>
      \<and> grant_with_retry t PERMISSION_TYPE_PROJECT (id_str (codec e) p) ''owner'' s e w2 = (Inr (), w3)
      \<and> grant_with_retry t PERMISSION_TYPE_PROJECT (id_str (codec e) p) ''viewer'' s e w3 = (Inr (), w4)
      \<and> exec (insert_owner_sql p t s) e w4 = (z, w5) \<and> fetch_member_count t p e w5 = (Inr n, w6)
      \<and> w' = w6 \<and> m = project_from_row (codec e) row None n)"
proof -
  from run ctx obtain c0 w0 cached where cl: "tenant_client_for ctx e w = (Inr t, c0)"
    and ca: "cached_project t '''' e c0 = (Inr cached, w0)"
    and rest: "(case cached of Some m \<Rightarrow> ret m | None \<Rightarrow>
         bnd (require (np_name req \<noteq> '''') (InvalidArgument, ''name is required'')) (\<lambda>_.
         bnd new_id (\<lambda>p.
         bnd (insert_project (new_project_row req p t s)) (\<lambda>row.
         bnd (ask codec) (\<lambda>u.
         bnd (internal ''failed to write owner tuple to the permission backend''
               (grant_with_retry t PERMISSION_TYPE_PROJECT (id_str u p) ''owner'' s)) (\<lambda>_.
         bnd (internal ''failed to write viewer tuple to the permission backend''
               (grant_with_retry t PERMISSION_TYPE_PROJECT (id_str u p) ''viewer'' s)) (\<lambda>_.
         bnd (attempt (exec (insert_owner_sql p t s))) (\<lambda>_.
         bnd (fetch_member_count t p) (\<lambda>n.
         bnd (store_idempotency_card t '''' p) (\<lambda>_.
         ret (project_from_row u row None n)))))))))) ) e w0 = (Inr m, w')"
    unfolding create_project_def key by (auto simp: ok_iffs dest: tenant_client_is)
  have "cached = None" and w0: "db w0 = db w" "tuples w0 = tuples w"
    using ca quietD [OF quiet_request(4) cl] quietD [OF quiet_cached_project ca]
    by (auto simp: cached_project_def check_idempotency_card_def ok_iffs)
  with rest obtain p row w2 w3 w4 z w5 n where name: "np_name req \<noteq> ''''"
    and ins: "insert_project (new_project_row req p t s) e (tick w0) = (Inr row, w2)"
    and gr: "grant_with_retry t PERMISSION_TYPE_PROJECT (id_str (codec e) p) ''owner'' s e w2 = (Inr (), w3)"
      "grant_with_retry t PERMISSION_TYPE_PROJECT (id_str (codec e) p) ''viewer'' s e w3 = (Inr (), w4)"
    and own: "exec (insert_owner_sql p t s) e w4 = (z, w5)" and n: "fetch_member_count t p e w5 = (Inr n, w')"
    and m: "m = project_from_row (codec e) row None n"
    by (auto simp: ok_iffs new_id_def store_idempotency_card_def)
  from insert_project_ok [OF ins] have "insert_project_sql (new_project_row req p t s) (sql_now e (tick w0)) (db (tick w0)) = Some (row, db w2)"
    "w2 = (tick (tick w0))\<lparr>db := db w2\<rparr>" "\<not> aborted (tick w0)" by auto
  moreover have "db (tick w0) = db w" "tuples (tick w0) = tuples w" using w0 by simp_all
  ultimately show ?thesis using name gr own n m by blast
qed

text \<open>
  A successful CreateProject adds one project with the slug and the card prefix derived from the request, makes
  the caller its owner and viewer in the permission backend and its owner in the mirror, and changes no other
  project, membership or tuple. The prefix it answers is not the stored one but four letters of the slug.
\<close>

theorem create_project_owned:
  assumes run: "create_project ctx req e w = (Inr m, w')"
    and ctx: "Option.bind (auth_ext ctx) auth_tenant_id = Some t" "Option.bind (auth_ext ctx) auth_subject = Some s"
    and key: "np_idempotency_key req = ''''" and e: "calm e" "fga_documented e"
    and fk: "pm_project ` set (project_members (db w)) \<subseteq> p_id ` set (projects (db w))"
  shows "\<exists>row now. projects (db w') = projects (db w) @ [row] \<and> p_tenant row = t \<and> p_owner row = s
    \<and> p_slug row = derive_slug (np_name req) (np_prefix req) \<and> p_prefix row = derive_prefix (np_name req) (np_prefix req)
    \<and> pj_id m = id_str (codec e) (p_id row) \<and> pj_prefix m = to_upper (take 4 (p_slug row))
    \<and> (t, p_slug row) \<notin> (\<lambda>r. (p_tenant r, p_slug r)) ` set (projects (db w))
    \<and> roles (tuples w') t (pj_id m) s = roles (tuples w) t (pj_id m) s \<union> {''owner'', ''viewer''}
    \<and> filter (\<lambda>x. \<not> about t PERMISSION_TYPE_PROJECT (pj_id m) s x) (tuples w') = filter (\<lambda>x. \<not> about t PERMISSION_TYPE_PROJECT (pj_id m) s x) (tuples w)
    \<and> project_members (db w') = project_members (db w) @ [new_member (p_id row) t s ''owner'' now]"
proof -
  from create_project_steps [OF run ctx key] obtain p row w1 w2 w3 w4 w5 n z where
    w1: "db w1 = db w" "tuples w1 = tuples w" "\<not> aborted w1"
    and ins: "insert_project_sql (new_project_row req p t s) (sql_now e w1) (db w1) = Some (row, db w2)" "w2 = (tick w1)\<lparr>db := db w2\<rparr>"
    and gr: "grant_with_retry t PERMISSION_TYPE_PROJECT (id_str (codec e) p) ''owner'' s e w2 = (Inr (), w3)"
      "grant_with_retry t PERMISSION_TYPE_PROJECT (id_str (codec e) p) ''viewer'' s e w3 = (Inr (), w4)"
    and own: "exec (insert_owner_sql p t s) e w4 = (z, w5)" and n: "fetch_member_count t p e w5 = (Inr n, w')"
    and m: "m = project_from_row (codec e) row None n" by blast
  have row: "row = new_project_row req p t s (sql_now e w1)" "db w2 = (db w)\<lparr>projects := projects (db w) @ [row]\<rparr>"
    "p \<notin> p_id ` set (projects (db w))" "(t, p_slug row) \<notin> (\<lambda>r. (p_tenant r, p_slug r)) ` set (projects (db w))"
    using ins(1) w1(1) by (auto simp: insert_project_sql_def project_violation_def new_project_row_def split: option.splits if_split_asm)
  have w2: "tuples w2 = tuples w" "\<not> aborted w2" using ins(2) w1 by (metis tick_fields(3,5) world.select_convs(3,5) world.surjective world.update_convs(1))+
  note g1 = grant_roles [OF e gr(1)] and g2 = grant_roles [OF e gr(2)]
  have w4: "db w4 = db w2" "\<not> aborted w4" using g1 g2 w2 by (auto simp: same_db_def)
  let ?now = "sql_now e w4"
  have "\<not> (\<exists>r \<in> set (project_members (db w)). member_key p s r)" using fk row(3) by (auto simp: member_key_def)
  then have "insert_owner_sql p t s ?now (db w4) = Some ((db w2)\<lparr>project_members := project_members (db w) @ [new_member p t s ''owner'' ?now]\<rparr>)"
    unfolding w4 row(2) by (simp add: insert_owner_sql_def row(1) new_project_row_def)
  then have w5: "db w5 = (db w2)\<lparr>project_members := project_members (db w) @ [new_member p t s ''owner'' ?now]\<rparr>" "tuples w5 = tuples w4"
    using own w4(2) e(1) by (auto simp: exec_def stmt_def)
  note w' = quietD [OF quiet_member_count(1) n]
  let ?o = "id_str (codec e) p"
  have mid: "pj_id m = ?o" "p_id row = p" by (simp_all add: m project_from_row_def row(1) new_project_row_def)
  have "roles (tuples w4) t ?o s = roles (tuples w) t ?o s \<union> {''owner'', ''viewer''}"
    using g1 g2 w2(1) by auto
  moreover have "filter (\<lambda>x. \<not> about t PERMISSION_TYPE_PROJECT ?o s x) (tuples w4) = filter (\<lambda>x. \<not> about t PERMISSION_TYPE_PROJECT ?o s x) (tuples w)"
    using g1 g2 w2(1) by simp
  moreover have "projects (db w') = projects (db w) @ [row]" "project_members (db w') = project_members (db w) @ [new_member p t s ''owner'' ?now]"
    using w' w5 row(2) by simp_all
  moreover have "pj_prefix m = to_upper (take 4 (p_slug row))" by (simp add: m project_from_row_def)
  ultimately show ?thesis using mid w' w5 row
    by (intro exI [of _ row] exI [of _ ?now]) (simp add: new_project_row_def)
qed

definition sample_new_project :: create_project_request where
  "sample_new_project = \<lparr>np_name = ''Board'', np_prefix = ''kanban'', np_description = '''', np_idempotency_key = ''''\<rparr>"

lemmas create_project_evals = create_project_def cached_project_def check_idempotency_card_def insert_project_def
  insert_project_sql_def project_violation_def insert_owner_sql_def fetch_member_count_def store_idempotency_card_def
  sample_new_project_def new_project_row_def

lemma sample_slug: "derive_slug ''Board'' ''kanban'' = ''KANBAN''" "derive_prefix ''Board'' ''kanban'' = ''KANBAN''"
  "to_upper ''KANB'' = ''KANB''"
  by code_simp+

lemma sample_new_ident: "n < 1000 \<Longrightarrow> Ident 1001 Ulid = sid n \<longleftrightarrow> False"
  using sid_inject [of 1001 n] by (simp add: sid_def)

lemma create_project_runs:
  "\<exists>m w'. create_project (sample_context (sid 1)) sample_new_project sample_env (sample_world sample_db) = (Inr m, w')"
  by (simp add: evals request_evals sample_evals create_project_evals member_evals sample_slug sample_new_ident)

theorem create_project_owned_witness:
  "\<exists>m w' row. create_project (sample_context (sid 1)) sample_new_project sample_env (sample_world sample_db) = (Inr m, w')
     \<and> projects (db w') = projects sample_db @ [row] \<and> p_prefix row = ''KANBAN'' \<and> pj_prefix m = ''KANB''
     \<and> roles (tuples w') ''t'' (pj_id m) ''s'' = {''owner'', ''viewer''}"
proof -
  obtain m w' where run: "create_project (sample_context (sid 1)) sample_new_project sample_env (sample_world sample_db) = (Inr m, w')"
    using create_project_runs by blast
  have ctx: "Option.bind (auth_ext (sample_context (sid 1))) auth_tenant_id = Some ''t''"
    "Option.bind (auth_ext (sample_context (sid 1))) auth_subject = Some ''s''" by (simp_all add: sample_context_def)
  have key: "np_idempotency_key sample_new_project = []" by (simp add: sample_new_project_def)
  have fk: "pm_project ` set (project_members (db (sample_world sample_db))) \<subseteq> p_id ` set (projects (db (sample_world sample_db)))"
    by (simp add: sample_db_def empty_db_def)
  have none: "roles [] t o' s = {}" for t o' s by (simp add: roles_def)
  from create_project_owned [OF run ctx key sample_env_calm sample_env_documented fk]
  obtain row where row: "projects (db w') = projects sample_db @ [row]" "p_slug row = derive_slug ''Board'' ''kanban''"
    "p_prefix row = derive_prefix ''Board'' ''kanban''" "pj_prefix m = to_upper (take 4 (p_slug row))"
    and r: "roles (tuples w') ''t'' (pj_id m) ''s'' = roles (tuples (sample_world sample_db)) ''t'' (pj_id m) ''s'' \<union> {''owner'', ''viewer''}"
    unfolding sample_new_project_def sample_world_fields create_project_request.select_convs by blast
  have "p_prefix row = ''KANBAN''" "pj_prefix m = ''KANB''" using row by (simp_all add: sample_slug)
  moreover have "roles (tuples w') ''t'' (pj_id m) ''s'' = {''owner'', ''viewer''}" using r by (simp add: none)
  ultimately show ?thesis using run row(1) by blast
qed

end
