(* ===== verification/Aggregated.thy ===== *)
theory Aggregated
  imports Boards Card_Reads
begin

text \<open>
  \<open>src/services/aggregated_boards.rs\<close>: boards that span the cards of source boards, with the order of the
  sources kept as positions. The stream that GetAggregatedBoard returns is the list of its chunks.
\<close>

section \<open>Messages\<close>

definition PERMISSION_TYPE_AGGREGATED :: string where
  "PERMISSION_TYPE_AGGREGATED = ''KanbanAggregatedBoard''"

definition MAX_AGGREGATES :: nat where
  "MAX_AGGREGATES = 10000"

definition CARD_BATCH_SIZE :: nat where
  "CARD_BATCH_SIZE = 100"

record aggregated_msg =
  gb_id :: string
  gb_name :: string
  gb_description :: string
  gb_icon :: string
  gb_created_at :: timestamp
  gb_updated_at :: timestamp
  gb_visibility :: int

record source_msg =
  sb_board_id :: string
  sb_project_id :: string
  sb_name :: string
  sb_icon :: string
  sb_position :: int

record aggregated_column_msg =
  gc_id :: string
  gc_title :: string
  gc_accent :: string
  gc_wip_limit :: int
  gc_position :: int
  gc_source_board_id :: string

datatype chunk = Metadata aggregated_msg | SourceBoard source_msg | AggColumn aggregated_column_msg | CardBatch "card_msg list"

definition aggregated_board_from_row :: "ulid_codec \<Rightarrow> aggregated_row \<Rightarrow> aggregated_msg" where
  "aggregated_board_from_row u r =
     \<lparr>gb_id = id_str u (ag_id r), gb_name = ag_name r, gb_description = opt_text (ag_description r),
      gb_icon = opt_text (ag_icon r), gb_created_at = to_proto_ts (ag_created r),
      gb_updated_at = to_proto_ts (ag_updated r), gb_visibility = db_to_proto (ag_visibility r)\<rparr>"

section \<open>Source boards\<close>

definition source_of :: "ident \<Rightarrow> string \<Rightarrow> source_row \<Rightarrow> bool" where
  "source_of a tenant r \<longleftrightarrow> s_aggregated r = a \<and> s_tenant r = tenant"

definition source_le :: "source_row \<Rightarrow> source_row \<Rightarrow> bool" where
  "source_le x y \<longleftrightarrow> s_position x < s_position y \<or> s_position x = s_position y \<and> dt_le (s_added x) (s_added y)"

definition source_rows :: "ident \<Rightarrow> string \<Rightarrow> db \<Rightarrow> source_row list" where
  "source_rows a tenant d = sort_rows source_le (filter (source_of a tenant) (aggregated_board_sources d))"

definition ordered_sources :: "ident \<Rightarrow> string \<Rightarrow> db \<Rightarrow> ident list" where
  "ordered_sources a tenant d = map s_board (source_rows a tenant d)"

definition fetch_ordered_source_ids :: "ident \<Rightarrow> string \<Rightarrow> (cerr, ident list) act" where
  "fetch_ordered_source_ids a tenant = internal ''failed to fetch ordered source board ids'' (select (ordered_sources a tenant))"

definition place_source_sql :: "ident \<Rightarrow> string \<Rightarrow> ident \<Rightarrow> int \<Rightarrow> datetime \<Rightarrow> db \<Rightarrow> db option" where
  "place_source_sql a tenant b pos now d =
     Some (d\<lparr>aggregated_board_sources := upd_rows (\<lambda>r. source_of a tenant r \<and> s_board r = b)
              (\<lambda>r. r\<lparr>s_position := pos\<rparr>) (aggregated_board_sources d)\<rparr>)"

definition apply_source_order :: "ident \<Rightarrow> string \<Rightarrow> ident list \<Rightarrow> (cerr, unit) act" where
  "apply_source_order a tenant ordered =
     bnd (each (\<lambda>(i, b). internal ''failed to update source board position''
           (exec (place_source_sql a tenant b (as_i32 (int i))))) (enumerate 0 ordered)) (\<lambda>_. ret ())"

text \<open>The join with \<open>boards\<close> has no condition on the tenant.\<close>

definition source_ref :: "ulid_codec \<Rightarrow> source_row \<Rightarrow> board_row \<Rightarrow> source_msg" where
  "source_ref u s b =
     \<lparr>sb_board_id = id_str u (b_id b), sb_project_id = id_str u (b_project b), sb_name = b_name b,
      sb_icon = opt_text (b_icon b), sb_position = s_position s\<rparr>"

definition fetch_source_boards :: "ident \<Rightarrow> string \<Rightarrow> (cerr, source_msg list) act" where
  "fetch_source_boards a tenant =
     bnd (ask codec) (\<lambda>u.
     internal ''failed to fetch source boards'' (select (\<lambda>d.
       concat (map (\<lambda>s. map (source_ref u s) (filter (\<lambda>b. b_id b = s_board s) (boards d))) (source_rows a tenant d)))))"

definition fetch_public_internal_board_ids :: "string \<Rightarrow> string \<Rightarrow> ident list \<Rightarrow> (cerr, ident set) act" where
  "fetch_public_internal_board_ids msg tenant ids =
     (if ids = [] then ret {}
      else internal msg (select (\<lambda>d. b_id ` {b \<in> set (boards d). b_id b \<in> set ids \<and> b_tenant b = tenant
             \<and> (b_visibility b = ''public'' \<or> b_visibility b = ''internal'')})))"

section \<open>Cards\<close>

definition agg_row_le :: "env \<Rightarrow> card_row \<Rightarrow> card_row \<Rightarrow> bool" where
  "agg_row_le e a b \<longleftrightarrow> (if c_board a \<noteq> c_board b then id_le e (c_board a) (c_board b) else row_le e a b)"

definition fetch_cards_for_boards :: "ident list \<Rightarrow> ident set \<Rightarrow> string \<Rightarrow> (cerr, card_msg list) act" where
  "fetch_cards_for_boards board_ids visible tenant =
     (if board_ids = [] then ret []
      else
        bnd (ask agg_row_le) (\<lambda>le.
        bnd (internal ''failed to fetch aggregate cards'' (select (\<lambda>d. sort_rows le
              (filter (\<lambda>c. c_board c \<in> set board_ids \<and> c_tenant c = tenant) (cards d))))) (\<lambda>rows.
        each (hydrate tenant) (filter (\<lambda>c. c_board c \<in> visible) rows))))"

fun chunks_of :: "nat \<Rightarrow> 'a list \<Rightarrow> 'a list list" where
  "chunks_of n xs = (if xs = [] \<or> n = 0 then [] else take n xs # chunks_of n (drop n xs))"

declare chunks_of.simps [simp del]

section \<open>Reading\<close>

definition aggregated_is :: "ident \<Rightarrow> string \<Rightarrow> aggregated_row \<Rightarrow> bool" where
  "aggregated_is a tenant r \<longleftrightarrow> ag_id r = a \<and> ag_tenant r = tenant"

definition find_aggregated :: "ident \<Rightarrow> string \<Rightarrow> db \<Rightarrow> aggregated_row option" where
  "find_aggregated a tenant d = List.find (aggregated_is a tenant) (aggregated_boards d)"

definition get_aggregate_metadata :: "ident \<Rightarrow> string \<Rightarrow> (cerr, aggregated_msg) act" where
  "get_aggregate_metadata a tenant =
     bnd (internal ''failed to fetch aggregated board'' (select (find_aggregated a tenant))) (\<lambda>r.
     bnd (ok_or (NotFound, ''aggregated board not found'') r) (\<lambda>row.
     bnd (ask codec) (\<lambda>u. ret (aggregated_board_from_row u row))))"

text \<open>The virtual columns: one per visible source, numbered from 1.\<close>

definition aggregated_column :: "nat \<Rightarrow> source_msg \<Rightarrow> aggregated_column_msg" where
  "aggregated_column n sb =
     \<lparr>gc_id = ''agg-col-'' @ sb_board_id sb, gc_title = sb_name sb, gc_accent = sb_icon sb, gc_wip_limit = 0,
      gc_position = as_i32 (int n) + 1, gc_source_board_id = sb_board_id sb\<rparr>"

definition aggregated_chunks :: "aggregated_msg \<Rightarrow> source_msg list \<Rightarrow> card_msg list \<Rightarrow> chunk list" where
  "aggregated_chunks metadata sources cs =
     Metadata metadata # map SourceBoard sources
       @ map (\<lambda>(n, sb). AggColumn (aggregated_column n sb)) (enumerate 0 sources)
       @ map CardBatch (chunks_of CARD_BATCH_SIZE cs)"

definition check_aggregated_view :: "string \<Rightarrow> string \<Rightarrow> aggregated_row \<Rightarrow> string \<Rightarrow> (cerr, unit) act" where
  "check_aggregated_view permission object_id row sub =
     (if is_public_or_internal (ag_visibility row) then ret ()
      else bnd (internal ''failed to check aggregated board view permission''
             (check_permission_with_retry permission PERMISSION_TYPE_AGGREGATED object_id ''view'' sub)) (\<lambda>allowed.
           require allowed (PermissionDenied, ''you do not have permission to view this aggregated board'')))"

definition get_aggregated_board :: "request_context \<Rightarrow> string \<Rightarrow> (cerr, chunk list) act" where
  "get_aggregated_board ctx req_id =
     bnd (subject_from_request ctx) (\<lambda>sub.
     bnd (tenant_id_from_request ctx) (\<lambda>tenant.
     bnd (tenant_client_for ctx) (\<lambda>permission.
     bnd (parse_id ''invalid aggregated_board_id'' req_id) (\<lambda>a.
     bnd (internal ''failed to fetch aggregated board'' (select (find_aggregated a tenant))) (\<lambda>r.
     bnd (ok_or (NotFound, ''aggregated board not found'') r) (\<lambda>row.
     bnd (ask codec) (\<lambda>u.
     bnd (check_aggregated_view permission (id_str u a) row sub) (\<lambda>_.
     bnd (fetch_source_boards a tenant) (\<lambda>sources.
     let board_ids = parse_ids u (map sb_board_id sources) in
     bnd (internal ''permission expand failed'' (expand_objects permission PERMISSION_TYPE_BOARD ''view'' sub 10000)) (\<lambda>allowed_private.
     bnd (fetch_public_internal_board_ids ''failed to fetch source board visibilities'' tenant board_ids) (\<lambda>open_ids.
     let allowed = {i \<in> set board_ids. i \<in> open_ids \<or> id_str u i \<in> allowed_private};
         visible = filter (\<lambda>sb. case id_from_str u (sb_board_id sb) of Inr i \<Rightarrow> i \<in> allowed | Inl _ \<Rightarrow> False) sources in
     bnd (fetch_cards_for_boards board_ids allowed tenant) (\<lambda>cs.
     ret (aggregated_chunks (aggregated_board_from_row u row) visible cs)))))))))))))"

definition list_aggregated_boards :: "request_context \<Rightarrow> (cerr, aggregated_msg list) act" where
  "list_aggregated_boards ctx =
     bnd (subject_from_request ctx) (\<lambda>sub.
     bnd (tenant_id_from_request ctx) (\<lambda>tenant.
     bnd (tenant_client_for ctx) (\<lambda>permission.
     bnd (internal ''permission expand failed''
           (expand_objects permission PERMISSION_TYPE_AGGREGATED ''view'' sub MAX_AGGREGATES)) (\<lambda>allowed.
     bnd (internal ''failed to list aggregated boards'' (select (\<lambda>d.
           sort_rows (\<lambda>x y. dt_le (ag_created x) (ag_created y)) (filter (\<lambda>r. ag_tenant r = tenant) (aggregated_boards d))))) (\<lambda>rows.
     bnd (ask codec) (\<lambda>u.
     ret (map (aggregated_board_from_row u)
       (filter (\<lambda>r. is_public_or_internal (ag_visibility r) \<or> id_str u (ag_id r) \<in> allowed) rows))))))))"

section \<open>CreateAggregatedBoard\<close>

record create_aggregated_request =
  ca_name :: string
  ca_description :: string
  ca_icon :: string
  ca_source_board_ids :: "string list"
  ca_idempotency_key :: string
  ca_visibility :: int

definition insert_aggregated_sql :: "(datetime \<Rightarrow> aggregated_row) \<Rightarrow> datetime \<Rightarrow> db \<Rightarrow> (aggregated_row \<times> db) option" where
  "insert_aggregated_sql row now d =
     (if ag_id (row now) \<in> ag_id ` set (aggregated_boards d) then None
      else Some (row now, d\<lparr>aggregated_boards := aggregated_boards d @ [row now]\<rparr>))"

definition source_key :: "ident \<Rightarrow> ident \<Rightarrow> source_row \<Rightarrow> bool" where
  "source_key a b r \<longleftrightarrow> s_aggregated r = a \<and> s_board r = b"

definition source_fk :: "ident \<Rightarrow> ident \<Rightarrow> db \<Rightarrow> bool" where
  "source_fk a b d \<longleftrightarrow> a \<in> ag_id ` set (aggregated_boards d) \<and> b \<in> b_id ` set (boards d)"

definition new_source :: "ident \<Rightarrow> string \<Rightarrow> ident \<Rightarrow> int \<Rightarrow> datetime \<Rightarrow> source_row" where
  "new_source a tenant b pos now = \<lparr>s_aggregated = a, s_tenant = tenant, s_board = b, s_position = pos, s_added = now\<rparr>"

definition insert_source_sql :: "ident \<Rightarrow> string \<Rightarrow> ident \<Rightarrow> int \<Rightarrow> datetime \<Rightarrow> db \<Rightarrow> db option" where
  "insert_source_sql a tenant b pos now d =
     (if (\<exists>r \<in> set (aggregated_board_sources d). source_key a b r) \<or> \<not> source_fk a b d then None
      else Some (d\<lparr>aggregated_board_sources := aggregated_board_sources d @ [new_source a tenant b pos now]\<rparr>))"

definition insert_aggregated_member_sql :: "ident \<Rightarrow> string \<Rightarrow> string \<Rightarrow> datetime \<Rightarrow> db \<Rightarrow> db option" where
  "insert_aggregated_member_sql a tenant sub now d =
     (if \<exists>r \<in> set (aggregated_board_members d). gm_aggregated r = a \<and> gm_subject r = sub then Some d
      else if a \<notin> ag_id ` set (aggregated_boards d) then None
      else Some (d\<lparr>aggregated_board_members := aggregated_board_members d
             @ [\<lparr>gm_aggregated = a, gm_tenant = tenant, gm_subject = sub, gm_relation = ''owner'', gm_created = now\<rparr>]\<rparr>))"

definition create_aggregated_tx ::
  "create_aggregated_request \<Rightarrow> string \<Rightarrow> string \<Rightarrow> string \<Rightarrow> ident \<Rightarrow> (cerr, aggregated_row) act" where
  "create_aggregated_tx req permission tenant sub a =
     bnd (internal ''failed to insert aggregated board'' (stmt (insert_aggregated_sql (\<lambda>now.
           \<lparr>ag_id = a, ag_tenant = tenant, ag_revision = 0, ag_name = ca_name req, ag_description = Some (ca_description req),
            ag_icon = Some (ca_icon req), ag_visibility = proto_to_db (ca_visibility req), ag_created_by = sub,
            ag_created = now, ag_updated = now\<rparr>)))) (\<lambda>row.
     bnd (each (\<lambda>(pos, s).
            bnd (parse_id ''invalid source_board_id'' s) (\<lambda>b.
            internal ''failed to insert source board'' (exec (insert_source_sql a tenant b (as_i32 (int pos))))))
          (enumerate 0 (ca_source_board_ids req))) (\<lambda>_.
     bnd (ask codec) (\<lambda>u.
     bnd (internal ''failed to write owner tuple to the permission backend''
           (grant_with_retry permission PERMISSION_TYPE_AGGREGATED (id_str u a) ''owner'' sub)) (\<lambda>_.
     bnd (internal ''failed to write viewer tuple to the permission backend''
           (grant_with_retry permission PERMISSION_TYPE_AGGREGATED (id_str u a) ''viewer'' sub)) (\<lambda>_.
     bnd (attempt (exec (insert_aggregated_member_sql a tenant sub))) (\<lambda>_.
     bnd (insert_aggregated_event tenant a ''AggregatedBoardCreated'' (JObj [jstr ''aggregated_board_id'' (id_str u a)])) (\<lambda>_.
     ret row)))))))"

definition create_aggregated_board :: "request_context \<Rightarrow> create_aggregated_request \<Rightarrow> (cerr, aggregated_msg) act" where
  "create_aggregated_board ctx req =
     bnd (subject_from_request ctx) (\<lambda>sub.
     bnd (tenant_id_from_request ctx) (\<lambda>tenant.
     bnd (tenant_client_for ctx) (\<lambda>permission.
     bnd (require (ca_name req \<noteq> '''') (InvalidArgument, ''name is required'')) (\<lambda>_.
     bnd new_id (\<lambda>a.
     bnd (in_tx_as ''failed to begin transaction'' ''failed to commit transaction''
           (create_aggregated_tx req permission tenant sub a)) (\<lambda>row.
     bnd (store_idempotency_card tenant (ca_idempotency_key req) a) (\<lambda>_.
     bnd (ask codec) (\<lambda>u. ret (aggregated_board_from_row u row)))))))))"

section \<open>UpdateAggregatedBoard, DeleteAggregatedBoard\<close>

record aggregated_patch =
  ap_name :: string
  ap_description :: string
  ap_icon :: string
  ap_visibility :: int

definition apply_aggregated_patch :: "aggregated_patch \<Rightarrow> bool \<Rightarrow> datetime \<Rightarrow> aggregated_row \<Rightarrow> aggregated_row" where
  "apply_aggregated_patch q visibility_change now r = r\<lparr>
     ag_name := (if ap_name q \<noteq> '''' then ap_name q else ag_name r),
     ag_description := (if ap_description q \<noteq> '''' then Some (ap_description q) else ag_description r),
     ag_icon := (if ap_icon q \<noteq> '''' then Some (ap_icon q) else ag_icon r),
     ag_visibility := (if visibility_change then proto_to_db (ap_visibility q) else ag_visibility r),
     ag_updated := now\<rparr>"

definition update_aggregated_sql ::
  "ident \<Rightarrow> string \<Rightarrow> (datetime \<Rightarrow> aggregated_row \<Rightarrow> aggregated_row) \<Rightarrow> datetime \<Rightarrow> db \<Rightarrow> (aggregated_row option \<times> db) option" where
  "update_aggregated_sql a tenant f now d =
     Some (map_option (f now) (find_aggregated a tenant d),
       d\<lparr>aggregated_boards := upd_rows (aggregated_is a tenant) (f now) (aggregated_boards d)\<rparr>)"

text \<open>
  The check of \<open>manage\<close> goes through the client of the service itself, not of the caller's tenant:
  \<open>home\<close> is the tenant whose store the gateway uses for the service's own token.
\<close>

definition update_aggregated_board ::
  "string \<Rightarrow> request_context \<Rightarrow> aggregated_patch option \<Rightarrow> string list option \<Rightarrow> (cerr, aggregated_msg) act" where
  "update_aggregated_board home ctx patch update_mask =
     bnd (subject_from_request ctx) (\<lambda>sub.
     bnd (tenant_id_from_request ctx) (\<lambda>tenant.
     bnd (checked_object_id ctx) (\<lambda>object_id.
     bnd (parse_id ''invalid aggregated_board_id'' object_id) (\<lambda>a.
     let q = (case patch of Some q \<Rightarrow> q | None \<Rightarrow> \<lparr>ap_name = '''', ap_description = '''', ap_icon = '''', ap_visibility = 0\<rparr>);
         visibility_change = (case update_mask of Some paths \<Rightarrow> ''visibility'' \<in> set paths | None \<Rightarrow> False) in
     bnd (ask codec) (\<lambda>u.
     bnd (if visibility_change then
            bnd (internal ''failed to check aggregated board manage permission''
                  (check_permission_with_retry home PERMISSION_TYPE_AGGREGATED (id_str u a) ''manage'' sub)) (\<lambda>allowed.
            require allowed (PermissionDenied, ''you do not have permission to change aggregated board visibility''))
          else ret ()) (\<lambda>_.
     bnd (in_tx_as ''failed to begin transaction'' ''failed to commit transaction''
           (bnd (internal ''failed to update aggregated board''
                  (stmt (update_aggregated_sql a tenant (apply_aggregated_patch q visibility_change)))) (\<lambda>r.
            bnd (ok_or (NotFound, ''aggregated board not found'') r) (\<lambda>row.
            bnd (insert_aggregated_event tenant a ''AggregatedBoardUpdated'' (JObj [jstr ''aggregated_board_id'' (id_str u a)])) (\<lambda>_.
            ret row))))) (\<lambda>row.
     ret (aggregated_board_from_row u row))))))))"

text \<open>DELETE of an aggregated board, with everything that references it (ON DELETE CASCADE).\<close>

definition delete_aggregated_sql :: "ident \<Rightarrow> string \<Rightarrow> datetime \<Rightarrow> db \<Rightarrow> (nat \<times> db) option" where
  "delete_aggregated_sql a tenant now d =
     (let n = cnt_rows (aggregated_is a tenant) (aggregated_boards d) in
      if n = 0 then Some (0, d)
      else Some (n, d\<lparr>aggregated_boards := del_rows (aggregated_is a tenant) (aggregated_boards d),
             aggregated_board_sources := del_rows (\<lambda>r. s_aggregated r = a) (aggregated_board_sources d),
             aggregated_board_members := del_rows (\<lambda>r. gm_aggregated r = a) (aggregated_board_members d),
             event_log := del_rows (\<lambda>r. e_aggregated r = Some a) (event_log d)\<rparr>))"

definition delete_aggregated_board :: "request_context \<Rightarrow> (cerr, unit) act" where
  "delete_aggregated_board ctx =
     bnd (tenant_id_from_request ctx) (\<lambda>tenant.
     bnd (checked_object_id ctx) (\<lambda>object_id.
     bnd (parse_id ''invalid aggregated_board_id'' object_id) (\<lambda>a.
     bnd (internal ''failed to delete aggregated board'' (stmt (delete_aggregated_sql a tenant))) (\<lambda>n.
     require (n \<noteq> 0) (NotFound, ''aggregated board not found'')))))"

section \<open>AddSourceBoard, RemoveSourceBoard, MoveSourceBoard\<close>

definition shift_sources_sql :: "ident \<Rightarrow> string \<Rightarrow> int \<Rightarrow> datetime \<Rightarrow> db \<Rightarrow> db option" where
  "shift_sources_sql a tenant pos now d =
     (let later = (\<lambda>r. source_of a tenant r \<and> pos \<le> s_position r) in
      if \<forall>r \<in> set (aggregated_board_sources d). later r \<longrightarrow> i32_ok (s_position r + 1)
      then Some (d\<lparr>aggregated_board_sources := upd_rows later (\<lambda>r. r\<lparr>s_position := s_position r + 1\<rparr>) (aggregated_board_sources d)\<rparr>)
      else None)"

definition upsert_source_sql :: "ident \<Rightarrow> string \<Rightarrow> ident \<Rightarrow> int \<Rightarrow> datetime \<Rightarrow> db \<Rightarrow> db option" where
  "upsert_source_sql a tenant b pos now d =
     (if \<exists>r \<in> set (aggregated_board_sources d). source_key a b r
      then Some (d\<lparr>aggregated_board_sources := upd_rows (source_key a b) (\<lambda>r. r\<lparr>s_position := pos\<rparr>) (aggregated_board_sources d)\<rparr>)
      else if \<not> source_fk a b d then None
      else Some (d\<lparr>aggregated_board_sources := aggregated_board_sources d @ [new_source a tenant b pos now]\<rparr>))"

definition normalise_sources :: "ident \<Rightarrow> string \<Rightarrow> (cerr, unit) act" where
  "normalise_sources a tenant = bnd (fetch_ordered_source_ids a tenant) (apply_source_order a tenant)"

definition add_source_tx :: "ident \<Rightarrow> string \<Rightarrow> ident \<Rightarrow> int \<Rightarrow> (cerr, unit) act" where
  "add_source_tx a tenant b req_position =
     bnd (if req_position > 0 then ret req_position
          else internal ''failed to count source boards'' (select (\<lambda>d.
                 as_i32 (int (cnt_rows (source_of a tenant) (aggregated_board_sources d)))))) (\<lambda>pos.
     bnd (internal ''failed to shift source board positions'' (exec (shift_sources_sql a tenant pos))) (\<lambda>_.
     bnd (internal ''failed to insert source board'' (exec (upsert_source_sql a tenant b pos))) (\<lambda>_.
     bnd (normalise_sources a tenant) (\<lambda>_.
     bnd (ask codec) (\<lambda>u.
     insert_aggregated_event tenant a ''SourceBoardAdded''
       (JObj [jstr ''aggregated_board_id'' (id_str u a), jstr ''board_id'' (id_str u b)]))))))"

definition on_source ::
  "request_context \<Rightarrow> string \<Rightarrow> (ident \<Rightarrow> string \<Rightarrow> ident \<Rightarrow> (cerr, unit) act) \<Rightarrow> (cerr, aggregated_msg) act" where
  "on_source ctx req_board_id body =
     bnd (tenant_id_from_request ctx) (\<lambda>tenant.
     bnd (checked_object_id ctx) (\<lambda>object_id.
     bnd (parse_id ''invalid aggregated_board_id'' object_id) (\<lambda>a.
     bnd (parse_id ''invalid board_id'' req_board_id) (\<lambda>b.
     bnd (in_tx_as ''failed to begin transaction'' ''failed to commit transaction'' (body a tenant b)) (\<lambda>_.
     get_aggregate_metadata a tenant)))))"

definition add_source_board :: "request_context \<Rightarrow> string \<Rightarrow> int \<Rightarrow> (cerr, aggregated_msg) act" where
  "add_source_board ctx req_board_id req_position =
     on_source ctx req_board_id (\<lambda>a tenant b. add_source_tx a tenant b req_position)"

definition remove_source_sql :: "ident \<Rightarrow> string \<Rightarrow> ident \<Rightarrow> datetime \<Rightarrow> db \<Rightarrow> db option" where
  "remove_source_sql a tenant b now d =
     Some (d\<lparr>aggregated_board_sources := del_rows (\<lambda>r. source_of a tenant r \<and> s_board r = b) (aggregated_board_sources d)\<rparr>)"

definition remove_source_tx :: "ident \<Rightarrow> string \<Rightarrow> ident \<Rightarrow> (cerr, unit) act" where
  "remove_source_tx a tenant b =
     bnd (internal ''failed to remove source board'' (exec (remove_source_sql a tenant b))) (\<lambda>_.
     bnd (normalise_sources a tenant) (\<lambda>_.
     bnd (ask codec) (\<lambda>u.
     insert_aggregated_event tenant a ''SourceBoardRemoved''
       (JObj [jstr ''aggregated_board_id'' (id_str u a), jstr ''board_id'' (id_str u b)]))))"

definition remove_source_board :: "request_context \<Rightarrow> string \<Rightarrow> (cerr, aggregated_msg) act" where
  "remove_source_board ctx req_board_id = on_source ctx req_board_id remove_source_tx"

text \<open>\<open>(req.to_position as usize).min(ordered.len())\<close>: a negative position wraps to a huge one.\<close>

definition target_idx :: "int \<Rightarrow> nat \<Rightarrow> nat" where
  "target_idx to_position len = min (nat (if to_position < 0 then to_position + 2 ^ 64 else to_position)) len"

definition insert_at :: "nat \<Rightarrow> 'a \<Rightarrow> 'a list \<Rightarrow> 'a list" where
  "insert_at i x xs = take i xs @ x # drop i xs"

definition move_source_tx :: "int \<Rightarrow> ident \<Rightarrow> string \<Rightarrow> ident \<Rightarrow> (cerr, unit) act" where
  "move_source_tx to_position a tenant b =
     bnd (fetch_ordered_source_ids a tenant) (\<lambda>ordered.
     bnd (require (b \<in> set ordered) (NotFound, ''source board not found in aggregate'')) (\<lambda>_.
     let rest = remove1 b ordered in
     apply_source_order a tenant (insert_at (target_idx to_position (length rest)) b rest)))"

definition move_source_board :: "request_context \<Rightarrow> string \<Rightarrow> int \<Rightarrow> (cerr, aggregated_msg) act" where
  "move_source_board ctx req_board_id to_position = on_source ctx req_board_id (move_source_tx to_position)"

end
