(* ===== verification/Source_Order.thy ===== *)
theory Source_Order
  imports Aggregated Quiet Column_Edits
begin

text \<open>
  The order of the source boards of an aggregated board: what AddSourceBoard, RemoveSourceBoard and
  MoveSourceBoard do to the list, although the database holds positions and the handlers shift, upsert
  and renumber them.
\<close>

section \<open>Sorting\<close>

lemma source_le_total: "source_le a b \<or> source_le b a"
  using dt_le_total [of "s_added a" "s_added b"] by (auto simp: source_le_def)

lemma source_le_trans: "source_le a b \<Longrightarrow> source_le b c \<Longrightarrow> source_le a c"
  by (auto simp: source_le_def intro: dt_le_trans)

lemma filter_insert_by:
  assumes "sorted_wrt le ys" and trans: "\<And>a b c. le a b \<Longrightarrow> le b c \<Longrightarrow> le a c"
  shows "filter P (insert_by le x ys) = (if P x then insert_by le x (filter P ys) else filter P ys)"
  using assms(1)
proof (induction ys)
  case (Cons y ys)
  have front: "insert_by le x zs = x # zs" if "\<forall>z \<in> set zs. le x z" for zs
    using that by (cases zs) auto
  show ?case
  proof (cases "le x y")
    case True
    then have "\<forall>z \<in> set (filter P (y # ys)). le x z" using Cons.prems trans by auto
    with True show ?thesis using front [of "filter P (y # ys)"] by auto
  next
    case False
    then show ?thesis using Cons by auto
  qed
qed simp

lemma sort_rows_filter:
  assumes "\<And>a b. le a b \<or> le b a" and "\<And>a b c. le a b \<Longrightarrow> le b c \<Longrightarrow> le a c"
  shows "sort_rows le (filter P xs) = filter P (sort_rows le xs)"
proof (induction xs)
  case (Cons x xs)
  have "sorted_wrt le (sort_rows le xs)" by (rule sorted_sort_rows [OF assms])
  from filter_insert_by [where P = P and x = x, OF this assms(2)] Cons show ?case by simp
qed simp

definition rows_of :: "ident \<Rightarrow> string \<Rightarrow> source_row list \<Rightarrow> source_row list" where
  "rows_of a t S = sort_rows source_le (filter (source_of a t) S)"

lemma source_rows_of: "source_rows a t d = rows_of a t (aggregated_board_sources d)"
  by (simp add: source_rows_def rows_of_def)

lemma set_rows_of [simp]: "set (rows_of a t S) = {r \<in> set S. source_of a t r}"
  by (auto simp: rows_of_def)

lemma rows_of_sorted: "sorted (map s_position (rows_of a t S))"
proof -
  have "sorted_wrt source_le (rows_of a t S)"
    unfolding rows_of_def by (rule sorted_sort_rows, rule source_le_total, erule (1) source_le_trans)
  then show ?thesis unfolding sorted_map by (rule sorted_wrt_mono_rel [rotated]) (auto simp: source_le_def)
qed

abbreviation rising :: "source_row list \<Rightarrow> bool" where
  "rising \<equiv> sorted_wrt (\<lambda>x y. s_position x < s_position y)"

lemma rising_iff: "rising xs \<longleftrightarrow> sorted (map s_position xs) \<and> distinct (map s_position xs)"
  by (induction xs) (auto simp: less_le)

lemma rows_of_eqI:
  assumes "rising ls" and "set ls = {r \<in> set S. source_of a t r}" and "distinct (filter (source_of a t) S)"
  shows "rows_of a t S = ls"
proof -
  have inj: "inj_on s_position (set ls)" using assms(1) by (simp add: rising_iff distinct_map)
  have "distinct (map (\<lambda>x. x) (rows_of a t S))" unfolding rows_of_def distinct_sort_rows using assms(3) by simp
  then have "distinct (map s_position (rows_of a t S))" using inj assms(2) by (simp add: distinct_map)
  then have "map s_position (rows_of a t S) = map s_position ls"
    by (intro sorted_distinct_set_unique) (use assms(1,2) rows_of_sorted in \<open>auto simp: rising_iff\<close>)
  then show ?thesis by (rule map_inj_on) (use inj assms(2) in simp)
qed

section \<open>Invariant\<close>

definition sources_ok :: "ident \<Rightarrow> string \<Rightarrow> source_row list \<Rightarrow> bool" where
  "sources_ok a t S \<longleftrightarrow> distinct (map s_board (filter (source_of a t) S)) \<and> (\<forall>r \<in> set S. s_aggregated r = a \<longrightarrow> s_tenant r = t)"

definition normal :: "ident \<Rightarrow> string \<Rightarrow> source_row list \<Rightarrow> bool" where
  "normal a t S \<longleftrightarrow> map s_position (rows_of a t S) = map int [0..<length (rows_of a t S)]"

lemma sources_ok_rows:
  assumes "sources_ok a t S"
  shows "distinct (map s_board (rows_of a t S))" "distinct (filter (source_of a t) S)"
  using assms by (auto simp: sources_ok_def rows_of_def dest: distinct_map [THEN iffD1])

lemma normal_nth: "normal a t S \<Longrightarrow> i < length (rows_of a t S) \<Longrightarrow> s_position (rows_of a t S ! i) = int i"
  unfolding normal_def by (metis (no_types, lifting) add_0 length_map length_upt nth_map nth_upt minus_nat.diff_0)

section \<open>Renumbering\<close>

definition placed :: "ident \<Rightarrow> string \<Rightarrow> (ident \<rightharpoonup> nat) \<Rightarrow> source_row \<Rightarrow> source_row" where
  "placed a t f r = (if source_of a t r then (case f (s_board r) of Some i \<Rightarrow> r\<lparr>s_position := as_i32 (int i)\<rparr> | None \<Rightarrow> r) else r)"

lemma placed_fields [simp]:
  "s_board (placed a t f r) = s_board r" "source_of a' t' (placed a t f r) = source_of a' t' r"
  "s_aggregated (placed a t f r) = s_aggregated r" "s_tenant (placed a t f r) = s_tenant r"
  by (auto simp: placed_def source_of_def split: option.split)

lemma place_each:
  assumes "each (\<lambda>(i, b). internal ''failed to update source board position''
      (exec (place_source_sql a t b (as_i32 (int i))))) (enumerate n bs) e w = (Inr us, w')" and "distinct bs"
  shows "db w' = (db w)\<lparr>aggregated_board_sources :=
         map (placed a t (map_of (zip bs [n..<n + length bs]))) (aggregated_board_sources (db w))\<rparr> \<and> tuples w' = tuples w
    \<and> tx_now w' = tx_now w \<and> aborted w' = aborted w"
  using assms
proof (induction bs arbitrary: n w us)
  case Nil
  have "placed a t Map.empty = (\<lambda>r. r)" by (simp add: fun_eq_iff placed_def)
  with Nil show ?case by (auto simp: ok_iffs)
next
  case (Cons b bs)
  from Cons.prems(1) obtain w1 us' where first: "exec (place_source_sql a t b (as_i32 (int n))) e w = (Inr (), w1)"
    and rest: "each (\<lambda>(i, b). internal ''failed to update source board position''
      (exec (place_source_sql a t b (as_i32 (int i))))) (enumerate (Suc n) bs) e w1 = (Inr us', w')"
    by (auto simp: ok_iffs)
  have w1: "db w1 = (db w)\<lparr>aggregated_board_sources := upd_rows (\<lambda>r. source_of a t r \<and> s_board r = b)
      (\<lambda>r. r\<lparr>s_position := as_i32 (int n)\<rparr>) (aggregated_board_sources (db w))\<rparr>" "tuples w1 = tuples w" "tx_now w1 = tx_now w" "aborted w1 = aborted w"
    using first by (auto simp: ok_iffs place_source_sql_def)
  have step: "placed a t (map_of (zip bs [Suc n..<Suc n + length bs]))
      (if source_of a t r \<and> s_board r = b then r\<lparr>s_position := as_i32 (int n)\<rparr> else r)
      = placed a t (map_of (zip (b # bs) [n..<n + length (b # bs)])) r" for r
  proof (cases "s_board r = b")
    case True
    have none: "map_of (zip bs [Suc n..<Suc (n + length bs)]) b = None" using Cons.prems(2) by (simp add: map_of_zip_is_None)
    show ?thesis using True by (simp add: placed_def source_of_def upt_conv_Cons none del: upt_Suc)
  next
    case False
    then show ?thesis by (simp add: placed_def upt_conv_Cons del: upt_Suc)
  qed
  from Cons.IH [OF rest] Cons.prems(2) w1 step show ?case
    by (simp add: upd_rows_def comp_def del: upt_Suc)
qed

lemma placed_order:
  assumes ok: "sources_ok a t S" and bs: "distinct bs" "set bs = s_board ` {r \<in> set S. source_of a t r}"
    and few: "length bs < 2 ^ 31"
  defines "S' \<equiv> map (placed a t (map_of (zip bs [0..<length bs]))) S"
  shows "map s_board (rows_of a t S') = bs" and "normal a t S'" and "sources_ok a t S'"
proof -
  have pos: "s_position r = int i" if "r \<in> set S'" "source_of a t r" "i < length bs" "bs ! i = s_board r" for r i
  proof -
    from that(1) obtain q where q: "q \<in> set S" "r = placed a t (map_of (zip bs [0..<length bs])) q" by (auto simp: S'_def)
    have "map_of (zip bs [0..<length bs]) (s_board q) = Some i"
      using that(3,4) q(2) bs(1) map_of_zip_nth [of bs "[0..<length bs]" i] by simp
    moreover have "source_of a t q" using q that(2) by simp
    ultimately show ?thesis using q that(3) few by (simp add: placed_def i32_ok_def)
  qed
  have boards: "map s_board (filter (source_of a t) S') = map s_board (filter (source_of a t) S)"
    by (simp add: S'_def filter_map comp_def)
  have tenant: "\<forall>r \<in> set S'. s_aggregated r = a \<longrightarrow> s_tenant r = t" using ok by (auto simp: S'_def sources_ok_def)
  show ok': "sources_ok a t S'" using ok boards tenant by (simp add: sources_ok_def)
  let ?xs = "rows_of a t S'"
  have setx: "s_board ` set ?xs = set bs"
    using arg_cong [OF boards, of set] bs(2) by auto
  have len: "length ?xs = length bs"
  proof -
    have "length ?xs = card (s_board ` set ?xs)" using distinct_card [OF sources_ok_rows(1) [OF ok']] by simp
    also have "\<dots> = length bs" using setx distinct_card [OF bs(1)] by simp
    finally show ?thesis .
  qed
  have at: "\<exists>i < length bs. bs ! i = s_board r \<and> s_position r = int i" if "r \<in> set ?xs" for r
  proof -
    have "s_board r \<in> set bs" using setx that by blast
    then obtain i where "i < length bs" "bs ! i = s_board r" by (auto simp: in_set_conv_nth)
    then show ?thesis using pos [of r i] that by auto
  qed
  have onto: "\<exists>r \<in> set ?xs. s_position r = int i" if "i < length bs" for i
  proof -
    have "bs ! i \<in> s_board ` set ?xs" using that setx by simp
    then obtain r where r: "r \<in> set ?xs" "s_board r = bs ! i" by auto
    then have "s_position r = int i" using pos [of r i] that by auto
    with r(1) show ?thesis by blast
  qed
  have set_pos: "set (map s_position ?xs) = set (map int [0..<length bs])"
  proof
    show "set (map s_position ?xs) \<subseteq> set (map int [0..<length bs])" using at by fastforce
    show "set (map int [0..<length bs]) \<subseteq> set (map s_position ?xs)"
    proof
      fix x
      assume "x \<in> set (map int [0..<length bs])"
      then obtain i where "x = int i" "i < length bs" by auto
      with onto [of i] obtain r where "r \<in> set ?xs" "x = s_position r" by metis
      then show "x \<in> set (map s_position ?xs)" unfolding set_map by (intro image_eqI)
    qed
  qed
  have "card (set (map s_position ?xs)) = length (map s_position ?xs)"
    unfolding set_pos by (simp add: card_image len)
  then have "distinct (map s_position ?xs)" by (rule card_distinct)
  moreover have "sorted (map int [0..<length bs])" "distinct (map int [0..<length bs])"
    by (simp_all add: sorted_map sorted_wrt_upt distinct_map) 
  ultimately have eq: "map s_position ?xs = map int [0..<length bs]"
    using set_pos rows_of_sorted by (intro sorted_distinct_set_unique) blast+
  then show "normal a t S'" by (simp add: normal_def len)
  show "map s_board ?xs = bs"
  proof (rule nth_equalityI)
    fix i
    assume i: "i < length (map s_board ?xs)"
    then have "s_position (?xs ! i) = int i" using normal_nth [OF \<open>normal a t S'\<close>] by simp
    moreover obtain j where "j < length bs" "bs ! j = s_board (?xs ! i)" "s_position (?xs ! i) = int j"
      using at [of "?xs ! i"] i by (metis length_map nth_mem)
    ultimately show "map s_board ?xs ! i = bs ! i" using i by simp
  qed (simp add: len)
qed


section \<open>The three edits on the rows\<close>

lemma few_rows: "length (rows_of a t S) = length (map s_board (rows_of a t S))"
  by simp

text \<open>Everything but the rows of the aggregated board stays.\<close>

definition others_same :: "ident \<Rightarrow> string \<Rightarrow> db \<Rightarrow> db \<Rightarrow> bool" where
  "others_same a t d d' \<longleftrightarrow>
     filter (\<lambda>r. \<not> source_of a t r) (aggregated_board_sources d') = filter (\<lambda>r. \<not> source_of a t r) (aggregated_board_sources d)
     \<and> (\<exists>S. d' = d\<lparr>aggregated_board_sources := S\<rparr>)"

lemma others_same_trans: "others_same a t d1 d2 \<Longrightarrow> others_same a t d2 d3 \<Longrightarrow> others_same a t d1 d3"
  by (auto simp: others_same_def)

lemma apply_effect:
  assumes run: "apply_source_order a t bs e w = (Inr u, w')"
    and ok: "sources_ok a t (aggregated_board_sources (db w))"
    and bs: "distinct bs" "set bs = set (ordered_sources a t (db w))" and few: "length bs < 2 ^ 31"
  shows "ordered_sources a t (db w') = bs \<and> normal a t (aggregated_board_sources (db w')) \<and> sources_ok a t (aggregated_board_sources (db w'))
    \<and> others_same a t (db w) (db w') \<and> tx_now w' = tx_now w \<and> aborted w' = aborted w"
proof -
  let ?S = "map (placed a t (map_of (zip bs [0..<length bs]))) (aggregated_board_sources (db w))"
  from run obtain us where "each (\<lambda>(i, b). internal ''failed to update source board position''
      (exec (place_source_sql a t b (as_i32 (int i))))) (enumerate 0 bs) e w = (Inr us, w')"
    unfolding apply_source_order_def by (auto simp: ok_iffs)
  from place_each [OF this bs(1)] have d': "db w' = (db w)\<lparr>aggregated_board_sources := ?S\<rparr>"
    and rest: "tx_now w' = tx_now w" "aborted w' = aborted w" by simp_all
  have set_bs: "set bs = s_board ` {r \<in> set (aggregated_board_sources (db w)). source_of a t r}"
    using bs(2) by (simp add: ordered_sources_def source_rows_of)
  have "placed a t f r = r" if "\<not> source_of a t r" for f r using that by (simp add: placed_def)
  then have "filter (\<lambda>r. \<not> source_of a t r) (map (placed a t f) xs) = filter (\<lambda>r. \<not> source_of a t r) xs" for f xs
    by (induction xs) auto
  then show ?thesis
    using d' rest placed_order [OF ok bs(1) set_bs few] by (auto simp: others_same_def ordered_sources_def source_rows_of)
qed

lemma normalise_effect:
  assumes run: "normalise_sources a t e w = (Inr u, w')"
    and ok: "sources_ok a t (aggregated_board_sources (db w))" and few: "length (ordered_sources a t (db w)) < 2 ^ 31"
  shows "ordered_sources a t (db w') = ordered_sources a t (db w) \<and> normal a t (aggregated_board_sources (db w'))
    \<and> sources_ok a t (aggregated_board_sources (db w')) \<and> others_same a t (db w) (db w')"
proof -
  let ?w = "tick w"
  from run have "apply_source_order a t (ordered_sources a t (db ?w)) e ?w = (Inr u, w')"
    by (auto simp: normalise_sources_def fetch_ordered_source_ids_def ok_iffs)
  from apply_effect [OF this] show ?thesis
    using ok few sources_ok_rows(1) [OF ok] by (simp add: ordered_sources_def source_rows_of)
qed

lemma removed_order:
  fixes b :: ident
  assumes ok: "sources_ok a t S"
  defines "S' \<equiv> del_rows (\<lambda>r. source_of a t r \<and> s_board r = b) S"
  shows "rows_of a t S' = filter (\<lambda>r. s_board r \<noteq> b) (rows_of a t S)" and "sources_ok a t S'"
proof -
  have eq: "filter (source_of a t) S' = filter (\<lambda>r. s_board r \<noteq> b) (filter (source_of a t) S)"
    unfolding S'_def del_rows_def by (induction S) auto
  show "rows_of a t S' = filter (\<lambda>r. s_board r \<noteq> b) (rows_of a t S)"
    unfolding rows_of_def eq by (rule sort_rows_filter [OF source_le_total], erule (1) source_le_trans)
  have "distinct (map s_board (filter (source_of a t) S'))"
    unfolding eq by (rule distinct_map_filter) (use ok in \<open>simp add: sources_ok_def\<close>)
  then show "sources_ok a t S'" using ok by (auto simp: sources_ok_def S'_def del_rows_def)
qed


definition made_room :: "int \<Rightarrow> ident \<Rightarrow> source_row \<Rightarrow> source_row" where
  "made_room pos b r = (if s_board r = b then r\<lparr>s_position := pos\<rparr>
     else if pos \<le> s_position r then r\<lparr>s_position := s_position r + 1\<rparr> else r)"

lemma made_room_fields [simp]:
  "s_board (made_room pos b r) = s_board r" "source_of a t (made_room pos b r) = source_of a t r"
  by (simp_all add: made_room_def source_of_def)

lemma made_room_rising: "rising xs \<Longrightarrow> \<forall>r \<in> set xs. s_board r \<noteq> b \<Longrightarrow> rising (map (made_room pos b) xs)"
  by (induction xs) (auto simp: made_room_def)

lemma added_rows:
  assumes ok: "sources_ok a t S" and norm: "normal a t S" and nb: "s_board nb = b" "s_position nb = int p"
    and S': "{r \<in> set S'. source_of a t r} = insert nb (made_room (int p) b ` {r \<in> set S. source_of a t r \<and> s_board r \<noteq> b})"
    and ok': "sources_ok a t S'"
  shows "map s_board (rows_of a t S') = filter (\<lambda>x. x \<noteq> b) (take p (map s_board (rows_of a t S)))
      @ b # filter (\<lambda>x. x \<noteq> b) (drop p (map s_board (rows_of a t S)))"
proof -
  let ?X = "rows_of a t S" and ?g = "made_room (int p) b"
  let ?A = "filter (\<lambda>r. s_board r \<noteq> b) (take p ?X)" and ?B = "filter (\<lambda>r. s_board r \<noteq> b) (drop p ?X)"
  have posA: "s_position r < int p" if "r \<in> set (take p ?X)" for r
    using that normal_nth [OF norm] by (auto simp: in_set_conv_nth)
  have posB: "int p \<le> s_position r" if "r \<in> set (drop p ?X)" for r
    using that normal_nth [OF norm] by (auto simp: in_set_conv_nth)
  have "rising ?X" using norm by (simp add: rising_iff normal_def sorted_map sorted_wrt_upt distinct_map)
  then have "rising (take p ?X)" "rising (drop p ?X)" by (simp_all add: sorted_wrt_take sorted_wrt_drop)
  then have "rising ?A" "rising ?B" by (simp_all add: sorted_wrt_filter)
  then have "rising (map ?g ?A)" "rising (map ?g ?B)" by (auto intro!: made_room_rising)
  moreover have "s_position (?g r) < int p" if "r \<in> set ?A" for r using posA [of r] that by (auto simp: made_room_def)
  moreover have "int p < s_position (?g r)" if "r \<in> set ?B" for r using posB [of r] that by (auto simp: made_room_def)
  ultimately have "rising (map ?g ?A @ nb # map ?g ?B)"
    using nb by (auto simp: sorted_wrt_append intro: less_trans)
  moreover have "set ?A \<union> set ?B = {r \<in> set S. source_of a t r \<and> s_board r \<noteq> b}"
  proof -
    have "set (take p ?X) \<union> set (drop p ?X) = set ?X" by (metis append_take_drop_id set_append)
    then show ?thesis unfolding set_filter set_rows_of by blast
  qed
  then have "set (map ?g ?A @ nb # map ?g ?B) = {r \<in> set S'. source_of a t r}" unfolding S' by auto
  ultimately have "rows_of a t S' = map ?g ?A @ nb # map ?g ?B"
    by (rule rows_of_eqI) (rule sources_ok_rows(2) [OF ok'])
  then show ?thesis using nb(1) by (simp add: comp_def filter_map take_map drop_map)
qed


definition shifted :: "ident \<Rightarrow> string \<Rightarrow> int \<Rightarrow> source_row \<Rightarrow> source_row" where
  "shifted a t pos r = (if source_of a t r \<and> pos \<le> s_position r then r\<lparr>s_position := s_position r + 1\<rparr> else r)"

lemma shifted_fields [simp]:
  "s_board (shifted a t pos r) = s_board r" "source_of a' t' (shifted a t pos r) = source_of a' t' r"
  "s_aggregated (shifted a t pos r) = s_aggregated r" "s_tenant (shifted a t pos r) = s_tenant r"
  "(shifted a t pos r)\<lparr>s_position := x\<rparr> = r\<lparr>s_position := x\<rparr>"
  by (simp_all add: shifted_def source_of_def)

lemma filter_upd_rows_in:
  "(\<And>r. r \<in> set rows \<Longrightarrow> p r \<Longrightarrow> \<not> q r \<and> \<not> q (f r)) \<Longrightarrow> filter q (upd_rows p f rows) = filter q rows"
  by (induction rows) auto

lemma added_table:
  assumes ok: "sources_ok a t S" and S1: "S1 = map (shifted a t pos) S"
    and S': "S' = (if \<exists>r \<in> set S1. source_key a b r then upd_rows (source_key a b) (\<lambda>r. r\<lparr>s_position := pos\<rparr>) S1
       else S1 @ [new_source a t b pos now])"
  shows "\<exists>nb. s_board nb = b \<and> s_position nb = pos
    \<and> {r \<in> set S'. source_of a t r} = insert nb (made_room pos b ` {r \<in> set S. source_of a t r \<and> s_board r \<noteq> b})" (is ?rows)
    and "sources_ok a t S'"
    and "filter (\<lambda>r. \<not> source_of a t r) S' = filter (\<lambda>r. \<not> source_of a t r) S"
proof -
  have ten: "s_aggregated r = a \<longleftrightarrow> source_of a t r" if "r \<in> set S" for r
    using ok that by (auto simp: sources_ok_def source_of_def)
  have key: "(\<exists>r \<in> set S1. source_key a b r) \<longleftrightarrow> (\<exists>r \<in> set S. source_of a t r \<and> s_board r = b)"
    using ten by (auto simp: S1 source_key_def)
  have "shifted a t pos r = r" if "\<not> source_of a t r" for r using that by (simp add: shifted_def)
  then have others1: "filter (\<lambda>r. \<not> source_of a t r) S1 = filter (\<lambda>r. \<not> source_of a t r) S"
    unfolding S1 by (induction S) auto
  have boards1: "map s_board (filter (source_of a t) S1) = map s_board (filter (source_of a t) S)"
    unfolding S1 by (simp add: filter_map comp_def)
  have new: "source_of a t (new_source a t b pos now)" "s_board (new_source a t b pos now) = b"
    "s_tenant (new_source a t b pos now) = t" "s_position (new_source a t b pos now) = pos"
    by (simp_all add: new_source_def source_of_def)
  have placed1: "source_of a t (r\<lparr>s_position := pos\<rparr>) = source_of a t r" for r by (simp add: source_of_def)
  have room: "shifted a t pos r = made_room pos b r" if "source_of a t r" "s_board r \<noteq> b" for r
    using that by (simp add: shifted_def made_room_def)
  show "sources_ok a t S'" "filter (\<lambda>r. \<not> source_of a t r) S' = filter (\<lambda>r. \<not> source_of a t r) S" ?rows
  proof (atomize (full), cases "\<exists>r \<in> set S1. source_key a b r")
    case True
    define f where "f r = (if source_key a b r then r\<lparr>s_position := pos\<rparr> else shifted a t pos r)" for r
    have f: "s_board (f r) = s_board r" "source_of a t (f r) = source_of a t r" "s_aggregated (f r) = s_aggregated r"
      "s_tenant (f r) = s_tenant r" for r by (simp_all add: f_def source_of_def)
    have S'1: "S' = map f S"
      using True by (simp add: S' upd_rows_def S1 source_key_def comp_def f_def [abs_def])
    obtain old where old: "old \<in> set S" "source_of a t old" "s_board old = b" using True key by blast
    have one: "r = old" if "r \<in> set S" "source_of a t r" "s_board r = b" for r
      using distinct_key [of s_board "filter (source_of a t) S" r old] ok old that by (simp add: sources_ok_def)
    have ok': "sources_ok a t S'"
      using ok by (simp add: S'1 sources_ok_def filter_map comp_def f)
    have "f r = r" if "r \<in> set S" "\<not> source_of a t r" for r
      using that ten [OF that(1)] by (simp add: f_def source_key_def shifted_def)
    then have "map f (filter (\<lambda>r. \<not> source_of a t r) S) = filter (\<lambda>r. \<not> source_of a t r) S"
      by (intro map_idI) auto
    then have others': "filter (\<lambda>r. \<not> source_of a t r) S' = filter (\<lambda>r. \<not> source_of a t r) S"
      by (simp add: S'1 filter_map comp_def f)
    have "{r \<in> set S'. source_of a t r} = f ` {r \<in> set S. source_of a t r}" by (auto simp: S'1 f)
    also have "{r \<in> set S. source_of a t r} = insert old {r \<in> set S. source_of a t r \<and> s_board r \<noteq> b}" using old one by blast
    also have "f ` \<dots> = insert (f old) (f ` {r \<in> set S. source_of a t r \<and> s_board r \<noteq> b})" by (rule image_insert)
    also have "f ` {r \<in> set S. source_of a t r \<and> s_board r \<noteq> b} = made_room pos b ` {r \<in> set S. source_of a t r \<and> s_board r \<noteq> b}"
      by (rule image_cong) (use room in \<open>auto simp: f_def source_key_def\<close>)
    finally have rows': "{r \<in> set S'. source_of a t r} = insert (f old) (made_room pos b ` {r \<in> set S. source_of a t r \<and> s_board r \<noteq> b})" .
    have "s_board (f old) = b" "s_position (f old) = pos" using old by (simp_all add: f_def source_key_def source_of_def)
    with rows' have ?rows by (intro exI [of _ "f old"]) simp
    with ok' others' show "sources_ok a t S' \<and> filter (\<lambda>r. \<not> source_of a t r) S' = filter (\<lambda>r. \<not> source_of a t r) S \<and> ?rows" by blast
  next
    case False
    then have fresh: "\<forall>r \<in> set S. source_of a t r \<longrightarrow> s_board r \<noteq> b" using key by blast
    have S'1: "S' = map (shifted a t pos) S @ [new_source a t b pos now]" using False by (simp add: S' S1)
    have "sources_ok a t S'"
      using ok False boards1 fresh new by (auto simp: S' sources_ok_def S1)
    moreover have "filter (\<lambda>r. \<not> source_of a t r) S' = filter (\<lambda>r. \<not> source_of a t r) S"
      using others1 new by (simp add: S'1 S1)
    moreover have "{r \<in> set S'. source_of a t r} = insert (new_source a t b pos now) (shifted a t pos ` {r \<in> set S. source_of a t r \<and> s_board r \<noteq> b})"
      using fresh new by (auto simp: S'1)
    then have ?rows using new room by (intro exI [of _ "new_source a t b pos now"]) auto
    ultimately show "sources_ok a t S' \<and> filter (\<lambda>r. \<not> source_of a t r) S' = filter (\<lambda>r. \<not> source_of a t r) S \<and> ?rows" by blast
  qed
qed


section \<open>The handlers\<close>

datatype source_call = AddSource string int | RemoveSource string | MoveSource string int

fun serve_source :: "request_context \<Rightarrow> source_call \<Rightarrow> (cerr, aggregated_msg) act" where
  "serve_source ctx (AddSource s p) = add_source_board ctx s p"
| "serve_source ctx (RemoveSource s) = remove_source_board ctx s"
| "serve_source ctx (MoveSource s p) = move_source_board ctx s p"

fun source_arg :: "source_call \<Rightarrow> string" where
  "source_arg (AddSource s p) = s"
| "source_arg (RemoveSource s) = s"
| "source_arg (MoveSource s p) = s"

fun source_body :: "source_call \<Rightarrow> ident \<Rightarrow> string \<Rightarrow> ident \<Rightarrow> (cerr, unit) act" where
  "source_body (AddSource s p) a t b = add_source_tx a t b p"
| "source_body (RemoveSource s) a t b = remove_source_tx a t b"
| "source_body (MoveSource s p) a t b = move_source_tx p a t b"

lemma serve_source_body: "serve_source ctx c = on_source ctx (source_arg c) (source_body c)"
proof (cases c)
  case (AddSource s p)
  have "source_body c = (\<lambda>a t b. add_source_tx a t b p)" by (simp add: fun_eq_iff AddSource)
  then show ?thesis by (simp add: AddSource add_source_board_def)
next
  case (RemoveSource s)
  have "source_body c = remove_source_tx" by (simp add: fun_eq_iff RemoveSource)
  then show ?thesis by (simp add: RemoveSource remove_source_board_def)
next
  case (MoveSource s p)
  have "source_body c = move_source_tx p" by (simp add: fun_eq_iff MoveSource)
  then show ?thesis by (simp add: MoveSource move_source_board_def)
qed

text \<open>What the calls do to the list of the sources.\<close>

fun edited :: "source_call \<Rightarrow> ident \<Rightarrow> ident list \<Rightarrow> ident list" where
  "edited (AddSource s p) b L = (let n = (if p > 0 then nat p else length L) in
     filter (\<lambda>x. x \<noteq> b) (take n L) @ b # filter (\<lambda>x. x \<noteq> b) (drop n L))"
| "edited (RemoveSource s) b L = filter (\<lambda>x. x \<noteq> b) L"
| "edited (MoveSource s p) b L = insert_at (target_idx p (length L - 1)) b (remove1 b L)"

definition sources_good :: "ident \<Rightarrow> string \<Rightarrow> db \<Rightarrow> bool" where
  "sources_good a t d \<longleftrightarrow> sources_ok a t (aggregated_board_sources d) \<and> normal a t (aggregated_board_sources d)"

definition others_kept :: "ident \<Rightarrow> string \<Rightarrow> db \<Rightarrow> db \<Rightarrow> bool" where
  "others_kept a t d d' \<longleftrightarrow>
     filter (\<lambda>r. \<not> source_of a t r) (aggregated_board_sources d') = filter (\<lambda>r. \<not> source_of a t r) (aggregated_board_sources d)"

lemma aggregated_event_frame:
  assumes "insert_aggregated_event t a ty p e w = (Inr u, w')"
  shows "aggregated_board_sources (db w') = aggregated_board_sources (db w) \<and> \<not> aborted w'"
  using assms
  by (auto simp: insert_aggregated_event_def insert_row_def ok_iffs bump_aggregated_revision_def insert_event_sql_def
      pg_notify_def new_id_def split: if_split_asm option.split_asm)

lemma ordered_of: "ordered_sources a t d = map s_board (rows_of a t (aggregated_board_sources d))"
  by (simp add: ordered_sources_def source_rows_of)

lemma add_source_tx_effect:
  assumes run: "add_source_tx a t b p e w = (Inr u, w')" and good: "sources_good a t (db w)"
    and few: "length (ordered_sources a t (db w)) < 2 ^ 31 - 1"
  shows "ordered_sources a t (db w') = edited (AddSource s p) b (ordered_sources a t (db w)) \<and> sources_good a t (db w')
    \<and> others_kept a t (db w) (db w') \<and> \<not> aborted w'"
proof -
  let ?S = "aggregated_board_sources (db w)" and ?L = "ordered_sources a t (db w)"
  define pos where "pos = (if p > 0 then p else as_i32 (int (cnt_rows (source_of a t) ?S)))"
  define n where "n = (if p > 0 then nat p else length ?L)"
  have pos: "pos = int n"
    using few by (simp add: pos_def n_def ordered_of rows_of_def cnt_rows_def i32_ok_def)
  define w1 where "w1 = (if p > 0 then w else tick w)"
  then have w1: "db w1 = db w" by simp
  from run obtain w2 w3 w4 u' where sh: "exec (shift_sources_sql a t pos) e w1 = (Inr (), w2)" and up: "exec (upsert_source_sql a t b pos) e w2 = (Inr (), w3)"
    and no: "normalise_sources a t e w3 = (Inr (), w4)"
    and ev: "insert_aggregated_event t a ''SourceBoardAdded''
       (JObj [jstr ''aggregated_board_id'' (id_str (codec e) a), jstr ''board_id'' (id_str (codec e) b)]) e w4 = (Inr u', w')"
    by (auto simp: add_source_tx_def bnd_ok internal_ok ask_ok select_ok ret_ok pos_def w1_def split: if_split_asm)
  have S1: "aggregated_board_sources (db w2) = map (shifted a t pos) ?S"
    using sh w1 by (auto simp: ok_iffs shift_sources_sql_def Let_def upd_rows_def shifted_def [abs_def] split: if_split_asm)
  obtain now where S': "aggregated_board_sources (db w3) = (if \<exists>r \<in> set (map (shifted a t pos) ?S). source_key a b r
      then upd_rows (source_key a b) (\<lambda>r. r\<lparr>s_position := pos\<rparr>) (map (shifted a t pos) ?S)
       else map (shifted a t pos) ?S @ [new_source a t b pos now])"
    using up S1 [symmetric] by (auto simp: ok_iffs upsert_source_sql_def split: if_split_asm)
  have ok: "sources_ok a t ?S" "normal a t ?S" using good by (simp_all add: sources_good_def)
  from added_table(1) [OF ok(1) refl S'] obtain nb where nb: "s_board nb = b" "s_position nb = pos"
    "{r \<in> set (aggregated_board_sources (db w3)). source_of a t r} = insert nb (made_room pos b ` {r \<in> set ?S. source_of a t r \<and> s_board r \<noteq> b})"
    by blast
  note ok3 = added_table(2) [OF ok(1) refl S'] and oth3 = added_table(3) [OF ok(1) refl S']
  have L3: "ordered_sources a t (db w3) = edited (AddSource s p) b ?L"
    using added_rows [OF ok nb(1) _ _ ok3, of n] nb pos by (simp add: ordered_of n_def Let_def)
  have "length (ordered_sources a t (db w3)) \<le> Suc (length ?L)"
    unfolding L3 by (simp add: Let_def) (metis add_mono append_take_drop_id length_append length_filter_le)
  then have "length (ordered_sources a t (db w3)) < 2 ^ 31" using few by simp
  from normalise_effect [OF no ok3 this] aggregated_event_frame [OF ev] L3 oth3 show ?thesis
    by (simp add: ordered_of sources_good_def others_kept_def others_same_def)
qed

lemma remove_source_tx_effect:
  assumes run: "remove_source_tx a t b e w = (Inr u, w')" and good: "sources_good a t (db w)"
    and few: "length (ordered_sources a t (db w)) < 2 ^ 31 - 1"
  shows "ordered_sources a t (db w') = edited (RemoveSource s) b (ordered_sources a t (db w)) \<and> sources_good a t (db w')
    \<and> others_kept a t (db w) (db w') \<and> \<not> aborted w'"
proof -
  let ?S = "aggregated_board_sources (db w)" and ?L = "ordered_sources a t (db w)"
  from run obtain w1 w2 u' where rm: "exec (remove_source_sql a t b) e w = (Inr (), w1)"
    and no: "normalise_sources a t e w1 = (Inr (), w2)"
    and ev: "insert_aggregated_event t a ''SourceBoardRemoved''
       (JObj [jstr ''aggregated_board_id'' (id_str (codec e) a), jstr ''board_id'' (id_str (codec e) b)]) e w2 = (Inr u', w')"
    by (auto simp: remove_source_tx_def bnd_ok internal_ok ask_ok)
  have S1: "aggregated_board_sources (db w1) = del_rows (\<lambda>r. source_of a t r \<and> s_board r = b) ?S"
    using rm by (auto simp: ok_iffs remove_source_sql_def)
  have ok: "sources_ok a t ?S" using good by (simp add: sources_good_def)
  note rows = removed_order [OF ok, of b, folded S1]
  have L1: "ordered_sources a t (db w1) = filter (\<lambda>x. x \<noteq> b) ?L"
    using rows(1) by (simp add: ordered_of filter_map comp_def)
  have "length (ordered_sources a t (db w1)) < 2 ^ 31"
    unfolding L1 using few length_filter_le [of "\<lambda>x. x \<noteq> b" ?L] by linarith
  moreover have "filter (\<lambda>r. \<not> source_of a t r) (del_rows (\<lambda>r. source_of a t r \<and> s_board r = b) ?S) = filter (\<lambda>r. \<not> source_of a t r) ?S"
    by (auto simp: del_rows_def intro!: filter_cong)
  ultimately show ?thesis
    using normalise_effect [OF no rows(2)] aggregated_event_frame [OF ev] L1 S1
    by (simp add: ordered_of sources_good_def others_kept_def others_same_def)
qed

lemma length_insert_at: "i \<le> length xs \<Longrightarrow> length (insert_at i x xs) = Suc (length xs)"
  by (simp add: insert_at_def)

lemma move_source_tx_effect:
  assumes run: "move_source_tx p a t b e w = (Inr u, w')" and good: "sources_good a t (db w)" and "\<not> aborted w"
    and few: "length (ordered_sources a t (db w)) < 2 ^ 31 - 1"
  shows "ordered_sources a t (db w') = edited (MoveSource s p) b (ordered_sources a t (db w)) \<and> sources_good a t (db w')
    \<and> others_kept a t (db w) (db w') \<and> \<not> aborted w'"
proof -
  let ?S = "aggregated_board_sources (db w)" and ?L = "ordered_sources a t (db w)"
  let ?M = "insert_at (target_idx p (length (remove1 b ?L))) b (remove1 b ?L)"
  from run have b: "b \<in> set ?L" and ap: "apply_source_order a t ?M e (tick w) = (Inr u, w')"
    by (auto simp: move_source_tx_def fetch_ordered_source_ids_def ok_iffs Let_def)
  have ok: "sources_ok a t ?S" using good by (simp add: sources_good_def)
  have dis: "distinct ?L" using sources_ok_rows(1) [OF ok] by (simp add: ordered_of)
  have split: "set (take i xs) \<union> set (drop i xs) = set xs" for i and xs :: "ident list"
    by (metis append_take_drop_id set_append)
  have "set ?M = insert b (set (remove1 b ?L))" using split by (auto simp: insert_at_def)
  then have set_M: "set ?M = set ?L" using b dis by (auto simp: set_remove1_eq)
  have len: "length (remove1 b ?L) = length ?L - 1" using b by (simp add: length_remove1)
  have pos: "0 < length ?L" using b by (cases ?L) auto
  have len_M: "length ?M = length ?L" using len pos by (simp add: length_insert_at target_idx_def)
  have "distinct ?M" using set_M len_M dis by (metis card_distinct distinct_card)
  from apply_effect [OF ap _ this] show ?thesis
    using ok set_M len_M few assms(3) len by (auto simp: sources_good_def others_kept_def others_same_def)
qed

text \<open>
  C9. The source boards of an aggregated board are a list, and the three calls edit it as such: with positions
  that number the list, a successful AddSourceBoard puts the board before the one at the given place (or at
  the end) and takes it out of its old place, RemoveSourceBoard takes it out, MoveSourceBoard takes it out
  and inserts it at the place (beyond the end or negative: at the end). The positions number the new list
  again, and the lists of other aggregated boards stay as they were.
\<close>

theorem source_calls_edit_list:
  assumes run: "serve_source ctx c e w = (Inr m, w')" and req: "board_request e ctx t a"
    and good: "sources_good a t (db w)" and few: "length (ordered_sources a t (db w)) < 2 ^ 31 - 1"
  shows "\<exists>b. id_from_str (codec e) (source_arg c) = Inr b \<and> ordered_sources a t (db w') = edited c b (ordered_sources a t (db w))
    \<and> sources_good a t (db w') \<and> others_kept a t (db w) (db w')"
proof -
  from run req obtain b w1 where b: "id_from_str (codec e) (source_arg c) = Inr b"
    and tx: "in_tx (source_body c a t b) e w = (Inr (), w1)" and w': "db w' = db w1"
    unfolding serve_source_body on_source_def
    by (auto simp: ok_iffs board_request_def get_aggregate_metadata_def)
  have eff: "ordered_sources a t (db w2) = edited c b (ordered_sources a t (db w)) \<and> sources_good a t (db w2)
      \<and> others_kept a t (db w) (db w2) \<and> \<not> aborted w2"
    if "source_body c a t b e w0 = (Inr (), w2)" "db w0 = db w" "\<not> aborted w0" for w0 w2
  proof (cases c)
    case (AddSource s p)
    then show ?thesis using add_source_tx_effect [of a t b p e w0 "()" w2 s] that good few by simp
  next
    case (RemoveSource s)
    then show ?thesis using remove_source_tx_effect [of a t b e w0 "()" w2 s] that good few by simp
  next
    case (MoveSource s p)
    then show ?thesis using move_source_tx_effect [of p a t b e w0 "()" w2 s] that good few by simp
  qed
  from in_tx_run [OF tx] eff obtain w0 w2 where "db w0 = db w" "aborted w0 = False" "source_body c a t b e w0 = (Inr (), w2)" "db w1 = db w2"
    by (metis (no_types, lifting) tick_fields(1) world.select_convs(1) world.select_convs(3) world.update_convs(2) world.update_convs(3) world.surjective)
  with eff [of w0 w2] b w' show ?thesis by auto
qed

end
