(* ===== verification/Labels.thy ===== *)
theory Labels
  imports Projects Quiet Column_Edits
begin

text \<open>
  \<open>src/services/labels.rs\<close>: the catalog of labels, per project or global to a tenant, with the checks of
  the project permissions that the milestone and template services repeat.
\<close>

section \<open>Project permissions\<close>

definition check_project_permission :: "string \<Rightarrow> ident \<Rightarrow> string \<Rightarrow> string \<Rightarrow> (cerr, unit) act" where
  "check_project_permission permission p relation sub =
     bnd (ask codec) (\<lambda>u.
     bnd (internal ''failed to check project permission''
           (check_permission_with_retry permission PERMISSION_TYPE_PROJECT (id_str u p) relation sub)) (\<lambda>allowed.
     require allowed (PermissionDenied, ''permission denied'')))"

text \<open>The loop over the projects of the tenant stops at the first one that the caller manages.\<close>

primrec manages_one :: "string \<Rightarrow> string \<Rightarrow> ident list \<Rightarrow> (cerr, unit) act" where
  "manages_one permission sub [] = raise (PermissionDenied, ''permission denied'')"
| "manages_one permission sub (p # ps) =
     bnd (ask codec) (\<lambda>u.
     bnd (internal ''failed to check project permission''
           (check_permission_with_retry permission PERMISSION_TYPE_PROJECT (id_str u p) ''manage'' sub)) (\<lambda>allowed.
     if allowed then ret () else manages_one permission sub ps))"

definition check_global_label_permission :: "string \<Rightarrow> string \<Rightarrow> string \<Rightarrow> (cerr, unit) act" where
  "check_global_label_permission permission tenant sub =
     bnd (internal ''failed to list tenant projects''
           (select (\<lambda>d. map p_id (filter (\<lambda>p. p_tenant p = tenant) (projects d))))) (\<lambda>ps.
     manages_one permission sub ps)"

definition check_label_scope_permission :: "string \<Rightarrow> ident option \<Rightarrow> string \<Rightarrow> string \<Rightarrow> (cerr, unit) act" where
  "check_label_scope_permission permission project tenant sub =
     (case project of
        Some p \<Rightarrow> check_project_permission permission p ''manage'' sub
      | None \<Rightarrow> check_global_label_permission permission tenant sub)"

definition mask_contains :: "string list option \<Rightarrow> string \<Rightarrow> bool" where
  "mask_contains m path = (case m of Some ps \<Rightarrow> path \<in> set ps | None \<Rightarrow> False)"

section \<open>Statements\<close>

definition label_from_row :: "ulid_codec \<Rightarrow> label_row \<Rightarrow> label_msg" where
  "label_from_row u r =
     \<lparr>lm_id = id_str u (l_id r), lm_project_id = opt_id_str u (l_project r), lm_name = l_name r, lm_style = l_style r\<rparr>"

text \<open>The two partial unique indexes of migration 0032 in one key: NULL is a scope of its own.\<close>

definition label_key :: "label_row \<Rightarrow> string \<times> ident option \<times> string" where
  "label_key r = (l_tenant r, l_project r, l_name r)"

definition label_is :: "ident \<Rightarrow> string \<Rightarrow> label_row \<Rightarrow> bool" where
  "label_is i tenant r \<longleftrightarrow> l_id r = i \<and> l_tenant r = tenant"

definition find_label :: "ident \<Rightarrow> string \<Rightarrow> db \<Rightarrow> label_row option" where
  "find_label i tenant d = List.find (label_is i tenant) (labels d)"

definition label_taken :: "label_row \<Rightarrow> db \<Rightarrow> bool" where
  "label_taken row d \<longleftrightarrow> (\<exists>r \<in> set (labels d). l_id r = l_id row \<or> label_key r = label_key row)"

definition insert_label_row_sql :: "label_row \<Rightarrow> datetime \<Rightarrow> db \<Rightarrow> (label_row \<times> db) option" where
  "insert_label_row_sql row now d =
     (if label_taken row d then None
      else if (case l_project row of Some p \<Rightarrow> p \<notin> p_id ` set (projects d) | None \<Rightarrow> False) then None
      else Some (row, d\<lparr>labels := labels d @ [row]\<rparr>))"

definition set_label :: "string option \<Rightarrow> string option \<Rightarrow> label_row \<Rightarrow> label_row" where
  "set_label name style r = r\<lparr>l_name := (case name of Some n \<Rightarrow> n | None \<Rightarrow> l_name r),
     l_style := (case style of Some s \<Rightarrow> s | None \<Rightarrow> l_style r)\<rparr>"

definition rename_taken :: "ident \<Rightarrow> string \<Rightarrow> (label_row \<Rightarrow> label_row) \<Rightarrow> db \<Rightarrow> bool" where
  "rename_taken i tenant f d \<longleftrightarrow> (\<exists>r \<in> set (labels d). label_is i tenant r
     \<and> (\<exists>r' \<in> set (labels d). l_id r' \<noteq> i \<and> label_key r' = label_key (f r)))"

definition update_label_sql ::
  "ident \<Rightarrow> string \<Rightarrow> (label_row \<Rightarrow> label_row) \<Rightarrow> datetime \<Rightarrow> db \<Rightarrow> (label_row option \<times> db) option" where
  "update_label_sql i tenant f now d =
     (if rename_taken i tenant f d then None
      else Some (map_option f (find_label i tenant d), d\<lparr>labels := upd_rows (label_is i tenant) f (labels d)\<rparr>))"

definition delete_label_sql :: "ident \<Rightarrow> string \<Rightarrow> datetime \<Rightarrow> db \<Rightarrow> (nat \<times> db) option" where
  "delete_label_sql i tenant now d =
     (let n = cnt_rows (label_is i tenant) (labels d) in
      if n = 0 then Some (0, d)
      else Some (n, d\<lparr>labels := del_rows (label_is i tenant) (labels d),
                      card_labels := del_rows (\<lambda>r. cl_label r = i) (card_labels d)\<rparr>))"

text \<open>\<open>map_write_error\<close>: a unique violation is \<open>AlreadyExists\<close>, everything else internal.\<close>

definition label_write :: "string \<Rightarrow> (db \<Rightarrow> bool) \<Rightarrow> (datetime \<Rightarrow> db \<Rightarrow> ('a \<times> db) option) \<Rightarrow> (cerr, 'a) act" where
  "label_write context unique_violation f = (\<lambda>e w.
     (case stmt f e w of
        (Inr a, w1) \<Rightarrow> (Inr a, w1)
      | (Inl _, w1) \<Rightarrow>
          (Inl (if \<not> aborted w \<and> \<not> db_fault e (step w) \<and> unique_violation (db w)
                then (AlreadyExists, ''label with this name already exists in this scope'')
                else (Internal, context)), w1)))"

section \<open>Handlers\<close>

definition list_labels :: "request_context \<Rightarrow> string \<Rightarrow> (cerr, label_msg list) act" where
  "list_labels ctx req_project_id =
     bnd (subject_from_request ctx) (\<lambda>sub.
     bnd (tenant_id_from_request ctx) (\<lambda>tenant.
     bnd (tenant_client_for ctx) (\<lambda>permission.
     bnd (parse_id ''invalid project_id'' req_project_id) (\<lambda>p.
     bnd (check_project_permission permission p ''view'' sub) (\<lambda>_.
     bnd (ask (\<lambda>e. (codec e, text_le e))) (\<lambda>(u, le).
     bnd (internal ''failed to list labels'' (select (\<lambda>d. sort_rows (\<lambda>a b. le (l_name a) (l_name b))
           (filter (\<lambda>l. l_tenant l = tenant \<and> (l_project l = Some p \<or> l_project l = None)) (labels d))))) (\<lambda>rows.
     ret (map (label_from_row u) rows))))))))"

record create_label_request =
  nl_project_id :: string
  nl_name :: string
  nl_style :: string

definition label_scope :: "string \<Rightarrow> string \<Rightarrow> string \<Rightarrow> string \<Rightarrow> (cerr, ident option) act" where
  "label_scope permission tenant sub req_project_id =
     (if req_project_id = ''''
      then bnd (check_global_label_permission permission tenant sub) (\<lambda>_. ret None)
      else bnd (parse_id ''invalid project_id'' req_project_id) (\<lambda>p.
           bnd (check_project_permission permission p ''manage'' sub) (\<lambda>_. ret (Some p))))"

definition create_label :: "request_context \<Rightarrow> create_label_request \<Rightarrow> (cerr, label_msg) act" where
  "create_label ctx req =
     bnd (subject_from_request ctx) (\<lambda>sub.
     bnd (tenant_id_from_request ctx) (\<lambda>tenant.
     bnd (tenant_client_for ctx) (\<lambda>permission.
     bnd (require (nl_name req \<noteq> '''') (InvalidArgument, ''name is required'')) (\<lambda>_.
     bnd (require (nl_style req \<noteq> '''') (InvalidArgument, ''style is required'')) (\<lambda>_.
     bnd (label_scope permission tenant sub (nl_project_id req)) (\<lambda>project.
     bnd new_id (\<lambda>i.
     let row = \<lparr>l_id = i, l_tenant = tenant, l_project = project, l_name = nl_name req, l_style = nl_style req\<rparr> in
     bnd (label_write ''failed to create label'' (label_taken row) (insert_label_row_sql row)) (\<lambda>r.
     bnd (ask codec) (\<lambda>u. ret (label_from_row u r))))))))))"

record update_label_request =
  ul_label_id :: string
  ul_name :: string
  ul_style :: string
  ul_update_mask :: "string list option"

definition update_label :: "request_context \<Rightarrow> update_label_request \<Rightarrow> (cerr, label_msg) act" where
  "update_label ctx req =
     bnd (subject_from_request ctx) (\<lambda>sub.
     bnd (tenant_id_from_request ctx) (\<lambda>tenant.
     bnd (tenant_client_for ctx) (\<lambda>permission.
     bnd (parse_id ''invalid label_id'' (ul_label_id req)) (\<lambda>i.
     bnd (internal ''failed to fetch label for update'' (select (find_label i tenant))) (\<lambda>r.
     bnd (ok_or (NotFound, ''label not found'') r) (\<lambda>existing.
     bnd (check_label_scope_permission permission (l_project existing) tenant sub) (\<lambda>_.
     let f = set_label (if mask_contains (ul_update_mask req) ''name'' then Some (ul_name req) else None)
               (if mask_contains (ul_update_mask req) ''style'' then Some (ul_style req) else None) in
     bnd (label_write ''failed to update label'' (rename_taken i tenant f) (update_label_sql i tenant f)) (\<lambda>row.
     bnd (ok_or (Internal, ''failed to update label'') row) (\<lambda>r.
     bnd (ask codec) (\<lambda>u. ret (label_from_row u r)))))))))))"

definition delete_label :: "request_context \<Rightarrow> string \<Rightarrow> (cerr, unit) act" where
  "delete_label ctx req_label_id =
     bnd (subject_from_request ctx) (\<lambda>sub.
     bnd (tenant_id_from_request ctx) (\<lambda>tenant.
     bnd (tenant_client_for ctx) (\<lambda>permission.
     bnd (parse_id ''invalid label_id'' req_label_id) (\<lambda>i.
     bnd (internal ''failed to fetch label for delete'' (select (find_label i tenant))) (\<lambda>r.
     bnd (ok_or (NotFound, ''label not found'') r) (\<lambda>existing.
     bnd (check_label_scope_permission permission (l_project existing) tenant sub) (\<lambda>_.
     bnd (internal ''failed to delete label'' (stmt (delete_label_sql i tenant))) (\<lambda>n.
     require (n \<noteq> 0) (NotFound, ''label not found'')))))))))"

datatype label_call = CreateLabel create_label_request | UpdateLabel update_label_request | DeleteLabel string

definition serve_label :: "request_context \<Rightarrow> label_call \<Rightarrow> (cerr, unit) act" where
  "serve_label ctx call =
     (case call of
        CreateLabel req \<Rightarrow> bnd (create_label ctx req) (\<lambda>_. ret ())
      | UpdateLabel req \<Rightarrow> bnd (update_label ctx req) (\<lambda>_. ret ())
      | DeleteLabel i \<Rightarrow> delete_label ctx i)"

end
