(* ===== verification/Milestones.thy ===== *)
theory Milestones
  imports Labels
begin

text \<open>
  \<open>src/services/milestones.rs\<close>: milestones of a project, the counts of their cards, and a deletion that
  takes the milestone off its cards itself, as \<open>cards.milestone_id\<close> has no foreign key.
\<close>

section \<open>Messages and statements\<close>

record milestone_msg =
  ms_id :: string
  ms_project_id :: string
  ms_title :: string
  ms_due :: "timestamp option"
  ms_total_cards :: int
  ms_completed_cards :: int
  ms_created_at :: timestamp
  ms_updated_at :: timestamp

definition milestone_from_row :: "ulid_codec \<Rightarrow> milestone_row \<Rightarrow> int \<times> int \<Rightarrow> milestone_msg" where
  "milestone_from_row u r stats =
     \<lparr>ms_id = id_str u (m_id r), ms_project_id = id_str u (m_project r), ms_title = m_title r,
      ms_due = opt_to_proto_ts (m_due r), ms_total_cards = fst stats, ms_completed_cards = snd stats,
      ms_created_at = to_proto_ts (m_created r), ms_updated_at = to_proto_ts (m_updated r)\<rparr>"

text \<open>A milestone without cards has no group, so it is missing from the map.\<close>

definition in_milestone :: "string \<Rightarrow> ident \<Rightarrow> card_row \<Rightarrow> bool" where
  "in_milestone tenant m c \<longleftrightarrow> c_tenant c = tenant \<and> c_milestone c = Some m"

definition fetch_card_stats :: "string \<Rightarrow> ident list \<Rightarrow> (cerr, ident \<rightharpoonup> int \<times> int) act" where
  "fetch_card_stats tenant ids =
     internal ''failed to fetch milestone card stats'' (select (\<lambda>d m.
       let cs = filter (in_milestone tenant m) (cards d) in
       if m \<in> set ids \<and> cs \<noteq> []
       then Some (as_i32 (int (length cs)), as_i32 (int (length (filter (\<lambda>c. c_completed c \<noteq> None) cs))))
       else None))"

definition milestone_is :: "ident \<Rightarrow> string \<Rightarrow> milestone_row \<Rightarrow> bool" where
  "milestone_is m tenant r \<longleftrightarrow> m_id r = m \<and> m_tenant r = tenant"

definition find_milestone :: "ident \<Rightarrow> string \<Rightarrow> db \<Rightarrow> milestone_row option" where
  "find_milestone m tenant d = List.find (milestone_is m tenant) (milestones d)"

definition load_milestone_row :: "string \<Rightarrow> ident \<Rightarrow> (cerr, milestone_row) act" where
  "load_milestone_row tenant m =
     bnd (internal ''failed to fetch milestone'' (select (find_milestone m tenant))) (\<lambda>r.
     ok_or (NotFound, ''milestone not found'') r)"

definition stats_of :: "(ident \<rightharpoonup> int \<times> int) \<Rightarrow> ident \<Rightarrow> int \<times> int" where
  "stats_of stats m = (case stats m of Some s \<Rightarrow> s | None \<Rightarrow> (0, 0))"

definition milestone_with_stats :: "string \<Rightarrow> milestone_row \<Rightarrow> (cerr, milestone_msg) act" where
  "milestone_with_stats tenant r =
     bnd (fetch_card_stats tenant [m_id r]) (\<lambda>stats.
     bnd (ask codec) (\<lambda>u. ret (milestone_from_row u r (stats_of stats (m_id r)))))"

definition insert_milestone_sql :: "(datetime \<Rightarrow> milestone_row) \<Rightarrow> datetime \<Rightarrow> db \<Rightarrow> (milestone_row \<times> db) option" where
  "insert_milestone_sql row now d =
     (if m_id (row now) \<in> m_id ` set (milestones d) \<or> m_project (row now) \<notin> p_id ` set (projects d) then None
      else Some (row now, d\<lparr>milestones := milestones d @ [row now]\<rparr>))"

definition update_milestone_sql ::
  "ident \<Rightarrow> string \<Rightarrow> (datetime \<Rightarrow> milestone_row \<Rightarrow> milestone_row) \<Rightarrow> datetime \<Rightarrow> db \<Rightarrow> (milestone_row option \<times> db) option" where
  "update_milestone_sql m tenant f now d =
     Some (map_option (f now) (find_milestone m tenant d),
       d\<lparr>milestones := upd_rows (milestone_is m tenant) (f now) (milestones d)\<rparr>)"

definition clear_milestone_sql :: "ident \<Rightarrow> string \<Rightarrow> datetime \<Rightarrow> db \<Rightarrow> db option" where
  "clear_milestone_sql m tenant now d =
     Some (d\<lparr>cards := upd_rows (in_milestone tenant m) (\<lambda>c. c\<lparr>c_milestone := None\<rparr>) (cards d)\<rparr>)"

definition delete_milestone_sql :: "ident \<Rightarrow> string \<Rightarrow> datetime \<Rightarrow> db \<Rightarrow> (nat \<times> db) option" where
  "delete_milestone_sql m tenant now d =
     Some (cnt_rows (milestone_is m tenant) (milestones d),
       d\<lparr>milestones := del_rows (milestone_is m tenant) (milestones d)\<rparr>)"

section \<open>Handlers\<close>

record create_milestone_request =
  nm_project_id :: string
  nm_title :: string
  nm_due :: "timestamp option"

definition create_milestone :: "request_context \<Rightarrow> create_milestone_request \<Rightarrow> (cerr, milestone_msg) act" where
  "create_milestone ctx req =
     bnd (subject_from_request ctx) (\<lambda>sub.
     bnd (tenant_id_from_request ctx) (\<lambda>tenant.
     bnd (tenant_client_for ctx) (\<lambda>permission.
     bnd (require (nm_title req \<noteq> '''') (InvalidArgument, ''title is required'')) (\<lambda>_.
     bnd (parse_id ''invalid project_id'' (nm_project_id req)) (\<lambda>p.
     bnd (check_project_permission permission p ''manage'' sub) (\<lambda>_.
     bnd (ask (\<lambda>e. parse_due e (nm_due req))) (\<lambda>due.
     bnd new_id (\<lambda>m.
     bnd (internal ''failed to create milestone'' (stmt (insert_milestone_sql (\<lambda>now.
           \<lparr>m_id = m, m_tenant = tenant, m_project = p, m_title = nm_title req, m_due = due,
            m_created = now, m_updated = now\<rparr>)))) (\<lambda>r.
     bnd (ask codec) (\<lambda>u. ret (milestone_from_row u r (0, 0))))))))))))"

definition milestone_le :: "env \<Rightarrow> milestone_row \<Rightarrow> milestone_row \<Rightarrow> bool" where
  "milestone_le e a b \<longleftrightarrow> m_created a \<noteq> m_created b \<and> dt_le (m_created a) (m_created b)
     \<or> m_created a = m_created b \<and> id_le e (m_id a) (m_id b)"

definition list_milestones :: "request_context \<Rightarrow> string \<Rightarrow> (cerr, milestone_msg list) act" where
  "list_milestones ctx req_project_id =
     bnd (subject_from_request ctx) (\<lambda>sub.
     bnd (tenant_id_from_request ctx) (\<lambda>tenant.
     bnd (tenant_client_for ctx) (\<lambda>permission.
     bnd (parse_id ''invalid project_id'' req_project_id) (\<lambda>p.
     bnd (check_project_permission permission p ''view'' sub) (\<lambda>_.
     bnd (ask id) (\<lambda>e.
     bnd (internal ''failed to list milestones'' (select (\<lambda>d.
           sort_rows (milestone_le e)
             (filter (\<lambda>r. m_tenant r = tenant \<and> m_project r = p) (milestones d))))) (\<lambda>rows.
     bnd (fetch_card_stats tenant (map m_id rows)) (\<lambda>stats.
     ret (map (\<lambda>r. milestone_from_row (codec e) r (stats_of stats (m_id r))) rows)))))))))"

definition get_milestone :: "request_context \<Rightarrow> string \<Rightarrow> (cerr, milestone_msg) act" where
  "get_milestone ctx req_milestone_id =
     bnd (subject_from_request ctx) (\<lambda>sub.
     bnd (tenant_id_from_request ctx) (\<lambda>tenant.
     bnd (tenant_client_for ctx) (\<lambda>permission.
     bnd (parse_id ''invalid milestone_id'' req_milestone_id) (\<lambda>m.
     bnd (load_milestone_row tenant m) (\<lambda>r.
     bnd (check_project_permission permission (m_project r) ''view'' sub) (\<lambda>_.
     milestone_with_stats tenant r))))))"

record update_milestone_request =
  um_milestone_id :: string
  um_title :: string
  um_due :: "timestamp option"
  um_update_mask :: "string list option"

definition set_milestone :: "string option \<Rightarrow> bool \<Rightarrow> datetime option \<Rightarrow> datetime \<Rightarrow> milestone_row \<Rightarrow> milestone_row" where
  "set_milestone title update_due due now r = r\<lparr>
     m_title := (case title of Some s \<Rightarrow> s | None \<Rightarrow> m_title r),
     m_due := (if update_due then due else m_due r), m_updated := now\<rparr>"

definition update_milestone :: "request_context \<Rightarrow> update_milestone_request \<Rightarrow> (cerr, milestone_msg) act" where
  "update_milestone ctx req =
     bnd (subject_from_request ctx) (\<lambda>sub.
     bnd (tenant_id_from_request ctx) (\<lambda>tenant.
     bnd (tenant_client_for ctx) (\<lambda>permission.
     bnd (parse_id ''invalid milestone_id'' (um_milestone_id req)) (\<lambda>m.
     bnd (load_milestone_row tenant m) (\<lambda>existing.
     bnd (check_project_permission permission (m_project existing) ''manage'' sub) (\<lambda>_.
     bnd (if mask_contains (um_update_mask req) ''title''
          then bnd (require (um_title req \<noteq> '''') (InvalidArgument, ''title cannot be empty'')) (\<lambda>_. ret (Some (um_title req)))
          else ret None) (\<lambda>title.
     bnd (ask (\<lambda>e. parse_due e (um_due req))) (\<lambda>due.
     bnd (internal ''failed to update milestone'' (fetch_one (update_milestone_sql m tenant
           (set_milestone title (mask_contains (um_update_mask req) ''due'') due)))) (\<lambda>r.
     milestone_with_stats tenant r)))))))))"

definition delete_milestone :: "request_context \<Rightarrow> string \<Rightarrow> (cerr, unit) act" where
  "delete_milestone ctx req_milestone_id =
     bnd (subject_from_request ctx) (\<lambda>sub.
     bnd (tenant_id_from_request ctx) (\<lambda>tenant.
     bnd (tenant_client_for ctx) (\<lambda>permission.
     bnd (parse_id ''invalid milestone_id'' req_milestone_id) (\<lambda>m.
     bnd (load_milestone_row tenant m) (\<lambda>existing.
     bnd (check_project_permission permission (m_project existing) ''manage'' sub) (\<lambda>_.
     in_tx_as ''begin tx failed'' ''commit tx failed''
       (bnd (internal ''failed to clear milestone from cards'' (exec (clear_milestone_sql m tenant))) (\<lambda>_.
        bnd (internal ''failed to delete milestone'' (stmt (delete_milestone_sql m tenant))) (\<lambda>n.
        require (n \<noteq> 0) (NotFound, ''milestone not found''))))))))))"

end
