(* ===== verification/Catalogs.thy ===== *)
theory Catalogs
  imports Milestones Membership
begin

text \<open>
  The catalogs of a project: who may write its labels and milestones, what a write leaves alone, and what
  the counts of a milestone say.
\<close>

section \<open>Checks of project permissions\<close>

definition may :: "env \<Rightarrow> rel_tuple list \<Rightarrow> string \<Rightarrow> string \<Rightarrow> string \<Rightarrow> ident \<Rightarrow> bool" where
  "may e ts t s r p \<longleftrightarrow> fga_check e ts t PERMISSION_TYPE_PROJECT (id_str (codec e) p) r s"

lemma quiet_check_project [quiet_intros]: "quiet (check_project_permission c p r s)"
  unfolding check_project_permission_def by (intro quiet_intros)

lemma check_project_ok:
  assumes "check_project_permission c p r s e w = (Inr u, w')"
  shows "may e (tuples w) c s r p" "db w' = db w" "tuples w' = tuples w"
  using assms quietD [OF quiet_check_project assms]
  by (auto simp: check_project_permission_def ok_iffs may_def dest: check_with_retry_answer)

lemma quiet_manages_one [quiet_intros]: "quiet (manages_one c s ps)"
  by (induction ps) (auto intro!: quiet_intros)

lemma manages_one_ok: "manages_one c s ps e w = (Inr u, w') \<Longrightarrow> \<exists>p \<in> set ps. may e (tuples w) c s ''manage'' p"
proof (induction ps arbitrary: w)
  case (Cons p ps)
  then obtain b w1 where chk: "check_permission_with_retry c PERMISSION_TYPE_PROJECT (id_str (codec e) p) ''manage'' s e w = (Inr b, w1)"
    and rest: "(if b then ret () else manages_one c s ps) e w1 = (Inr u, w')"
    by (auto simp: ok_iffs)
  have b: "b = may e (tuples w) c s ''manage'' p" and same: "tuples w1 = tuples w"
    using check_with_retry_reads [OF chk] by (simp_all add: may_def)
  show ?case
  proof (cases b)
    case False
    then show ?thesis using Cons.IH [of w1] rest same by auto
  qed (use b in simp)
qed (simp add: ok_iffs)

definition may_write_scope :: "env \<Rightarrow> rel_tuple list \<Rightarrow> string \<Rightarrow> string \<Rightarrow> db \<Rightarrow> ident option \<Rightarrow> bool" where
  "may_write_scope e ts t s d scope \<longleftrightarrow> (case scope of
       Some p \<Rightarrow> may e ts t s ''manage'' p
     | None \<Rightarrow> \<exists>p \<in> set (projects d). p_tenant p = t \<and> may e ts t s ''manage'' (p_id p))"

lemma quiet_scope [quiet_intros]:
  "quiet (check_global_label_permission c t s)" "quiet (check_label_scope_permission c scope t s)" "quiet (label_scope c t s p)"
  unfolding check_global_label_permission_def check_label_scope_permission_def label_scope_def by (intro quiet_intros)+

lemma check_global_ok:
  assumes "check_global_label_permission t t s e w = (Inr u, w')"
  shows "may_write_scope e (tuples w) t s (db w) None"
  using assms by (fastforce simp: check_global_label_permission_def ok_iffs may_write_scope_def dest!: manages_one_ok)

lemma check_scope_ok:
  assumes "check_label_scope_permission t scope t s e w = (Inr u, w')"
  shows "may_write_scope e (tuples w) t s (db w) scope"
  using assms by (cases scope) (auto simp: check_label_scope_permission_def may_write_scope_def
      dest: check_project_ok(1) check_global_ok [unfolded may_write_scope_def, simplified])

lemma label_scope_ok:
  assumes "label_scope t t s p e w = (Inr scope, w')"
  shows "may_write_scope e (tuples w) t s (db w) scope"
proof (cases "p = []")
  case True
  then show ?thesis using assms by (auto simp: label_scope_def ok_iffs dest: check_global_ok)
next
  case False
  then obtain i w1 w2 where i: "parse_id ''invalid project_id'' p e w = (Inr i, w1)"
    and chk: "check_project_permission t i ''manage'' s e w1 = (Inr (), w2)" and "scope = Some i"
    using assms by (auto simp: label_scope_def ok_iffs)
  then show ?thesis using check_project_ok(1) [OF chk] quietD [OF quiet_parse_id i] by (simp add: may_write_scope_def)
qed

section \<open>Labels\<close>

definition other_labels :: "string \<Rightarrow> ident option \<Rightarrow> db \<Rightarrow> label_row list" where
  "other_labels t scope d = filter (\<lambda>l. \<not> (l_tenant l = t \<and> l_project l = scope)) (labels d)"

definition labels_unique :: "db \<Rightarrow> bool" where
  "labels_unique d \<longleftrightarrow> distinct (map l_id (labels d)) \<and> distinct (map label_key (labels d))"

text \<open>Of the assignments only those of labels that are gone are gone.\<close>

definition assignments_follow :: "db \<Rightarrow> db \<Rightarrow> bool" where
  "assignments_follow d d' \<longleftrightarrow> card_labels d' =
     filter (\<lambda>r. cl_label r \<in> l_id ` set (labels d') \<or> cl_label r \<notin> l_id ` set (labels d)) (card_labels d)"

definition label_step :: "string \<Rightarrow> ident option \<Rightarrow> db \<Rightarrow> db \<Rightarrow> bool" where
  "label_step t scope d d' \<longleftrightarrow> other_labels t scope d' = other_labels t scope d \<and> assignments_follow d d'
     \<and> d' = d\<lparr>labels := labels d', card_labels := card_labels d'\<rparr>"

lemma label_write_ok [ok_iffs]: "label_write m q f e w = (Inr a, w') \<longleftrightarrow> stmt f e w = (Inr a, w')"
  by (auto simp: label_write_def split: prod.split sum.split)

lemma keeps_label_write: "keeps I (stmt f) \<Longrightarrow> keeps I (label_write m q f)"
  unfolding keeps_def label_write_def by (auto split: prod.split sum.split) (metis snd_conv)+

lemma insert_label_step:
  assumes "insert_label_row_sql row now d = Some (r, d')"
  shows "label_step (l_tenant row) (l_project row) d d'" "labels_unique d \<Longrightarrow> labels_unique d'"
proof -
  have d': "d' = d\<lparr>labels := labels d @ [row]\<rparr>" and free: "\<not> label_taken row d"
    using assms by (auto simp: insert_label_row_sql_def split: if_split_asm)
  show "label_step (l_tenant row) (l_project row) d d'"
    by (auto simp: d' label_step_def other_labels_def assignments_follow_def intro!: filter_True [symmetric])
  show "labels_unique d'" if "labels_unique d"
    using that free by (auto simp: d' labels_unique_def label_taken_def)
qed

lemma found_label:
  assumes "find_label i t d = Some r"
  shows "r \<in> set (labels d)" "l_id r = i" "l_tenant r = t"
  using assms by (auto simp: find_label_def find_Some_iff label_is_def)

lemma one_label:
  "labels_unique d \<Longrightarrow> r \<in> set (labels d) \<Longrightarrow> r' \<in> set (labels d) \<Longrightarrow> l_id r = l_id r' \<Longrightarrow> r = r'"
  by (auto simp: labels_unique_def distinct_map inj_on_def)

lemma set_label_fields [simp]:
  "l_id (set_label n s r) = l_id r" "l_tenant (set_label n s r) = l_tenant r" "l_project (set_label n s r) = l_project r"
  by (simp_all add: set_label_def)

lemma update_label_step:
  assumes run: "update_label_sql i t (set_label n s) now d = Some (r, d')" and ex: "find_label i t d = Some old"
    and unique: "labels_unique d"
  shows "label_step t (l_project old) d d'"
proof -
  have d': "d' = d\<lparr>labels := upd_rows (label_is i t) (set_label n s) (labels d)\<rparr>"
    using run by (simp add: update_label_sql_def split: if_split_asm)
  have "filter (\<lambda>l. \<not> (l_tenant l = t \<and> l_project l = l_project old)) (upd_rows (label_is i t) (set_label n s) ls)
      = filter (\<lambda>l. \<not> (l_tenant l = t \<and> l_project l = l_project old)) ls" if "set ls \<subseteq> set (labels d)" for ls
    using that one_label [OF unique] found_label [OF ex]
    by (induction ls) (auto simp: upd_rows_def label_is_def)
  moreover have "map l_id (upd_rows (label_is i t) (set_label n s) ls) = map l_id ls" for ls
    by (induction ls) (auto simp: upd_rows_def)
  then have "l_id ` set (upd_rows (label_is i t) (set_label n s) (labels d)) = l_id ` set (labels d)"
    by (metis set_map)
  ultimately show ?thesis
    by (auto simp: d' label_step_def other_labels_def assignments_follow_def intro!: filter_True [symmetric])
qed

lemma delete_label_step:
  assumes run: "delete_label_sql i t now d = Some (n, d')" and ex: "find_label i t d = Some old"
    and unique: "labels_unique d"
  shows "label_step t (l_project old) d d'"
proof -
  note old = found_label [OF ex]
  have "cnt_rows (label_is i t) (labels d) \<noteq> 0"
    using old by (auto simp: cnt_rows_def label_is_def filter_empty_conv)
  then have d': "d' = d\<lparr>labels := del_rows (label_is i t) (labels d), card_labels := del_rows (\<lambda>r. cl_label r = i) (card_labels d)\<rparr>"
    using run by (simp add: delete_label_sql_def Let_def)
  have "filter (\<lambda>l. \<not> (l_tenant l = t \<and> l_project l = l_project old)) (del_rows (label_is i t) ls)
      = filter (\<lambda>l. \<not> (l_tenant l = t \<and> l_project l = l_project old)) ls" if "set ls \<subseteq> set (labels d)" for ls
    using that one_label [OF unique] old by (induction ls) (auto simp: del_rows_def label_is_def)
  moreover have "l_id ` set (del_rows (label_is i t) (labels d)) = l_id ` set (labels d) - {i}"
    using one_label [OF unique] old by (auto simp: del_rows_def label_is_def)
  ultimately show ?thesis
    using old by (auto simp: d' label_step_def other_labels_def assignments_follow_def del_rows_def intro!: filter_cong)
qed

lemma update_label_unique:
  assumes unique: "labels_unique d" and run: "update_label_sql i t (set_label n s) now d = Some (r, d')"
  shows "labels_unique d'"
proof -
  let ?f = "\<lambda>l. if label_is i t l then set_label n s l else l"
  have d': "labels d' = map ?f (labels d)" and free: "\<not> rename_taken i t (set_label n s) d"
    using run by (auto simp: update_label_sql_def upd_rows_def split: if_split_asm)
  have "map l_id (labels d') = map l_id (labels d)" unfolding d' by simp
  moreover have "inj_on (label_key \<circ> ?f) (set (labels d))"
  proof (rule inj_onI)
    fix x y
    assume xy: "x \<in> set (labels d)" "y \<in> set (labels d)" "(label_key \<circ> ?f) x = (label_key \<circ> ?f) y"
    have keys: "label_key x = label_key y \<Longrightarrow> x = y"
      using unique xy(1,2) by (auto simp: labels_unique_def distinct_map inj_on_def)
    consider "label_is i t x \<longleftrightarrow> label_is i t y" | "label_is i t x" "\<not> label_is i t y" | "\<not> label_is i t x" "label_is i t y"
      by blast
    then show "x = y"
    proof cases
      case 1
      show ?thesis
      proof (cases "label_is i t x")
        case True
        with 1 show ?thesis using one_label [OF unique xy(1,2)] by (simp add: label_is_def)
      next
        case False
        with 1 xy(3) show ?thesis by (simp add: keys)
      qed
    next
      case 2
      then have "l_id y = i" using xy free by (force simp: rename_taken_def)
      with 2 show ?thesis using one_label [OF unique xy(1,2)] by (simp add: label_is_def)
    next
      case 3
      then have "l_id x = i" using xy free by (force simp: rename_taken_def)
      with 3 show ?thesis using one_label [OF unique xy(1,2)] by (simp add: label_is_def)
    qed
  qed
  then have "distinct (map label_key (labels d'))"
    using unique unfolding d' by (simp add: labels_unique_def distinct_map)
  ultimately show ?thesis using unique unfolding labels_unique_def by simp
qed

lemma keeps_labels_unique:
  "keeps labels_unique (stmt (insert_label_row_sql row))"
  "keeps labels_unique (stmt (update_label_sql i t (set_label n s)))"
  "keeps labels_unique (stmt (delete_label_sql i t))"
proof -
  show "keeps labels_unique (stmt (insert_label_row_sql row))"
    by (rule keeps_stmt) (blast dest: insert_label_step(2))
  show "keeps labels_unique (stmt (update_label_sql i t (set_label n s)))"
    by (rule keeps_stmt) (blast dest: update_label_unique)
  show "keeps labels_unique (stmt (delete_label_sql i t))"
    by (rule keeps_stmt) (auto simp: delete_label_sql_def labels_unique_def Let_def del_rows_def
        distinct_map_filter split: if_split_asm)
qed

lemma keeps_check_scope [keeps_intros]:
  "keeps I (check_project_permission c p r s)" "keeps I (manages_one c s ps)" "keeps I (check_global_label_permission c t s)"
  "keeps I (check_label_scope_permission c scope t s)" "keeps I (label_scope c t s q)"
proof -
  show proj: "keeps I (check_project_permission c p r s)" for p r
    unfolding check_project_permission_def by (intro keeps_intros)
  show one: "keeps I (manages_one c s ps)" for ps by (induction ps) (auto intro!: keeps_intros)
  show glob: "keeps I (check_global_label_permission c t s)"
    unfolding check_global_label_permission_def by (intro keeps_intros one)
  show "keeps I (check_label_scope_permission c scope t s)"
    unfolding check_label_scope_permission_def by (intro keeps_intros proj glob)
  show "keeps I (label_scope c t s q)"
    unfolding label_scope_def by (intro keeps_intros proj glob)
qed

lemma serve_label_unique: "keeps labels_unique (serve_label ctx call)"
  unfolding serve_label_def create_label_def update_label_def delete_label_def
  by (cases call) (auto intro!: keeps_intros keeps_label_write keeps_labels_unique simp: Let_def)

text \<open>
  C30. A label is written only by who may: a successful CreateLabel, UpdateLabel or DeleteLabel of a caller
  is in one scope, a project that the caller manages or the global labels where the caller manages some
  project of the tenant, changes no label outside this scope, and takes away no card's labels but the deleted
  one's. However a call ends, no two labels of a scope share a name.
\<close>

theorem label_writes_guarded:
  assumes ctx: "Option.bind (auth_ext ctx) auth_tenant_id = Some t" "Option.bind (auth_ext ctx) auth_subject = Some s"
    and unique: "labels_unique (db w)" and run: "serve_label ctx call e w = (r, w')"
  shows "labels_unique (db w') \<and> (\<forall>u. r = Inr u \<longrightarrow>
    (\<exists>scope. may_write_scope e (tuples w) t s (db w) scope \<and> label_step t scope (db w) (db w')))"
proof (intro conjI allI impI)
  show "labels_unique (db w')" using keepsD [OF serve_label_unique unique run] .
  fix u assume "r = Inr u"
  with run have run: "serve_label ctx call e w = (Inr u, w')" by simp
  show "\<exists>scope. may_write_scope e (tuples w) t s (db w) scope \<and> label_step t scope (db w) (db w')"
  proof (cases call)
    case (CreateLabel req)
    with run ctx obtain w1 scope w2 i x where cl: "tenant_client_for ctx e w = (Inr t, w1)"
      and chk: "label_scope t t s (nl_project_id req) e w1 = (Inr scope, w2)"
      and ins: "insert_label_row_sql \<lparr>l_id = i, l_tenant = t, l_project = scope, l_name = nl_name req, l_style = nl_style req\<rparr>
          (sql_now e (tick w2)) (db w2) = Some (x, db w')"
      by (auto simp: serve_label_def create_label_def Let_def ok_iffs new_id_def dest: tenant_client_is)
    show ?thesis using quietD [OF quiet_request(4) cl] quietD [OF quiet_scope(3) chk] label_scope_ok [OF chk]
      insert_label_step(1) [OF ins] by auto
  next
    case (UpdateLabel req)
    with run ctx obtain w1 i old w2 name style x where cl: "tenant_client_for ctx e w = (Inr t, w1)"
      and ex: "find_label i t (db w1) = Some old"
      and chk: "check_label_scope_permission t (l_project old) t s e (tick w1) = (Inr (), w2)"
      and upd: "update_label_sql i t (set_label name style) (sql_now e w2) (db w2) = Some (x, db w')"
      by (auto simp: serve_label_def update_label_def Let_def ok_iffs dest: tenant_client_is)
    show ?thesis using quietD [OF quiet_request(4) cl] quietD [OF quiet_scope(2) chk] check_scope_ok [OF chk]
      update_label_step [OF upd] ex unique by auto
  next
    case (DeleteLabel i)
    with run ctx obtain w1 i' old w2 n where cl: "tenant_client_for ctx e w = (Inr t, w1)"
      and ex: "find_label i' t (db w1) = Some old"
      and chk: "check_label_scope_permission t (l_project old) t s e (tick w1) = (Inr (), w2)"
      and del: "delete_label_sql i' t (sql_now e w2) (db w2) = Some (n, db w')"
      by (auto simp: serve_label_def delete_label_def ok_iffs dest: tenant_client_is)
    show ?thesis using quietD [OF quiet_request(4) cl] quietD [OF quiet_scope(2) chk] check_scope_ok [OF chk]
      delete_label_step [OF del] ex unique by auto
  qed
qed

definition managed_world :: world where
  "managed_world = (sample_world (sample_db\<lparr>labels := [\<lparr>l_id = sid 40, l_tenant = ''t'', l_project = None, l_name = ''bug'', l_style = ''red''\<rparr>],
       card_labels := [\<lparr>cl_card = sid 10, cl_label = sid 40\<rparr>]\<rparr>))\<lparr>tuples := [sample_tuple ''manage'' ''s'']\<rparr>"

lemmas label_evals = serve_label_def delete_label_def find_label_def label_is_def check_label_scope_permission_def
  check_global_label_permission_def check_permission_with_retry_def retry_once check_permission_def delete_label_sql_def
  cnt_rows_def del_rows_def Let_def

lemma delete_label_runs:
  "\<exists>w'. serve_label (sample_context (sid 1)) (DeleteLabel (id_str crockford (sid 40))) sample_env managed_world = (Inr (), w')
     \<and> labels (db w') = []"
  by (simp add: evals request_evals sample_evals event_evals label_evals managed_world_def sample_tuple_def)

theorem label_writes_guarded_witness:
  "\<exists>w' scope. serve_label (sample_context (sid 1)) (DeleteLabel (id_str crockford (sid 40))) sample_env managed_world = (Inr (), w')
     \<and> labels_unique (db w') \<and> card_labels (db w') = [] \<and> may_write_scope sample_env (tuples managed_world) ''t'' ''s'' (db managed_world) scope"
proof -
  obtain w' where run: "serve_label (sample_context (sid 1)) (DeleteLabel (id_str crockford (sid 40))) sample_env managed_world = (Inr (), w')"
    and gone: "labels (db w') = []" using delete_label_runs by blast
  have ctx: "Option.bind (auth_ext (sample_context (sid 1))) auth_tenant_id = Some ''t''"
    "Option.bind (auth_ext (sample_context (sid 1))) auth_subject = Some ''s''" by (simp_all add: sample_context_def)
  have "labels_unique (db managed_world)" by (simp add: labels_unique_def managed_world_def)
  from label_writes_guarded [OF ctx this run] gone run show ?thesis
    by (auto simp: label_step_def assignments_follow_def managed_world_def)
qed


section \<open>Milestones\<close>

lemma quiet_milestone_reads [quiet_intros]:
  "quiet (fetch_card_stats t ms)" "quiet (load_milestone_row t m)" "quiet (milestone_with_stats t r)"
  unfolding fetch_card_stats_def load_milestone_row_def milestone_with_stats_def by (intro quiet_intros)+

definition card_count :: "string \<Rightarrow> ident \<Rightarrow> db \<Rightarrow> nat" where
  "card_count t m d = length (filter (in_milestone t m) (cards d))"

definition done_count :: "string \<Rightarrow> ident \<Rightarrow> db \<Rightarrow> nat" where
  "done_count t m d = length (filter (\<lambda>c. in_milestone t m c \<and> c_completed c \<noteq> None) (cards d))"

lemma counts_bounded: "done_count t m d \<le> card_count t m d" "card_count t m d \<le> length (cards d)"
proof -
  have "length (filter (\<lambda>c. in_milestone t m c \<and> c_completed c \<noteq> None) xs) \<le> length (filter (in_milestone t m) xs)" for xs
    by (induction xs) auto
  then show "done_count t m d \<le> card_count t m d" by (simp add: done_count_def card_count_def)
  show "card_count t m d \<le> length (cards d)" by (simp add: card_count_def)
qed

lemma stats_exact:
  assumes "fetch_card_stats t ms e w = (Inr stats, w')" and "m \<in> set ms" and few: "length (cards (db w)) < 2 ^ 31"
  shows "stats_of stats m = (int (card_count t m (db w)), int (done_count t m (db w)))"
proof -
  have le: "card_count t m (db w) < 2 ^ 31" "done_count t m (db w) < 2 ^ 31"
    using few counts_bounded [of t m "db w"] by linarith+
  have "filter (\<lambda>c. c_completed c \<noteq> None) (filter (in_milestone t m) cs)
      = filter (\<lambda>c. in_milestone t m c \<and> c_completed c \<noteq> None) cs" for cs
    by (simp add: conj_commute)
  with assms(1,2) show ?thesis
    using le by (auto simp: fetch_card_stats_def ok_iffs stats_of_def Let_def card_count_def done_count_def filter_empty_conv as_i32_def i32_ok_def)
qed

text \<open>
  C31. The counts of a milestone are exact and in range: ListMilestones and GetMilestone answer, to a caller who
  may view the project, how many cards of the tenant carry the milestone and how many of them are completed,
  and never more completed than there are.
\<close>

theorem milestone_counts:
  assumes ctx: "Option.bind (auth_ext ctx) auth_tenant_id = Some t" "Option.bind (auth_ext ctx) auth_subject = Some s"
    and few: "length (cards (db w)) < 2 ^ 31"
  shows "(\<forall>ms w'. list_milestones ctx project e w = (Inr ms, w') \<longrightarrow>
      (\<exists>p rows. id_from_str (codec e) project = Inr p \<and> may e (tuples w) t s ''view'' p
         \<and> rows = sort_rows (milestone_le e) (filter (\<lambda>r. m_tenant r = t \<and> m_project r = p) (milestones (db w)))
         \<and> ms = map (\<lambda>r. milestone_from_row (codec e) r (int (card_count t (m_id r) (db w)), int (done_count t (m_id r) (db w)))) rows))
    \<and> (\<forall>x w'. get_milestone ctx milestone e w = (Inr x, w') \<longrightarrow>
      (\<exists>r. r \<in> set (milestones (db w)) \<and> m_tenant r = t \<and> id_from_str (codec e) milestone = Inr (m_id r)
         \<and> may e (tuples w) t s ''view'' (m_project r)
         \<and> x = milestone_from_row (codec e) r (int (card_count t (m_id r) (db w)), int (done_count t (m_id r) (db w)))))
    \<and> done_count t m (db w) \<le> card_count t m (db w)"
proof (intro conjI allI impI)
  fix ms w'
  assume run: "list_milestones ctx project e w = (Inr ms, w')"
  from run ctx obtain w1 p w2 stats rows where cl: "tenant_client_for ctx e w = (Inr t, w1)"
    and p: "id_from_str (codec e) project = Inr p"
    and chk: "check_project_permission t p ''view'' s e w1 = (Inr (), w2)"
    and rows: "rows = sort_rows (milestone_le e) (filter (\<lambda>r. m_tenant r = t \<and> m_project r = p) (milestones (db w2)))"
    and st: "fetch_card_stats t (map m_id rows) e (tick w2) = (Inr stats, w')"
    and ms: "ms = map (\<lambda>r. milestone_from_row (codec e) r (stats_of stats (m_id r))) rows"
    unfolding list_milestones_def by (auto simp: ok_iffs dest: tenant_client_is)
  have same: "db w2 = db w" "tuples w1 = tuples w"
    using quietD [OF quiet_request(4) cl] check_project_ok(2) [OF chk] by auto
  have "ms = map (\<lambda>r. milestone_from_row (codec e) r (int (card_count t (m_id r) (db w)), int (done_count t (m_id r) (db w)))) rows"
    using stats_exact [OF st] few same by (auto simp: ms)
  then show "\<exists>p rows. id_from_str (codec e) project = Inr p \<and> may e (tuples w) t s ''view'' p
         \<and> rows = sort_rows (milestone_le e) (filter (\<lambda>r. m_tenant r = t \<and> m_project r = p) (milestones (db w)))
         \<and> ms = map (\<lambda>r. milestone_from_row (codec e) r (int (card_count t (m_id r) (db w)), int (done_count t (m_id r) (db w)))) rows"
    using p check_project_ok(1) [OF chk] rows same by auto
next
  fix x w'
  assume run: "get_milestone ctx milestone e w = (Inr x, w')"
  from run ctx obtain w1 i r w3 stats where cl: "tenant_client_for ctx e w = (Inr t, w1)"
    and i: "id_from_str (codec e) milestone = Inr i"
    and r: "find_milestone i t (db w1) = Some r"
    and chk: "check_project_permission t (m_project r) ''view'' s e (tick w1) = (Inr (), w3)"
    and st: "fetch_card_stats t [m_id r] e w3 = (Inr stats, w')"
    and x: "x = milestone_from_row (codec e) r (stats_of stats (m_id r))"
    unfolding get_milestone_def
    by (auto simp: ok_iffs load_milestone_row_def milestone_with_stats_def dest: tenant_client_is)
  have "find_milestone i t (db w) = Some r" "db w3 = db w" "tuples w1 = tuples w"
    using r quietD [OF quiet_request(4) cl] check_project_ok(2) [OF chk] by auto
  then show "\<exists>r. r \<in> set (milestones (db w)) \<and> m_tenant r = t \<and> id_from_str (codec e) milestone = Inr (m_id r)
         \<and> may e (tuples w) t s ''view'' (m_project r)
         \<and> x = milestone_from_row (codec e) r (int (card_count t (m_id r) (db w)), int (done_count t (m_id r) (db w)))"
    using check_project_ok(1) [OF chk] stats_exact [OF st, of "m_id r"] few x
    by (auto simp: find_milestone_def find_Some_iff milestone_is_def i intro!: exI [of _ r])
qed (rule counts_bounded)


text \<open>
  C32. DeleteMilestone leaves no card on a milestone that is gone: it succeeds only for a caller who manages
  the milestone's project, removes the milestone and takes it off exactly the cards that carry it, and
  changes nothing else.
\<close>

theorem delete_milestone_clears:
  assumes run: "delete_milestone ctx milestone e w = (Inr u, w')"
    and ctx: "Option.bind (auth_ext ctx) auth_tenant_id = Some t" "Option.bind (auth_ext ctx) auth_subject = Some s"
  shows "\<exists>m r. id_from_str (codec e) milestone = Inr m \<and> find_milestone m t (db w) = Some r \<and> may e (tuples w) t s ''manage'' (m_project r)
    \<and> db w' = (db w)\<lparr>milestones := filter (\<lambda>r. \<not> milestone_is m t r) (milestones (db w)),
         cards := map (\<lambda>c. if in_milestone t m c then c\<lparr>c_milestone := None\<rparr> else c) (cards (db w))\<rparr>
    \<and> card_count t m (db w') = 0"
proof -
  from run ctx obtain w1 m r w2 w3 w4 n where cl: "tenant_client_for ctx e w = (Inr t, w1)"
    and m: "id_from_str (codec e) milestone = Inr m" and r: "find_milestone m t (db w1) = Some r"
    and chk: "check_project_permission t (m_project r) ''manage'' s e (tick w1) = (Inr (), w2)"
    and clear: "exec (clear_milestone_sql m t) e ((tick w2)\<lparr>tx_now := Some (now_at e (step w2)), aborted := False\<rparr>) = (Inr (), w3)"
    and del: "stmt (delete_milestone_sql m t) e w3 = (Inr n, w4)" and "0 < n"
    and w': "w' = (if aborted w4 then rollback (db w2) (tick w4) else (tick w4)\<lparr>tx_now := None\<rparr>)"
    unfolding delete_milestone_def by (auto simp: ok_iffs load_milestone_row_def dest: tenant_client_is)
  have w2: "db w2 = db w" "find_milestone m t (db w) = Some r" "tuples (tick w1) = tuples w"
    using r quietD [OF quiet_request(4) cl] check_project_ok(2) [OF chk] by auto
  have "\<not> aborted w4" "db w4 = (db w)\<lparr>milestones := filter (\<lambda>r. \<not> milestone_is m t r) (milestones (db w)),
         cards := map (\<lambda>c. if in_milestone t m c then c\<lparr>c_milestone := None\<rparr> else c) (cards (db w))\<rparr>"
    using clear del w2(1) by (auto simp: ok_iffs clear_milestone_sql_def delete_milestone_sql_def upd_rows_def del_rows_def)
  moreover have "filter (in_milestone t m \<circ> (\<lambda>c. if in_milestone t m c then c\<lparr>c_milestone := None\<rparr> else c)) cs = []" for cs
    by (induction cs) (auto simp: in_milestone_def)
  ultimately show ?thesis using m w2 w' check_project_ok(1) [OF chk] by (auto simp: card_count_def)
qed

definition phased_world :: world where
  "phased_world = (sample_world (sample_db\<lparr>milestones := [\<lparr>m_id = sid 50, m_tenant = ''t'', m_project = sid 1, m_title = ''beta'',
         m_due = None, m_created = (0, 0), m_updated = (0, 0)\<rparr>],
       cards := [(sample_card 10 1 ''K-1'' 0 None)\<lparr>c_milestone := Some (sid 50)\<rparr>,
                 (sample_card 11 1 ''K-2'' 1 (Some (3, 0)))\<lparr>c_milestone := Some (sid 50)\<rparr>]\<rparr>))
     \<lparr>tuples := [sample_tuple ''manage'' ''s'', sample_tuple ''view'' ''s'']\<rparr>"

lemmas milestone_evals = load_milestone_row_def find_milestone_def milestone_is_def check_project_permission_def
  check_permission_with_retry_def retry_once check_permission_def fetch_card_stats_def clear_milestone_sql_def delete_milestone_sql_def
  cnt_rows_def Let_def

lemma milestone_runs:
  "\<exists>w'. delete_milestone (sample_context (sid 1)) (id_str crockford (sid 50)) sample_env phased_world = (Inr (), w')"
  "\<exists>x w'. get_milestone (sample_context (sid 1)) (id_str crockford (sid 50)) sample_env phased_world = (Inr x, w')"
  by (simp_all add: evals request_evals sample_evals event_evals milestone_evals delete_milestone_def get_milestone_def
      milestone_with_stats_def phased_world_def sample_tuple_def)

lemma phased_counts: "card_count ''t'' (sid 50) (db phased_world) = 2" "done_count ''t'' (sid 50) (db phased_world) = 1"
  by (simp_all add: card_count_def done_count_def phased_world_def in_milestone_def sample_card_def)

lemma sample_caller:
  "Option.bind (auth_ext (sample_context i)) auth_tenant_id = Some ''t''"
  "Option.bind (auth_ext (sample_context i)) auth_subject = Some ''s''"
  by (simp_all add: sample_context_def)

theorem delete_milestone_clears_witness:
  "\<exists>w'. delete_milestone (sample_context (sid 1)) (id_str crockford (sid 50)) sample_env phased_world = (Inr (), w')
     \<and> card_count ''t'' (sid 50) (db phased_world) = 2 \<and> card_count ''t'' (sid 50) (db w') = 0"
proof -
  obtain w' where run: "delete_milestone (sample_context (sid 1)) (id_str crockford (sid 50)) sample_env phased_world = (Inr (), w')"
    using milestone_runs by blast
  from delete_milestone_clears [OF run sample_caller] run show ?thesis by (auto simp: phased_counts crockford.id_from_str_show)
qed

theorem milestone_counts_witness:
  "\<exists>x w'. get_milestone (sample_context (sid 1)) (id_str crockford (sid 50)) sample_env phased_world = (Inr x, w')
     \<and> ms_total_cards x = 2 \<and> ms_completed_cards x = 1"
proof -
  obtain x w' where run: "get_milestone (sample_context (sid 1)) (id_str crockford (sid 50)) sample_env phased_world = (Inr x, w')"
    using milestone_runs by blast
  have few: "length (cards (db phased_world)) < 2 ^ 31" by (simp add: phased_world_def)
  from milestone_counts [OF sample_caller few, where e = sample_env and milestone = "id_str crockford (sid 50)", THEN conjunct2, THEN conjunct1] run
  obtain r where "m_id r = sid 50" "x = milestone_from_row crockford r (int (card_count ''t'' (m_id r) (db phased_world)),
      int (done_count ''t'' (m_id r) (db phased_world)))"
    by (force simp: crockford.id_from_str_show)
  then show ?thesis using run by (simp add: milestone_from_row_def phased_counts)
qed

end
