(* ===== verification/Aggregated_View.thy ===== *)
theory Aggregated_View
  imports Source_Order Catalogs Board_Access
begin

text \<open>
  Who sees what of an aggregated board.
\<close>

definition source_shown :: "env \<Rightarrow> world \<Rightarrow> string \<Rightarrow> string \<Rightarrow> ident \<Rightarrow> bool" where
  "source_shown e w t s b \<longleftrightarrow>
     (\<exists>r \<in> set (boards (db w)). b_id r = b \<and> b_tenant r = t \<and> is_public_or_internal (b_visibility r))
     \<or> id_str (codec e) b \<in> objects_of e (tuples w) t PERMISSION_TYPE_BOARD ''view'' s"

definition joined :: "ident \<Rightarrow> string \<Rightarrow> db \<Rightarrow> ident list" where
  "joined a t d = concat (map (\<lambda>s. map b_id (filter (\<lambda>b. b_id b = s_board s) (boards d))) (source_rows a t d))"

definition card_batches :: "chunk list \<Rightarrow> card_msg list list" where
  "card_batches cs = List.map_filter (\<lambda>c. case c of CardBatch b \<Rightarrow> Some b | _ \<Rightarrow> None) cs"

definition shown_sources :: "chunk list \<Rightarrow> source_msg list" where
  "shown_sources cs = List.map_filter (\<lambda>c. case c of SourceBoard b \<Rightarrow> Some b | _ \<Rightarrow> None) cs"

lemma concat_chunks: "n \<noteq> 0 \<Longrightarrow> concat (chunks_of n xs) = xs"
proof (induction n xs rule: chunks_of.induct)
  case (1 n xs)
  then show ?case by (cases "xs = []") (simp add: chunks_of.simps, simp add: chunks_of.simps [of n xs])
qed

lemma chunks_small: "c \<in> set (chunks_of n xs) \<Longrightarrow> length c \<le> n"
proof (induction n xs rule: chunks_of.induct)
  case (1 n xs)
  then show ?case by (cases "xs = [] \<or> n = 0") (auto simp: chunks_of.simps [of n xs])
qed

lemma map_filter_append: "List.map_filter f (xs @ ys) = List.map_filter f xs @ List.map_filter f ys"
  by (simp add: List.map_filter_def)

lemma map_filter_none: "(\<And>x. x \<in> set xs \<Longrightarrow> f x = None) \<Longrightarrow> List.map_filter f xs = []"
  by (simp add: List.map_filter_def)

lemma map_filter_some: "(\<And>x. f (g x) = Some (h x)) \<Longrightarrow> List.map_filter f (map g xs) = map h xs"
  by (simp add: List.map_filter_def comp_def)

lemma map_filter_map_none: "(\<And>x. f (g x) = None) \<Longrightarrow> List.map_filter f (map g xs) = []"
  by (simp add: List.map_filter_def comp_def)

lemma chunks_parts:
  "card_batches (aggregated_chunks m ss cs) = chunks_of CARD_BATCH_SIZE cs"
  "shown_sources (aggregated_chunks m ss cs) = ss"
  unfolding card_batches_def shown_sources_def aggregated_chunks_def
  by (simp_all add: map_filter_append map_filter_some [where h = "\<lambda>x. x"] map_filter_map_none List.map_filter_simps split_def)

lemma joined_sources: "fetch_source_boards a t e w = (Inr ss, w') \<Longrightarrow> map sb_board_id ss = map (id_str (codec e)) (joined a t (db w))"
  by (auto simp: fetch_source_boards_def ok_iffs joined_def map_concat comp_def source_ref_def)

lemma joined_subset: "set (joined a t d) \<subseteq> set (ordered_sources a t d)"
  by (auto simp: joined_def ordered_sources_def)

lemma parse_shown:
  assumes "ulid_crate u"
  shows "parse_ids u (map (id_str u) is) = is"
  using ulid_crate.id_from_str_show [OF assms] by (simp add: parse_ids_def map_filter_some [where h = "\<lambda>x. x"])

lemma hydrate_id: "hydrate t r e w = (Inr m, w') \<Longrightarrow> cm_id m = id_str (codec e) (c_id r)"
  by (auto simp: hydrate_def Let_def ok_iffs card_from_row_def)

lemma each_hydrate: "each (hydrate t) rs e w = (Inr ms, w') \<Longrightarrow> map cm_id ms = map (id_str (codec e) \<circ> c_id) rs"
proof (induction rs arbitrary: ms w)
  case (Cons r rs)
  then show ?case by (auto simp: ok_iffs dest: hydrate_id)
qed (simp add: ok_iffs)

lemma quiet_source_boards [quiet_intros]: "quiet (fetch_source_boards a t)" "quiet (fetch_public_internal_board_ids msg t is)"
  unfolding fetch_source_boards_def fetch_public_internal_board_ids_def by (intro quiet_intros)+

lemma quiet_aggregated_check [quiet_intros]: "quiet (check_aggregated_view c o' row s)"
  unfolding check_aggregated_view_def by (intro quiet_intros)

lemma check_aggregated_view_ok:
  assumes "check_aggregated_view c o' row s e w = (Inr u, w')"
  shows "is_public_or_internal (ag_visibility row) \<or> fga_check e (tuples w) c PERMISSION_TYPE_AGGREGATED o' ''view'' s"
  using assms by (cases "is_public_or_internal (ag_visibility row)")
    (auto simp: check_aggregated_view_def ok_iffs dest: check_with_retry_answer)

lemma open_ids:
  assumes "fetch_public_internal_board_ids msg t is e w = (Inr os, w')"
  shows "i \<in> set is \<Longrightarrow> i \<in> os \<longleftrightarrow> (\<exists>r \<in> set (boards (db w)). b_id r = i \<and> b_tenant r = t \<and> is_public_or_internal (b_visibility r))"
  using assms by (auto simp: fetch_public_internal_board_ids_def ok_iffs is_public_or_internal_def split: if_split_asm)

text \<open>
  C17. An aggregated board shows a caller exactly what the caller may see: GetAggregatedBoard answers only for
  a board of the tenant that is open or that the caller may view; its source boards are those that are public
  or internal within the tenant or that the gateway lists for the caller, and its card batches, of at most
  100 cards, are together the cards of the tenant on these boards and no others.
\<close>

theorem aggregated_view_exact:
  assumes run: "get_aggregated_board ctx req e w = (Inr chunks, w')"
    and ctx: "Option.bind (auth_ext ctx) auth_tenant_id = Some t" "Option.bind (auth_ext ctx) auth_subject = Some s"
    and u: "ulid_crate (codec e)"
  shows "\<exists>a row. id_from_str (codec e) req = Inr a \<and> find_aggregated a t (db w) = Some row
    \<and> (is_public_or_internal (ag_visibility row)
        \<or> fga_check e (tuples w) t PERMISSION_TYPE_AGGREGATED (id_str (codec e) a) ''view'' s)
    \<and> map sb_board_id (shown_sources chunks) = map (id_str (codec e)) (filter (source_shown e w t s) (joined a t (db w)))
    \<and> map cm_id (concat (card_batches chunks)) = map (id_str (codec e) \<circ> c_id)
        (filter (\<lambda>c. source_shown e w t s (c_board c))
          (sort_rows (agg_row_le e) (filter (\<lambda>c. c_board c \<in> set (joined a t (db w)) \<and> c_tenant c = t) (cards (db w)))))
    \<and> (\<forall>b \<in> set (card_batches chunks). length b \<le> 100)"
proof -
  let ?u = "codec e"
  from run ctx obtain w1 a row w2 w3 sources w4 allowed w5 open_ids cs where cl: "tenant_client_for ctx e w = (Inr t, w1)"
    and a: "id_from_str ?u req = Inr a" and row: "find_aggregated a t (db w1) = Some row"
    and chk: "check_aggregated_view t (id_str ?u a) row s e (tick w1) = (Inr (), w2)"
    and src: "fetch_source_boards a t e w2 = (Inr sources, w3)"
    and ex: "expand_objects t PERMISSION_TYPE_BOARD ''view'' s 10000 e w3 = (Inr allowed, w4)"
    and op: "fetch_public_internal_board_ids ''failed to fetch source board visibilities'' t (parse_ids ?u (map sb_board_id sources)) e w4 = (Inr open_ids, w5)"
    and cs: "fetch_cards_for_boards (parse_ids ?u (map sb_board_id sources))
      {i \<in> set (parse_ids ?u (map sb_board_id sources)). i \<in> open_ids \<or> id_str ?u i \<in> allowed} t e w5 = (Inr cs, w')"
    and ch: "chunks = aggregated_chunks (aggregated_board_from_row ?u row)
      (filter (\<lambda>sb. case id_from_str ?u (sb_board_id sb) of
          Inr i \<Rightarrow> i \<in> {i \<in> set (parse_ids ?u (map sb_board_id sources)). i \<in> open_ids \<or> id_str ?u i \<in> allowed} | Inl _ \<Rightarrow> False) sources) cs"
    unfolding get_aggregated_board_def
    by (auto simp: ok_iffs Let_def dest: tenant_client_is simp del: mem_Collect_eq) 
  note q1 = quietD [OF quiet_request(4) cl]
  have q2: "db w2 = db w \<and> tuples w2 = tuples w" using quietD [OF quiet_aggregated_check chk] q1 by simp
  note q3 = quietD [OF quiet_source_boards(1) src] and q4 = quietD [OF quiet_expand_objects ex]
    and q5 = quietD [OF quiet_source_boards(2) op]
  let ?J = "joined a t (db w)"
  have ids: "map sb_board_id sources = map (id_str ?u) ?J" using joined_sources [OF src] q2 by simp
  then have parsed: "parse_ids ?u (map sb_board_id sources) = ?J" using parse_shown [OF u] by simp
  have vis: "i \<in> open_ids \<or> id_str ?u i \<in> allowed \<longleftrightarrow> source_shown e w t s i" if "i \<in> set ?J" for i
    using open_ids [OF op, unfolded parsed, OF that] expand_objects_answer [OF ex] q2 q3 q4 by (simp add: source_shown_def)
  have sel: "(case id_from_str ?u (id_str ?u i) of Inr i \<Rightarrow> i \<in> {i \<in> set ?J. i \<in> open_ids \<or> id_str ?u i \<in> allowed} | Inl _ \<Rightarrow> False)
      \<longleftrightarrow> source_shown e w t s i" if "i \<in> set ?J" for i
    using vis [OF that] that ulid_crate.id_from_str_show [OF u] by simp
  have pick: "map sb_board_id (filter (\<lambda>sb. case id_from_str ?u (sb_board_id sb) of
        Inr i \<Rightarrow> i \<in> {i \<in> set ?J. i \<in> open_ids \<or> id_str ?u i \<in> allowed} | Inl _ \<Rightarrow> False) ss)
      = map (id_str ?u) (filter (source_shown e w t s) js)"
    if "map sb_board_id ss = map (id_str ?u) js" "set js \<subseteq> set ?J" for ss js
    using that
  proof (induction js arbitrary: ss)
    case (Cons j js)
    then obtain x xs where ss: "ss = x # xs" "sb_board_id x = id_str ?u j" "map sb_board_id xs = map (id_str ?u) js"
      by (cases ss) auto
    with Cons.IH [of xs] Cons.prems(2) sel [of j] show ?case by (simp del: mem_Collect_eq)
  qed simp
  have view: "is_public_or_internal (ag_visibility row)
        \<or> fga_check e (tuples w) t PERMISSION_TYPE_AGGREGATED (id_str ?u a) ''view'' s"
    using check_aggregated_view_ok [OF chk] q1 by simp
  have cards: "map cm_id cs = map (id_str ?u \<circ> c_id) (filter (\<lambda>c. source_shown e w t s (c_board c))
      (sort_rows (agg_row_le e) (filter (\<lambda>c. c_board c \<in> set ?J \<and> c_tenant c = t) (cards (db w)))))"
  proof (cases "?J = []")
    case True
    then show ?thesis using cs by (simp add: fetch_cards_for_boards_def parsed ok_iffs)
  next
    case False
    then obtain w6 where "each (hydrate t) (filter (\<lambda>c. c_board c \<in> {i \<in> set ?J. i \<in> open_ids \<or> id_str ?u i \<in> allowed})
        (sort_rows (agg_row_le e) (filter (\<lambda>c. c_board c \<in> set ?J \<and> c_tenant c = t) (cards (db w5))))) e w6 = (Inr cs, w')"
      using cs by (auto simp: fetch_cards_for_boards_def parsed ok_iffs simp del: mem_Collect_eq)
    from each_hydrate [OF this]
    have "map cm_id cs = map (id_str ?u \<circ> c_id) (filter (\<lambda>c. c_board c \<in> {i \<in> set ?J. i \<in> open_ids \<or> id_str ?u i \<in> allowed})
        (sort_rows (agg_row_le e) (filter (\<lambda>c. c_board c \<in> set ?J \<and> c_tenant c = t) (cards (db w)))))"
      using q2 q3 q4 q5 by simp
    moreover have "filter (\<lambda>c. c_board c \<in> {i \<in> set ?J. i \<in> open_ids \<or> id_str ?u i \<in> allowed})
        (sort_rows (agg_row_le e) (filter (\<lambda>c. c_board c \<in> set ?J \<and> c_tenant c = t) (cards (db w))))
      = filter (\<lambda>c. source_shown e w t s (c_board c))
        (sort_rows (agg_row_le e) (filter (\<lambda>c. c_board c \<in> set ?J \<and> c_tenant c = t) (cards (db w))))"
      by (rule filter_cong [OF refl]) (use vis in simp)
    ultimately show ?thesis by simp
  qed
  have "\<forall>b \<in> set (card_batches chunks). length b \<le> 100"
    using chunks_small [of _ CARD_BATCH_SIZE] by (auto simp: ch chunks_parts CARD_BATCH_SIZE_def)
  moreover have "concat (card_batches chunks) = cs" by (simp add: ch chunks_parts concat_chunks CARD_BATCH_SIZE_def)
  moreover have "map sb_board_id (shown_sources chunks) = map (id_str ?u) (filter (source_shown e w t s) ?J)"
    unfolding ch chunks_parts parsed by (rule pick [OF ids subset_refl])
  ultimately show ?thesis using a row q1 view cards by (intro exI [of _ a] exI [of _ row]) simp
qed


section \<open>A sample: two source boards of which the caller may view one\<close>

definition sample_aggregated :: aggregated_row where
  "sample_aggregated = \<lparr>ag_id = sid 60, ag_tenant = ''t'', ag_revision = 0, ag_name = ''all'', ag_description = None, ag_icon = None,
     ag_visibility = ''private'', ag_created_by = ''s'', ag_created = (0, 0), ag_updated = (0, 0)\<rparr>"

definition sample_sources :: "source_row list" where
  "sample_sources = [new_source (sid 60) ''t'' (sid 2) 0 (0, 0), new_source (sid 60) ''t'' (sid 8) 1 (0, 0)]"

definition meta_world :: world where
  "meta_world = (sample_world (sample_db\<lparr>aggregated_boards := [sample_aggregated], aggregated_board_sources := sample_sources\<rparr>))
     \<lparr>tuples := [sample_viewer 2, \<lparr>tu_tenant = ''t'', tu_namespace = PERMISSION_TYPE_AGGREGATED, tu_object = id_str crockford (sid 60),
        tu_relation = ''view'', tu_subject = ''s''\<rparr>]\<rparr>"

lemma sample_sources_rows: "rows_of (sid 60) ''t'' sample_sources = sample_sources"
  by (simp add: sample_sources_def rows_of_def source_of_def new_source_def source_le_def)

lemma sample_sources_good: "sources_good (sid 60) ''t'' (db meta_world)"
proof -
  have "aggregated_board_sources (db meta_world) = sample_sources" by (simp add: meta_world_def)
  moreover have "sources_ok (sid 60) ''t'' sample_sources"
    by (simp add: sources_ok_def sample_sources_def source_of_def new_source_def)
  moreover have "normal (sid 60) ''t'' sample_sources"
    unfolding normal_def sample_sources_rows by (simp add: sample_sources_def new_source_def)
  ultimately show ?thesis by (simp add: sources_good_def)
qed

lemma sample_ordered: "ordered_sources (sid 60) ''t'' (db meta_world) = [sid 2, sid 8]"
  by (simp add: ordered_of meta_world_def sample_sources_rows) (simp add: sample_sources_def new_source_def)

lemmas source_evals = on_source_def get_aggregate_metadata_def find_aggregated_def aggregated_is_def move_source_board_def move_source_tx_def
  fetch_ordered_source_ids_def apply_source_order_def place_source_sql_def insert_at_def target_idx_def Let_def
  source_of_def source_le_def meta_world_def sample_aggregated_def sample_sources_def new_source_def

lemma sample_ordered_of: "aggregated_board_sources d = sample_sources \<Longrightarrow> ordered_sources (sid 60) ''t'' d = [sid 2, sid 8]"
  using sample_ordered by (simp add: ordered_of meta_world_def)

lemma sample_ordered_at: "aggregated_board_sources d = [new_source (sid 60) ''t'' (sid 2) 0 (0, 0), new_source (sid 60) ''t'' (sid 8) 1 (0, 0)]
    \<Longrightarrow> ordered_sources (sid 60) ''t'' d = [sid 2, sid 8]"
  using sample_ordered_of by (simp add: sample_sources_def)

lemma move_source_runs:
  "\<exists>m w'. serve_source (sample_context (sid 60)) (MoveSource (id_str crockford (sid 8)) 0) sample_env meta_world = (Inr m, w')"
  by (simp add: evals request_evals sample_evals source_evals sample_ordered_at [unfolded new_source_def])

theorem source_calls_edit_list_witness:
  "\<exists>m w'. serve_source (sample_context (sid 60)) (MoveSource (id_str crockford (sid 8)) 0) sample_env meta_world = (Inr m, w')
     \<and> ordered_sources (sid 60) ''t'' (db meta_world) = [sid 2, sid 8] \<and> ordered_sources (sid 60) ''t'' (db w') = [sid 8, sid 2]"
proof -
  obtain m w' where run: "serve_source (sample_context (sid 60)) (MoveSource (id_str crockford (sid 8)) 0) sample_env meta_world = (Inr m, w')"
    using move_source_runs by blast
  have req: "board_request sample_env (sample_context (sid 60)) ''t'' (sid 60)"
    by (simp add: board_request_def sample_context_def crockford.id_from_str_show)
  have few: "length (ordered_sources (sid 60) ''t'' (db meta_world)) < 2 ^ 31 - 1" by (simp add: sample_ordered)
  from source_calls_edit_list [OF run req sample_sources_good few] run show ?thesis
    by (auto simp: crockford.id_from_str_show sample_ordered insert_at_def target_idx_def)
qed

definition succeeds :: "('err, 'a) act \<Rightarrow> bool" where
  "succeeds f \<longleftrightarrow> (\<forall>e w. \<exists>r w'. f e w = (Inr r, w'))"

lemma succeeds_ret: "succeeds (ret x)"
  and succeeds_ask: "succeeds (ask g)"
  and succeeds_or_default: "succeeds (or_default x f)"
  by (auto simp: succeeds_def ret_def ask_def or_default_def bnd_def attempt_def split: prod.splits sum.splits)

lemma succeeds_profile: "succeeds (resolve_profile t s)"
  unfolding succeeds_def by (metis resolve_profile_world(5) prod.collapse)

lemma succeeds_bnd: "succeeds f \<Longrightarrow> (\<And>x. succeeds (g x)) \<Longrightarrow> succeeds (bnd f g)"
  unfolding succeeds_def bnd_def by (metis (no_types, lifting) case_prod_conv sum.case(2))

lemma succeeds_each: "(\<And>x. succeeds (f x)) \<Longrightarrow> succeeds (each f xs)"
  by (induction xs) (simp_all add: succeeds_ret succeeds_bnd)

lemma succeeds_hydrate: "succeeds (hydrate t c)"
  unfolding hydrate_def fetch_labels_def fetch_assignees_def fetch_checklist_def fetch_comments_count_def fetch_attachments_count_def
    fetch_dependencies_def fetch_dependents_def Let_def
  by (intro succeeds_bnd succeeds_ret succeeds_ask succeeds_or_default succeeds_profile succeeds_each)
    (simp add: split_beta succeeds_bnd succeeds_ret succeeds_or_default)

lemma fetch_cards_runs: "\<not> aborted w \<Longrightarrow> \<exists>cs w'. fetch_cards_for_boards bs v t sample_env w = (Inr cs, w')"
  using succeeds_each [OF succeeds_hydrate, of "\<lambda>_. t" "\<lambda>c. c", unfolded succeeds_def]
  by (simp add: fetch_cards_for_boards_def evals)

lemma then_cards:
  assumes "\<not> aborted w"
  shows "\<exists>r w'. (case fetch_cards_for_boards bs v t sample_env w of (Inl x, w') \<Rightarrow> (Inl x, w') | (Inr a, w') \<Rightarrow> ret (f a) sample_env w') = (Inr r, w')"
proof -
  from fetch_cards_runs [OF assms] obtain cs w' where "fetch_cards_for_boards bs v t sample_env w = (Inr cs, w')" by blast
  then show ?thesis by (simp add: evals)
qed

lemmas view_evals = find_aggregated_def aggregated_is_def check_aggregated_view_def fetch_source_boards_def is_public_or_internal_def
  check_permission_with_retry_def retry_once check_permission_def expand_objects_def list_objects_def fetch_public_internal_board_ids_def
  source_ref_def strip_prefix_Some List.map_filter_def PERMISSION_TYPE_BOARD_def PERMISSION_TYPE_AGGREGATED_def Let_def

lemma sample_source_rows: "aggregated_board_sources d = sample_sources \<Longrightarrow> source_rows (sid 60) ''t'' d = sample_sources"
  using sample_sources_rows by (simp add: source_rows_of)

lemma view_runs:
  "\<exists>cs w'. get_aggregated_board (sample_context (sid 60)) (id_str crockford (sid 60)) sample_env meta_world = (Inr cs, w')"
  unfolding get_aggregated_board_def
  apply (simp add: evals request_evals sample_evals view_evals meta_world_def sample_viewer_def sample_aggregated_def sample_source_rows)
  apply (simp add: view_evals sample_sources_def new_source_def parse_ids_def List.map_filter_def crockford.id_from_str_show evals)
  by (rule then_cards) simp

lemma sample_joined: "joined (sid 60) ''t'' (db meta_world) = [sid 2, sid 8]"
  by (simp add: joined_def sample_source_rows meta_world_def sample_evals) (simp add: sample_sources_def new_source_def)

lemma crockford_distinct: "id_str crockford i = id_str crockford j \<longleftrightarrow> i = j"
  using crockford.id_from_str_show by (metis sum.inject(2))

lemma sample_shown: "source_shown sample_env meta_world ''t'' ''s'' (sid 2)" "\<not> source_shown sample_env meta_world ''t'' ''s'' (sid 8)"
  by (simp_all add: source_shown_def meta_world_def sample_evals sample_viewer_def objects_of_def evals strip_prefix_Some List.map_filter_def
      PERMISSION_TYPE_AGGREGATED_def PERMISSION_TYPE_BOARD_def is_public_or_internal_def crockford_distinct)

theorem aggregated_view_exact_witness:
  "\<exists>cs w'. get_aggregated_board (sample_context (sid 60)) (id_str crockford (sid 60)) sample_env meta_world = (Inr cs, w')
     \<and> map sb_board_id (shown_sources cs) = [id_str crockford (sid 2)]"
proof -
  obtain cs w' where run: "get_aggregated_board (sample_context (sid 60)) (id_str crockford (sid 60)) sample_env meta_world = (Inr cs, w')"
    using view_runs by blast
  have ctx: "Option.bind (auth_ext (sample_context (sid 60))) auth_tenant_id = Some ''t''"
    "Option.bind (auth_ext (sample_context (sid 60))) auth_subject = Some ''s''" and u: "ulid_crate (codec sample_env)"
    by (simp_all add: sample_context_def crockford.ulid_crate_axioms)
  from aggregated_view_exact [OF run ctx u] show ?thesis
    using run by (auto simp: sample_joined sample_shown crockford.id_from_str_show)
qed

end
