(* ===== verification/Base64.thy ===== *)
theory Base64
  imports Kanban_Prelude "HOL-Library.Word"
begin

text \<open>
  The base64 codec that \<open>src/services/search.rs\<close> writes out by hand for its cursors. Bytes are \<open>8 word\<close>, the
  indices into the alphabet are computed in \<open>usize\<close> (\<open>64 word\<close>) as the code does; a \<open>string\<close> is its UTF-8
  bytes. The decoder walks groups of four and ignores a shorter rest.
\<close>

unbundle bit_operations_syntax

type_synonym byte = "8 word"
type_synonym usize = "64 word"

text \<open>A byte of a UTF-8 string that continues the character before it.\<close>

definition continues :: "char \<Rightarrow> bool" where
  "continues c \<longleftrightarrow> (of_char c :: byte) AND 0xC0 = 0x80"

definition CHARS :: string where
  "CHARS = ''ABCDEFGHIJKLMNOPQRSTUVWXYZabcdefghijklmnopqrstuvwxyz0123456789+/''"

definition sextet_char :: "usize \<Rightarrow> char" where
  "sextet_char i = CHARS ! unat i"

fun base64_encode :: "byte list \<Rightarrow> string" where
  "base64_encode (c0 # c1 # c2 # bs) =
     (let b0 = ucast c0; b1 = ucast c1; b2 = ucast c2 in
      sextet_char (drop_bit 2 b0)
      # sextet_char (push_bit 4 (b0 AND 3) OR drop_bit 4 b1)
      # sextet_char (push_bit 2 (b1 AND 0xf) OR drop_bit 6 b2)
      # sextet_char (b2 AND 0x3f)
      # base64_encode bs)"
| "base64_encode [c0, c1] =
     (let b0 = ucast c0; b1 = ucast c1 in
      [sextet_char (drop_bit 2 b0), sextet_char (push_bit 4 (b0 AND 3) OR drop_bit 4 b1), sextet_char (push_bit 2 (b1 AND 0xf)), CHR ''=''])"
| "base64_encode [c0] =
     (let b0 = ucast c0 in [sextet_char (drop_bit 2 b0), sextet_char (push_bit 4 (b0 AND 3)), CHR ''='', CHR ''=''])"
| "base64_encode [] = []"

definition INVALID :: byte where
  "INVALID = 255"

definition table :: "char \<Rightarrow> byte" where
  "table = (fold (\<lambda>(i, c) t. t(c := of_nat i)) (enumerate 0 CHARS) (\<lambda>_. INVALID))(CHR ''='' := 0)"

fun decode_from :: "nat \<Rightarrow> string \<Rightarrow> string + byte list" where
  "decode_from i (p # q # r # s # bytes) =
     (let a = table p; b = table q; c = table r; d = table s in
      if a = INVALID \<or> b = INVALID \<or> c = INVALID \<or> d = INVALID
      then Inl (''invalid base64 character at position '' @ show_nat i)
      else case decode_from (i + 4) bytes of
        Inl x \<Rightarrow> Inl x
      | Inr out \<Rightarrow> Inr ((push_bit 2 a OR drop_bit 4 b)
          # (if r \<noteq> CHR ''='' then [push_bit 4 (b AND 0xf) OR drop_bit 2 c] else [])
          @ (if s \<noteq> CHR ''='' then [push_bit 6 (c AND 3) OR d] else [])
          @ out))"
| "decode_from i _ = Inr []"

definition base64_decode :: "string \<Rightarrow> string + byte list" where
  "base64_decode input = decode_from 0 input"

section \<open>The decoder undoes the encoder\<close>

lemma table_CHARS: "list_all (\<lambda>n. table (CHARS ! n) = of_nat n \<and> CHARS ! n \<noteq> CHR ''='') [0..<64]"
  by code_simp

lemma table_sextet:
  assumes "i < 64"
  shows "table (sextet_char i) = ucast i" "sextet_char i \<noteq> CHR ''=''" "ucast i \<noteq> INVALID"
proof -
  from assms have n: "unat i < 64" by (simp add: word_less_nat_alt)
  then have "table (CHARS ! unat i) = of_nat (unat i) \<and> CHARS ! unat i \<noteq> CHR ''=''"
    using table_CHARS unfolding list_all_iff by (metis atLeast_upt lessThan_iff)
  then show "table (sextet_char i) = ucast i" "sextet_char i \<noteq> CHR ''=''" unfolding sextet_char_def by simp_all
  have "unat (ucast i :: byte) = unat i" using n by (simp add: unsigned_ucast_eq take_bit_nat_eq_self)
  moreover have "unat INVALID = 255" by (simp add: INVALID_def)
  ultimately show "ucast i \<noteq> INVALID" using n by auto
qed

lemma less_64I:
  fixes x :: usize
  assumes "\<And>n. bit x n \<Longrightarrow> n < 6"
  shows "x < 64"
proof -
  have "take_bit 6 x = x" by (rule bit_word_eqI) (use assms in \<open>auto simp: bit_simps\<close>)
  moreover have "unat (take_bit 6 x) < 2 ^ 6" using take_bit_nat_less_exp [of 6 "unat x"] by (simp add: unsigned_take_bit_eq)
  ultimately show ?thesis by (simp add: word_less_nat_alt)
qed

lemma low_bits: "(3 :: usize) = Bit_Operations.mask 2" "(15 :: usize) = Bit_Operations.mask 4" "(63 :: usize) = Bit_Operations.mask 6"
    "(3 :: byte) = Bit_Operations.mask 2" "(15 :: byte) = Bit_Operations.mask 4"
  by (simp_all add: mask_eq_exp_minus_1)

lemma sextets:
  fixes w v :: byte
  shows "drop_bit 2 (ucast w) < (64 :: usize)"
    and "push_bit 4 (ucast w AND 3) OR drop_bit 4 (ucast v) < (64 :: usize)"
    and "push_bit 2 (ucast w AND 0xf) OR drop_bit 6 (ucast v) < (64 :: usize)"
    and "ucast w AND 0x3f < (64 :: usize)"
  by (rule less_64I; use bit_imp_le_length [of w] bit_imp_le_length [of v] in \<open>force simp: bit_simps low_bits\<close>)+

lemma byte_bit_high: "8 \<le> n \<Longrightarrow> \<not> bit (w :: byte) n"
  using bit_imp_le_length [of w n] by auto

lemma byte_eqI:
  fixes v w :: byte
  assumes "bit v 0 = bit w 0" "bit v 1 = bit w 1" "bit v 2 = bit w 2" "bit v 3 = bit w 3"
    "bit v 4 = bit w 4" "bit v 5 = bit w 5" "bit v 6 = bit w 6" "bit v 7 = bit w 7"
  shows "v = w"
proof (rule bit_word_eqI)
  fix n assume "n < LENGTH(8)"
  then have "n \<in> {0, 1, 2, 3, 4, 5, 6, 7}" by auto
  then show "bit v n = bit w n" using assms by auto
qed

lemma octets:
  fixes x y z :: byte
  defines "b \<equiv> ucast :: byte \<Rightarrow> usize"
  shows "push_bit 2 (ucast (drop_bit 2 (b x))) OR drop_bit 4 (ucast (push_bit 4 (b x AND 3) OR drop_bit 4 (b y))) = x"
    and "push_bit 4 (ucast (push_bit 4 (b x AND 3) OR drop_bit 4 (b y)) AND 0xf) OR drop_bit 2 (ucast (push_bit 2 (b y AND 0xf) OR drop_bit 6 (b z))) = y"
    and "push_bit 6 (ucast (push_bit 2 (b y AND 0xf) OR drop_bit 6 (b z)) AND 3) OR ucast (b z AND 0x3f) = z"
  unfolding b_def low_bits by (rule byte_eqI; simp add: bit_simps byte_bit_high)+

text \<open>The tail of an encoding, where \<open>=\<close> stands for the missing bits: it decodes to 0.\<close>

lemma table_pad: "table CHR ''='' = 0" "(0 :: byte) \<noteq> INVALID"
  by (simp_all add: table_def INVALID_def)

lemma octets_tail:
  fixes x y :: byte
  defines "b \<equiv> ucast :: byte \<Rightarrow> usize"
  shows "push_bit 2 (ucast (drop_bit 2 (b x))) OR drop_bit 4 (ucast (push_bit 4 (b x AND 3))) = x"
    and "push_bit 4 (ucast (push_bit 4 (b x AND 3) OR drop_bit 4 (b y)) AND 0xf) OR drop_bit 2 (ucast (push_bit 2 (b y AND 0xf))) = y"
  unfolding b_def low_bits by (rule byte_eqI; simp add: bit_simps byte_bit_high)+

lemma sextets_tail:
  fixes w :: byte
  shows "push_bit 4 (ucast w AND 3) < (64 :: usize)" "push_bit 2 (ucast w AND 0xf) < (64 :: usize)"
  by (rule less_64I; use bit_imp_le_length [of w] in \<open>force simp: bit_simps low_bits\<close>)+

lemma decode_encode: "decode_from i (base64_encode bs) = Inr bs"
  by (induction bs arbitrary: i rule: base64_encode.induct)
    (simp_all add: Let_def table_sextet sextets sextets_tail octets octets_tail table_pad del: push_bit_and)


section \<open>What the decoder refuses\<close>

lemma fold_upd_other: "c \<notin> snd ` set xs \<Longrightarrow> fold (\<lambda>(i, c) t. t(c := f i)) xs t c = t c"
  by (induction xs arbitrary: t) auto

lemma table_INVALID: "table c = INVALID \<longleftrightarrow> c \<notin> set CHARS \<and> c \<noteq> CHR ''=''"
proof (cases "c \<in> set CHARS")
  case True
  then obtain n where n: "n < length CHARS" "CHARS ! n = c" by (auto simp: in_set_conv_nth)
  moreover have "length CHARS = 64" by (simp add: CHARS_def)
  ultimately have "n \<in> set [0..<64]" by simp
  with table_CHARS n have "table c = of_nat n" by (auto simp: list_all_iff)
  moreover have "n < 64" using n \<open>length CHARS = 64\<close> by simp
  then have "unat (of_nat n :: byte) = n" by (simp add: unat_of_nat)
  ultimately have "table c \<noteq> INVALID" using \<open>n < 64\<close> by (auto simp: INVALID_def)
  with True show ?thesis by simp
next
  case False
  then have "table c = (if c = CHR ''='' then 0 else INVALID)"
    using fold_upd_other [of c "enumerate 0 CHARS" of_nat "\<lambda>_. INVALID"] by (simp add: table_def flip: list.set_map)
  with False show ?thesis by (auto simp: INVALID_def)
qed


lemma decode_refuses: "(\<exists>x. decode_from i cs = Inl x) \<longleftrightarrow> (\<exists>j < 4 * (length cs div 4). table (cs ! j) = INVALID)"
proof (induction i cs rule: decode_from.induct)
  case (1 i p q r s bytes)
  have "(\<exists>x. decode_from i (p # q # r # s # bytes) = Inl x) \<longleftrightarrow>
      table p = INVALID \<or> table q = INVALID \<or> table r = INVALID \<or> table s = INVALID \<or> (\<exists>x. decode_from (i + 4) bytes = Inl x)"
    by (auto simp: Let_def split: sum.split)
  moreover have "4 * (length (p # q # r # s # bytes) div 4) = Suc (Suc (Suc (Suc (4 * (length bytes div 4)))))"
    using div_add_self1 [of 4 "length bytes"] by simp
  ultimately show ?case using "1.IH" [OF refl refl refl refl] by (simp only: Ex_less_Suc2 nth_Cons_0 nth_Cons_Suc) blast
qed simp_all

lemma base64_refuses:
  "(\<exists>x. base64_decode cs = Inl x) \<longleftrightarrow> (\<exists>j < 4 * (length cs div 4). cs ! j \<notin> set CHARS \<and> cs ! j \<noteq> CHR ''='')"
  unfolding base64_decode_def decode_refuses table_INVALID ..

end
