(* ===== verification/Search.thy ===== *)
theory Search
  imports Base64 Quiet Card_Service
begin

text \<open>
  \<open>src/services/search.rs\<close>: the query sent to the search engine, the cursor of a page, and the filter
  that drops the hits on boards the caller may not view. The engine and the JSON library are parameters
  (\<open>search_backend\<close>); \<open>'v\<close> is \<open>serde_json::Value\<close>. A request body is the tree of its clauses.
\<close>

section \<open>Messages and parameters\<close>

definition DEFAULT_LIMIT :: int where
  "DEFAULT_LIMIT = 20"

definition MAX_LIMIT :: int where
  "MAX_LIMIT = 100"

definition MAX_BOARD_EXPAND :: nat where
  "MAX_BOARD_EXPAND = 50000"

definition KANBAN_CARDS_INDEX :: string where
  "KANBAN_CARDS_INDEX = ''sunbeam-kanban-cards-v1''"

record search_request =
  q_query :: string
  q_project_ids :: "string list"
  q_board_ids :: "string list"
  q_label_names :: "string list"
  q_assignee_subjects :: "string list"
  q_limit :: int
  q_cursor :: string

datatype clause = MatchAll | MultiMatch string "string list" string string | Term string string | Terms string "string list"

datatype sort_order = Desc string | Asc string

record 'v search_body =
  must :: "clause list"
  filters :: "clause list"
  body_size :: int
  sort_by :: "sort_order list"
  track_total_hits :: bool
  search_after :: "'v option"

text \<open>What the engine answers: \<open>SearchResponse\<close>, \<open>SearchHit\<close> and \<open>CardDocument\<close> of \<open>integrations/opensearch.rs\<close>.\<close>

record search_source =
  so_id :: string
  so_tenant_id :: string
  so_board_id :: string
  so_project_id :: string
  so_card_ref :: string
  so_title :: string
  so_description :: string
  so_priority :: string
  so_labels :: "string list"
  so_assignees :: "string list"
  so_completed_at :: "string option"

record 'v search_hit =
  h_score :: "64 word option"
  h_source :: search_source
  h_sort :: "'v list option"

record 'v search_answer =
  total_value :: int
  answer_hits :: "'v search_hit list"

record 'v search_backend =
  engine :: "nat \<Rightarrow> string \<Rightarrow> 'v search_body \<Rightarrow> string + 'v search_answer option"
  to_vec :: "'v list \<Rightarrow> byte list option"
  from_slice :: "byte list \<Rightarrow> string + 'v"
  f64_to_f32 :: "64 word \<Rightarrow> 32 word"

record card_hit =
  ch_card_id :: string
  ch_card_ref :: string
  ch_board_id :: string
  ch_project_id :: string
  ch_title :: string
  ch_description_snippet :: string
  ch_priority :: string
  ch_status :: string
  ch_label_names :: "string list"
  ch_assignee_subjects :: "string list"
  ch_score :: "32 word"

record search_result =
  r_hits :: "card_hit list"
  r_next_cursor :: string
  r_total :: int

section \<open>Cursors\<close>

definition encode_cursor :: "'v search_backend \<Rightarrow> 'v list \<Rightarrow> string" where
  "encode_cursor s key = base64_encode (case to_vec s key of Some bs \<Rightarrow> bs | None \<Rightarrow> [])"

definition decode_cursor :: "'v search_backend \<Rightarrow> string \<Rightarrow> string + 'v" where
  "decode_cursor s cursor = (case base64_decode cursor of Inl x \<Rightarrow> Inl x | Inr bytes \<Rightarrow> from_slice s bytes)"

section \<open>The query\<close>

definition search_limit :: "int \<Rightarrow> int" where
  "search_limit l = min (if l \<le> 0 then DEFAULT_LIMIT else l) MAX_LIMIT"

definition facet :: "string \<Rightarrow> string list \<Rightarrow> clause list" where
  "facet field vs = (if vs = [] then [] else [Terms field vs])"

definition build_query :: "'v search_backend \<Rightarrow> search_request \<Rightarrow> string \<Rightarrow> cerr + 'v search_body" where
  "build_query s req tenant =
     (let body = \<lparr>must = (if trim (q_query req) \<noteq> ''''
                 then [MultiMatch (q_query req) [''title^3'', ''description'', ''ref''] ''best_fields'' ''AUTO'']
                 else [MatchAll]),
            filters = Term ''tenant_id'' tenant # facet ''project_id'' (q_project_ids req) @ facet ''board_id'' (q_board_ids req)
              @ facet ''labels'' (q_label_names req) @ facet ''assignees'' (q_assignee_subjects req),
            body_size = search_limit (q_limit req), sort_by = [Desc ''_score'', Asc ''id''], track_total_hits = True, search_after = None\<rparr>
      in if q_cursor req = '''' then Inr body
         else case decode_cursor s (q_cursor req) of
           Inl x \<Rightarrow> Inl (InvalidArgument, ''invalid cursor: '' @ x)
         | Inr v \<Rightarrow> Inr (body\<lparr>search_after := Some v\<rparr>))"

section \<open>The handler\<close>

text \<open>\<open>chars().take(n)\<close> of a UTF-8 string: a byte that continues a character belongs to the one before.\<close>

fun take_chars :: "nat \<Rightarrow> string \<Rightarrow> string" where
  "take_chars n [] = []"
| "take_chars n (c # cs) =
     (if continues c then c # take_chars n cs else if n = 0 then [] else c # take_chars (n - 1) cs)"

definition search_open_boards :: "string \<Rightarrow> ident set \<Rightarrow> (cerr, ident set) act" where
  "search_open_boards tenant ids =
     internal ''failed to fetch board visibilities for search'' (select (\<lambda>d. b_id ` {b \<in> set (boards d). b_id b \<in> ids \<and> b_tenant b = tenant
       \<and> (b_visibility b = ''public'' \<or> b_visibility b = ''internal'')}))"

definition card_hit_of :: "'v search_backend \<Rightarrow> 'v search_hit \<Rightarrow> card_hit" where
  "card_hit_of s hit = (let src = h_source hit in
     \<lparr>ch_card_id = so_id src, ch_card_ref = so_card_ref src, ch_board_id = so_board_id src, ch_project_id = so_project_id src,
      ch_title = so_title src, ch_description_snippet = take_chars 256 (so_description src), ch_priority = so_priority src,
      ch_status = (if so_completed_at src \<noteq> None then ''completed'' else ''open''), ch_label_names = so_labels src,
      ch_assignee_subjects = so_assignees src, ch_score = f64_to_f32 s (case h_score hit of Some x \<Rightarrow> x | None \<Rightarrow> 0)\<rparr>)"

text \<open>The loop over the raw hits: the cards to show and the sort key of the last one that has a key.\<close>

fun filter_hits :: "'v search_backend \<Rightarrow> string set \<Rightarrow> 'v search_hit list \<Rightarrow> card_hit list \<Rightarrow> 'v list option \<Rightarrow> card_hit list \<times> 'v list option" where
  "filter_hits s allowed [] hits last_sort = (hits, last_sort)"
| "filter_hits s allowed (hit # raw) hits last_sort =
     (if so_board_id (h_source hit) \<notin> allowed then filter_hits s allowed raw hits last_sort
      else filter_hits s allowed raw (hits @ [card_hit_of s hit]) (case h_sort hit of Some k \<Rightarrow> Some k | None \<Rightarrow> last_sort))"

definition no_hits :: "int \<Rightarrow> search_result" where
  "no_hits n = \<lparr>r_hits = [], r_next_cursor = '''', r_total = n\<rparr>"

text \<open>From the raw hits to the page: the filter by board and the cursor.\<close>

definition post_filter :: "'v search_backend \<Rightarrow> string \<Rightarrow> string \<Rightarrow> string \<Rightarrow> nat \<Rightarrow> 'v search_answer \<Rightarrow> (cerr, search_result) act" where
  "post_filter s permission tenant sub limit r =
     bnd (internal ''permission expand failed during search post-filter''
           (expand_objects permission PERMISSION_TYPE_BOARD ''view'' sub MAX_BOARD_EXPAND)) (\<lambda>allowed_private.
     bnd (ask codec) (\<lambda>u.
     let board_ids = set (parse_ids u (map (so_board_id \<circ> h_source) (answer_hits r))) in
     bnd (search_open_boards tenant board_ids) (\<lambda>open_ids.
     let allowed = id_str u ` (board_ids \<inter> open_ids) \<union> allowed_private;
         (hits, last_sort) = filter_hits s allowed (answer_hits r) [] None in
     ret \<lparr>r_hits = hits,
          r_next_cursor = (if limit \<le> length hits then (case last_sort of Some k \<Rightarrow> encode_cursor s k | None \<Rightarrow> '''') else ''''),
          r_total = total_value r\<rparr>)))"

definition search_cards :: "'v search_backend \<Rightarrow> string option \<Rightarrow> request_context \<Rightarrow> search_request \<Rightarrow> (cerr, search_result) act" where
  "search_cards s index_name ctx req =
     bnd (subject_from_request ctx) (\<lambda>sub.
     bnd (tenant_id_from_request ctx) (\<lambda>tenant.
     bnd (tenant_client_for ctx) (\<lambda>permission.
     let limit = nat (search_limit (q_limit req)) in
     case build_query s req tenant of Inl x \<Rightarrow> raise x | Inr body \<Rightarrow>
     bnd (internal ''opensearch search failed''
           (outside (\<lambda>n. engine s n (case index_name of Some i \<Rightarrow> i | None \<Rightarrow> KANBAN_CARDS_INDEX) body))) (\<lambda>answer.
     case answer of None \<Rightarrow> ret (no_hits 0) | Some r \<Rightarrow>
     if answer_hits r = [] then ret (no_hits (total_value r))
     else post_filter s permission tenant sub limit r))))"

section \<open>What a caller finds\<close>

text \<open>A board's text is shown to a caller: an open board of the tenant, or one the gateway lists for the caller.\<close>

definition hit_shown :: "env \<Rightarrow> world \<Rightarrow> string \<Rightarrow> string \<Rightarrow> 'v search_hit \<Rightarrow> bool" where
  "hit_shown e w t s h \<longleftrightarrow>
     (\<exists>b \<in> set (boards (db w)). id_str (codec e) (b_id b) = so_board_id (h_source h) \<and> b_tenant b = t
        \<and> (b_visibility b = ''public'' \<or> b_visibility b = ''internal''))
     \<or> so_board_id (h_source h) \<in> objects_of e (tuples w) t PERMISSION_TYPE_BOARD ''view'' s"

text \<open>The cursor after a list of hits: the key of the last hit that has one.\<close>

definition last_key :: "'v search_hit list \<Rightarrow> 'v list option" where
  "last_key hs = (case List.map_filter h_sort hs of [] \<Rightarrow> None | ks \<Rightarrow> Some (last ks))"

definition cursor_after :: "'v search_backend \<Rightarrow> 'v search_hit list \<Rightarrow> string" where
  "cursor_after s hs = (case last_key hs of None \<Rightarrow> '''' | Some k \<Rightarrow> encode_cursor s k)"

lemma quiet_search_open [quiet_intros]: "quiet (search_open_boards t is)"
  unfolding search_open_boards_def by (intro quiet_intros)

lemma search_open_ok:
  assumes "search_open_boards t is e w = (Inr os, w')"
  shows "i \<in> is \<inter> os \<longleftrightarrow> i \<in> is \<and> (\<exists>b \<in> set (boards (db w)). b_id b = i \<and> b_tenant b = t
    \<and> (b_visibility b = ''public'' \<or> b_visibility b = ''internal''))"
  using assms by (auto simp: search_open_boards_def ok_iffs)

lemma filter_hits_eq: "filter_hits s A raw hits k =
    (hits @ map (card_hit_of s) (filter (\<lambda>h. so_board_id (h_source h) \<in> A) raw),
     (case List.map_filter h_sort (filter (\<lambda>h. so_board_id (h_source h) \<in> A) raw) of [] \<Rightarrow> k | ks \<Rightarrow> Some (last ks)))"
  by (induction raw arbitrary: hits k) (auto simp: List.map_filter_def split: option.splits list.splits)

lemma filter_hits_page:
  "filter_hits s A raw [] None = (map (card_hit_of s) (filter (\<lambda>h. so_board_id (h_source h) \<in> A) raw),
     last_key (filter (\<lambda>h. so_board_id (h_source h) \<in> A) raw))"
  by (simp add: filter_hits_eq last_key_def)

lemma build_query_ok:
  assumes "build_query s req t = Inr body"
  shows "Term ''tenant_id'' t \<in> set (filters body)" "body_size body = search_limit (q_limit req)"
  using assms by (auto simp: build_query_def Let_def split: if_split_asm sum.split_asm)

lemma search_limit_range: "1 \<le> search_limit l" "search_limit l \<le> 100"
  by (auto simp: search_limit_def DEFAULT_LIMIT_def MAX_LIMIT_def)


lemma set_parse_ids: "i \<in> set (parse_ids u bs) \<longleftrightarrow> (\<exists>b \<in> set bs. id_from_str u b = Inr i)"
proof -
  have "(case id_from_str u b of Inl _ \<Rightarrow> None | Inr i \<Rightarrow> Some i) = Some i \<longleftrightarrow> id_from_str u b = Inr i" for b
    by (cases "id_from_str u b") auto
  then show ?thesis by (simp add: parse_ids_def set_map_filter_Some)
qed

lemma allowed_iff:
  assumes "ulid_crate u" "b \<in> set bs"
  shows "b \<in> id_str u ` (set (parse_ids u bs) \<inter> X) \<longleftrightarrow> (\<exists>i \<in> X. id_str u i = b)"
  using ulid_crate.id_from_str_show [OF assms(1)] assms(2) by (force simp: set_parse_ids image_iff)

text \<open>What \<open>filter_hits\<close> leaves, with its key, is the page of the shown hits.\<close>


lemma post_filter_ok:
  assumes run: "post_filter s t t sub limit r e w = (Inr res, w')" and u: "ulid_crate (codec e)"
  defines "shown \<equiv> filter (hit_shown e w t sub) (answer_hits r)"
  shows "db w' = db w \<and> tuples w' = tuples w \<and> res = \<lparr>r_hits = map (card_hit_of s) shown,
    r_next_cursor = (if limit \<le> length shown then cursor_after s shown else ''''), r_total = total_value r\<rparr>"
proof -
  let ?ids = "parse_ids (codec e) (map (so_board_id \<circ> h_source) (answer_hits r))"
  let ?page = "\<lambda>A. filter (\<lambda>h. so_board_id (h_source h) \<in> A) (answer_hits r)"
  from run obtain listed w1 open_ids where
    ex: "expand_objects t PERMISSION_TYPE_BOARD ''view'' sub MAX_BOARD_EXPAND e w = (Inr listed, w1)"
    and op: "search_open_boards t (set ?ids) e w1 = (Inr open_ids, w')"
    and res: "res = (let p = ?page (id_str (codec e) ` (set ?ids \<inter> open_ids) \<union> listed) in
      \<lparr>r_hits = map (card_hit_of s) p, r_next_cursor = (if limit \<le> length p then cursor_after s p else ''''), r_total = total_value r\<rparr>)"
    by (auto simp: post_filter_def Let_def ok_iffs filter_hits_page cursor_after_def)
  note q = quietD [OF quiet_expand_objects ex] quietD [OF quiet_search_open op]
  have "so_board_id (h_source h) \<in> id_str (codec e) ` (set ?ids \<inter> open_ids) \<union> listed \<longleftrightarrow> hit_shown e w t sub h"
    if "h \<in> set (answer_hits r)" for h
  proof -
    from that have "so_board_id (h_source h) \<in> set (map (so_board_id \<circ> h_source) (answer_hits r))" by auto
    note allowed_iff [OF u this, of open_ids]
    moreover have "i \<in> open_ids \<longleftrightarrow> (\<exists>b \<in> set (boards (db w)). b_id b = i \<and> b_tenant b = t
        \<and> (b_visibility b = ''public'' \<or> b_visibility b = ''internal''))" if "i \<in> set ?ids" for i
      using search_open_ok [OF op, of i] q that by auto
    moreover have "i \<in> set ?ids" if "id_str (codec e) i = so_board_id (h_source h)" for i
      using that \<open>h \<in> set (answer_hits r)\<close> ulid_crate.id_from_str_show [OF u, of i] by (auto simp: set_parse_ids intro!: bexI [of _ h])
    ultimately show ?thesis using expand_objects_answer [OF ex] by (auto simp: hit_shown_def)
  qed
  then have "?page (id_str (codec e) ` (set ?ids \<inter> open_ids) \<union> listed) = shown" unfolding shown_def by (intro filter_cong refl) simp
  with res q show ?thesis by simp
qed


text \<open>
  C8. SearchCards shows a caller only what the caller may see: every query it sends is limited to the tenant and
  to at most 100 hits, and of the engine's answer it returns, in order, exactly the cards on boards that are
  public or internal within the tenant or that the gateway lists for the caller. A cursor follows only a page
  whose shown hits reach the limit, and it is the key of the last of them that has one.
\<close>

theorem search_shows_visible:
  assumes run: "search_cards s ix ctx req e w = (Inr res, w')"
    and ctx: "Option.bind (auth_ext ctx) auth_tenant_id = Some t" "Option.bind (auth_ext ctx) auth_subject = Some sub"
    and u: "ulid_crate (codec e)"
  shows "db w' = db w \<and> tuples w' = tuples w \<and>
    (\<exists>n body answer. build_query s req t = Inr body \<and> Term ''tenant_id'' t \<in> set (filters body) \<and> body_size body \<in> {1..100}
      \<and> engine s n (case ix of Some i \<Rightarrow> i | None \<Rightarrow> KANBAN_CARDS_INDEX) body = Inr answer
      \<and> res = (case answer of None \<Rightarrow> no_hits 0
         | Some r \<Rightarrow> (let shown = filter (hit_shown e w t sub) (answer_hits r) in
             \<lparr>r_hits = map (card_hit_of s) shown,
              r_next_cursor = (if body_size body \<le> int (length shown) then cursor_after s shown else ''''), r_total = total_value r\<rparr>)))"
proof -
  from run ctx obtain w1 body answer where cl: "tenant_client_for ctx e w = (Inr t, w1)" and b: "build_query s req t = Inr body"
    and eng: "Inr answer = engine s (step w1) (case ix of Some i \<Rightarrow> i | None \<Rightarrow> KANBAN_CARDS_INDEX) body"
    and rest: "(case answer of None \<Rightarrow> ret (no_hits 0) | Some r \<Rightarrow> if answer_hits r = [] then ret (no_hits (total_value r))
        else post_filter s t t sub (nat (search_limit (q_limit req))) r) e (tick w1) = (Inr res, w')"
    by (cases "build_query s req t") (auto simp: search_cards_def Let_def ok_iffs dest: tenant_client_is)
  note bq = build_query_ok [OF b] and q = quietD [OF quiet_request(4) cl]
  have lim: "1 \<le> body_size body" "body_size body \<le> 100" using bq(2) search_limit_range by simp_all
  have "db w' = db w \<and> tuples w' = tuples w \<and> res = (case answer of None \<Rightarrow> no_hits 0
         | Some r \<Rightarrow> (let shown = filter (hit_shown e w t sub) (answer_hits r) in
             \<lparr>r_hits = map (card_hit_of s) shown,
              r_next_cursor = (if body_size body \<le> int (length shown) then cursor_after s shown else ''''), r_total = total_value r\<rparr>))"
  proof (cases answer)
    case (Some r)
    have same: "filter (hit_shown e (tick w1) t sub) (answer_hits r) = filter (hit_shown e w t sub) (answer_hits r)"
      by (intro filter_cong refl) (use q in \<open>simp add: hit_shown_def\<close>)
    show ?thesis
    proof (cases "answer_hits r = []")
      case False
      with rest Some have "post_filter s t t sub (nat (search_limit (q_limit req))) r e (tick w1) = (Inr res, w')" by simp
      from post_filter_ok [OF this u] show ?thesis using Some q bq(2) same by (simp add: Let_def nat_le_iff)
    qed (use rest Some q lim bq(2) in \<open>simp add: ok_iffs no_hits_def\<close>)
  qed (use rest q in \<open>simp add: ok_iffs\<close>)
  with b bq lim eng [symmetric] show ?thesis by auto
qed


text \<open>
  C22. A cursor resumes where its page ended: when the JSON library reads back the key it wrote, a request that
  carries the cursor of a page is built as the same request without one, with the key as \<open>search_after\<close>; the
  hand-written base64 between them loses nothing.
\<close>

theorem search_cursor_roundtrip:
  assumes "to_vec s key = Some bytes" "bytes \<noteq> []" "from_slice s bytes = Inr v"
  shows "map_sum id (\<lambda>b. b\<lparr>search_after := Some v\<rparr>) (build_query s (req\<lparr>q_cursor := ''''\<rparr>) t)
    = build_query s (req\<lparr>q_cursor := encode_cursor s key\<rparr>) t"
proof -
  have "base64_encode bytes \<noteq> ''''" using assms(2) by (cases bytes rule: base64_encode.cases) (auto simp: Let_def)
  then show ?thesis using assms by (simp add: build_query_def encode_cursor_def decode_cursor_def base64_decode_def decode_encode)
qed

text \<open>
  A malformed cursor is the caller's error and costs nothing: one with a character outside the alphabet in a
  complete group of four is refused as \<open>InvalidArgument\<close>, whatever the engine and the JSON library do, and
  the engine is not asked. A trailing group of fewer than four characters is not looked at.
\<close>

theorem search_bad_cursor:
  assumes bad: "j < 4 * (length (q_cursor req) div 4)" "q_cursor req ! j \<notin> set CHARS" "q_cursor req ! j \<noteq> CHR ''=''"
    and ctx: "Option.bind (auth_ext ctx) auth_subject = Some sub" "Option.bind (auth_ext ctx) auth_tenant_id = Some t"
    and cl: "tenant_client_for ctx e w = (Inr p, w1)"
  shows "\<exists>x. base64_decode (q_cursor req) = Inl x \<and> search_cards s ix ctx req e w = (Inl (InvalidArgument, ''invalid cursor: '' @ x), w1)
    \<and> db w1 = db w \<and> tuples w1 = tuples w"
proof -
  from bad obtain x where x: "base64_decode (q_cursor req) = Inl x" using base64_refuses by blast
  moreover have "q_cursor req \<noteq> ''''" using bad(1) by auto
  ultimately have "build_query s req t = Inl (InvalidArgument, ''invalid cursor: '' @ x)"
    by (simp add: build_query_def decode_cursor_def)
  with x cl ctx quietD [OF quiet_request(4) cl] show ?thesis
    by (simp add: search_cards_def subject_from_request_def tenant_id_from_request_def evals)
qed


section \<open>A sample\<close>

definition sample_source :: "nat \<Rightarrow> search_source" where
  "sample_source b = \<lparr>so_id = id_str crockford (sid 5), so_tenant_id = ''t'', so_board_id = id_str crockford (sid b),
     so_project_id = id_str crockford (sid 1), so_card_ref = ''SUN-001'', so_title = ''a title'', so_description = ''a text'',
     so_priority = ''medium'', so_labels = [], so_assignees = [], so_completed_at = None\<rparr>"

definition sample_answer :: "nat search_answer" where
  "sample_answer = \<lparr>total_value = 2, answer_hits = [\<lparr>h_score = None, h_source = sample_source 2, h_sort = Some [7]\<rparr>,
     \<lparr>h_score = None, h_source = sample_source 8, h_sort = Some [8]\<rparr>]\<rparr>"

definition sample_backend :: "nat search_backend" where
  "sample_backend = \<lparr>engine = (\<lambda>n i b. Inr (Some sample_answer)),
     to_vec = (\<lambda>ks. Some (0x5B # map of_nat ks @ [0x5D])), from_slice = (\<lambda>bs. Inr (unat (bs ! 1))), f64_to_f32 = (\<lambda>_. 0)\<rparr>"

definition sample_search :: search_request where
  "sample_search = \<lparr>q_query = ''title'', q_project_ids = [], q_board_ids = [], q_label_names = [], q_assignee_subjects = [],
     q_limit = 1, q_cursor = ''''\<rparr>"

definition search_world :: world where
  "search_world = (sample_world sample_db)\<lparr>tuples := [\<lparr>tu_tenant = ''t'', tu_namespace = PERMISSION_TYPE_BOARD,
     tu_object = id_str crockford (sid 2), tu_relation = ''view'', tu_subject = ''s''\<rparr>]\<rparr>"

lemma sample_caller_search: "Option.bind (auth_ext (sample_context i)) auth_tenant_id = Some ''t''"
    "Option.bind (auth_ext (sample_context i)) auth_subject = Some ''s''" "ulid_crate (codec sample_env)"
  by (simp_all add: sample_context_def crockford.ulid_crate_axioms)

lemma post_filter_runs:
  assumes "\<not> aborted w" "tuples w = tuples search_world"
  shows "\<exists>res w'. post_filter sample_backend ''t'' ''t'' ''s'' n r sample_env w = (Inr res, w')"
  using assms by (simp add: evals post_filter_def expand_objects_def list_objects_def search_open_boards_def search_world_def
      MAX_BOARD_EXPAND_def Let_def List.map_filter_def strip_prefix_Some PERMISSION_TYPE_BOARD_def split_beta)

lemma sample_engine: "engine sample_backend n i b = Inr (Some sample_answer)" "answer_hits sample_answer \<noteq> []"
  by (simp_all add: sample_backend_def sample_answer_def)

lemma search_runs: "\<exists>res w'. search_cards sample_backend None (sample_context (sid 1)) sample_search sample_env search_world = (Inr res, w')"
  by (auto simp: evals request_evals search_cards_def build_query_def sample_search_def Let_def sample_engine search_world_def tick_def
      intro!: post_filter_runs)

lemma sample_page: "filter (hit_shown sample_env search_world ''t'' ''s'') (answer_hits sample_answer) = [hd (answer_hits sample_answer)]"
  by (simp add: sample_answer_def hit_shown_def search_world_def sample_evals sample_source_def objects_of_def crockford.id_str_inject
      PERMISSION_TYPE_BOARD_def)

lemma sample_cursor: "cursor_after sample_backend [hd (answer_hits sample_answer)] = ''Wwdd''"
proof -
  have "base64_encode [0x5B, 7, 0x5D] = ''Wwdd''" by code_simp
  then show ?thesis by (simp add: cursor_after_def last_key_def List.map_filter_def sample_answer_def encode_cursor_def sample_backend_def)
qed

theorem search_shows_visible_witness:
  "\<exists>res w'. search_cards sample_backend None (sample_context (sid 1)) sample_search sample_env search_world = (Inr res, w')
     \<and> map ch_board_id (r_hits res) = [id_str crockford (sid 2)] \<and> r_next_cursor res = ''Wwdd''"
proof -
  obtain res w' where run: "search_cards sample_backend None (sample_context (sid 1)) sample_search sample_env search_world = (Inr res, w')"
    using search_runs by blast
  from search_shows_visible [OF run sample_caller_search] obtain body where body: "build_query sample_backend sample_search ''t'' = Inr body"
    and res: "res = (let shown = [hd (answer_hits sample_answer)] in \<lparr>r_hits = map (card_hit_of sample_backend) shown,
      r_next_cursor = (if body_size body \<le> int (length shown) then cursor_after sample_backend shown else ''''), r_total = total_value sample_answer\<rparr>)"
    by (auto simp: sample_engine sample_page)
  have "body_size body = 1" using build_query_ok(2) [OF body] by (simp add: sample_search_def search_limit_def MAX_LIMIT_def)
  with res have "map ch_board_id (r_hits res) = [so_board_id (h_source (hd (answer_hits sample_answer)))]" "r_next_cursor res = ''Wwdd''"
    by (simp_all add: sample_cursor card_hit_of_def Let_def)
  with run show ?thesis by (simp add: sample_answer_def sample_source_def)
qed

theorem search_cursor_roundtrip_witness:
  "map_sum id (\<lambda>b. b\<lparr>search_after := Some 7\<rparr>) (build_query sample_backend (sample_search\<lparr>q_cursor := ''''\<rparr>) ''t'')
    = build_query sample_backend (sample_search\<lparr>q_cursor := encode_cursor sample_backend [7]\<rparr>) ''t''"
  by (rule search_cursor_roundtrip [of _ _ "[0x5B, 7, 0x5D]"]) (simp_all add: sample_backend_def)

theorem search_bad_cursor_witness:
  "\<exists>x w'. search_cards sample_backend None (sample_context (sid 1)) (sample_search\<lparr>q_cursor := ''!@#$''\<rparr>) sample_env search_world
     = (Inl (InvalidArgument, ''invalid cursor: '' @ x), w')"
proof -
  let ?req = "sample_search\<lparr>q_cursor := ''!@#$''\<rparr>"
  have cl: "\<exists>w1. tenant_client_for (sample_context (sid 1)) sample_env search_world = (Inr ''t'', w1)"
    by (simp add: evals request_evals sample_evals search_world_def)
  have "CHR ''!'' \<notin> set CHARS" by (simp add: CHARS_def)
  then have "0 < 4 * (length (q_cursor ?req) div 4)" "q_cursor ?req ! 0 \<notin> set CHARS" "q_cursor ?req ! 0 \<noteq> CHR ''=''" by simp_all
  from search_bad_cursor [OF this sample_caller_search(2,1)] cl show ?thesis by blast
qed

end
