(* ===== verification/Templates.thy ===== *)
theory Templates
  imports Labels
begin

text \<open>
  \<open>src/services/templates.rs\<close>: board and card templates. The ten handlers of the file are five shapes on two
  tables; a shape is written once over a \<open>template_table\<close> and the handlers are its instances.
\<close>

section \<open>Columns and checklists as JSON\<close>

definition SYSTEM_TENANT :: string where
  "SYSTEM_TENANT = ''system''"

record template_column =
  tc_title :: string
  tc_position :: int
  tc_accent :: string
  tc_is_done :: bool

type_synonym checklist = "string list"

definition column_to_json :: "template_column \<Rightarrow> json" where
  "column_to_json c = JObj [jstr ''title'' (tc_title c), jnum ''position'' (tc_position c), jstr ''accent'' (tc_accent c),
     (''is_done'', JBool (tc_is_done c))]"

definition columns_to_json :: "template_column list \<Rightarrow> json" where
  "columns_to_json cs = JArr (map column_to_json cs)"

definition get_or :: "'a \<Rightarrow> (json \<Rightarrow> 'a option) \<Rightarrow> json \<Rightarrow> string \<Rightarrow> 'a" where
  "get_or d as v key = (case Option.bind (json_get v key) as of Some x \<Rightarrow> x | None \<Rightarrow> d)"

definition column_from_json :: "json \<Rightarrow> template_column" where
  "column_from_json v = \<lparr>tc_title = get_or '''' as_str v ''title'', tc_position = as_i32 (get_or 0 as_i64 v ''position''),
     tc_accent = get_or '''' as_str v ''accent'', tc_is_done = get_or False as_bool v ''is_done''\<rparr>"

definition columns_from_json :: "json \<Rightarrow> template_column list" where
  "columns_from_json v = (case as_array v of None \<Rightarrow> [] | Some xs \<Rightarrow> map column_from_json xs)"

definition checklist_to_json :: "checklist \<Rightarrow> json" where
  "checklist_to_json items = JArr (map (\<lambda>i. JObj [jstr ''title'' i]) items)"

definition checklist_from_json :: "json \<Rightarrow> checklist" where
  "checklist_from_json v = (case as_array v of None \<Rightarrow> [] | Some xs \<Rightarrow> map (\<lambda>x. get_or '''' as_str x ''title'') xs)"

section \<open>Messages\<close>

record board_template_msg =
  btm_id :: string
  btm_project_id :: string
  btm_name :: string
  btm_description :: string
  btm_columns :: "template_column list"
  btm_is_global :: bool
  btm_created_at :: timestamp
  btm_updated_at :: timestamp

record card_template_msg =
  ctm_id :: string
  ctm_project_id :: string
  ctm_name :: string
  ctm_description :: string
  ctm_title :: string
  ctm_default_description :: string
  ctm_label_names :: "string list"
  ctm_checklist_items :: checklist
  ctm_is_global :: bool
  ctm_created_at :: timestamp
  ctm_updated_at :: timestamp

definition text_or_empty :: "string option \<Rightarrow> string" where
  "text_or_empty x = (case x of Some s \<Rightarrow> s | None \<Rightarrow> '''')"

definition board_template_from_row :: "ulid_codec \<Rightarrow> board_template_row \<Rightarrow> board_template_msg" where
  "board_template_from_row u r = \<lparr>btm_id = id_str u (bt_id r), btm_project_id = opt_id_str u (bt_project r), btm_name = bt_name r,
     btm_description = text_or_empty (bt_description r), btm_columns = columns_from_json (bt_columns r), btm_is_global = bt_is_global r,
     btm_created_at = to_proto_ts (bt_created r), btm_updated_at = to_proto_ts (bt_updated r)\<rparr>"

definition card_template_from_row :: "ulid_codec \<Rightarrow> card_template_row \<Rightarrow> card_template_msg" where
  "card_template_from_row u r = \<lparr>ctm_id = id_str u (ct_id r), ctm_project_id = opt_id_str u (ct_project r), ctm_name = ct_name r,
     ctm_description = text_or_empty (ct_description r), ctm_title = text_or_empty (ct_title r),
     ctm_default_description = text_or_empty (ct_default_description r), ctm_label_names = ct_label_names r,
     ctm_checklist_items = checklist_from_json (ct_checklist_items r), ctm_is_global = ct_is_global r,
     ctm_created_at = to_proto_ts (ct_created r), ctm_updated_at = to_proto_ts (ct_updated r)\<rparr>"

section \<open>The two tables\<close>

text \<open>\<open>tt_word\<close> is the word the error messages of the handlers use for the table.\<close>

record ('r, 'm) template_table =
  tt_word :: string
  tt_rows :: "db \<Rightarrow> 'r list"
  tt_put :: "'r list \<Rightarrow> db \<Rightarrow> db"
  tt_id :: "'r \<Rightarrow> ident"
  tt_tenant :: "'r \<Rightarrow> string"
  tt_project :: "'r \<Rightarrow> ident option"
  tt_global :: "'r \<Rightarrow> bool"
  tt_name :: "'r \<Rightarrow> string"
  tt_msg :: "ulid_codec \<Rightarrow> 'r \<Rightarrow> 'm"

definition board_table :: "(board_template_row, board_template_msg) template_table" where
  "board_table = \<lparr>tt_word = ''board'', tt_rows = board_templates, tt_put = (\<lambda>rs d. d\<lparr>board_templates := rs\<rparr>), tt_id = bt_id,
     tt_tenant = bt_tenant, tt_project = bt_project, tt_global = bt_is_global, tt_name = bt_name, tt_msg = board_template_from_row\<rparr>"

definition card_table :: "(card_template_row, card_template_msg) template_table" where
  "card_table = \<lparr>tt_word = ''card'', tt_rows = card_templates, tt_put = (\<lambda>rs d. d\<lparr>card_templates := rs\<rparr>), tt_id = ct_id,
     tt_tenant = ct_tenant, tt_project = ct_project, tt_global = ct_is_global, tt_name = ct_name, tt_msg = card_template_from_row\<rparr>"

definition template_is :: "('r, 'm) template_table \<Rightarrow> ident \<Rightarrow> string \<Rightarrow> 'r \<Rightarrow> bool" where
  "template_is tb i tenant r \<longleftrightarrow> tt_id tb r = i \<and> tt_tenant tb r = tenant"

definition find_template :: "('r, 'm) template_table \<Rightarrow> ident \<Rightarrow> string \<Rightarrow> db \<Rightarrow> 'r option" where
  "find_template tb i tenant d = List.find (template_is tb i tenant) (tt_rows tb d)"

definition find_shown_template :: "('r, 'm) template_table \<Rightarrow> ident \<Rightarrow> string \<Rightarrow> db \<Rightarrow> 'r option" where
  "find_shown_template tb i tenant d = List.find (\<lambda>r. tt_id tb r = i \<and> tt_tenant tb r \<in> {tenant, SYSTEM_TENANT}) (tt_rows tb d)"

definition by_name :: "('r, 'm) template_table \<Rightarrow> (string \<Rightarrow> string \<Rightarrow> bool) \<Rightarrow> ('r \<Rightarrow> bool) \<Rightarrow> db \<Rightarrow> 'r list" where
  "by_name tb le P d = sort_rows (\<lambda>a b. le (tt_name tb a) (tt_name tb b)) (filter P (tt_rows tb d))"

definition insert_template_sql :: "('r, 'm) template_table \<Rightarrow> (datetime \<Rightarrow> 'r) \<Rightarrow> datetime \<Rightarrow> db \<Rightarrow> ('r \<times> db) option" where
  "insert_template_sql tb mk now d = (let row = mk now in
     if (\<exists>r \<in> set (tt_rows tb d). tt_id tb r = tt_id tb row) then None
     else if (case tt_project tb row of Some p \<Rightarrow> p \<notin> p_id ` set (projects d) | None \<Rightarrow> False) then None
     else Some (row, tt_put tb (tt_rows tb d @ [row]) d))"

definition update_template_sql ::
  "('r, 'm) template_table \<Rightarrow> ident \<Rightarrow> string \<Rightarrow> (datetime \<Rightarrow> 'r \<Rightarrow> 'r) \<Rightarrow> datetime \<Rightarrow> db \<Rightarrow> ('r option \<times> db) option" where
  "update_template_sql tb i tenant f now d =
     Some (map_option (f now) (find_template tb i tenant d), tt_put tb (upd_rows (template_is tb i tenant) (f now) (tt_rows tb d)) d)"

definition delete_template_sql :: "('r, 'm) template_table \<Rightarrow> ident \<Rightarrow> string \<Rightarrow> datetime \<Rightarrow> db \<Rightarrow> (nat \<times> db) option" where
  "delete_template_sql tb i tenant now d =
     Some (cnt_rows (template_is tb i tenant) (tt_rows tb d), tt_put tb (del_rows (template_is tb i tenant) (tt_rows tb d)) d)"

section \<open>The shapes of the handlers\<close>

text \<open>\<open>check_project_permission(\<dots>).await.is_ok()\<close>: a failed check counts as a refusal.\<close>

definition project_visible :: "string \<Rightarrow> ident \<Rightarrow> string \<Rightarrow> (cerr, bool) act" where
  "project_visible permission p sub =
     bnd (attempt (check_project_permission permission p ''view'' sub)) (\<lambda>r. ret (case r of Inr _ \<Rightarrow> True | Inl _ \<Rightarrow> False))"

definition list_of :: "('r, 'm) template_table \<Rightarrow> request_context \<Rightarrow> string \<Rightarrow> (cerr, 'm list) act" where
  "list_of tb ctx req_project_id =
     bnd (subject_from_request ctx) (\<lambda>sub.
     bnd (tenant_id_from_request ctx) (\<lambda>tenant.
     bnd (tenant_client_for ctx) (\<lambda>permission.
     bnd (ask (\<lambda>e. (codec e, text_le e))) (\<lambda>(u, le).
     bnd (internal (''failed to list global '' @ tt_word tb @ '' templates'')
           (select (by_name tb le (\<lambda>r. tt_tenant tb r \<in> {tenant, SYSTEM_TENANT} \<and> tt_global tb r)))) (\<lambda>globals.
     if req_project_id = '''' then ret (map (tt_msg tb u) globals)
     else
       bnd (parse_id ''invalid project_id'' req_project_id) (\<lambda>p.
       bnd (project_visible permission p sub) (\<lambda>visible.
       if \<not> visible then ret (map (tt_msg tb u) globals)
       else
         bnd (internal (''failed to list project '' @ tt_word tb @ '' templates'')
               (select (by_name tb le (\<lambda>r. tt_tenant tb r \<in> {tenant, SYSTEM_TENANT} \<and> tt_project tb r = Some p \<and> \<not> tt_global tb r)))) (\<lambda>scoped.
         ret (map (tt_msg tb u) globals @ map (tt_msg tb u) scoped)))))))))"

text \<open>A template without a project, global or not, is not checked.\<close>

definition check_template_view :: "('r, 'm) template_table \<Rightarrow> string \<Rightarrow> string \<Rightarrow> 'r \<Rightarrow> (cerr, unit) act" where
  "check_template_view tb permission sub row =
     (if tt_global tb row then ret ()
      else case tt_project tb row of Some p \<Rightarrow> check_project_permission permission p ''view'' sub | None \<Rightarrow> ret ())"

definition get_of :: "('r, 'm) template_table \<Rightarrow> request_context \<Rightarrow> string \<Rightarrow> (cerr, 'm) act" where
  "get_of tb ctx req_template_id =
     bnd (subject_from_request ctx) (\<lambda>sub.
     bnd (tenant_id_from_request ctx) (\<lambda>tenant.
     bnd (tenant_client_for ctx) (\<lambda>permission.
     bnd (parse_id ''invalid template_id'' req_template_id) (\<lambda>i.
     bnd (internal (''failed to fetch '' @ tt_word tb @ '' template'') (select (find_shown_template tb i tenant))) (\<lambda>r.
     bnd (ok_or (NotFound, ''template not found'') r) (\<lambda>row.
     bnd (check_template_view tb permission sub row) (\<lambda>_.
     bnd (ask codec) (\<lambda>u. ret (tt_msg tb u row)))))))))"

definition create_of ::
  "('r, 'm) template_table \<Rightarrow> request_context \<Rightarrow> string \<Rightarrow> string
    \<Rightarrow> (ident \<Rightarrow> string \<Rightarrow> ident \<Rightarrow> string \<Rightarrow> datetime \<Rightarrow> 'r) \<Rightarrow> (cerr, 'm) act" where
  "create_of tb ctx name req_project_id mk =
     bnd (subject_from_request ctx) (\<lambda>sub.
     bnd (tenant_id_from_request ctx) (\<lambda>tenant.
     bnd (tenant_client_for ctx) (\<lambda>permission.
     bnd (require (name \<noteq> '''') (InvalidArgument, ''name is required'')) (\<lambda>_.
     bnd (require (req_project_id \<noteq> '''') (PermissionDenied, ''global templates cannot be created via API'')) (\<lambda>_.
     bnd (parse_id ''invalid project_id'' req_project_id) (\<lambda>p.
     bnd (check_project_permission permission p ''manage'' sub) (\<lambda>_.
     bnd new_id (\<lambda>i.
     bnd (internal (''failed to create '' @ tt_word tb @ '' template'') (stmt (insert_template_sql tb (mk i tenant p sub)))) (\<lambda>row.
     bnd (ask codec) (\<lambda>u. ret (tt_msg tb u row)))))))))))"

text \<open>What Update and Delete check before they write.\<close>

definition check_template_write :: "('r, 'm) template_table \<Rightarrow> string \<Rightarrow> string \<Rightarrow> string \<Rightarrow> 'r \<Rightarrow> (cerr, unit) act" where
  "check_template_write tb permission sub verb row =
     bnd (require (\<not> tt_global tb row) (PermissionDenied, ''global templates cannot be '' @ verb)) (\<lambda>_.
     case tt_project tb row of Some p \<Rightarrow> check_project_permission permission p ''manage'' sub | None \<Rightarrow> ret ())"

definition update_of :: "('r, 'm) template_table \<Rightarrow> request_context \<Rightarrow> string \<Rightarrow> (datetime \<Rightarrow> 'r \<Rightarrow> 'r) \<Rightarrow> (cerr, 'm) act" where
  "update_of tb ctx req_template_id f =
     bnd (subject_from_request ctx) (\<lambda>sub.
     bnd (tenant_id_from_request ctx) (\<lambda>tenant.
     bnd (tenant_client_for ctx) (\<lambda>permission.
     bnd (parse_id ''invalid template_id'' req_template_id) (\<lambda>i.
     bnd (internal (''failed to fetch '' @ tt_word tb @ '' template for update'') (select (find_template tb i tenant))) (\<lambda>r.
     bnd (ok_or (NotFound, ''template not found'') r) (\<lambda>existing.
     bnd (check_template_write tb permission sub ''modified'' existing) (\<lambda>_.
     bnd (internal (''failed to update '' @ tt_word tb @ '' template'') (stmt (update_template_sql tb i tenant f))) (\<lambda>x.
     bnd (ok_or (Internal, ''failed to update '' @ tt_word tb @ '' template'') x) (\<lambda>row.
     bnd (ask codec) (\<lambda>u. ret (tt_msg tb u row)))))))))))"

definition delete_of :: "('r, 'm) template_table \<Rightarrow> request_context \<Rightarrow> string \<Rightarrow> (cerr, unit) act" where
  "delete_of tb ctx req_template_id =
     bnd (subject_from_request ctx) (\<lambda>sub.
     bnd (tenant_id_from_request ctx) (\<lambda>tenant.
     bnd (tenant_client_for ctx) (\<lambda>permission.
     bnd (parse_id ''invalid template_id'' req_template_id) (\<lambda>i.
     bnd (internal (''failed to fetch '' @ tt_word tb @ '' template for delete'') (select (find_template tb i tenant))) (\<lambda>r.
     bnd (ok_or (NotFound, ''template not found'') r) (\<lambda>existing.
     bnd (check_template_write tb permission sub ''deleted'' existing) (\<lambda>_.
     bnd (internal (''failed to delete '' @ tt_word tb @ '' template'') (stmt (delete_template_sql tb i tenant))) (\<lambda>n.
     require (n \<noteq> 0) (NotFound, ''template not found'')))))))))"

section \<open>The handlers\<close>

definition list_templates :: "request_context \<Rightarrow> string \<Rightarrow> (cerr, board_template_msg list) act" where
  "list_templates = list_of board_table"

definition get_template :: "request_context \<Rightarrow> string \<Rightarrow> (cerr, board_template_msg) act" where
  "get_template = get_of board_table"

record create_template_request =
  nt_project_id :: string
  nt_name :: string
  nt_description :: string
  nt_columns :: "template_column list"

definition create_template :: "request_context \<Rightarrow> create_template_request \<Rightarrow> (cerr, board_template_msg) act" where
  "create_template ctx req = create_of board_table ctx (nt_name req) (nt_project_id req) (\<lambda>i tenant p sub now.
     \<lparr>bt_id = i, bt_tenant = tenant, bt_name = nt_name req, bt_description = Some (nt_description req),
      bt_columns = columns_to_json (nt_columns req), bt_created_by = Some sub, bt_is_global = False, bt_project = Some p,
      bt_created = now, bt_updated = now\<rparr>)"

text \<open>A field is bound only if the mask lists it; \<open>COALESCE\<close> keeps the old value of the others.\<close>

definition masked :: "string list option \<Rightarrow> string \<Rightarrow> 'a \<Rightarrow> 'a \<Rightarrow> 'a" where
  "masked m path new old = (if mask_contains m path then new else old)"

record update_template_request =
  vt_template_id :: string
  vt_update_mask :: "string list option"
  vt_name :: string
  vt_description :: string
  vt_columns :: "template_column list"

definition update_template :: "request_context \<Rightarrow> update_template_request \<Rightarrow> (cerr, board_template_msg) act" where
  "update_template ctx req = (let m = vt_update_mask req in update_of board_table ctx (vt_template_id req) (\<lambda>now r.
     r\<lparr>bt_name := masked m ''name'' (vt_name req) (bt_name r),
       bt_description := masked m ''description'' (Some (vt_description req)) (bt_description r),
       bt_columns := masked m ''columns'' (columns_to_json (vt_columns req)) (bt_columns r), bt_updated := now\<rparr>))"

definition delete_template :: "request_context \<Rightarrow> string \<Rightarrow> (cerr, unit) act" where
  "delete_template = delete_of board_table"

definition list_card_templates :: "request_context \<Rightarrow> string \<Rightarrow> (cerr, card_template_msg list) act" where
  "list_card_templates = list_of card_table"

definition get_card_template :: "request_context \<Rightarrow> string \<Rightarrow> (cerr, card_template_msg) act" where
  "get_card_template = get_of card_table"

record card_template_request =
  kt_project_id :: string
  kt_name :: string
  kt_description :: string
  kt_title :: string
  kt_default_description :: string
  kt_label_names :: "string list"
  kt_checklist_items :: checklist

definition create_card_template :: "request_context \<Rightarrow> card_template_request \<Rightarrow> (cerr, card_template_msg) act" where
  "create_card_template ctx req = create_of card_table ctx (kt_name req) (kt_project_id req) (\<lambda>i tenant p sub now.
     \<lparr>ct_id = i, ct_tenant = tenant, ct_project = Some p, ct_name = kt_name req, ct_description = Some (kt_description req),
      ct_title = Some (kt_title req), ct_default_description = Some (kt_default_description req), ct_label_names = kt_label_names req,
      ct_checklist_items = checklist_to_json (kt_checklist_items req), ct_created_by = Some sub, ct_is_global = False,
      ct_created = now, ct_updated = now\<rparr>)"

text \<open>UpdateCardTemplate carries the fields of a create request, an id and a mask.\<close>

definition update_card_template ::
  "request_context \<Rightarrow> string \<Rightarrow> string list option \<Rightarrow> card_template_request \<Rightarrow> (cerr, card_template_msg) act" where
  "update_card_template ctx req_template_id m req = update_of card_table ctx req_template_id (\<lambda>now r.
     r\<lparr>ct_name := masked m ''name'' (kt_name req) (ct_name r),
       ct_description := masked m ''description'' (Some (kt_description req)) (ct_description r),
       ct_title := masked m ''title'' (Some (kt_title req)) (ct_title r),
       ct_default_description := masked m ''default_description'' (Some (kt_default_description req)) (ct_default_description r),
       ct_label_names := masked m ''label_names'' (kt_label_names req) (ct_label_names r),
       ct_checklist_items := masked m ''checklist_items'' (checklist_to_json (kt_checklist_items req)) (ct_checklist_items r),
       ct_updated := now\<rparr>)"

definition delete_card_template :: "request_context \<Rightarrow> string \<Rightarrow> (cerr, unit) act" where
  "delete_card_template = delete_of card_table"

end
