(* ===== verification/Template_Access.thy ===== *)
theory Template_Access
  imports Templates Catalogs
begin

text \<open>
  Who reads and writes templates, and that a template is read back as it was stored. The two tables are two
  instances of one locale, in which the lemmas on the shapes of the handlers are proved once.
\<close>

section \<open>A table of templates\<close>

definition scoped :: "('r, 'm) template_table \<Rightarrow> db \<Rightarrow> bool" where
  "scoped tb d \<longleftrightarrow> distinct (map (tt_id tb) (tt_rows tb d)) \<and> (\<forall>r \<in> set (tt_rows tb d). \<not> tt_global tb r \<longrightarrow> tt_project tb r \<noteq> None)"

text \<open>The rows a manager of project \<open>p\<close> in tenant \<open>t\<close> has no hold of.\<close>

definition beyond :: "('r, 'm) template_table \<Rightarrow> string \<Rightarrow> ident \<Rightarrow> db \<Rightarrow> 'r list" where
  "beyond tb t p d = filter (\<lambda>r. \<not> (tt_tenant tb r = t \<and> tt_project tb r = Some p \<and> \<not> tt_global tb r)) (tt_rows tb d)"

definition confined :: "('r, 'm) template_table \<Rightarrow> string \<Rightarrow> ident \<Rightarrow> db \<Rightarrow> db \<Rightarrow> bool" where
  "confined tb t p d d' \<longleftrightarrow> beyond tb t p d' = beyond tb t p d \<and> d' = tt_put tb (tt_rows tb d') d"

definition keeps_scope :: "('r, 'm) template_table \<Rightarrow> (datetime \<Rightarrow> 'r \<Rightarrow> 'r) \<Rightarrow> bool" where
  "keeps_scope tb f \<longleftrightarrow> (\<forall>now r. tt_id tb (f now r) = tt_id tb r \<and> tt_tenant tb (f now r) = tt_tenant tb r
     \<and> tt_project tb (f now r) = tt_project tb r \<and> tt_global tb (f now r) = tt_global tb r)"

definition fits :: "('r, 'm) template_table \<Rightarrow> (ident \<Rightarrow> string \<Rightarrow> ident \<Rightarrow> string \<Rightarrow> datetime \<Rightarrow> 'r) \<Rightarrow> bool" where
  "fits tb mk \<longleftrightarrow> (\<forall>i t p s now. tt_tenant tb (mk i t p s now) = t \<and> tt_project tb (mk i t p s now) = Some p \<and> \<not> tt_global tb (mk i t p s now))"

text \<open>The answers to a caller of tenant \<open>t\<close> for the rows of the tenant and of the system with \<open>P\<close>, in order of name.\<close>

definition templates_shown :: "('r, 'm) template_table \<Rightarrow> env \<Rightarrow> string \<Rightarrow> ('r \<Rightarrow> bool) \<Rightarrow> db \<Rightarrow> 'm list" where
  "templates_shown tb e t P d = map (tt_msg tb (codec e)) (by_name tb (text_le e) (\<lambda>r. tt_tenant tb r \<in> {t, SYSTEM_TENANT} \<and> P r) d)"

text \<open>
  What List answers for the text \<open>q\<close> of a project id, and Get for the text of a template id; \<open>None\<close> where the call fails.
\<close>

definition list_answer :: "('r, 'm) template_table \<Rightarrow> env \<Rightarrow> rel_tuple list \<Rightarrow> string \<Rightarrow> string \<Rightarrow> db \<Rightarrow> string \<Rightarrow> 'm list option" where
  "list_answer tb e ts t s d q = (let globals = templates_shown tb e t (tt_global tb) d in
     if q = '''' then Some globals
     else case id_from_str (codec e) q of
       Inl _ \<Rightarrow> None
     | Inr p \<Rightarrow> Some (if may e ts t s ''view'' p
         then globals @ templates_shown tb e t (\<lambda>r. tt_project tb r = Some p \<and> \<not> tt_global tb r) d else globals))"

definition get_answer :: "('r, 'm) template_table \<Rightarrow> env \<Rightarrow> rel_tuple list \<Rightarrow> string \<Rightarrow> string \<Rightarrow> db \<Rightarrow> string \<Rightarrow> 'm option" where
  "get_answer tb e ts t s d q =
     (case id_from_str (codec e) q of
        Inl _ \<Rightarrow> None
      | Inr i \<Rightarrow>
          (case List.find (\<lambda>r. tt_id tb r = i \<and> tt_tenant tb r \<in> {t, SYSTEM_TENANT}) (tt_rows tb d) of
             None \<Rightarrow> None
           | Some r \<Rightarrow>
               if tt_global tb r then Some (tt_msg tb (codec e) r)
               else (case tt_project tb r of
                   None \<Rightarrow> Some (tt_msg tb (codec e) r)
                 | Some p \<Rightarrow> if may e ts t s ''view'' p then Some (tt_msg tb (codec e) r) else None)))"

text \<open>Where database and gateway work, the checks come to the relation.\<close>

lemma calm_project_check:
  "calm e \<Longrightarrow> check_project_permission c p r s e w =
    ((if may e (tuples w) c s r p then Inr () else Inl (PermissionDenied, ''permission denied'')), tick w)"
  by (simp add: check_project_permission_def check_permission_with_retry_def retry_once check_permission_def may_def gateway_def
      bnd_def map_err_def internal_def attempt_def ask_def ret_def raise_def require_def tick_def split: prod.split)

lemma calm_tenant_client:
  assumes "calm e" "has_credentials e" "Option.bind (auth_ext ctx) auth_tenant_id = Some t"
  obtains w1 where "tenant_client_for ctx e w = (Inr t, w1)" "db w1 = db w" "tuples w1 = tuples w" "aborted w1 = aborted w"
proof (cases "t \<in> set (tenants_ready w)")
  case True
  with assms show thesis
    by (intro that [of w]) (simp_all add: tenant_client_for_def tenant_client_def ok_or_def bnd_def ret_def internal_def map_err_def)
next
  case False
  with assms show thesis
    by (intro that [of "(tick w)\<lparr>tenants_ready := t # tenants_ready w\<rparr>"])
      (simp_all add: tenant_client_for_def tenant_client_def ok_or_def bnd_def ret_def internal_def map_err_def)
qed

locale template_store =
  fixes tb :: "('r, 'm) template_table"
  assumes rows_put [simp]: "tt_rows tb (tt_put tb rs d) = rs"
    and put_rows [simp]: "tt_put tb (tt_rows tb d) d = d"
    and put_put [simp]: "tt_put tb rs (tt_put tb qs d) = tt_put tb rs d"
begin

lemma inserted:
  assumes "insert_template_sql tb mk now d = Some (r, d')"
  shows "r = mk now" "\<forall>x \<in> set (tt_rows tb d). tt_id tb x \<noteq> tt_id tb r" "d' = tt_put tb (tt_rows tb d @ [r]) d"
  using assms by (auto simp: insert_template_sql_def Let_def split: if_split_asm)

lemma inserted_confined:
  assumes "insert_template_sql tb mk now d = Some (r, d')" "tt_tenant tb r = t" "tt_project tb r = Some p" "\<not> tt_global tb r"
  shows "confined tb t p d d'" "scoped tb d \<Longrightarrow> scoped tb d'"
  using inserted [OF assms(1)] assms(2-4) by (auto simp: confined_def beyond_def scoped_def)

lemma keeps_scopeD:
  assumes "keeps_scope tb f"
  shows "tt_id tb (f now r) = tt_id tb r" "tt_tenant tb (f now r) = tt_tenant tb r"
    "tt_project tb (f now r) = tt_project tb r" "tt_global tb (f now r) = tt_global tb r"
  using assms unfolding keeps_scope_def by blast+

lemma found:
  assumes "find_template tb i t d = Some r" "scoped tb d"
  shows "r \<in> set (tt_rows tb d)" "\<And>q. q \<in> set (tt_rows tb d) \<Longrightarrow> template_is tb i t q \<longleftrightarrow> q = r"
proof -
  from assms(1) have r: "r \<in> set (tt_rows tb d)" "template_is tb i t r" by (auto simp: find_template_def find_Some_iff)
  show "r \<in> set (tt_rows tb d)" by (rule r)
  show "template_is tb i t q \<longleftrightarrow> q = r" if "q \<in> set (tt_rows tb d)" for q
    using that r assms(2) by (auto simp: scoped_def template_is_def distinct_map inj_on_def)
qed

lemma updated_confined:
  assumes ex: "find_template tb i t d = Some r" and sc: "scoped tb d" and f: "keeps_scope tb f"
    and run: "update_template_sql tb i t f now d = Some (x, d')"
    and p: "tt_project tb r = Some p" "\<not> tt_global tb r"
  shows "confined tb t p d d'"
proof -
  have d': "d' = tt_put tb (upd_rows (template_is tb i t) (f now) (tt_rows tb d)) d"
    using run by (simp add: update_template_sql_def)
  have "filter (\<lambda>r. \<not> (tt_tenant tb r = t \<and> tt_project tb r = Some p \<and> \<not> tt_global tb r)) (upd_rows (template_is tb i t) (f now) rs)
      = filter (\<lambda>r. \<not> (tt_tenant tb r = t \<and> tt_project tb r = Some p \<and> \<not> tt_global tb r)) rs" if "set rs \<subseteq> set (tt_rows tb d)" for rs
    using that found [OF ex sc] p by (induction rs) (auto simp: upd_rows_def keeps_scopeD [OF f] template_is_def)
  then show ?thesis by (simp add: d' confined_def beyond_def)
qed

lemma updated_scoped:
  assumes "keeps_scope tb f" "update_template_sql tb i t f now d = Some (x, d')" "scoped tb d"
  shows "scoped tb d'"
proof -
  have d': "d' = tt_put tb (upd_rows (template_is tb i t) (f now) (tt_rows tb d)) d"
    using assms(2) by (simp add: update_template_sql_def)
  have "map (tt_id tb) (upd_rows (template_is tb i t) (f now) (tt_rows tb d)) = map (tt_id tb) (tt_rows tb d)"
    by (simp add: upd_rows_def keeps_scopeD [OF assms(1)])
  with assms(3) have "distinct (map (tt_id tb) (upd_rows (template_is tb i t) (f now) (tt_rows tb d)))" by (simp only: scoped_def)
  then show ?thesis using assms(3) by (auto simp: d' scoped_def set_upd_rows keeps_scopeD [OF assms(1)])
qed

lemma deleted_confined:
  assumes ex: "find_template tb i t d = Some r" and sc: "scoped tb d"
    and run: "delete_template_sql tb i t now d = Some (n, d')"
    and p: "tt_project tb r = Some p" "\<not> tt_global tb r"
  shows "confined tb t p d d'"
proof -
  have d': "d' = tt_put tb (filter (\<lambda>r. \<not> template_is tb i t r) (tt_rows tb d)) d"
    using run by (simp add: delete_template_sql_def del_rows_def)
  have "filter (\<lambda>r. \<not> (tt_tenant tb r = t \<and> tt_project tb r = Some p \<and> \<not> tt_global tb r)) (filter (\<lambda>r. \<not> template_is tb i t r) (tt_rows tb d))
      = filter (\<lambda>r. \<not> (tt_tenant tb r = t \<and> tt_project tb r = Some p \<and> \<not> tt_global tb r)) (tt_rows tb d)"
    unfolding filter_filter using found [OF ex sc] p by (intro filter_cong refl) (auto simp: template_is_def)
  then show ?thesis by (simp add: d' confined_def beyond_def)
qed

lemma deleted_scoped: "delete_template_sql tb i t now d = Some (n, d') \<Longrightarrow> scoped tb d \<Longrightarrow> scoped tb d'"
  by (auto simp: delete_template_sql_def del_rows_def scoped_def distinct_map_filter)

subsection \<open>The shapes of the handlers\<close>

lemma quiet_template_checks [quiet_intros]:
  "quiet (check_template_view tb c s r)" "quiet (check_template_write tb c s v r)" "quiet (project_visible c p s)"
  unfolding check_template_view_def check_template_write_def project_visible_def by (intro quiet_intros)+

lemma check_write_ok:
  assumes "check_template_write tb c s v r e w = (Inr u, w')" "scoped tb d" "r \<in> set (tt_rows tb d)"
  obtains p where "tt_project tb r = Some p" "\<not> tt_global tb r" "may e (tuples w) c s ''manage'' p"
  using assms by (cases "tt_project tb r") (auto simp: check_template_write_def ok_iffs scoped_def dest: check_project_ok(1))

lemma fitsD:
  assumes "fits tb mk"
  shows "tt_tenant tb (mk i t p s now) = t" "tt_project tb (mk i t p s now) = Some p" "\<not> tt_global tb (mk i t p s now)"
  using assms unfolding fits_def by blast+

lemma inserted_scoped: "fits tb mk \<Longrightarrow> scoped tb d \<Longrightarrow> insert_template_sql tb (mk i t p s) now d = Some (r, d') \<Longrightarrow> scoped tb d'"
  using inserted_confined(2) inserted(1) fitsD by metis

lemma create_guarded:
  assumes run: "create_of tb ctx n q mk e w = (Inr m, w')" and mk: "fits tb mk"
    and ctx: "Option.bind (auth_ext ctx) auth_tenant_id = Some t" "Option.bind (auth_ext ctx) auth_subject = Some s"
  shows "\<exists>p. may e (tuples w) t s ''manage'' p \<and> confined tb t p (db w) (db w')"
proof -
  from run ctx obtain w1 p w2 i r where cl: "tenant_client_for ctx e w = (Inr t, w1)"
    and chk: "check_project_permission t p ''manage'' s e w1 = (Inr (), w2)"
    and ins: "insert_template_sql tb (mk i t p s) (sql_now e (tick w2)) (db w2) = Some (r, db w')"
    by (auto simp: create_of_def ok_iffs new_id_def dest: tenant_client_is)
  have "tt_tenant tb r = t" "tt_project tb r = Some p" "\<not> tt_global tb r"
    using inserted(1) [OF ins] by (simp_all add: fitsD [OF mk])
  from inserted_confined(1) [OF ins this] show ?thesis
    using quietD [OF quiet_request(4) cl] check_project_ok [OF chk] by auto
qed

lemma update_guarded:
  assumes run: "update_of tb ctx q f e w = (Inr m, w')" and f: "keeps_scope tb f" and sc: "scoped tb (db w)"
    and ctx: "Option.bind (auth_ext ctx) auth_tenant_id = Some t" "Option.bind (auth_ext ctx) auth_subject = Some s"
  shows "\<exists>p. may e (tuples w) t s ''manage'' p \<and> confined tb t p (db w) (db w')"
proof -
  from run ctx obtain w1 i r w2 x where cl: "tenant_client_for ctx e w = (Inr t, w1)" and ex: "find_template tb i t (db w1) = Some r"
    and chk: "check_template_write tb t s ''modified'' r e (tick w1) = (Inr (), w2)"
    and upd: "update_template_sql tb i t f (sql_now e w2) (db w2) = Some (x, db w')"
    by (auto simp: update_of_def ok_iffs dest: tenant_client_is)
  have ex': "find_template tb i t (db w) = Some r" using ex quietD [OF quiet_request(4) cl] by simp
  show ?thesis
    using check_write_ok [OF chk sc found(1) [OF ex' sc]] updated_confined [OF ex' sc f] upd
      quietD [OF quiet_request(4) cl] quietD [OF quiet_template_checks(2) chk] by (metis tick_fields(1,5))
qed

lemma delete_guarded:
  assumes run: "delete_of tb ctx q e w = (Inr u, w')" and sc: "scoped tb (db w)"
    and ctx: "Option.bind (auth_ext ctx) auth_tenant_id = Some t" "Option.bind (auth_ext ctx) auth_subject = Some s"
  shows "\<exists>p. may e (tuples w) t s ''manage'' p \<and> confined tb t p (db w) (db w')"
proof -
  from run ctx obtain w1 i r w2 n where cl: "tenant_client_for ctx e w = (Inr t, w1)" and ex: "find_template tb i t (db w1) = Some r"
    and chk: "check_template_write tb t s ''deleted'' r e (tick w1) = (Inr (), w2)"
    and del: "delete_template_sql tb i t (sql_now e w2) (db w2) = Some (n, db w')"
    by (auto simp: delete_of_def ok_iffs dest: tenant_client_is)
  have ex': "find_template tb i t (db w) = Some r" using ex quietD [OF quiet_request(4) cl] by simp
  show ?thesis
    using check_write_ok [OF chk sc found(1) [OF ex' sc]] deleted_confined [OF ex' sc] del
      quietD [OF quiet_request(4) cl] quietD [OF quiet_template_checks(2) chk] by (metis tick_fields(1,5))
qed

lemma keeps_template_checks: "keeps I (check_template_write tb c s v r)"
  unfolding check_template_write_def check_project_permission_def by (intro keeps_intros)

lemma keeps_create: "fits tb mk \<Longrightarrow> keeps (scoped tb) (create_of tb ctx n q mk)"
  unfolding create_of_def check_project_permission_def
  by (intro keeps_intros keeps_stmt) (rule inserted_scoped)

lemma keeps_update: "keeps_scope tb f \<Longrightarrow> keeps (scoped tb) (update_of tb ctx q f)"
  unfolding update_of_def by (intro keeps_intros keeps_template_checks keeps_stmt) (rule updated_scoped)

lemma keeps_delete: "keeps (scoped tb) (delete_of tb ctx q)"
  unfolding delete_of_def by (intro keeps_intros keeps_template_checks keeps_stmt) (rule deleted_scoped)

text \<open>A table that a handler does not name stays as it is.\<close>

lemma keeps_rows_of_other:
  assumes other: "\<And>rs d. P (tt_put tb rs d) = P d"
  shows "keeps (\<lambda>d. P d) (create_of tb ctx n q mk)" "keeps (\<lambda>d. P d) (update_of tb ctx q f)" "keeps (\<lambda>d. P d) (delete_of tb ctx q)"
  unfolding create_of_def update_of_def delete_of_def check_project_permission_def
  by (intro keeps_intros keeps_template_checks keeps_stmt;
      auto simp: insert_template_sql_def update_template_sql_def delete_template_sql_def Let_def other split: if_split_asm)+

text \<open>What a caller of List and Get sees, and that a template is found again under the id it was answered with.\<close>

lemma list_ok:
  assumes run: "list_of tb ctx q e w = (Inr ms, w')"
    and ctx: "Option.bind (auth_ext ctx) auth_tenant_id = Some t" "Option.bind (auth_ext ctx) auth_subject = Some s"
  shows "ms = templates_shown tb e t (tt_global tb) (db w)
    \<or> (\<exists>p. id_from_str (codec e) q = Inr p \<and> may e (tuples w) t s ''view'' p
        \<and> ms = templates_shown tb e t (tt_global tb) (db w) @ templates_shown tb e t (\<lambda>r. tt_project tb r = Some p \<and> \<not> tt_global tb r) (db w))"
proof (cases "ms = templates_shown tb e t (tt_global tb) (db w)")
  case False
  with run ctx obtain w1 p w2 w3 where cl: "tenant_client_for ctx e w = (Inr t, w1)"
    and p: "parse_id ''invalid project_id'' q e (tick w1) = (Inr p, w2)" and vis: "project_visible t p s e w2 = (Inr True, w3)"
    and ms: "ms = map (tt_msg tb (codec e)) (by_name tb (text_le e) (\<lambda>r. tt_tenant tb r \<in> {t, SYSTEM_TENANT} \<and> tt_global tb r) (db w1))
      @ map (tt_msg tb (codec e)) (by_name tb (text_le e) (\<lambda>r. tt_tenant tb r \<in> {t, SYSTEM_TENANT} \<and> tt_project tb r = Some p \<and> \<not> tt_global tb r) (db w3))"
    using quietD [OF quiet_request(4)]
    by (auto simp: list_of_def ok_iffs templates_shown_def dest: tenant_client_is split: if_split_asm)
  from vis obtain a w4 where "check_project_permission t p ''view'' s e w2 = (a, w4)" "(case a of Inr _ \<Rightarrow> True | Inl _ \<Rightarrow> False)"
    by (auto simp: project_visible_def ok_iffs)
  then have "may e (tuples w2) t s ''view'' p" by (cases a) (auto dest: check_project_ok(1))
  moreover note quietD [OF quiet_request(4) cl] quietD [OF quiet_parse_id p] quietD [OF quiet_template_checks(3) vis]
  ultimately show ?thesis using ms p unfolding templates_shown_def parse_id_ok by auto
qed simp

lemma get_ok:
  assumes run: "get_of tb ctx q e w = (Inr m, w')"
    and ctx: "Option.bind (auth_ext ctx) auth_tenant_id = Some t" "Option.bind (auth_ext ctx) auth_subject = Some s"
  obtains i r where "id_from_str (codec e) q = Inr i" "find_shown_template tb i t (db w) = Some r" "m = tt_msg tb (codec e) r"
    "db w' = db w" "tt_global tb r \<or> tt_project tb r = None \<or> (\<exists>p. tt_project tb r = Some p \<and> may e (tuples w) t s ''view'' p)"
proof -
  from run ctx obtain w1 i w2 r where cl: "tenant_client_for ctx e w = (Inr t, w1)" and i: "parse_id ''invalid template_id'' q e w1 = (Inr i, w2)"
    and r: "find_shown_template tb i t (db w2) = Some r" and chk: "check_template_view tb t s r e (tick w2) = (Inr (), w')"
    and m: "m = tt_msg tb (codec e) r"
    by (auto simp: get_of_def ok_iffs dest: tenant_client_is)
  note q = quietD [OF quiet_request(4) cl] quietD [OF quiet_parse_id i] quietD [OF quiet_template_checks(1) chk]
  have "tt_global tb r \<or> tt_project tb r = None \<or> (\<exists>p. tt_project tb r = Some p \<and> may e (tuples w) t s ''view'' p)"
    using chk q by (cases "tt_project tb r"; cases "tt_global tb r") (auto simp: check_template_view_def dest: check_project_ok(1))
  with i r m q show thesis by (intro that [of i r]) (auto simp: parse_id_ok)
qed

lemma get_answered:
  assumes "get_of tb ctx q e w = (Inr m, w')"
    and "Option.bind (auth_ext ctx) auth_tenant_id = Some t" "Option.bind (auth_ext ctx) auth_subject = Some s"
  shows "get_answer tb e (tuples w) t s (db w) q = Some m"
  by (rule get_ok [OF assms]) (auto simp: get_answer_def find_shown_template_def split: option.split)

lemma list_answered:
  assumes "list_of tb ctx q e w = (Inr ms, w')"
    and "Option.bind (auth_ext ctx) auth_tenant_id = Some t" "Option.bind (auth_ext ctx) auth_subject = Some s"
  shows "ms = templates_shown tb e t (tt_global tb) (db w) \<or> list_answer tb e (tuples w) t s (db w) q = Some ms"
proof (cases "ms = templates_shown tb e t (tt_global tb) (db w)")
  case False
  with list_ok [OF assms] obtain p where p: "id_from_str (codec e) q = Inr p" "may e (tuples w) t s ''view'' p"
    "ms = templates_shown tb e t (tt_global tb) (db w) @ templates_shown tb e t (\<lambda>r. tt_project tb r = Some p \<and> \<not> tt_global tb r) (db w)"
    by blast
  have "q \<noteq> []"
  proof
    assume "q = []"
    with assms obtain w1 where "tenant_client_for ctx e w = (Inr t, w1)"
      "ms = map (tt_msg tb (codec e)) (by_name tb (text_le e) (\<lambda>r. tt_tenant tb r \<in> {t, SYSTEM_TENANT} \<and> tt_global tb r) (db w1))"
      by (auto simp: list_of_def ok_iffs dest: tenant_client_is)
    with False quietD [OF quiet_request(4)] show "False" by (auto simp: templates_shown_def)
  qed
  then show ?thesis using p by (simp add: list_answer_def Let_def)
qed simp

lemma list_calm:
  assumes e: "calm e" "has_credentials e" "\<not> aborted w"
    and ctx: "Option.bind (auth_ext ctx) auth_tenant_id = Some t" "Option.bind (auth_ext ctx) auth_subject = Some s"
  shows "(\<exists>w'. list_of tb ctx q e w = (Inr ms, w')) \<longleftrightarrow> list_answer tb e (tuples w) t s (db w) q = Some ms"
proof -
  obtain w1 where w1: "tenant_client_for ctx e w = (Inr t, w1)" "db w1 = db w" "tuples w1 = tuples w" "aborted w1 = aborted w"
    by (rule calm_tenant_client [OF e(1,2) ctx(1)])
  have "list_of tb ctx q e w = (bnd (internal (''failed to list global '' @ tt_word tb @ '' templates'')
           (select (by_name tb (text_le e) (\<lambda>r. tt_tenant tb r \<in> {t, SYSTEM_TENANT} \<and> tt_global tb r)))) (\<lambda>globals.
     if q = '''' then ret (map (tt_msg tb (codec e)) globals)
     else
       bnd (parse_id ''invalid project_id'' q) (\<lambda>p.
       bnd (project_visible t p s) (\<lambda>visible.
       if \<not> visible then ret (map (tt_msg tb (codec e)) globals)
       else
         bnd (internal (''failed to list project '' @ tt_word tb @ '' templates'')
               (select (by_name tb (text_le e) (\<lambda>r. tt_tenant tb r \<in> {t, SYSTEM_TENANT} \<and> tt_project tb r = Some p \<and> \<not> tt_global tb r)))) (\<lambda>scoped.
         ret (map (tt_msg tb (codec e)) globals @ map (tt_msg tb (codec e)) scoped)))))) e w1"
    using ctx w1(1) by (simp add: list_of_def subject_from_request_def tenant_id_from_request_def ok_or_def bnd_def ret_def ask_def)
  then show ?thesis
    using e w1(2-4)
    by (auto simp: list_answer_def templates_shown_def Let_def ok_iffs parse_id_ok project_visible_def calm_project_check attempt_def
        split: sum.splits if_splits)
qed

lemma view_calm:
  "calm e \<Longrightarrow> check_template_view tb c s r e w = (Inr u, w') \<longleftrightarrow>
    (if tt_global tb r \<or> tt_project tb r = None then w' = w else may e (tuples w) c s ''view'' (the (tt_project tb r)) \<and> w' = tick w)"
  by (cases "tt_project tb r") (auto simp: check_template_view_def calm_project_check ret_def)

lemma get_calm:
  assumes e: "calm e" "has_credentials e" "\<not> aborted w"
    and ctx: "Option.bind (auth_ext ctx) auth_tenant_id = Some t" "Option.bind (auth_ext ctx) auth_subject = Some s"
  shows "(\<exists>w'. get_of tb ctx q e w = (Inr m, w')) \<longleftrightarrow> get_answer tb e (tuples w) t s (db w) q = Some m"
proof -
  obtain w1 where w1: "tenant_client_for ctx e w = (Inr t, w1)" "db w1 = db w" "tuples w1 = tuples w" "aborted w1 = aborted w"
    by (rule calm_tenant_client [OF e(1,2) ctx(1)])
  have "get_of tb ctx q e w = (bnd (parse_id ''invalid template_id'' q) (\<lambda>i.
     bnd (internal (''failed to fetch '' @ tt_word tb @ '' template'') (select (find_shown_template tb i t))) (\<lambda>r.
     bnd (ok_or (NotFound, ''template not found'') r) (\<lambda>row.
     bnd (check_template_view tb t s row) (\<lambda>_.
     bnd (ask codec) (\<lambda>u. ret (tt_msg tb u row))))))) e w1"
    using ctx w1(1) by (simp add: get_of_def subject_from_request_def tenant_id_from_request_def ok_or_def bnd_def ret_def)
  note run = this
  show ?thesis
  proof
    assume "\<exists>w'. get_of tb ctx q e w = (Inr m, w')"
    then show "get_answer tb e (tuples w) t s (db w) q = Some m" using get_answered ctx by blast
  next
    assume "get_answer tb e (tuples w) t s (db w) q = Some m"
    then obtain i r where ir: "id_from_str (codec e) q = Inr i" "find_shown_template tb i t (db w) = Some r" "m = tt_msg tb (codec e) r"
      and ok: "tt_global tb r \<or> tt_project tb r = None \<or> may e (tuples w) t s ''view'' (the (tt_project tb r))"
      by (auto simp: get_answer_def find_shown_template_def split: sum.splits option.splits if_splits)
    from ok have "\<exists>w2. check_template_view tb t s r e (tick w1) = (Inr (), w2)"
      using w1(3) unfolding view_calm [OF e(1)] by (cases "tt_global tb r \<or> tt_project tb r = None") auto
    then obtain w2 where "check_template_view tb t s r e (tick w1) = (Inr (), w2)" by blast
    then have "get_of tb ctx q e w = (Inr m, w2)"
      unfolding run using ir e w1(2-4) by (auto simp: ok_iffs parse_id_ok)
    then show "\<exists>w'. get_of tb ctx q e w = (Inr m, w')" by blast
  qed
qed

lemma create_ok:
  assumes run: "create_of tb ctx n q mk e w = (Inr m, w')"
    and ctx: "Option.bind (auth_ext ctx) auth_tenant_id = Some t" "Option.bind (auth_ext ctx) auth_subject = Some s"
    and mk: "fits tb mk" and id: "\<And>i t p s now. tt_id tb (mk i t p s now) = i"
  obtains i p now where "m = tt_msg tb (codec e) (mk i t p s now)" "id_from_str (codec e) q = Inr p"
    "find_shown_template tb i t (db w') = Some (mk i t p s now)"
proof -
  from run ctx obtain w1 w2 p w3 i r where p: "parse_id ''invalid project_id'' q e w1 = (Inr p, w2)"
    and ins: "insert_template_sql tb (mk i t p s) (sql_now e (tick w3)) (db w3) = Some (r, db w')"
    and m: "m = tt_msg tb (codec e) r"
    by (auto simp: create_of_def ok_iffs new_id_def dest: tenant_client_is)
  note r = inserted [OF ins]
  have "tt_id tb r = i" "tt_tenant tb r = t" using r(1) id fitsD(1) [OF mk] by simp_all
  moreover have "List.find (\<lambda>r. tt_id tb r = i \<and> tt_tenant tb r \<in> {t, SYSTEM_TENANT}) (tt_rows tb (db w3)) = None"
    unfolding find_None_iff using r(2) \<open>tt_id tb r = i\<close> by auto
  ultimately have "find_shown_template tb i t (db w') = Some r"
    unfolding find_shown_template_def r(3) rows_put find_append_option by simp
  with p m r(1) show thesis by (intro that [of i p "sql_now e (tick w3)"]) (auto simp: parse_id_ok)
qed

lemma nothing_found:
  assumes "find_template tb i t d = None"
  shows "tt_put tb (upd_rows (template_is tb i t) g (tt_rows tb d)) d = d"
proof -
  have "upd_rows (template_is tb i t) g (tt_rows tb d) = tt_rows tb d"
    using assms by (auto simp: find_template_def find_None_iff upd_rows_def intro: map_idI)
  then show ?thesis by simp
qed

lemma nothing_counted: "cnt_rows (template_is tb i t) (tt_rows tb d) = 0 \<Longrightarrow> tt_put tb (del_rows (template_is tb i t) (tt_rows tb d)) d = d"
proof -
  assume "cnt_rows (template_is tb i t) (tt_rows tb d) = 0"
  then have "del_rows (template_is tb i t) (tt_rows tb d) = tt_rows tb d"
    by (auto simp: cnt_rows_def del_rows_def filter_empty_conv filter_id_conv)
  then show ?thesis by simp
qed

lemma tidy_writes:
  "tidy (bnd (internal msg (stmt (insert_template_sql tb mk))) (\<lambda>row. bnd (ask codec) (\<lambda>u. ret (tt_msg tb u row))))"
  "tidy (bnd (internal msg (stmt (update_template_sql tb i t f))) (\<lambda>x. bnd (ok_or er x) (\<lambda>row. bnd (ask codec) (\<lambda>u. ret (tt_msg tb u row)))))"
  "tidy (bnd (internal msg (stmt (delete_template_sql tb i t))) (\<lambda>n. require (n \<noteq> 0) er'))"
  by (auto simp: tidy_def bnd_def internal_def map_err_def stmt_def ok_or_def require_def ask_def ret_def raise_def
      update_template_sql_def delete_template_sql_def nothing_found nothing_counted split: if_splits option.splits prod.splits sum.splits)

lemma tidy_shapes: "tidy (create_of tb ctx n q mk)" "tidy (update_of tb ctx q f)" "tidy (delete_of tb ctx q)"
  unfolding create_of_def update_of_def delete_of_def by (intro tidy_bnd tidy_writes quiet_intros)+

text \<open>Global templates are beyond everybody's reach.\<close>

lemma confined_globals:
  assumes "confined tb t p d d'"
  shows "filter (tt_global tb) (tt_rows tb d') = filter (tt_global tb) (tt_rows tb d)"
proof -
  have "filter (tt_global tb) (beyond tb t p x) = filter (tt_global tb) (tt_rows tb x)" for x
    unfolding beyond_def filter_filter by (intro filter_cong) auto
  then show ?thesis using assms unfolding confined_def by metis
qed

end

interpretation bts: template_store board_table
  by unfold_locales (simp_all add: board_table_def)

interpretation cts: template_store card_table
  by unfold_locales (simp_all add: card_table_def)

section \<open>Writing templates\<close>

datatype template_call = CreateTemplate create_template_request | UpdateTemplate update_template_request | DeleteTemplate string
  | CreateCardTemplate card_template_request | UpdateCardTemplate string "string list option" card_template_request
  | DeleteCardTemplate string

definition serve_template :: "request_context \<Rightarrow> template_call \<Rightarrow> (cerr, unit) act" where
  "serve_template ctx call =
     (case call of
        CreateTemplate req \<Rightarrow> bnd (create_template ctx req) (\<lambda>_. ret ())
      | UpdateTemplate req \<Rightarrow> bnd (update_template ctx req) (\<lambda>_. ret ())
      | DeleteTemplate i \<Rightarrow> delete_template ctx i
      | CreateCardTemplate req \<Rightarrow> bnd (create_card_template ctx req) (\<lambda>_. ret ())
      | UpdateCardTemplate i m req \<Rightarrow> bnd (update_card_template ctx i m req) (\<lambda>_. ret ())
      | DeleteCardTemplate i \<Rightarrow> delete_card_template ctx i)"

definition templates_scoped :: "db \<Rightarrow> bool" where
  "templates_scoped d \<longleftrightarrow> scoped board_table d \<and> scoped card_table d"

lemmas template_handlers = create_template_def update_template_def delete_template_def create_card_template_def
  update_card_template_def delete_card_template_def

lemma template_rows_fit:
  "fits board_table (\<lambda>i tenant p sub now. \<lparr>bt_id = i, bt_tenant = tenant, bt_name = n, bt_description = d, bt_columns = c,
     bt_created_by = Some sub, bt_is_global = False, bt_project = Some p, bt_created = now, bt_updated = now\<rparr>)"
  "fits card_table (\<lambda>i tenant p sub now. \<lparr>ct_id = i, ct_tenant = tenant, ct_project = Some p, ct_name = n, ct_description = d,
     ct_title = ti, ct_default_description = dd, ct_label_names = ls, ct_checklist_items = c, ct_created_by = Some sub,
     ct_is_global = False, ct_created = now, ct_updated = now\<rparr>)"
  "keeps_scope board_table (\<lambda>now r. r\<lparr>bt_name := fn r, bt_description := fd r, bt_columns := fc r, bt_updated := now\<rparr>)"
  "keeps_scope card_table (\<lambda>now r. r\<lparr>ct_name := gn r, ct_description := gd r, ct_title := gt r, ct_default_description := gdd r,
     ct_label_names := gl r, ct_checklist_items := gc r, ct_updated := now\<rparr>)"
  by (simp_all add: fits_def keeps_scope_def board_table_def card_table_def)

lemma other_table: "scoped card_table (tt_put board_table rs d) = scoped card_table d" "scoped board_table (tt_put card_table qs d) = scoped board_table d"
  by (simp_all add: scoped_def board_table_def card_table_def)

lemma keeps_conj: "keeps P m \<Longrightarrow> keeps Q m \<Longrightarrow> keeps (\<lambda>d. P d \<and> Q d) m"
  unfolding keeps_def by blast

lemmas one_table = bts.keeps_rows_of_other [of "scoped card_table", OF other_table(1)] cts.keeps_rows_of_other [of "scoped board_table", OF other_table(2)]

lemma serve_template_scoped: "keeps templates_scoped (serve_template ctx call)"
  unfolding serve_template_def template_handlers templates_scoped_def Let_def
  by (cases call) (auto intro!: keeps_intros keeps_conj bts.keeps_create bts.keeps_update bts.keeps_delete cts.keeps_create cts.keeps_update
      cts.keeps_delete one_table template_rows_fit)

lemma table_globals:
  "tt_global board_table = bt_is_global" "tt_rows board_table = board_templates"
  "tt_global card_table = ct_is_global" "tt_rows card_table = card_templates"
  by (simp_all add: board_table_def card_table_def)

lemma other_rows:
  "confined board_table t p d d' \<Longrightarrow> card_templates d' = card_templates d"
  "confined card_table t p d d' \<Longrightarrow> board_templates d' = board_templates d"
proof -
  assume "confined board_table t p d d'"
  then have "d' = d\<lparr>board_templates := board_templates d'\<rparr>" by (simp add: confined_def board_table_def)
  then show "card_templates d' = card_templates d" by (metis db.select_convs db.surjective db.update_convs)
next
  assume "confined card_table t p d d'"
  then have "d' = d\<lparr>card_templates := card_templates d'\<rparr>" by (simp add: confined_def card_table_def)
  then show "board_templates d' = board_templates d" by (metis db.select_convs db.surjective db.update_convs)
qed

lemma serve_template_tidy: "tidy (serve_template ctx call)"
  unfolding serve_template_def template_handlers Let_def
  by (cases call) (simp_all add: tidy_then_sure ret_def bts.tidy_shapes cts.tidy_shapes)

text \<open>
  C18. A project's templates are written only by who manages the project, and global ones by nobody: a template
  call that succeeds was made by a subject who may manage one project, and it touches no template but those of
  this project in the caller's tenant, and no other table; a call that fails changes nothing in the database. So
  however a call ends, the global templates of both tables are what they were, ids stay unique and every
  template that is not global has a project, which is what the guard relies on. (The product documentation gives the
  writing of global templates to platform administrators; the code refuses it to everybody.)
\<close>

theorem template_writes_guarded:
  assumes run: "serve_template ctx call e w = (r, w')" and sc: "templates_scoped (db w)"
    and ctx: "Option.bind (auth_ext ctx) auth_tenant_id = Some t" "Option.bind (auth_ext ctx) auth_subject = Some s"
  shows "templates_scoped (db w')
    \<and> filter bt_is_global (board_templates (db w')) = filter bt_is_global (board_templates (db w))
    \<and> filter ct_is_global (card_templates (db w')) = filter ct_is_global (card_templates (db w))
    \<and> (case r of Inl _ \<Rightarrow> db w' = db w | Inr _ \<Rightarrow> (\<exists>p. may e (tuples w) t s ''manage'' p
        \<and> (confined board_table t p (db w) (db w') \<or> confined card_table t p (db w) (db w'))))"
proof -
  have scoped': "templates_scoped (db w')" using keepsD [OF serve_template_scoped sc run] .
  show ?thesis
  proof (cases r)
    case (Inl x)
    then have "db w' = db w" using tidyD [OF serve_template_tidy] run by blast
    then show ?thesis using Inl scoped' by simp
  next
    case (Inr u)
    with run have run: "serve_template ctx call e w = (Inr u, w')" by simp
    note b = sc [unfolded templates_scoped_def, THEN conjunct1] and c = sc [unfolded templates_scoped_def, THEN conjunct2]
    note rules = bts.create_guarded [OF _ template_rows_fit(1) ctx] bts.update_guarded [OF _ template_rows_fit(3) b ctx]
      bts.delete_guarded [OF _ b ctx] cts.create_guarded [OF _ template_rows_fit(2) ctx] cts.update_guarded [OF _ template_rows_fit(4) c ctx]
      cts.delete_guarded [OF _ c ctx]
    have "\<exists>p. may e (tuples w) t s ''manage'' p \<and> (confined board_table t p (db w) (db w') \<or> confined card_table t p (db w) (db w'))"
      using run by (cases call) (auto simp: serve_template_def template_handlers Let_def ok_iffs dest!: rules)
    then show ?thesis
      using Inr scoped' bts.confined_globals cts.confined_globals other_rows by (auto simp: table_globals)
  qed
qed

section \<open>Reading templates\<close>

text \<open>
  C33. Templates are shown to exactly who may see them. Where database and gateway work, ListTemplates answers the
  global templates of the tenant and of the system in order of name, followed by those of the project asked for if, and
  only if, the caller may view this project; GetTemplate answers the template with the id asked for, of the tenant or
  the system, if and only if it is global, has no project, or is of a project the caller may view. In any environment
  a GetTemplate that succeeds gives this answer, and a ListTemplates that succeeds this one or just the globals, since a
  failed check counts as a refusal. The same holds for card templates.
\<close>

theorem template_reads_guarded:
  assumes ctx: "Option.bind (auth_ext ctx) auth_tenant_id = Some t" "Option.bind (auth_ext ctx) auth_subject = Some s"
  shows "(calm e \<and> has_credentials e \<and> \<not> aborted w \<longrightarrow>
      ((\<exists>w'. list_templates ctx q e w = (Inr ms, w')) \<longleftrightarrow> list_answer board_table e (tuples w) t s (db w) q = Some ms)
    \<and> ((\<exists>w'. get_template ctx q e w = (Inr m, w')) \<longleftrightarrow> get_answer board_table e (tuples w) t s (db w) q = Some m)
    \<and> ((\<exists>w'. list_card_templates ctx q e w = (Inr ks, w')) \<longleftrightarrow> list_answer card_table e (tuples w) t s (db w) q = Some ks)
    \<and> ((\<exists>w'. get_card_template ctx q e w = (Inr k, w')) \<longleftrightarrow> get_answer card_table e (tuples w) t s (db w) q = Some k))
   \<and> (list_templates ctx q e w = (Inr ms, w') \<longrightarrow>
        ms = templates_shown board_table e t bt_is_global (db w) \<or> list_answer board_table e (tuples w) t s (db w) q = Some ms)
   \<and> (get_template ctx q e w = (Inr m, w') \<longrightarrow> get_answer board_table e (tuples w) t s (db w) q = Some m)
   \<and> (list_card_templates ctx q e w = (Inr ks, w') \<longrightarrow>
        ks = templates_shown card_table e t ct_is_global (db w) \<or> list_answer card_table e (tuples w) t s (db w) q = Some ks)
   \<and> (get_card_template ctx q e w = (Inr k, w') \<longrightarrow> get_answer card_table e (tuples w) t s (db w) q = Some k)"
  unfolding list_templates_def list_card_templates_def get_template_def get_card_template_def
  using bts.list_calm [OF _ _ _ ctx] bts.get_calm [OF _ _ _ ctx] cts.list_calm [OF _ _ _ ctx] cts.get_calm [OF _ _ _ ctx]
    bts.list_answered [OF _ ctx] bts.get_answered [OF _ ctx] cts.list_answered [OF _ ctx] cts.get_answered [OF _ ctx]
  unfolding table_globals by (intro conjI impI) blast+

text \<open>The rows that CreateTemplate and CreateCardTemplate insert.\<close>

abbreviation new_board_row :: "create_template_request \<Rightarrow> ident \<Rightarrow> string \<Rightarrow> ident \<Rightarrow> string \<Rightarrow> datetime \<Rightarrow> board_template_row" where
  "new_board_row req i t p s now \<equiv> \<lparr>bt_id = i, bt_tenant = t, bt_name = nt_name req, bt_description = Some (nt_description req),
      bt_columns = columns_to_json (nt_columns req), bt_created_by = Some s, bt_is_global = False, bt_project = Some p, bt_created = now,
      bt_updated = now\<rparr>"

abbreviation new_card_row :: "card_template_request \<Rightarrow> ident \<Rightarrow> string \<Rightarrow> ident \<Rightarrow> string \<Rightarrow> datetime \<Rightarrow> card_template_row" where
  "new_card_row req i t p s now \<equiv> \<lparr>ct_id = i, ct_tenant = t, ct_project = Some p, ct_name = kt_name req, ct_description = Some (kt_description req),
      ct_title = Some (kt_title req), ct_default_description = Some (kt_default_description req), ct_label_names = kt_label_names req,
      ct_checklist_items = checklist_to_json (kt_checklist_items req), ct_created_by = Some s, ct_is_global = False,
      ct_created = now, ct_updated = now\<rparr>"

lemma table_columns:
  "tt_id board_table = bt_id" "tt_msg board_table = board_template_from_row"
  "tt_id card_table = ct_id" "tt_msg card_table = card_template_from_row"
  by (simp_all add: board_table_def card_table_def)

lemma columns_roundtrip:
  assumes "\<forall>c \<in> set cs. i32_ok (tc_position c)"
  shows "columns_from_json (columns_to_json cs) = cs"
proof -
  have "i64_ok (tc_position c)" if "c \<in> set cs" for c using assms that by (auto simp: i32_ok_def i64_ok_def)
  then show ?thesis using assms
    by (auto simp: columns_from_json_def columns_to_json_def column_from_json_def column_to_json_def get_or_def jstr_def jnum_def intro!: map_idI)
qed

lemma checklist_roundtrip: "checklist_from_json (checklist_to_json items) = items"
  by (auto simp: checklist_from_json_def checklist_to_json_def get_or_def jstr_def intro!: map_idI)

text \<open>
  What is stored in a template is read back: a template that was just created, fetched under the id of the
  answer by a caller of the same tenant, is the message of the answer, with the columns or the checklist of the
  request, though it went through a JSON document in between.
\<close>

theorem template_read_back:
  assumes ctx: "Option.bind (auth_ext ctx) auth_tenant_id = Some t" "Option.bind (auth_ext ctx) auth_subject = Some s"
    and viewer: "Option.bind (auth_ext ctx') auth_tenant_id = Some t" "Option.bind (auth_ext ctx') auth_subject = Some s'"
    and u: "ulid_crate (codec e)" and same: "db w1 = db w'"
  shows "(\<forall>req m m' w2. create_template ctx req e w = (Inr m, w') \<longrightarrow> get_template ctx' (btm_id m) e w1 = (Inr m', w2) \<longrightarrow>
      (\<forall>c \<in> set (nt_columns req). i32_ok (tc_position c)) \<longrightarrow> m' = m \<and> btm_columns m = nt_columns req \<and> btm_name m = nt_name req)
    \<and> (\<forall>req m m' w2. create_card_template ctx req e w = (Inr m, w') \<longrightarrow> get_card_template ctx' (ctm_id m) e w1 = (Inr m', w2) \<longrightarrow>
      m' = m \<and> ctm_checklist_items m = kt_checklist_items req \<and> ctm_label_names m = kt_label_names req)"
proof (intro conjI allI impI)
  fix req m m' w2 assume c: "create_template ctx req e w = (Inr m, w')" and g: "get_template ctx' (btm_id m) e w1 = (Inr m', w2)"
    and cols: "\<forall>c \<in> set (nt_columns req). i32_ok (tc_position c)"
  obtain i p now where m: "m = board_template_from_row (codec e) (new_board_row req i t p s now)"
    and f: "find_shown_template board_table i t (db w') = Some (new_board_row req i t p s now)"
    by (rule bts.create_ok [OF c [unfolded create_template_def] ctx template_rows_fit(1)])
      (simp add: table_columns, simp only: table_columns)
  from bts.get_ok [OF g [unfolded get_template_def] viewer] obtain j r where "id_from_str (codec e) (btm_id m) = Inr j"
    "find_shown_template board_table j t (db w1) = Some r" "m' = tt_msg board_table (codec e) r" by blast
  with m f same have "m' = m" using ulid_crate.id_from_str_show [OF u] by (simp add: board_template_from_row_def board_table_def)
  then show "m' = m" "btm_columns m = nt_columns req" "btm_name m = nt_name req"
    using columns_roundtrip [OF cols] m by (simp_all add: board_template_from_row_def)
next
  fix req m m' w2 assume c: "create_card_template ctx req e w = (Inr m, w')" and g: "get_card_template ctx' (ctm_id m) e w1 = (Inr m', w2)"
  obtain i p now where m: "m = card_template_from_row (codec e) (new_card_row req i t p s now)"
    and f: "find_shown_template card_table i t (db w') = Some (new_card_row req i t p s now)"
    by (rule cts.create_ok [OF c [unfolded create_card_template_def] ctx template_rows_fit(2)])
      (simp add: table_columns, simp only: table_columns)
  from cts.get_ok [OF g [unfolded get_card_template_def] viewer] obtain j r where "id_from_str (codec e) (ctm_id m) = Inr j"
    "find_shown_template card_table j t (db w1) = Some r" "m' = tt_msg card_table (codec e) r" by blast
  with m f same have "m' = m" using ulid_crate.id_from_str_show [OF u] by (simp add: card_template_from_row_def card_table_def)
  then show "m' = m" "ctm_checklist_items m = kt_checklist_items req" "ctm_label_names m = kt_label_names req"
    using m by (simp_all add: card_template_from_row_def checklist_roundtrip)
qed


section \<open>Witnesses\<close>

definition sample_template :: create_template_request where
  "sample_template = \<lparr>nt_project_id = id_str crockford (sid 1), nt_name = ''kit'', nt_description = '''',
     nt_columns = [\<lparr>tc_title = ''done'', tc_position = 0, tc_accent = ''red'', tc_is_done = True\<rparr>]\<rparr>"

definition template_world :: world where
  "template_world = (sample_world sample_db)\<lparr>tuples := [sample_tuple ''manage'' ''s'', sample_tuple ''view'' ''s'']\<rparr>"

lemmas template_evals = check_permission_with_retry_def retry_once check_permission_def check_project_permission_def create_template_def create_of_def insert_template_sql_def board_table_def board_template_from_row_def
  get_template_def get_of_def find_shown_template_def check_template_view_def

lemma sample_id_nonempty: "id_str crockford i \<noteq> []"
  using id_str_nonempty [OF crockford.ulid_crate_axioms] .

lemma template_runs:
  "\<exists>m w'. create_template (sample_context (sid 1)) sample_template sample_env template_world = (Inr m, w')
     \<and> (\<exists>w2. get_template (sample_context (sid 1)) (btm_id m) sample_env w' = (Inr m, w2))"
  by (simp add: evals request_evals sample_evals event_evals template_evals template_world_def sample_template_def sample_tuple_def
    sample_id_nonempty Let_def)

theorem template_writes_guarded_witness:
  "\<exists>w'. serve_template (sample_context (sid 1)) (CreateTemplate sample_template) sample_env template_world = (Inr (), w')
     \<and> templates_scoped (db w')"
proof -
  obtain m w' where "create_template (sample_context (sid 1)) sample_template sample_env template_world = (Inr m, w')"
    using template_runs by blast
  then have run: "serve_template (sample_context (sid 1)) (CreateTemplate sample_template) sample_env template_world = (Inr (), w')"
    by (simp add: serve_template_def bnd_def ret_def)
  moreover have "templates_scoped (db template_world)"
    by (simp add: templates_scoped_def scoped_def board_table_def card_table_def template_world_def sample_evals)
  ultimately show ?thesis using template_writes_guarded [OF run _ sample_caller] by blast
qed

definition shared_template :: "bool \<Rightarrow> nat \<Rightarrow> string \<Rightarrow> board_template_row" where
  "shared_template g i name = \<lparr>bt_id = sid i, bt_tenant = ''t'', bt_name = name, bt_description = None, bt_columns = JArr [],
     bt_created_by = None, bt_is_global = g, bt_project = (if g then None else Some (sid 1)), bt_created = (0, 0), bt_updated = (0, 0)\<rparr>"

definition shared_world :: "rel_tuple list \<Rightarrow> world" where
  "shared_world ts = (sample_world (sample_db\<lparr>board_templates := [shared_template False 50 ''ours'', shared_template True 51 ''all'']\<rparr>))\<lparr>tuples := ts\<rparr>"

lemma shared_answers:
  "map_option (map btm_name) (list_answer board_table sample_env [sample_tuple ''view'' ''s''] ''t'' ''s'' (db (shared_world ts)) (id_str crockford (sid 1)))
     = Some [''all'', ''ours'']"
  "map_option (map btm_name) (list_answer board_table sample_env [] ''t'' ''s'' (db (shared_world ts)) (id_str crockford (sid 1))) = Some [''all'']"
  "get_answer board_table sample_env [] ''t'' ''s'' (db (shared_world ts)) (id_str crockford (sid 50)) = None"
  by (simp_all add: list_answer_def get_answer_def templates_shown_def by_name_def sort_rows_def shared_world_def shared_template_def may_def
      board_table_def board_template_from_row_def sample_evals sample_tuple_def sample_id_nonempty crockford.id_from_str_show Let_def)

theorem template_reads_guarded_witness:
  "(\<exists>ms w'. list_templates (sample_context (sid 1)) (id_str crockford (sid 1)) sample_env (shared_world [sample_tuple ''view'' ''s'']) = (Inr ms, w')
      \<and> map btm_name ms = [''all'', ''ours''])
   \<and> (\<exists>ms w'. list_templates (sample_context (sid 1)) (id_str crockford (sid 1)) sample_env (shared_world []) = (Inr ms, w')
      \<and> map btm_name ms = [''all''])
   \<and> (\<nexists>m w'. get_template (sample_context (sid 1)) (id_str crockford (sid 50)) sample_env (shared_world []) = (Inr m, w'))"
proof -
  have w: "calm sample_env \<and> has_credentials sample_env \<and> \<not> aborted (shared_world ts)" "tuples (shared_world ts) = ts" for ts
    by (simp_all add: shared_world_def)
  note th = template_reads_guarded [OF sample_caller, THEN conjunct1, THEN mp, OF w(1)]
  note ls = th [THEN conjunct1, unfolded w(2)] and gs = th [THEN conjunct2, THEN conjunct1, unfolded w(2)]
  from shared_answers(1) [of "[sample_tuple ''view'' ''s'']"] obtain ms where "list_answer board_table sample_env [sample_tuple ''view'' ''s''] ''t'' ''s''
      (db (shared_world [sample_tuple ''view'' ''s''])) (id_str crockford (sid 1)) = Some ms" "map btm_name ms = [''all'', ''ours'']" by auto
  moreover from shared_answers(2) [of "[]"] obtain ns where "list_answer board_table sample_env [] ''t'' ''s''
      (db (shared_world [])) (id_str crockford (sid 1)) = Some ns" "map btm_name ns = [''all'']" by auto
  moreover note shared_answers(3) [of "[]"]
  ultimately show ?thesis using ls gs by (metis option.distinct(1))
qed

theorem template_read_back_witness:
  "\<exists>m w' w2. create_template (sample_context (sid 1)) sample_template sample_env template_world = (Inr m, w')
     \<and> get_template (sample_context (sid 1)) (btm_id m) sample_env w' = (Inr m, w2)
     \<and> map tc_title (btm_columns m) = [''done'']"
proof -
  obtain m w' w2 where run: "create_template (sample_context (sid 1)) sample_template sample_env template_world = (Inr m, w')"
    and g: "get_template (sample_context (sid 1)) (btm_id m) sample_env w' = (Inr m, w2)" using template_runs by blast
  have "\<forall>c \<in> set (nt_columns sample_template). i32_ok (tc_position c)" by (simp add: sample_template_def i32_ok_def)
  moreover have "ulid_crate (codec sample_env)" by (simp add: crockford.ulid_crate_axioms)
  ultimately have "btm_columns m = nt_columns sample_template"
    using template_read_back [OF sample_caller sample_caller _ refl, THEN conjunct1, rule_format, OF _ run g] by blast
  with run g show ?thesis by (simp add: sample_template_def)
qed

end
