(* ===== verification/Object_Store.thy ===== *)
theory Object_Store
  imports Effects Base64 "HOL-Library.List_Lexorder" "HOL-Library.Char_ord" "HOL-Library.Sublist"
begin

text \<open>
  \<open>src/integrations/s3.rs\<close>: the client of the S3-compatible object store, with AWS Signature V4 written out as
  the code writes it. The crates \<open>hmac\<close>, \<open>sha2\<close> and \<open>hex\<close>, the formatting of a date by \<open>chrono\<close>, the clock
  and the server behind HTTP are the parameters of the record \<open>store_backend\<close>.
\<close>

section \<open>Configuration\<close>

record s3_config =
  endpoint :: string
  public_endpoint :: "string option"
  region :: string
  access_key :: string
  secret_key :: string
  bucket :: string

definition s3_from_env :: "(string \<Rightarrow> string option) \<Rightarrow> s3_config" where
  "s3_from_env getenv = (let unwrap_or = (\<lambda>d x. case x of Some s \<Rightarrow> s | None \<Rightarrow> d) in
     \<lparr>endpoint = unwrap_or ''http://seaweedfs-filer.storage.svc.cluster.local:8333'' (getenv ''S3_ENDPOINT''),
      public_endpoint = getenv ''S3_PUBLIC_ENDPOINT'',
      region = unwrap_or ''us-east-1'' (getenv ''S3_REGION''),
      access_key = unwrap_or '''' (getenv ''S3_ACCESS_KEY''),
      secret_key = unwrap_or '''' (getenv ''S3_SECRET_KEY''),
      bucket = unwrap_or ''sunbeam-kanban'' (getenv ''S3_BUCKET'')\<rparr>)"

definition presign_endpoint :: "s3_config \<Rightarrow> string" where
  "presign_endpoint c = (case public_endpoint c of Some p \<Rightarrow> p | None \<Rightarrow> endpoint c)"

section \<open>Parameters\<close>

record http_request =
  hr_method :: string
  hr_url :: string
  hr_headers :: "(string \<times> string) list"

text \<open>\<open>hp_header\<close> is the value of a header that is present and visible ASCII (\<open>to_str().ok()\<close>).\<close>

record http_reply =
  hp_status :: nat
  hp_header :: "string \<Rightarrow> string option"
  hp_body :: string

record store_backend =
  hmac :: "byte list \<Rightarrow> byte list \<Rightarrow> byte list"
  sha256 :: "byte list \<Rightarrow> byte list"
  hex_encode :: "byte list \<Rightarrow> string"
  iso8601 :: "nat \<Rightarrow> string"
  unix_secs :: "nat \<Rightarrow> nat"
  http :: "nat \<Rightarrow> http_request \<Rightarrow> string + http_reply"

record head_result =
  hd_size :: int
  hd_content_type :: string

datatype s3_error = S3NotFound | S3Forbidden | S3Http string | S3Unexpected nat string

section \<open>Strings\<close>

definition as_bytes :: "string \<Rightarrow> byte list" where
  "as_bytes s = map of_char s"

function trim_start_matches :: "string \<Rightarrow> string \<Rightarrow> string" where
  "trim_start_matches pat s =
     (if pat = '''' then s else case strip_prefix pat s of Some r \<Rightarrow> trim_start_matches pat r | None \<Rightarrow> s)"
  by pat_completeness auto

termination
  by (relation "measure (length \<circ> snd)") (auto simp: strip_prefix_Some)

definition trim_end_char :: "char \<Rightarrow> string \<Rightarrow> string" where
  "trim_end_char c s = rev (dropWhile ((=) c) (rev s))"

definition endpoint_host :: "string \<Rightarrow> string" where
  "endpoint_host ep = hd (split_on (CHR ''/'') (trim_start_matches ''http://'' (trim_start_matches ''https://'' ep)))"

definition unreserved :: "char \<Rightarrow> bool" where
  "unreserved c \<longleftrightarrow> (let n = (of_char c :: nat) in
     65 \<le> n \<and> n \<le> 90 \<or> 97 \<le> n \<and> n \<le> 122 \<or> 48 \<le> n \<and> n \<le> 57) \<or> c \<in> set ''-_.~''"

definition HEX :: string where
  "HEX = ''0123456789ABCDEF''"

definition uri_encode :: "string \<Rightarrow> string" where
  "uri_encode s = concat (map (\<lambda>c. if unreserved c then [c]
     else [CHR ''%'', HEX ! (of_char c div 16), HEX ! (of_char c mod 16)]) s)"

definition newline :: char where
  "newline = CHR 0x0A"

section \<open>Signature V4\<close>

definition sha256_hex :: "store_backend \<Rightarrow> byte list \<Rightarrow> string" where
  "sha256_hex b data = hex_encode b (sha256 b data)"

definition hmac_sha256_hex :: "store_backend \<Rightarrow> byte list \<Rightarrow> byte list \<Rightarrow> string" where
  "hmac_sha256_hex b key data = hex_encode b (hmac b key data)"

definition derive_signing_key :: "store_backend \<Rightarrow> string \<Rightarrow> string \<Rightarrow> string \<Rightarrow> byte list" where
  "derive_signing_key b secret short_date rg =
     (let k_date = hmac b (as_bytes (''AWS4'' @ secret)) (as_bytes short_date);
          k_region = hmac b k_date (as_bytes rg);
          k_service = hmac b k_region (as_bytes ''s3'')
      in hmac b k_service (as_bytes ''aws4_request''))"

definition scope_of :: "s3_config \<Rightarrow> string \<Rightarrow> string" where
  "scope_of c date_stamp = take 8 date_stamp @ ''/'' @ region c @ ''/s3/aws4_request''"

definition object_path :: "s3_config \<Rightarrow> string \<Rightarrow> string" where
  "object_path c key = ''/'' @ bucket c @ ''/'' @ key"

definition object_url :: "s3_config \<Rightarrow> string \<Rightarrow> string" where
  "object_url c key = trim_end_char (CHR ''/'') (endpoint c) @ ''/'' @ bucket c @ ''/'' @ key"

definition header_lines :: "(string \<times> string) list \<Rightarrow> string" where
  "header_lines hs = join_with newline (map (\<lambda>(k, v). k @ '':'' @ v) hs) @ [newline]"

definition canonical_request :: "string \<Rightarrow> string \<Rightarrow> string \<Rightarrow> (string \<times> string) list \<Rightarrow> string \<Rightarrow> string \<Rightarrow> string" where
  "canonical_request m path qs hs names payload =
     m @ newline # path @ newline # qs @ newline # header_lines hs @ newline # names @ newline # payload"

definition string_to_sign :: "store_backend \<Rightarrow> string \<Rightarrow> string \<Rightarrow> string \<Rightarrow> string" where
  "string_to_sign b date_stamp scope cr =
     ''AWS4-HMAC-SHA256'' @ newline # date_stamp @ newline # scope @ newline # sha256_hex b (as_bytes cr)"

text \<open>The headers a presigned request must carry, and the query parameters before the signature is added.\<close>

definition presign_headers :: "s3_config \<Rightarrow> (string \<times> string) option \<Rightarrow> (string \<times> string) list" where
  "presign_headers c extra = sort_key fst ((''host'', endpoint_host (presign_endpoint c))
     # (case extra of Some (n, v) \<Rightarrow> [(to_lower n, v)] | None \<Rightarrow> []))"

definition signed_names :: "(string \<times> string) list \<Rightarrow> string" where
  "signed_names hs = join_with (CHR '';'') (map fst hs)"

definition presign_params :: "s3_config \<Rightarrow> string \<Rightarrow> nat \<Rightarrow> string \<Rightarrow> (string \<times> string) list" where
  "presign_params c date_stamp expires_in names = sort_key fst
     [(''X-Amz-Algorithm'', ''AWS4-HMAC-SHA256''),
      (''X-Amz-Credential'', access_key c @ ''/'' @ scope_of c date_stamp),
      (''X-Amz-Date'', date_stamp),
      (''X-Amz-Expires'', show_nat expires_in),
      (''X-Amz-SignedHeaders'', names)]"

definition query_string :: "(string \<times> string) list \<Rightarrow> string" where
  "query_string ps = join_with (CHR ''&'') (map (\<lambda>(k, v). uri_encode k @ ''='' @ uri_encode v) ps)"

text \<open>What a presigned URL is signed over.\<close>

definition presign_request :: "store_backend \<Rightarrow> s3_config \<Rightarrow> nat \<Rightarrow> string \<Rightarrow> string \<Rightarrow> nat \<Rightarrow> (string \<times> string) option \<Rightarrow> string" where
  "presign_request b c now m key expires_in extra =
     (let hs = presign_headers c extra
      in canonical_request m (object_path c key) (query_string (presign_params c (iso8601 b now) expires_in (signed_names hs))) hs
           (signed_names hs) ''UNSIGNED-PAYLOAD'')"

definition presign :: "store_backend \<Rightarrow> s3_config \<Rightarrow> nat \<Rightarrow> string \<Rightarrow> string \<Rightarrow> nat \<Rightarrow> (string \<times> string) option \<Rightarrow> string" where
  "presign b c now m key expires_in extra =
     (let date_stamp = iso8601 b now;
          names = signed_names (presign_headers c extra);
          signing_key = derive_signing_key b (secret_key c) (take 8 date_stamp) (region c);
          signature = hmac_sha256_hex b signing_key
            (as_bytes (string_to_sign b date_stamp (scope_of c date_stamp) (presign_request b c now m key expires_in extra)));
          final = sort_key fst (presign_params c date_stamp expires_in names @ [(''X-Amz-Signature'', signature)])
      in trim_end_char (CHR ''/'') (presign_endpoint c) @ object_path c key @ ''?'' @ query_string final)"

definition presign_put :: "store_backend \<Rightarrow> s3_config \<Rightarrow> nat \<Rightarrow> string \<Rightarrow> string \<Rightarrow> nat \<Rightarrow> string" where
  "presign_put b c now key mime_type expires_in = presign b c now ''PUT'' key expires_in (Some (''content-type'', mime_type))"

definition presign_get :: "store_backend \<Rightarrow> s3_config \<Rightarrow> nat \<Rightarrow> string \<Rightarrow> nat \<Rightarrow> string" where
  "presign_get b c now key expires_in = presign b c now ''GET'' key expires_in None"

text \<open>Headers of a request that is sent by the service itself; \<open>host\<close> is left to the HTTP client.\<close>

definition sign_request :: "store_backend \<Rightarrow> s3_config \<Rightarrow> nat \<Rightarrow> string \<Rightarrow> string \<Rightarrow> string \<Rightarrow> (string \<times> string) list" where
  "sign_request b c now m path body_hash =
     (let date_stamp = iso8601 b now;
          body = (if body_hash = '''' then sha256_hex b [] else body_hash);
          hs = sort_key fst [(''host'', endpoint_host (endpoint c)), (''x-amz-content-sha256'', body), (''x-amz-date'', date_stamp)];
          signing_key = derive_signing_key b (secret_key c) (take 8 date_stamp) (region c);
          signature = hmac_sha256_hex b signing_key (as_bytes (string_to_sign b date_stamp (scope_of c date_stamp)
            (canonical_request m path '''' hs (signed_names hs) body)))
      in filter (\<lambda>(k, _). k \<noteq> ''host'') hs
         @ [(''Authorization'', ''AWS4-HMAC-SHA256 Credential='' @ access_key c @ ''/'' @ scope_of c date_stamp
              @ '', SignedHeaders='' @ signed_names hs @ '', Signature='' @ signature)])"

definition sign_request_headers :: "store_backend \<Rightarrow> s3_config \<Rightarrow> nat \<Rightarrow> string \<Rightarrow> string \<Rightarrow> string \<Rightarrow> (string \<times> string) list" where
  "sign_request_headers b c now m key body_hash = sign_request b c now m (object_path c key) body_hash"


section \<open>Requests\<close>

text \<open>\<open>str::parse::<i64>\<close>: an optional sign and at least one digit, within range.\<close>

definition parse_i64 :: "string \<Rightarrow> int option" where
  "parse_i64 s =
     (let (sign, ds) = (case s of [] \<Rightarrow> (1, []) | c # cs \<Rightarrow> if c = CHR ''-'' then (- 1, cs) else if c = CHR ''+'' then (1, cs) else (1, c # cs));
          v = sign * int (read_nat ds)
      in if ds \<noteq> [] \<and> list_all is_digit ds \<and> i64_ok v then Some v else None)"

text \<open>A request to the store, its method and URL, is recorded in the world when it is sent.\<close>

definition record_sent :: "http_request \<Rightarrow> ('e, unit) act" where
  "record_sent req = (\<lambda>e w. (Inr (), w\<lparr>sent := sent w @ [(hr_method req, hr_url req)]\<rparr>))"

definition send :: "store_backend \<Rightarrow> http_request \<Rightarrow> (s3_error, http_reply) act" where
  "send b req = bnd (record_sent req) (\<lambda>_.
     outside (\<lambda>n. case http b n req of Inl x \<Rightarrow> Inl (S3Http x) | Inr reply \<Rightarrow> Inr reply))"

definition clock_secs :: "store_backend \<Rightarrow> ('e, nat) act" where
  "clock_secs b = outside (\<lambda>n. Inr (unix_secs b n))"

definition content_size :: "http_reply \<Rightarrow> int" where
  "content_size resp = (case Option.bind (hp_header resp ''content-length'') parse_i64 of Some n \<Rightarrow> n | None \<Rightarrow> 0)"

definition head_object :: "store_backend \<Rightarrow> s3_config \<Rightarrow> string \<Rightarrow> (s3_error, head_result) act" where
  "head_object b c key =
     bnd (clock_secs b) (\<lambda>now.
     bnd (send b \<lparr>hr_method = ''HEAD'', hr_url = object_url c key, hr_headers = sign_request_headers b c now ''HEAD'' key ''''\<rparr>) (\<lambda>resp.
     if hp_status resp = 200 then
       ret \<lparr>hd_size = content_size resp,
            hd_content_type = (case hp_header resp ''content-type'' of Some t \<Rightarrow> t | None \<Rightarrow> ''application/octet-stream'')\<rparr>
     else if hp_status resp = 404 then raise S3NotFound
     else if hp_status resp = 403 then raise S3Forbidden
     else raise (S3Unexpected (hp_status resp) ''HEAD failed'')))"

definition delete_object :: "store_backend \<Rightarrow> s3_config \<Rightarrow> string \<Rightarrow> (s3_error, unit) act" where
  "delete_object b c key =
     bnd (clock_secs b) (\<lambda>now.
     bnd (send b \<lparr>hr_method = ''DELETE'', hr_url = object_url c key,
       hr_headers = sign_request b c now ''DELETE'' (object_path c key) ''''\<rparr>) (\<lambda>resp.
     if hp_status resp \<in> {200, 204, 404} then ret ()
     else if hp_status resp = 403 then raise S3Forbidden
     else raise (S3Unexpected (hp_status resp) (hp_body resp))))"

definition create_bucket :: "store_backend \<Rightarrow> s3_config \<Rightarrow> (s3_error, unit) act" where
  "create_bucket b c =
     bnd (clock_secs b) (\<lambda>now.
     bnd (send b \<lparr>hr_method = ''PUT'', hr_url = trim_end_char (CHR ''/'') (endpoint c) @ ''/'' @ bucket c,
       hr_headers = sign_request b c now ''PUT'' (''/'' @ bucket c) ''''\<rparr>) (\<lambda>resp.
     if hp_status resp \<in> {200, 204, 409} then ret ()
     else if hp_status resp = 403 then raise S3Forbidden
     else raise (S3Unexpected (hp_status resp) (hp_body resp))))"

section \<open>File names\<close>

text \<open>The characters of a UTF-8 string, and the classes \<open>char::is_control\<close> and \<open>char::is_whitespace\<close> on them.\<close>

function utf8_chars :: "string \<Rightarrow> string list" where
  "utf8_chars [] = []"
| "utf8_chars (c # cs) = (c # takeWhile continues cs) # utf8_chars (dropWhile continues cs)"
  by pat_completeness auto

termination
  by (relation "measure length") (auto simp: length_dropWhile_le less_Suc_eq_le)

definition codes :: "string \<Rightarrow> nat list" where
  "codes s = map of_char s"

definition is_control :: "string \<Rightarrow> bool" where
  "is_control g = (case codes g of
       [n] \<Rightarrow> n < 32 \<or> n = 127
     | [m, n] \<Rightarrow> m = 0xC2 \<and> 0x80 \<le> n \<and> n \<le> 0x9F
     | _ \<Rightarrow> False)"

definition is_white :: "string \<Rightarrow> bool" where
  "is_white g = (case codes g of
       [n] \<Rightarrow> 9 \<le> n \<and> n \<le> 13 \<or> n = 32
     | [m, n] \<Rightarrow> m = 0xC2 \<and> (n = 0x85 \<or> n = 0xA0)
     | [l, m, n] \<Rightarrow> l = 0xE1 \<and> m = 0x9A \<and> n = 0x80
         \<or> l = 0xE2 \<and> m = 0x80 \<and> (0x80 \<le> n \<and> n \<le> 0x8A \<or> n = 0xA8 \<or> n = 0xA9 \<or> n = 0xAF)
         \<or> l = 0xE2 \<and> m = 0x81 \<and> n = 0x9F
         \<or> l = 0xE3 \<and> m = 0x80 \<and> n = 0x80
     | _ \<Rightarrow> False)"

definition kept_char :: "string \<Rightarrow> bool" where
  "kept_char g \<longleftrightarrow> \<not> is_control g \<and> g \<noteq> ''/'' \<and> g \<noteq> [CHR 0x5C] \<and> g \<noteq> [CHR 0x00]"

definition sanitize_filename :: "string \<Rightarrow> string" where
  "sanitize_filename name =
     concat (rev (dropWhile is_white (rev (dropWhile is_white (filter kept_char (utf8_chars name))))))"

lemma sanitize_samples:
  "sanitize_filename ''../../etc/passwd'' = ''....etcpasswd''" "sanitize_filename ''normal file.pdf'' = ''normal file.pdf''"
  "sanitize_filename ''..'' = ''..''" "sanitize_filename ''/'' = ''''"
  by code_simp+

lemma endpoint_host_samples:
  "endpoint_host ''http://localhost:9000'' = ''localhost:9000''" "endpoint_host ''https://s3.example.com/bucket'' = ''s3.example.com''"
  by code_simp+


section \<open>What a signature binds\<close>

lemma sep_inject:
  assumes "c \<notin> set x" "c \<notin> set y"
  shows "x @ c # r = y @ c # q \<longleftrightarrow> x = y \<and> r = q"
  using assms
proof (induction x arbitrary: y)
  case Nil
  then show ?case by (cases y) auto
next
  case (Cons a x)
  then show ?case by (cases y) auto
qed

text \<open>How a percent-encoded string is read.\<close>

fun uri_decode :: "string \<Rightarrow> string" where
  "uri_decode [] = []"
| "uri_decode (c # cs) = (if c = CHR ''%'' then (case cs of
      a # b # r \<Rightarrow> char_of (16 * length (takeWhile ((\<noteq>) a) HEX) + length (takeWhile ((\<noteq>) b) HEX)) # uri_decode r
    | _ \<Rightarrow> [])
   else c # uri_decode cs)"

lemma HEX_index: "n < 16 \<Longrightarrow> length (takeWhile ((\<noteq>) (HEX ! n)) HEX) = n"
proof -
  have "\<forall>n \<in> set [0..<16]. length (takeWhile ((\<noteq>) (HEX ! n)) HEX) = n" by code_simp
  then show "n < 16 \<Longrightarrow> length (takeWhile ((\<noteq>) (HEX ! n)) HEX) = n" by simp
qed

lemma HEX_unreserved: "n < 16 \<Longrightarrow> unreserved (HEX ! n)"
proof -
  have "\<forall>n \<in> set [0..<16]. unreserved (HEX ! n)" by code_simp
  then show "n < 16 \<Longrightarrow> unreserved (HEX ! n)" by simp
qed

lemma uri_encode_Cons: "uri_encode (c # cs) = (if unreserved c then [c]
     else [CHR ''%'', HEX ! (of_char c div 16), HEX ! (of_char c mod 16)]) @ uri_encode cs"
  by (simp add: uri_encode_def)

lemma uri_decode_encode: "uri_decode (uri_encode s) = s"
proof (induction s)
  case (Cons c s)
  have n: "of_char c div 16 < (16 :: nat)" "of_char c mod 16 < (16 :: nat)" using nat_of_char_less_256 [of c] by (simp_all add: less_mult_imp_div_less)
  show ?case
  proof (cases "unreserved c")
    case True
    then have "c \<noteq> CHR ''%''" by (auto simp: unreserved_def)
    with True Cons show ?thesis by (simp add: uri_encode_Cons)
  next
    case False
    have "16 * (of_char c div 16) + of_char c mod 16 = (of_char c :: nat)" by simp
    with False Cons n show ?thesis by (simp add: uri_encode_Cons HEX_index)
  qed
qed (simp add: uri_encode_def)

lemma uri_encode_inject [simp]: "uri_encode s = uri_encode t \<longleftrightarrow> s = t"
  by (metis uri_decode_encode)

lemma uri_encode_chars: "c \<in> set (uri_encode s) \<Longrightarrow> unreserved c \<or> c = CHR ''%''"
proof (induction s)
  case (Cons a s)
  have n: "of_char a div 16 < (16 :: nat)" "of_char a mod 16 < (16 :: nat)" using nat_of_char_less_256 [of a] by (simp_all add: less_mult_imp_div_less)
  show ?case using Cons HEX_unreserved n by (auto simp: uri_encode_Cons split: if_split_asm)
qed (simp add: uri_encode_def)

lemma uri_encode_clean:
  "CHR ''&'' \<notin> set (uri_encode s)" "CHR ''='' \<notin> set (uri_encode s)" "CHR ''?'' \<notin> set (uri_encode s)" "newline \<notin> set (uri_encode s)"
  using uri_encode_chars by (force simp: unreserved_def newline_def)+

lemma uri_encode_unreserved: "list_all unreserved s \<Longrightarrow> uri_encode s = s"
  by (induction s) (simp_all add: uri_encode_Cons, simp add: uri_encode_def)

lemma param_names:
  "uri_encode ''X-Amz-Algorithm'' = ''X-Amz-Algorithm''" "uri_encode ''X-Amz-Credential'' = ''X-Amz-Credential''"
  "uri_encode ''X-Amz-Date'' = ''X-Amz-Date''" "uri_encode ''X-Amz-Expires'' = ''X-Amz-Expires''"
  "uri_encode ''X-Amz-SignedHeaders'' = ''X-Amz-SignedHeaders''" "uri_encode ''X-Amz-Signature'' = ''X-Amz-Signature''"
  by code_simp+


lemma sorted_names:
  "sorted [''X-Amz-Algorithm'', ''X-Amz-Credential'', ''X-Amz-Date'', ''X-Amz-Expires'', ''X-Amz-SignedHeaders'']"
  "sorted [''X-Amz-Algorithm'', ''X-Amz-Credential'', ''X-Amz-Date'', ''X-Amz-Expires'', ''X-Amz-Signature'', ''X-Amz-SignedHeaders'']"
  "sorted [''content-type'', ''host'']"
  by code_simp+

lemma presign_params_sorted: "presign_params c d ex names =
    [(''X-Amz-Algorithm'', ''AWS4-HMAC-SHA256''), (''X-Amz-Credential'', access_key c @ ''/'' @ scope_of c d), (''X-Amz-Date'', d),
     (''X-Amz-Expires'', show_nat ex), (''X-Amz-SignedHeaders'', names)]"
  unfolding presign_params_def by (rule sort_key_id_if_sorted) (simp only: list.map fst_conv sorted_names)

lemma presign_headers_sorted:
  "presign_headers c None = [(''host'', endpoint_host (presign_endpoint c))]"
  "presign_headers c (Some (''content-type'', mt)) = [(''content-type'', mt), (''host'', endpoint_host (presign_endpoint c))]"
proof -
  have "to_lower ''content-type'' = ''content-type''" by code_simp
  moreover have "sort_key fst [(''content-type'', mt), (''host'', endpoint_host (presign_endpoint c))]
      = [(''content-type'', mt), (''host'', endpoint_host (presign_endpoint c))]"
    by (rule sort_key_id_if_sorted) (simp only: list.map fst_conv sorted_names)
  moreover have "sort_key fst [(''host'', x), (''content-type'', y)] = sort_key fst [(''content-type'', y), (''host'', x)]" for x y :: string
    by (simp add: insort_key_left_comm)
  ultimately show "presign_headers c (Some (''content-type'', mt)) = [(''content-type'', mt), (''host'', endpoint_host (presign_endpoint c))]"
    unfolding presign_headers_def option.case prod.case by simp
qed (simp add: presign_headers_def)

lemma query_inject:
  "query_string (presign_params c d ex names) = query_string (presign_params c d' ex' names') \<longleftrightarrow> d = d' \<and> ex = ex' \<and> names = names'"
proof
  assume "query_string (presign_params c d ex names) = query_string (presign_params c d' ex' names')"
  then have "uri_encode d = uri_encode d' \<and> uri_encode (show_nat ex) = uri_encode (show_nat ex') \<and> uri_encode names = uri_encode names'"
    by (simp add: query_string_def presign_params_sorted param_names sep_inject uri_encode_clean)
  then show "d = d' \<and> ex = ex' \<and> names = names'" by (metis uri_encode_inject read_show_nat)
qed simp

lemma query_no_newline: "newline \<notin> set (query_string (presign_params c d ex names))"
  by (simp add: query_string_def presign_params_sorted param_names uri_encode_clean) (simp add: newline_def)

lemma canonical_inject:
  assumes "newline \<notin> set m" "newline \<notin> set m'" "newline \<notin> set p" "newline \<notin> set p'" "newline \<notin> set q" "newline \<notin> set q'"
  shows "canonical_request m p q hs n pl = canonical_request m' p' q' hs' n' pl
    \<longleftrightarrow> m = m' \<and> p = p' \<and> q = q' \<and> header_lines hs @ newline # n = header_lines hs' @ newline # n'"
proof -
  have "header_lines hs @ newline # n @ newline # pl = header_lines hs' @ newline # n' @ newline # pl
      \<longleftrightarrow> (header_lines hs @ newline # n) @ newline # pl = (header_lines hs' @ newline # n') @ newline # pl" by simp
  then show ?thesis unfolding canonical_request_def sep_inject [OF assms(1,2)] sep_inject [OF assms(3,4)] sep_inject [OF assms(5,6)] append_same_eq by blast
qed

text \<open>
  C35. A presigned URL is good for what it was made for: two presigned requests of one store that are signed over
  the same text have the same method, object key, content type, lifetime and date, whatever they hold, as long
  as the method and the key are free of line breaks (file names are stripped of them). So the signature of an
  upload URL opens no other object and no other method.
\<close>

theorem presign_binds:
  assumes same: "presign_request b c now m key ex (map_option (Pair ''content-type'') mime)
      = presign_request b c now' m' key' ex' (map_option (Pair ''content-type'') mime')"
    and lines: "newline \<notin> set m" "newline \<notin> set m'" "newline \<notin> set key" "newline \<notin> set key'" "newline \<notin> set (bucket c)"
  shows "m = m' \<and> key = key' \<and> ex = ex' \<and> mime = mime' \<and> iso8601 b now = iso8601 b now'"
proof -
  have path: "newline \<notin> set (object_path c key)" "newline \<notin> set (object_path c key')" using lines by (simp_all add: object_path_def newline_def)
  note s = same [unfolded presign_request_def Let_def]
  let ?hs = "\<lambda>mime. presign_headers c (map_option (Pair ''content-type'') mime)"
  from s have st: "m = m' \<and> object_path c key = object_path c key' \<and> iso8601 b now = iso8601 b now' \<and> ex = ex'"
    and names: "signed_names (?hs mime) = signed_names (?hs mime')"
    and tail: "header_lines (?hs mime) @ newline # signed_names (?hs mime) = header_lines (?hs mime') @ newline # signed_names (?hs mime')"
    unfolding canonical_inject [OF lines(1,2) path query_no_newline query_no_newline] query_inject by blast+
  from tail names have hs: "header_lines (?hs mime) = header_lines (?hs mime')" by simp
  have "mime = mime'"
    using names hs by (cases mime; cases mime') (auto simp: presign_headers_sorted signed_names_def header_lines_def)
  with st show ?thesis by (simp add: object_path_def)
qed

definition sample_config :: s3_config where
  "sample_config = \<lparr>endpoint = ''http://localhost:9000'', public_endpoint = Some ''https://s3.example.com/'', region = ''us-east-1'',
     access_key = ''testkey'', secret_key = ''testsecret'', bucket = ''test''\<rparr>"

definition sample_store :: store_backend where
  "sample_store = \<lparr>hmac = (\<lambda>k d. rev k @ d), sha256 = rev, hex_encode = base64_encode, iso8601 = (\<lambda>s. ''20240101T120000Z''), unix_secs = id,
     http = (\<lambda>n req. Inr \<lparr>hp_status = 200, hp_header = (\<lambda>h. if h = ''content-length'' then Some ''42'' else None), hp_body = ''''\<rparr>)\<rparr>"

theorem presign_binds_witness:
  "presign_request sample_store sample_config 5 ''GET'' ''a'' 300 None \<noteq> presign_request sample_store sample_config 5 ''GET'' ''b'' 300 None"
  using presign_binds [of sample_store sample_config 5 "''GET''" "''a''" 300 None 5 "''GET''" "''b''" 300 None]
  by (auto simp: newline_def sample_config_def)

text \<open>
  Where a presigned URL points: up to its query it is the public endpoint, if there is one, or else the
  endpoint, followed by bucket and key; but only for a key without a question mark. The path is not
  percent-encoded, so of a key with one only the part before it is left.
\<close>

theorem presigned_address:
  assumes "CHR ''?'' \<notin> set (presign_endpoint c)" "CHR ''?'' \<notin> set (bucket c)"
  shows "takeWhile ((\<noteq>) (CHR ''?'')) (presign b c now m key ex extra)
    = trim_end_char (CHR ''/'') (presign_endpoint c) @ object_path c (takeWhile ((\<noteq>) (CHR ''?'')) key)"
proof -
  have "CHR ''?'' \<notin> set (trim_end_char (CHR ''/'') (presign_endpoint c))"
    using assms(1) unfolding trim_end_char_def by (auto dest: set_dropWhileD)
  then show ?thesis
    using assms(2) by (simp add: presign_def Let_def object_path_def takeWhile_append takeWhile_eq_all_conv [THEN iffD2] split: if_splits)
qed

theorem presigned_address_witness:
  "takeWhile ((\<noteq>) (CHR ''?'')) (presign sample_store sample_config 5 ''GET'' ''cards/what?.pdf'' 300 None) = ''https://s3.example.com/test/cards/what''"
  by (subst presigned_address) (simp_all add: sample_config_def presign_endpoint_def object_path_def trim_end_char_def)


section \<open>Sanitized file names\<close>

text \<open>A character of one byte has no continuation: true of every \<open>str\<close>.\<close>

definition rust_str :: "string \<Rightarrow> bool" where
  "rust_str s \<longleftrightarrow> (\<forall>g \<in> set (utf8_chars s). (of_char (hd g) :: nat) < 128 \<longrightarrow> length g = 1)"

fun grouped :: "string list \<Rightarrow> bool" where
  "grouped [] = True"
| "grouped (g # gs) = (g \<noteq> [] \<and> (\<forall>c \<in> set (tl g). continues c) \<and> (\<forall>h \<in> set gs. h \<noteq> [] \<and> \<not> continues (hd h)) \<and> grouped gs)"

lemma concat_utf8: "concat (utf8_chars s) = s"
  by (induction s rule: utf8_chars.induct) simp_all

lemma utf8_heads: "g \<in> set (utf8_chars s) \<Longrightarrow> g \<noteq> [] \<and> (\<not> continues (hd g) \<or> s \<noteq> [] \<and> hd g = hd s)"
proof (induction s rule: utf8_chars.induct)
  case (2 c cs)
  have "\<not> continues (hd (dropWhile continues cs))" if "dropWhile continues cs \<noteq> []" using that hd_dropWhile by blast
  with 2 show ?case by fastforce
qed simp

lemma grouped_utf8: "grouped (utf8_chars s)"
proof (induction s rule: utf8_chars.induct)
  case (2 c cs)
  have "\<not> continues (hd (dropWhile continues cs))" if "dropWhile continues cs \<noteq> []" using that hd_dropWhile by blast
  then have "h \<noteq> [] \<and> \<not> continues (hd h)" if "h \<in> set (utf8_chars (dropWhile continues cs))" for h
    using utf8_heads [OF that] \<open>dropWhile continues cs \<noteq> [] \<Longrightarrow> _\<close> by metis
  with 2 show ?case by (auto dest: set_takeWhileD)
qed simp

lemma utf8_grouped: "grouped gs \<Longrightarrow> utf8_chars (concat gs) = gs"
proof (induction gs)
  case (Cons g gs)
  then obtain c cs where g: "g = c # cs" "\<forall>x \<in> set cs. continues x" by (cases g) auto
  have rest: "takeWhile continues (concat gs) = []" "dropWhile continues (concat gs) = concat gs"
    using Cons.prems by (cases gs; auto simp: neq_Nil_conv)+
  show ?case using Cons g rest by (simp add: takeWhile_append dropWhile_append)
qed simp

lemma subseq_set: "subseq xs ys \<Longrightarrow> x \<in> set xs \<Longrightarrow> x \<in> set ys"
  by (auto elim: list_emb_set)

lemma subseq_rev: "subseq xs ys \<Longrightarrow> subseq (rev xs) (rev ys)"
  by (induction rule: list_emb.induct) (auto intro: list_emb_append_mono subseq_rev_drop_many)

lemma grouped_subseq: "subseq hs gs \<Longrightarrow> grouped gs \<Longrightarrow> grouped hs"
  by (induction rule: list_emb.induct) (auto dest: subseq_set)

lemma subseq_dropWhile: "subseq (dropWhile P xs) xs"
  by (metis list_emb_append2 subseq_order.refl takeWhile_dropWhile_id)

lemma subseq_rev_drop: "subseq (rev (dropWhile P (rev xs))) xs"
  using subseq_dropWhile [of P "rev xs"] by (metis rev_rev_ident subseq_rev)

lemma strip_strip: "ys = rev (dropWhile P (rev (dropWhile P xs))) \<Longrightarrow> rev (dropWhile P (rev (dropWhile P ys))) = ys"
proof (cases "dropWhile P xs")
  case (Cons z zs)
  then have z: "\<not> P z" by (metis hd_dropWhile list.distinct(1) list.sel(1))
  assume ys: "ys = rev (dropWhile P (rev (dropWhile P xs)))"
  have "dropWhile P (rev (dropWhile P xs)) = dropWhile P (rev zs) @ [z]" using z Cons by (simp add: dropWhile_append3)
  with ys z have "dropWhile P ys = ys" by simp
  with ys show ?thesis by simp
qed simp

lemma concat_subseq: "subseq hs gs \<Longrightarrow> subseq (concat hs) (concat gs)"
  by (induction rule: list_emb.induct) (auto intro: list_emb_append_mono subseq_drop_many)

lemma sanitize_groups:
  obtains gs where "sanitize_filename name = concat gs" "subseq gs (utf8_chars name)" "\<forall>g \<in> set gs. kept_char g"
    "rev (dropWhile is_white (rev (dropWhile is_white gs))) = gs"
proof
  let ?gs = "rev (dropWhile is_white (rev (dropWhile is_white (filter kept_char (utf8_chars name)))))"
  show "sanitize_filename name = concat ?gs" by (simp add: sanitize_filename_def)
  have sub: "subseq ?gs (filter kept_char (utf8_chars name))"
    by (rule subseq_order.order_trans [OF subseq_rev_drop subseq_dropWhile])
  then show "subseq ?gs (utf8_chars name)" using subseq_filter_left subseq_order.order_trans by blast
  show "\<forall>g \<in> set ?gs. kept_char g"
  proof
    fix g assume "g \<in> set ?gs"
    from subseq_set [OF sub this] show "kept_char g" by simp
  qed
  show "rev (dropWhile is_white (rev (dropWhile is_white ?gs))) = ?gs" by (rule strip_strip [OF refl])
qed

lemma grouped_member: "grouped gs \<Longrightarrow> g \<in> set gs \<Longrightarrow> \<forall>c \<in> set (tl g). continues c"
  by (induction gs) auto

lemma continues_high: "continues c \<Longrightarrow> 128 \<le> (of_char c :: nat)"
proof -
  assume "continues c"
  then have "0x80 \<le> (of_char c :: byte)" using word_and_le2 [of "of_char c :: byte" "0xC0"] by (simp add: continues_def and.commute)
  then have "unat (0x80 :: byte) \<le> unat (of_char c :: byte)" by (simp only: word_le_nat_alt)
  moreover have "unat (of_char c :: byte) = of_char c"
    unfolding of_nat_of_char [symmetric, where ?'a = "8 word"] unat_of_nat by simp
  ultimately show "128 \<le> (of_char c :: nat)" by simp
qed

text \<open>
  An uploaded file cannot choose its place in the store: whatever name the client sends, the sanitized name
  has no separator, no line break and no other ASCII control character, is made of bytes of the name in their
  order, and sanitizing it again changes nothing.
\<close>

theorem sanitize_clean:
  assumes "rust_str name"
  shows "(\<forall>c \<in> set (sanitize_filename name). c \<noteq> CHR ''/'' \<and> c \<noteq> CHR 0x5C \<and> 32 \<le> (of_char c :: nat) \<and> (of_char c :: nat) \<noteq> 127)
    \<and> subseq (sanitize_filename name) name \<and> sanitize_filename (sanitize_filename name) = sanitize_filename name"
proof (intro conjI)
  obtain gs where s: "sanitize_filename name = concat gs" and sub: "subseq gs (utf8_chars name)" and kept: "\<forall>g \<in> set gs. kept_char g"
    and strip: "rev (dropWhile is_white (rev (dropWhile is_white gs))) = gs" by (rule sanitize_groups)
  note gr = grouped_subseq [OF sub grouped_utf8]
  show "subseq (sanitize_filename name) name" using concat_subseq [OF sub] by (simp add: s concat_utf8)
  have "filter kept_char gs = gs" using kept by simp
  then show "sanitize_filename (sanitize_filename name) = sanitize_filename name"
    using strip by (simp only: s sanitize_filename_def [of "concat gs"] utf8_grouped [OF gr])
  show "\<forall>c \<in> set (sanitize_filename name). c \<noteq> CHR ''/'' \<and> c \<noteq> CHR 0x5C \<and> 32 \<le> (of_char c :: nat) \<and> (of_char c :: nat) \<noteq> 127"
  proof
    fix c assume "c \<in> set (sanitize_filename name)"
    then obtain g where g: "g \<in> set gs" "c \<in> set g" by (auto simp: s)
    then have gu: "g \<in> set (utf8_chars name)" and k: "kept_char g" using subseq_set [OF sub] kept by blast+
    show "c \<noteq> CHR ''/'' \<and> c \<noteq> CHR 0x5C \<and> 32 \<le> (of_char c :: nat) \<and> (of_char c :: nat) \<noteq> 127"
    proof (cases "(of_char (hd g) :: nat) < 128")
      case True
      with assms gu have "length g = 1" unfolding rust_str_def by blast
      with g(2) have "g = [c]" by (auto simp: length_Suc_conv)
      with k show ?thesis by (auto simp: kept_char_def is_control_def codes_def)
    next
      case False
      have "c = hd g \<or> continues c" using g(2) grouped_member [OF grouped_utf8 gu] by (cases g) auto
      with False have "128 \<le> (of_char c :: nat)" using continues_high by auto
      then show ?thesis by auto
    qed
  qed
qed

end
