(* ===== verification/Attachments.thy ===== *)
theory Attachments
  imports Object_Store Quiet Card_Service
begin

text \<open>
  \<open>src/services/attachments.rs\<close>: uploads and downloads through presigned URLs. The five handlers, and what they
  may touch: the rows of the card the permission check was about, and objects under its prefix of the store.
\<close>

section \<open>Messages\<close>

record attachment_msg =
  am_id :: string
  am_card_id :: string
  am_s3_key :: string
  am_filename :: string
  am_mime_type :: string
  am_size_bytes :: int
  am_uploaded_by :: string
  am_uploaded_at :: timestamp

definition attachment_from_row :: "ulid_codec \<Rightarrow> attachment_row \<Rightarrow> attachment_msg" where
  "attachment_from_row u r = \<lparr>am_id = id_str u (f_id r), am_card_id = id_str u (f_card r), am_s3_key = f_s3_key r,
     am_filename = f_filename r, am_mime_type = f_mimetype r, am_size_bytes = f_size r, am_uploaded_by = f_uploaded_by r,
     am_uploaded_at = to_proto_ts (f_created r)\<rparr>"

text \<open>The request also has a card id and a size; the handler reads neither.\<close>

record upload_request =
  up_filename :: string
  up_mime_type :: string

record upload_response =
  ur_presigned_url :: string
  ur_s3_key :: string
  ur_attachment_id :: string
  ur_expires_at :: timestamp

record attachment_service =
  as_store :: store_backend
  as_config :: s3_config
  upload_expires_secs :: nat
  download_expires_secs :: nat

text \<open>\<open>saturating_add\<close> on \<open>u64\<close>, then \<open>as i64\<close>.\<close>

definition now_plus_secs :: "nat \<Rightarrow> nat \<Rightarrow> timestamp" where
  "now_plus_secs now secs = (wrap_i64 (int (min (now + secs) (2 ^ 64 - 1))), 0)"

definition s3_err_to_status :: "s3_error \<Rightarrow> cerr" where
  "s3_err_to_status x = (case x of
       S3NotFound \<Rightarrow> (NotFound, ''object not found in S3'')
     | S3Forbidden \<Rightarrow> (PermissionDenied, ''S3 access denied'')
     | S3Http e \<Rightarrow> (Internal, ''S3 request failed'')
     | S3Unexpected status body \<Rightarrow> (Internal, ''S3 unexpected response''))"

section \<open>Statements\<close>

definition attachment_is :: "ident \<Rightarrow> string \<Rightarrow> attachment_row \<Rightarrow> bool" where
  "attachment_is i tenant r \<longleftrightarrow> f_id r = i \<and> f_tenant r = tenant"

definition find_attachment :: "ident \<Rightarrow> string \<Rightarrow> db \<Rightarrow> attachment_row option" where
  "find_attachment i tenant d = List.find (attachment_is i tenant) (card_attachments d)"

definition insert_attachment_sql :: "(datetime \<Rightarrow> attachment_row) \<Rightarrow> datetime \<Rightarrow> db \<Rightarrow> db option" where
  "insert_attachment_sql mk now d = (let row = mk now in
     if f_id row \<in> f_id ` set (card_attachments d) \<or> \<not> card_exists (f_card row) d then None
     else Some (d\<lparr>card_attachments := card_attachments d @ [row]\<rparr>))"

definition confirm_attachment_sql :: "ident \<Rightarrow> string \<Rightarrow> int \<Rightarrow> datetime \<Rightarrow> db \<Rightarrow> (attachment_row option \<times> db) option" where
  "confirm_attachment_sql i tenant n now d =
     Some (map_option (\<lambda>r. r\<lparr>f_size := n\<rparr>) (find_attachment i tenant d),
       d\<lparr>card_attachments := upd_rows (attachment_is i tenant) (\<lambda>r. r\<lparr>f_size := n\<rparr>) (card_attachments d)\<rparr>)"

definition delete_attachment_sql :: "ident \<Rightarrow> string \<Rightarrow> datetime \<Rightarrow> db \<Rightarrow> db option" where
  "delete_attachment_sql i tenant now d = Some (d\<lparr>card_attachments := del_rows (attachment_is i tenant) (card_attachments d)\<rparr>)"

section \<open>Handlers\<close>

definition object_key :: "ulid_codec \<Rightarrow> ident \<Rightarrow> ident \<Rightarrow> string \<Rightarrow> string" where
  "object_key u cid i filename = ''kanban/cards/'' @ id_str u cid @ ''/'' @ id_str u i @ ''/'' @ filename"

definition request_presigned_upload ::
  "attachment_service \<Rightarrow> request_context \<Rightarrow> upload_request \<Rightarrow> (cerr, upload_response) act" where
  "request_presigned_upload s ctx req =
     bnd (tenant_id_from_request ctx) (\<lambda>tenant.
     bnd (subject_from_request ctx) (\<lambda>sub.
     bnd (checked_object_id ctx) (\<lambda>card_id_str.
     bnd (parse_id ''invalid card_id in x-sunbeam-object-id'' card_id_str) (\<lambda>cid.
     bnd (require (up_filename req \<noteq> '''') (InvalidArgument, ''filename is required'')) (\<lambda>_.
     bnd (require (up_mime_type req \<noteq> '''') (InvalidArgument, ''mime_type is required'')) (\<lambda>_.
     bnd new_id (\<lambda>i.
     bnd (ask codec) (\<lambda>u.
     let safe_filename = sanitize_filename (up_filename req); key = object_key u cid i safe_filename in
     bnd (internal ''failed to insert attachment row'' (exec (insert_attachment_sql (\<lambda>now.
       \<lparr>f_id = i, f_tenant = tenant, f_card = cid, f_filename = safe_filename, f_mimetype = up_mime_type req, f_size = 0,
        f_s3_key = key, f_uploaded_by = sub, f_created = now\<rparr>)))) (\<lambda>_.
     bnd (clock_secs (as_store s)) (\<lambda>signed_at.
     bnd (clock_secs (as_store s)) (\<lambda>now.
     ret \<lparr>ur_presigned_url = presign_put (as_store s) (as_config s) signed_at key (up_mime_type req) (upload_expires_secs s),
          ur_s3_key = key, ur_attachment_id = id_str u i, ur_expires_at = now_plus_secs now (upload_expires_secs s)\<rparr>)))))))))))"

text \<open>
  The beginning of Confirm, Download and Delete: the row must be of the card that was checked, compared as text.
\<close>

definition attachment_of_checked_card ::
  "request_context \<Rightarrow> string \<Rightarrow> (string \<Rightarrow> attachment_row \<Rightarrow> ident \<Rightarrow> (cerr, 'a) act) \<Rightarrow> (cerr, 'a) act" where
  "attachment_of_checked_card ctx req_attachment_id k =
     bnd (tenant_id_from_request ctx) (\<lambda>tenant.
     bnd (checked_object_id ctx) (\<lambda>checked_card_id.
     bnd (parse_id ''invalid attachment_id'' req_attachment_id) (\<lambda>i.
     bnd (internal ''failed to fetch attachment'' (select (find_attachment i tenant))) (\<lambda>r.
     bnd (ok_or (NotFound, ''attachment not found'') r) (\<lambda>row.
     bnd (ask codec) (\<lambda>u.
     bnd (require (id_str u (f_card row) = checked_card_id)
       (PermissionDenied, ''attachment does not belong to the authorized card'')) (\<lambda>_.
     k tenant row i)))))))"

definition confirm_upload :: "attachment_service \<Rightarrow> request_context \<Rightarrow> string \<Rightarrow> (cerr, attachment_msg) act" where
  "confirm_upload s ctx req_attachment_id = attachment_of_checked_card ctx req_attachment_id (\<lambda>tenant row i.
     bnd (map_err s3_err_to_status (head_object (as_store s) (as_config s) (f_s3_key row))) (\<lambda>head.
     bnd (internal ''failed to confirm attachment'' (fetch_one (confirm_attachment_sql i tenant (hd_size head)))) (\<lambda>updated.
     bnd (ask codec) (\<lambda>u. ret (attachment_from_row u updated)))))"

definition request_presigned_download ::
  "attachment_service \<Rightarrow> request_context \<Rightarrow> string \<Rightarrow> (cerr, string \<times> timestamp) act" where
  "request_presigned_download s ctx req_attachment_id = attachment_of_checked_card ctx req_attachment_id (\<lambda>tenant row i.
     bnd (clock_secs (as_store s)) (\<lambda>signed_at.
     bnd (clock_secs (as_store s)) (\<lambda>now.
     ret (presign_get (as_store s) (as_config s) signed_at (f_s3_key row) (download_expires_secs s),
          now_plus_secs now (download_expires_secs s)))))"

text \<open>A failed deletion in the store is only logged.\<close>

definition delete_attachment :: "attachment_service \<Rightarrow> request_context \<Rightarrow> string \<Rightarrow> (cerr, unit) act" where
  "delete_attachment s ctx req_attachment_id = attachment_of_checked_card ctx req_attachment_id (\<lambda>tenant row i.
     bnd (attempt (delete_object (as_store s) (as_config s) (f_s3_key row))) (\<lambda>_.
     internal ''failed to delete attachment row'' (exec (delete_attachment_sql i tenant))))"

definition list_attachments_by_card :: "request_context \<Rightarrow> (cerr, attachment_msg list) act" where
  "list_attachments_by_card ctx =
     bnd (tenant_id_from_request ctx) (\<lambda>tenant.
     bnd (checked_object_id ctx) (\<lambda>card_id_str.
     bnd (parse_id ''invalid card_id in x-sunbeam-object-id'' card_id_str) (\<lambda>cid.
     bnd (internal ''failed to list attachments'' (select (\<lambda>d. sort_rows (\<lambda>x y. dt_le (f_created y) (f_created x))
       (filter (\<lambda>r. f_card r = cid \<and> f_tenant r = tenant) (card_attachments d))))) (\<lambda>rows.
     bnd (ask codec) (\<lambda>u. ret (map (attachment_from_row u) rows))))))"


section \<open>A failed call leaves the database as it was\<close>

lemma tidy_confirm: "tidy (fetch_one (confirm_attachment_sql i t n))"
  unfolding tidy_def
proof (intro allI impI)
  fix e w x w' assume "fetch_one (confirm_attachment_sql i t n) e w = (Inl x, w')"
  moreover have "upd_rows (attachment_is i t) g rs = rs" if "List.find (attachment_is i t) rs = None" for g rs
    using that by (auto simp: find_None_iff upd_rows_def intro: map_idI)
  ultimately show "db w' = db w"
    by (auto simp: fetch_one_def bnd_def stmt_def confirm_attachment_sql_def find_attachment_def ok_or_def ret_def raise_def
        split: if_splits option.splits)
qed

lemma quiet_record_sent [quiet_intros]: "quiet (record_sent req)"
  by (simp add: quiet_def record_sent_def)

lemma quiet_store [quiet_intros]:
  "quiet (clock_secs b)" "quiet (send b req)" "quiet (head_object b c k)" "quiet (delete_object b c k)"
  unfolding clock_secs_def send_def head_object_def delete_object_def Let_def by (intro quiet_intros)+

lemma tidy_attachment_of_checked_card [tidy_intros]:
  "(\<And>t r i. tidy (k t r i)) \<Longrightarrow> tidy (attachment_of_checked_card ctx q k)"
  unfolding attachment_of_checked_card_def by (intro tidy_intros quiet_intros)

lemma tidy_attachment_calls:
  "tidy (request_presigned_upload s ctx req)" "tidy (confirm_upload s ctx q)" "tidy (request_presigned_download s ctx q)"
  "tidy (delete_attachment s ctx q)" "tidy (list_attachments_by_card ctx)"
proof -
  have sure: "\<exists>b w'. bnd (clock_secs c) (\<lambda>x. bnd (clock_secs c) (\<lambda>y. ret (g x y))) e w = (Inr b, w')" for c e w and g :: "nat \<Rightarrow> nat \<Rightarrow> 'b"
    by (simp add: bnd_def clock_secs_def outside_def ret_def)
  show "tidy (request_presigned_upload s ctx req)"
    unfolding request_presigned_upload_def Let_def by (intro tidy_bnd quiet_intros tidy_then_sure [OF tidy_internal [OF tidy_exec]] sure)
  show "tidy (confirm_upload s ctx q)"
    unfolding confirm_upload_def
    by (intro tidy_attachment_of_checked_card tidy_bnd quiet_intros tidy_then_sure [OF tidy_internal [OF tidy_confirm]])
      (simp add: bnd_def ask_def ret_def)
  show "tidy (delete_attachment s ctx q)"
    unfolding delete_attachment_def by (intro tidy_intros quiet_intros)
  show "tidy (request_presigned_download s ctx q)" "tidy (list_attachments_by_card ctx)"
    unfolding request_presigned_download_def list_attachments_by_card_def attachment_of_checked_card_def
    by (intro tidy_quiet quiet_intros)+
qed


section \<open>What a call may touch\<close>

datatype attachment_call = Upload upload_request | Confirm string | Download string | Delete string | ListByCard

definition serve_attachment :: "attachment_service \<Rightarrow> request_context \<Rightarrow> attachment_call \<Rightarrow> (cerr, unit) act" where
  "serve_attachment s ctx call =
     (case call of
        Upload req \<Rightarrow> bnd (request_presigned_upload s ctx req) (\<lambda>_. ret ())
      | Confirm q \<Rightarrow> bnd (confirm_upload s ctx q) (\<lambda>_. ret ())
      | Download q \<Rightarrow> bnd (request_presigned_download s ctx q) (\<lambda>_. ret ())
      | Delete q \<Rightarrow> delete_attachment s ctx q
      | ListByCard \<Rightarrow> bnd (list_attachments_by_card ctx) (\<lambda>_. ret ()))"

text \<open>Every row names an object of its own, under the prefix of its card, and the last part of the key is one path component.\<close>

definition attachments_placed :: "ulid_codec \<Rightarrow> db \<Rightarrow> bool" where
  "attachments_placed u d \<longleftrightarrow> distinct (map f_id (card_attachments d))
     \<and> (\<forall>f \<in> set (card_attachments d). f_s3_key f = object_key u (f_card f) (f_id f) (f_filename f)
          \<and> CHR ''/'' \<notin> set (f_filename f) \<and> newline \<notin> set (f_filename f))"

text \<open>The rows that a call for the checked object \<open>c\<close> of tenant \<open>t\<close> has nothing to do with.\<close>

definition other_attachments :: "ulid_codec \<Rightarrow> string \<Rightarrow> string \<Rightarrow> db \<Rightarrow> attachment_row list" where
  "other_attachments u t c d = filter (\<lambda>f. \<not> (f_tenant f = t \<and> id_from_str u c = Inr (f_card f))) (card_attachments d)"

lemma tenant_is: "Option.bind (auth_ext ctx) auth_tenant_id = Some t \<Longrightarrow> tenant_id_from_request ctx e w = (Inr a, w') \<longleftrightarrow> a = t \<and> w' = w"
  by (auto simp: tenant_id_from_request_def ok_iffs)

lemma checked_is: "checked_ext ctx = Some c \<Longrightarrow> checked_object_id ctx e w = (Inr a, w') \<longleftrightarrow> a = c \<and> w' = w"
  by (auto simp: checked_object_id_def ok_iffs)

lemma attachment_of_checked_card_ok:
  assumes run: "attachment_of_checked_card ctx q k e w = (Inr x, w')"
    and ctx: "Option.bind (auth_ext ctx) auth_tenant_id = Some t" "checked_ext ctx = Some c"
  obtains i f w1 where "id_from_str (codec e) q = Inr i" "find_attachment i t (db w) = Some f" "id_str (codec e) (f_card f) = c"
    "k t f i e w1 = (Inr x, w')" "db w1 = db w"
proof -
  from run ctx obtain i w1 f where p: "parse_id ''invalid attachment_id'' q e w = (Inr i, w1)"
    and f: "find_attachment i t (db w1) = Some f" "id_str (codec e) (f_card f) = c" and k: "k t f i e (tick w1) = (Inr x, w')"
    by (auto simp: attachment_of_checked_card_def ok_iffs tenant_is checked_is)
  from p f k quietD [OF quiet_parse_id p] show thesis by (intro that [of i f "tick w1"]) (auto simp: parse_id_ok)
qed

lemma find_attachment_is: "find_attachment i t d = Some f \<Longrightarrow> f \<in> set (card_attachments d) \<and> f_id f = i \<and> f_tenant f = t"
  by (auto simp: find_attachment_def find_Some_iff attachment_is_def)

lemma one_attachment:
  assumes "attachments_placed u d" "find_attachment i t d = Some f" "q \<in> set (card_attachments d)"
  shows "attachment_is i t q \<longleftrightarrow> q = f"
  using assms find_attachment_is [OF assms(2)] by (auto simp: attachments_placed_def attachment_is_def distinct_map inj_on_def)

lemma filter_written:
  "\<forall>q \<in> set rs. A q \<longrightarrow> \<not> P q \<and> \<not> P (g q) \<Longrightarrow> filter P (upd_rows A g rs) = filter P rs \<and> filter P (del_rows A rs) = filter P rs"
  by (induction rs) (auto simp: upd_rows_def del_rows_def)

lemma other_after_write:
  assumes pl: "attachments_placed u d" and f: "find_attachment i t d = Some f" "id_from_str u c = Inr (f_card f)"
  shows "other_attachments u t c (d\<lparr>card_attachments := upd_rows (attachment_is i t) (\<lambda>r. r\<lparr>f_size := n\<rparr>) (card_attachments d)\<rparr>) = other_attachments u t c d"
    and "other_attachments u t c (d\<lparr>card_attachments := del_rows (attachment_is i t) (card_attachments d)\<rparr>) = other_attachments u t c d"
proof -
  let ?P = "\<lambda>f. \<not> (f_tenant f = t \<and> id_from_str u c = Inr (f_card f))"
  have hit: "f_tenant q = t \<and> id_from_str u c = Inr (f_card q)" if "attachment_is i t q" "q \<in> set (card_attachments d)" for q
    using one_attachment [OF pl f(1) that(2)] that(1) find_attachment_is [OF f(1)] f(2) by blast
  have "filter ?P (upd_rows (attachment_is i t) (\<lambda>r. r\<lparr>f_size := n\<rparr>) (card_attachments d)) = filter ?P (card_attachments d)
      \<and> filter ?P (del_rows (attachment_is i t) (card_attachments d)) = filter ?P (card_attachments d)"
    by (rule filter_written) (simp add: hit)
  then show "other_attachments u t c (d\<lparr>card_attachments := upd_rows (attachment_is i t) (\<lambda>r. r\<lparr>f_size := n\<rparr>) (card_attachments d)\<rparr>) = other_attachments u t c d"
    "other_attachments u t c (d\<lparr>card_attachments := del_rows (attachment_is i t) (card_attachments d)\<rparr>) = other_attachments u t c d"
    by (simp_all add: other_attachments_def)
qed

lemma placed_after_write:
  assumes "attachments_placed u d"
  shows "attachments_placed u (d\<lparr>card_attachments := upd_rows P (\<lambda>r. r\<lparr>f_size := n\<rparr>) (card_attachments d)\<rparr>)"
    and "attachments_placed u (d\<lparr>card_attachments := del_rows P (card_attachments d)\<rparr>)"
proof -
  have "map f_id (upd_rows P (\<lambda>r. r\<lparr>f_size := n\<rparr>) (card_attachments d)) = map f_id (card_attachments d)" by (simp add: upd_rows_def)
  then show "attachments_placed u (d\<lparr>card_attachments := upd_rows P (\<lambda>r. r\<lparr>f_size := n\<rparr>) (card_attachments d)\<rparr>)"
    using assms by (auto simp: attachments_placed_def set_upd_rows)
  show "attachments_placed u (d\<lparr>card_attachments := del_rows P (card_attachments d)\<rparr>)"
    using assms by (auto simp: attachments_placed_def del_rows_def distinct_map_filter)
qed


lemma upload_ok:
  assumes run: "request_presigned_upload s ctx req e w = (Inr resp, w')"
    and ctx: "Option.bind (auth_ext ctx) auth_tenant_id = Some t" "Option.bind (auth_ext ctx) auth_subject = Some sub" "checked_ext ctx = Some c"
  obtains cid i now n f where "id_from_str (codec e) c = Inr cid" "card_exists cid (db w)" "up_filename req \<noteq> ''''" "up_mime_type req \<noteq> ''''"
    "f = \<lparr>f_id = i, f_tenant = t, f_card = cid, f_filename = sanitize_filename (up_filename req), f_mimetype = up_mime_type req, f_size = 0,
        f_s3_key = object_key (codec e) cid i (sanitize_filename (up_filename req)), f_uploaded_by = sub, f_created = now\<rparr>"
    "i \<notin> f_id ` set (card_attachments (db w))" "db w' = (db w)\<lparr>card_attachments := card_attachments (db w) @ [f]\<rparr>"
    "ur_attachment_id resp = id_str (codec e) i" "ur_s3_key resp = f_s3_key f"
    "ur_presigned_url resp = presign_put (as_store s) (as_config s) n (f_s3_key f) (up_mime_type req) (upload_expires_secs s)"
proof -
  let ?f = "\<lambda>cid i now. \<lparr>f_id = i, f_tenant = t, f_card = cid, f_filename = sanitize_filename (up_filename req), f_mimetype = up_mime_type req, f_size = 0,
        f_s3_key = object_key (codec e) cid i (sanitize_filename (up_filename req)), f_uploaded_by = sub, f_created = now\<rparr>"
  define i where "i = Ident (new_ulid e (step w)) Ulid"
  from run ctx obtain cid where p: "id_from_str (codec e) c = Inr cid"
    and ne: "up_filename req \<noteq> []" "up_mime_type req \<noteq> []"
    and ins: "insert_attachment_sql (?f cid i) (sql_now e (tick w)) (db w) = Some (db w')"
    and resp: "resp = \<lparr>ur_presigned_url = presign_put (as_store s) (as_config s) (unix_secs (as_store s) (Suc (Suc (step w))))
         (object_key (codec e) cid i (sanitize_filename (up_filename req))) (up_mime_type req) (upload_expires_secs s),
       ur_s3_key = object_key (codec e) cid i (sanitize_filename (up_filename req)), ur_attachment_id = id_str (codec e) i,
       ur_expires_at = now_plus_secs (unix_secs (as_store s) (Suc (Suc (Suc (step w))))) (upload_expires_secs s)\<rparr>"
    unfolding i_def
    by (auto simp: request_presigned_upload_def Let_def ok_iffs clock_secs_def)
  from ins have "card_exists cid (db w)" "i \<notin> f_id ` set (card_attachments (db w))"
    and d: "db w' = (db w)\<lparr>card_attachments := card_attachments (db w) @ [?f cid i (sql_now e (tick w))]\<rparr>"
    by (auto simp: insert_attachment_sql_def Let_def split: if_split_asm)
  with p ne resp show thesis
    by (intro that [of cid "?f cid i (sql_now e (tick w))" i "sql_now e (tick w)" "unix_secs (as_store s) (Suc (Suc (step w)))"]) simp_all
qed

lemma head_object_ok:
  assumes "head_object b c k e w = (Inr h, w')"
  shows "\<exists>n req resp. http b n req = Inr resp \<and> hr_method req = ''HEAD'' \<and> hr_url req = object_url c k \<and> hp_status resp = 200 \<and> hd_size h = content_size resp"
proof -
  from assms obtain now n resp where
    "http b n \<lparr>hr_method = ''HEAD'', hr_url = object_url c k, hr_headers = sign_request_headers b c now ''HEAD'' k ''''\<rparr> = Inr resp"
    "hp_status resp = 200" "hd_size h = content_size resp"
    by (auto simp: head_object_def send_def record_sent_def clock_secs_def ok_iffs split: sum.splits if_split_asm)
  then show ?thesis by (metis http_request.select_convs(1,2))
qed

lemma confirm_ok:
  assumes run: "confirm_upload s ctx q e w = (Inr m, w')"
    and ctx: "Option.bind (auth_ext ctx) auth_tenant_id = Some t" "checked_ext ctx = Some c"
  obtains i f n req resp where "id_from_str (codec e) q = Inr i" "find_attachment i t (db w) = Some f" "id_str (codec e) (f_card f) = c"
    "http (as_store s) n req = Inr resp" "hr_method req = ''HEAD''" "hr_url req = object_url (as_config s) (f_s3_key f)" "hp_status resp = 200"
    "m = attachment_from_row (codec e) (f\<lparr>f_size := content_size resp\<rparr>)"
    "db w' = (db w)\<lparr>card_attachments := upd_rows (attachment_is i t) (\<lambda>r. r\<lparr>f_size := content_size resp\<rparr>) (card_attachments (db w))\<rparr>"
proof -
  obtain i f w1 where
    i: "id_from_str (codec e) q = Inr i" and f: "find_attachment i t (db w) = Some f" "id_str (codec e) (f_card f) = c" and w1: "db w1 = db w"
    and k: "bnd (map_err s3_err_to_status (head_object (as_store s) (as_config s) (f_s3_key f))) (\<lambda>head.
       bnd (internal ''failed to confirm attachment'' (fetch_one (confirm_attachment_sql i t (hd_size head)))) (\<lambda>updated.
       bnd (ask codec) (\<lambda>u. ret (attachment_from_row u updated)))) e w1 = (Inr m, w')"
    by (rule attachment_of_checked_card_ok [OF run [unfolded confirm_upload_def] ctx])
  from k obtain h w2 where h: "head_object (as_store s) (as_config s) (f_s3_key f) e w1 = (Inr h, w2)"
    and upd: "\<exists>x. confirm_attachment_sql i t (hd_size h) (sql_now e w2) (db w2) = Some (Some x, db w') \<and> m = attachment_from_row (codec e) x"
    by (auto simp: ok_iffs)
  have w2: "db w2 = db w" using w1 quietD [OF quiet_store(3) h] by simp
  from head_object_ok [OF h] obtain n req resp where "http (as_store s) n req = Inr resp" "hr_method req = ''HEAD''"
    "hr_url req = object_url (as_config s) (f_s3_key f)" "hp_status resp = 200" "hd_size h = content_size resp" by blast
  with i f upd show thesis by (intro that [of i f n req resp]) (auto simp: confirm_attachment_sql_def w2)
qed

lemma delete_ok:
  assumes run: "delete_attachment s ctx q e w = (Inr u, w')"
    and ctx: "Option.bind (auth_ext ctx) auth_tenant_id = Some t" "checked_ext ctx = Some c"
  obtains i f where "id_from_str (codec e) q = Inr i" "find_attachment i t (db w) = Some f" "id_str (codec e) (f_card f) = c"
    "db w' = (db w)\<lparr>card_attachments := del_rows (attachment_is i t) (card_attachments (db w))\<rparr>"
proof -
  obtain i f w1 where
    i: "id_from_str (codec e) q = Inr i" and f: "find_attachment i t (db w) = Some f" "id_str (codec e) (f_card f) = c" and w1: "db w1 = db w"
    and k: "bnd (attempt (delete_object (as_store s) (as_config s) (f_s3_key f))) (\<lambda>_.
       internal ''failed to delete attachment row'' (exec (delete_attachment_sql i t))) e w1 = (Inr u, w')"
    by (rule attachment_of_checked_card_ok [OF run [unfolded delete_attachment_def] ctx])
  from k obtain x w2 where d: "delete_object (as_store s) (as_config s) (f_s3_key f) e w1 = (x, w2)"
    and del: "delete_attachment_sql i t (sql_now e w2) (db w2) = Some (db w')"
    by (auto simp: ok_iffs)
  then show thesis using i f w1 quietD [OF quiet_store(4) d] by (intro that [of i f]) (auto simp: delete_attachment_sql_def)
qed

lemma download_ok:
  assumes run: "request_presigned_download s ctx q e w = (Inr (url, at), w')"
    and ctx: "Option.bind (auth_ext ctx) auth_tenant_id = Some t" "checked_ext ctx = Some c"
  obtains i f n where "id_from_str (codec e) q = Inr i" "find_attachment i t (db w) = Some f" "id_str (codec e) (f_card f) = c"
    "url = presign_get (as_store s) (as_config s) n (f_s3_key f) (download_expires_secs s)" "db w' = db w"
proof -
  obtain i f w1 where
    i: "id_from_str (codec e) q = Inr i" and f: "find_attachment i t (db w) = Some f" "id_str (codec e) (f_card f) = c" and w1: "db w1 = db w"
    and k: "bnd (clock_secs (as_store s)) (\<lambda>signed_at. bnd (clock_secs (as_store s)) (\<lambda>now.
      ret (presign_get (as_store s) (as_config s) signed_at (f_s3_key f) (download_expires_secs s), now_plus_secs now (download_expires_secs s))))
      e w1 = (Inr (url, at) :: cerr + _, w')"
    by (rule attachment_of_checked_card_ok [OF run [unfolded request_presigned_download_def] ctx])
  from k have "url = presign_get (as_store s) (as_config s) (unix_secs (as_store s) (step w1)) (f_s3_key f) (download_expires_secs s)" "db w' = db w1"
    by (simp_all add: ok_iffs clock_secs_def)
  with i f w1 show thesis by (intro that [of i f "unix_secs (as_store s) (step w1)"]) simp_all
qed


lemma placed_after_upload:
  assumes pl: "attachments_placed u d" and new: "i \<notin> f_id ` set (card_attachments d)" and f: "f_id f = i" "f_s3_key f = object_key u (f_card f) i (f_filename f)"
    and name: "f_filename f = sanitize_filename name" "rust_str name"
  shows "attachments_placed u (d\<lparr>card_attachments := card_attachments d @ [f]\<rparr>)"
proof -
  have clean: "c \<noteq> CHR ''/'' \<and> 32 \<le> (of_char c :: nat)" if "c \<in> set (f_filename f)" for c
    using sanitize_clean [OF name(2)] that unfolding name(1) by blast
  have "CHR ''/'' \<notin> set (f_filename f)" using clean by blast
  moreover have "newline \<notin> set (f_filename f)" using clean [of newline] by (auto simp: newline_def)
  ultimately show ?thesis using pl new f by (auto simp: attachments_placed_def)
qed

section \<open>What is sent to the store\<close>

definition silent :: "('e, 'a) act \<Rightarrow> bool" where
  "silent m \<longleftrightarrow> (\<forall>e w. sent (snd (m e w)) = sent w)"

named_theorems silent_intros \<open>actions that send nothing to the object store\<close>

lemma silentD: "silent m \<Longrightarrow> m e w = (r, w') \<Longrightarrow> sent w' = sent w"
  unfolding silent_def by (metis snd_conv)

lemma silent_basic [silent_intros]:
  "silent (ret a)" "silent (raise x)" "silent (ask f)" "silent new_id" "silent (ok_or x r)" "silent (require b x)"
  "silent (outside g)" "silent (select h)" "silent (stmt k)" "silent (exec l)"
  by (auto simp: silent_def ret_def raise_def ask_def new_id_def ok_or_def require_def outside_def select_def exec_def stmt_def
      mark_failed_def split: option.split)

lemma silent_bnd [silent_intros]: "silent m \<Longrightarrow> (\<And>a. silent (f a)) \<Longrightarrow> silent (bnd m f)"
  unfolding silent_def bnd_def by (auto split: prod.split sum.split) (metis snd_conv)+

lemma silent_map_err [silent_intros]: "silent m \<Longrightarrow> silent (map_err g m)" "silent m \<Longrightarrow> silent (internal msg m)"
  unfolding silent_def map_err_def internal_def by (auto split: prod.split sum.split) (metis snd_conv)+

lemma silent_parts [silent_intros]:
  "silent (tenant_id_from_request ctx)" "silent (subject_from_request ctx)" "silent (checked_object_id ctx)" "silent (parse_id msg q)"
  "silent (clock_secs b)" "silent (fetch_one g)"
  unfolding tenant_id_from_request_def subject_from_request_def checked_object_id_def parse_id_def clock_secs_def fetch_one_def Let_def
  by (auto split: option.split sum.split invalid_id.split intro!: silent_intros)

lemma bnd_steps: "bnd (bnd m f) g = bnd m (\<lambda>x. bnd (f x) g)" "bnd (ret a) f = f a"
  by (auto simp: bnd_def ret_def fun_eq_iff split: prod.split sum.split)

text \<open>Before its row is found and its card compared a call sends nothing.\<close>

lemma checked_card_sent:
  assumes run: "attachment_of_checked_card ctx q k e w = (r, w')"
    and ctx: "Option.bind (auth_ext ctx) auth_tenant_id = Some t" "checked_ext ctx = Some c"
  shows "(sent w' = sent w \<and> (\<exists>x. r = Inl x)) \<or> (\<exists>i f w1. id_from_str (codec e) q = Inr i \<and> find_attachment i t (db w) = Some f
    \<and> id_str (codec e) (f_card f) = c \<and> k t f i e w1 = (r, w') \<and> sent w1 = sent w)"
proof -
  let ?p = "attachment_of_checked_card ctx q (\<lambda>t f i. ret (t, f, i))"
  have "attachment_of_checked_card ctx q k = bnd ?p (\<lambda>(t, f, i). k t f i)"
    by (simp add: attachment_of_checked_card_def bnd_steps)
  moreover have "silent ?p" unfolding attachment_of_checked_card_def by (intro silent_intros)
  moreover obtain r1 w1 where p: "?p e w = (r1, w1)" by fastforce
  ultimately have sent: "sent w1 = sent w" and b: "bnd ?p (\<lambda>(t, f, i). k t f i) e w = (r, w')"
    using run silentD by (metis, metis)
  show ?thesis
  proof (cases r1)
    case (Inl x)
    then show ?thesis using sent b p by (auto simp: bnd_def)
  next
    case (Inr y)
    from attachment_of_checked_card_ok [OF p [unfolded Inr] ctx] obtain i f where
      "id_from_str (codec e) q = Inr i" "find_attachment i t (db w) = Some f" "id_str (codec e) (f_card f) = c" "y = (t, f, i)"
      by (metis (no_types, lifting) prod.inject ret_def sum.inject(2))
    then show ?thesis using sent b p Inr by (auto simp: bnd_def)
  qed
qed

lemma store_sends:
  "head_object b g k e w = (r, w') \<Longrightarrow> sent w' = sent w @ [(''HEAD'', object_url g k)]"
  "delete_object b g k e w = (r', w') \<Longrightarrow> sent w' = sent w @ [(''DELETE'', object_url g k)]"
  by (auto simp: head_object_def delete_object_def send_def record_sent_def clock_secs_def outside_def bnd_def ret_def raise_def
      split: sum.splits if_splits)

text \<open>
  The requests a call for the checked object \<open>c\<close> of tenant \<open>t\<close> has any business sending: Confirm asks for the object of the
  row it names, Delete deletes it, and the row is of that card.
\<close>

definition own_requests :: "ulid_codec \<Rightarrow> s3_config \<Rightarrow> string \<Rightarrow> string \<Rightarrow> db \<Rightarrow> attachment_call \<Rightarrow> (string \<times> string) set" where
  "own_requests u g t c d call =
     {(m, object_url g (f_s3_key f)) | m f. f \<in> set (card_attachments d) \<and> f_tenant f = t \<and> id_str u (f_card f) = c
        \<and> (case call of Confirm q \<Rightarrow> m = ''HEAD'' \<and> id_from_str u q = Inr (f_id f)
           | Delete q \<Rightarrow> m = ''DELETE'' \<and> id_from_str u q = Inr (f_id f) | _ \<Rightarrow> False)}"

lemma bnd_silent: "bnd m f e w = (r, w') \<Longrightarrow> (\<And>a. silent (f a)) \<Longrightarrow> \<exists>r1 w1. m e w = (r1, w1) \<and> sent w' = sent w1"
  unfolding bnd_def by (auto split: prod.splits sum.splits dest!: silentD)

lemma attachment_requests:
  assumes run: "serve_attachment s ctx call e w = (r, w')"
    and ctx: "Option.bind (auth_ext ctx) auth_tenant_id = Some t" "checked_ext ctx = Some c"
  shows "(sent w' = sent w \<and> ((\<exists>q. call = Delete q) \<longrightarrow> (\<exists>x. r = Inl x)))
    \<or> (\<exists>x \<in> own_requests (codec e) (as_config s) t c (db w) call. sent w' = sent w @ [x])"
proof (cases call)
  case (Confirm q)
  have "\<exists>r1 w1. confirm_upload s ctx q e w = (r1, w1) \<and> sent w' = sent w1"
    by (rule bnd_silent [of _ "\<lambda>_. ret ()" e w r]) (use run Confirm in \<open>simp_all add: serve_attachment_def silent_basic\<close>)
  then obtain r1 w1 where c1: "confirm_upload s ctx q e w = (r1, w1)" "sent w' = sent w1" by blast
  from checked_card_sent [OF c1(1) [unfolded confirm_upload_def] ctx] show ?thesis
  proof (elim disjE exE conjE)
    fix i f w2
    assume row: "id_from_str (codec e) q = Inr i" "find_attachment i t (db w) = Some f" "id_str (codec e) (f_card f) = c"
      and k: "bnd (map_err s3_err_to_status (head_object (as_store s) (as_config s) (f_s3_key f))) (\<lambda>head.
       bnd (internal ''failed to confirm attachment'' (fetch_one (confirm_attachment_sql i t (hd_size head)))) (\<lambda>updated.
       bnd (ask codec) (\<lambda>u. ret (attachment_from_row u updated)))) e w2 = (r1, w1)" and w2: "sent w2 = sent w"
    have "\<exists>r3 w3. map_err s3_err_to_status (head_object (as_store s) (as_config s) (f_s3_key f)) e w2 = (r3, w3) \<and> sent w1 = sent w3"
      by (rule bnd_silent [OF k]) (intro silent_intros)
    then obtain r3 w3 where h: "map_err s3_err_to_status (head_object (as_store s) (as_config s) (f_s3_key f)) e w2 = (r3, w3)"
      "sent w1 = sent w3" by blast
    then have "sent w3 = sent w2 @ [(''HEAD'', object_url (as_config s) (f_s3_key f))]"
      by (auto simp: map_err_def split: prod.splits sum.splits dest: store_sends(1))
    then show ?thesis
      using h w2 c1 row find_attachment_is [OF row(2)] Confirm by (auto simp: own_requests_def)
  qed (use c1 Confirm in simp)
next
  case (Delete q)
  from run Delete have run': "delete_attachment s ctx q e w = (r, w')" by (simp add: serve_attachment_def)
  from checked_card_sent [OF run' [unfolded delete_attachment_def] ctx] show ?thesis
  proof (elim disjE exE conjE)
    fix i f w2
    assume row: "id_from_str (codec e) q = Inr i" "find_attachment i t (db w) = Some f" "id_str (codec e) (f_card f) = c"
      and k: "bnd (attempt (delete_object (as_store s) (as_config s) (f_s3_key f))) (\<lambda>_.
       internal ''failed to delete attachment row'' (exec (delete_attachment_sql i t))) e w2 = (r, w')" and w2: "sent w2 = sent w"
    have "\<exists>(r3 :: cerr + (s3_error + unit)) w3. attempt (delete_object (as_store s) (as_config s) (f_s3_key f)) e w2 = (r3, w3) \<and> sent w' = sent w3"
      by (rule bnd_silent [OF k]) (intro silent_intros)
    then obtain r3 :: "cerr + (s3_error + unit)" and w3 where h: "attempt (delete_object (as_store s) (as_config s) (f_s3_key f)) e w2 = (r3, w3)"
      "sent w' = sent w3" by blast
    then have "sent w3 = sent w2 @ [(''DELETE'', object_url (as_config s) (f_s3_key f))]"
      by (auto simp: attempt_def split: prod.splits sum.splits dest: store_sends(2))
    then show ?thesis
      using h w2 row find_attachment_is [OF row(2)] Delete by (auto simp: own_requests_def)
  qed (use Delete in simp)
next
  case (Upload req)
  have "silent (request_presigned_upload s ctx req)"
    unfolding request_presigned_upload_def Let_def by (intro silent_intros)
  then show ?thesis using run Upload by (auto simp: serve_attachment_def dest!: silentD [rotated] intro!: silent_intros)
next
  case (Download q)
  have "silent (request_presigned_download s ctx q)"
    unfolding request_presigned_download_def attachment_of_checked_card_def by (intro silent_intros)
  then show ?thesis using run Download by (auto simp: serve_attachment_def dest!: silentD [rotated] intro!: silent_intros)
next
  case ListByCard
  have "silent (list_attachments_by_card ctx)"
    unfolding list_attachments_by_card_def by (intro silent_intros)
  then show ?thesis using run ListByCard by (auto simp: serve_attachment_def dest!: silentD [rotated] intro!: silent_intros)
qed



lemma no_slash_uuid: "CHR ''/'' \<notin> set (format_uuid v)"
proof -
  have "list_all is_hex (hex_fixed 32 (unat v))" by (rule hex_fixed_hex)
  moreover have "\<not> is_hex (CHR ''/'')" by code_simp
  ultimately have "CHR ''/'' \<notin> set (hex_fixed 32 (unat v))" by (auto simp: list_all_iff)
  then show ?thesis by (auto simp: format_uuid_def Let_def dest!: in_set_takeD in_set_dropD)
qed

lemma id_str_cut:
  assumes u: "ulid_crate u" and eq: "id_str u i @ CHR ''/'' # x = id_str u j @ CHR ''/'' # y"
  shows "i = j \<and> x = y"
proof (cases "id_kind i = id_kind j")
  case True
  then have "length (id_str u i) = length (id_str u j)" by (auto simp: id_str_def ulid_crate.show_length [OF u] split: id_kind.split)
  with eq have "id_str u i = id_str u j" "x = y" by simp_all
  then show ?thesis by (metis ulid_crate.id_from_str_show [OF u] sum.inject(2))
next
  case False
  have no: False if "ulid_show u a @ CHR ''/'' # r = format_uuid b @ CHR ''/'' # s" for a b r s
  proof -
    from that have "(format_uuid b @ CHR ''/'' # s) ! 26 = CHR ''/''" by (metis nth_append_length ulid_crate.show_length [OF u])
    then have "format_uuid b ! 26 = CHR ''/''" by (simp add: nth_append)
    then show False using no_slash_uuid [of b] nth_mem [of 26 "format_uuid b"] by simp
  qed
  from False eq show ?thesis by (cases "id_kind i"; cases "id_kind j") (auto simp: id_str_def dest: no sym [THEN no])
qed

lemma object_key_inject:
  assumes "ulid_crate u" "object_key u cid i x = object_key u cid' i' x'"
  shows "cid = cid'" "i = i'" "x = x'"
proof -
  from assms(2) have "id_str u cid @ CHR ''/'' # (id_str u i @ CHR ''/'' # x) = id_str u cid' @ CHR ''/'' # (id_str u i' @ CHR ''/'' # x')"
    by (simp add: object_key_def)
  from id_str_cut [OF assms(1) this] show "cid = cid'" "i = i'" "x = x'" using id_str_cut [OF assms(1)] by blast+
qed

text \<open>
  C34. What the URLs open: an upload URL is a PUT for a fresh object under the prefix of the checked card, which no
  attachment has as its own yet, so nothing is overwritten through it; a download URL is a GET for the object of
  an attachment of the caller's tenant and of the checked card, under the prefix of this card, and this object is
  no other attachment's. A confirmed upload has been found: the store answered a HEAD request for the object with
  200, and the size in the answer is the one it reported.
\<close>

theorem attachment_access:
  assumes pl: "attachments_placed (codec e) (db w)" and u: "ulid_crate (codec e)"
    and ctx: "Option.bind (auth_ext ctx) auth_tenant_id = Some t" "Option.bind (auth_ext ctx) auth_subject = Some sub" "checked_ext ctx = Some c"
  shows "(\<forall>req resp w'. request_presigned_upload s ctx req e w = (Inr resp, w') \<longrightarrow>
      (\<exists>cid n. id_from_str (codec e) c = Inr cid \<and> prefix (''kanban/cards/'' @ id_str (codec e) cid @ ''/'') (ur_s3_key resp)
        \<and> ur_s3_key resp \<notin> f_s3_key ` set (card_attachments (db w))
        \<and> ur_presigned_url resp = presign_put (as_store s) (as_config s) n (ur_s3_key resp) (up_mime_type req) (upload_expires_secs s)))
    \<and> (\<forall>q url until w'. request_presigned_download s ctx q e w = (Inr (url, until), w') \<longrightarrow>
      (\<exists>f n. f \<in> set (card_attachments (db w)) \<and> f_tenant f = t \<and> id_str (codec e) (f_card f) = c
        \<and> prefix (''kanban/cards/'' @ c @ ''/'') (f_s3_key f) \<and> (\<forall>g \<in> set (card_attachments (db w)). f_s3_key g = f_s3_key f \<longrightarrow> g = f)
        \<and> url = presign_get (as_store s) (as_config s) n (f_s3_key f) (download_expires_secs s)))
    \<and> (\<forall>q m w'. confirm_upload s ctx q e w = (Inr m, w') \<longrightarrow>
      (\<exists>n req resp. http (as_store s) n req = Inr resp \<and> hr_method req = ''HEAD'' \<and> hp_status resp = 200
        \<and> hr_url req = object_url (as_config s) (am_s3_key m) \<and> am_size_bytes m = content_size resp))"
proof (intro conjI allI impI)
  fix req resp w' assume "request_presigned_upload s ctx req e w = (Inr resp, w')"
  from upload_ok [OF this ctx] obtain cid i n f where c: "id_from_str (codec e) c = Inr cid" and i: "i \<notin> f_id ` set (card_attachments (db w))"
    and f: "f_s3_key f = object_key (codec e) cid i (sanitize_filename (up_filename req))" and key: "ur_s3_key resp = f_s3_key f"
    and url: "ur_presigned_url resp = presign_put (as_store s) (as_config s) n (f_s3_key f) (up_mime_type req) (upload_expires_secs s)"
    by (metis attachment_row.select_convs(7))
  have "object_key (codec e) cid i (sanitize_filename (up_filename req)) \<notin> f_s3_key ` set (card_attachments (db w))"
    using pl i object_key_inject(2) [OF u] by (auto simp: attachments_placed_def) (metis imageI)
  with c f key url show "\<exists>cid n. id_from_str (codec e) c = Inr cid \<and> prefix (''kanban/cards/'' @ id_str (codec e) cid @ ''/'') (ur_s3_key resp)
        \<and> ur_s3_key resp \<notin> f_s3_key ` set (card_attachments (db w))
        \<and> ur_presigned_url resp = presign_put (as_store s) (as_config s) n (ur_s3_key resp) (up_mime_type req) (upload_expires_secs s)"
    by (intro exI [of _ cid] exI [of _ n]) (simp add: object_key_def)
next
  fix q url until w' assume "request_presigned_download s ctx q e w = (Inr (url, until), w')"
  from download_ok [OF this ctx(1,3)] obtain i f n where fi: "find_attachment i t (db w) = Some f" and c: "id_str (codec e) (f_card f) = c"
    and url: "url = presign_get (as_store s) (as_config s) n (f_s3_key f) (download_expires_secs s)" by metis
  note f = find_attachment_is [OF fi]
  have key: "f_s3_key g = object_key (codec e) (f_card g) (f_id g) (f_filename g)" if "g \<in> set (card_attachments (db w))" for g
    using pl that unfolding attachments_placed_def by blast
  have "g = f" if "g \<in> set (card_attachments (db w))" "f_s3_key g = f_s3_key f" for g
  proof -
    have "f_id g = f_id f" using that(2) key [OF that(1)] key [of f] f object_key_inject(2) [OF u] by metis
    with pl that(1) f show ?thesis unfolding attachments_placed_def by (metis distinct_map inj_onD)
  qed
  with f c url key [of f] show "\<exists>f n. f \<in> set (card_attachments (db w)) \<and> f_tenant f = t \<and> id_str (codec e) (f_card f) = c
        \<and> prefix (''kanban/cards/'' @ c @ ''/'') (f_s3_key f) \<and> (\<forall>g \<in> set (card_attachments (db w)). f_s3_key g = f_s3_key f \<longrightarrow> g = f)
        \<and> url = presign_get (as_store s) (as_config s) n (f_s3_key f) (download_expires_secs s)"
    by (intro exI [of _ f] exI [of _ n]) (auto simp: object_key_def)
next
  fix q m w' assume run: "confirm_upload s ctx q e w = (Inr m, w')"
  show "\<exists>n req resp. http (as_store s) n req = Inr resp \<and> hr_method req = ''HEAD'' \<and> hp_status resp = 200
        \<and> hr_url req = object_url (as_config s) (am_s3_key m) \<and> am_size_bytes m = content_size resp"
    by (rule confirm_ok [OF run ctx(1,3)]) (fastforce simp: attachment_from_row_def)
qed

section \<open>Witnesses\<close>

definition sample_attachments :: attachment_service where
  "sample_attachments = \<lparr>as_store = sample_store, as_config = sample_config, upload_expires_secs = 900, download_expires_secs = 300\<rparr>"

definition sample_upload :: upload_request where
  "sample_upload = \<lparr>up_filename = ''notes/today.pdf'', up_mime_type = ''application/pdf''\<rparr>"

lemma sample_upload_runs:
  "\<exists>resp w'. request_presigned_upload sample_attachments (sample_context (sid 5)) sample_upload sample_env (sample_world sample_db) = (Inr resp, w')"
  by (simp add: evals request_evals sample_evals request_presigned_upload_def Let_def insert_attachment_sql_def card_exists_def
    sample_upload_def clock_secs_def)

lemma sample_caller_attachment: "Option.bind (auth_ext (sample_context i)) auth_tenant_id = Some ''t''"
    "Option.bind (auth_ext (sample_context i)) auth_subject = Some ''s''"
  by (simp_all add: sample_context_def)

lemma sample_attachment_facts:
  "attachments_placed (codec sample_env) (db (sample_world sample_db))" "ulid_crate (codec sample_env)"
  "checked_ext (sample_context (sid 5)) = Some (id_str crockford (sid 5))" "rust_str (up_filename sample_upload)"
proof -
  have "rust_str ''notes/today.pdf''" by code_simp
  then show "rust_str (up_filename sample_upload)" by (simp add: sample_upload_def)
qed (simp_all add: attachments_placed_def sample_evals crockford.ulid_crate_axioms sample_context_def)

text \<open>
  The order of DeleteAttachment: when its SQL fails after the store has deleted the object, the row is left and names
  an object that is gone.
\<close>

definition attached :: attachment_row where
  "attached = \<lparr>f_id = sid 70, f_tenant = ''t'', f_card = sid 5, f_filename = ''a.pdf'', f_mimetype = ''application/pdf'', f_size = 9,
     f_s3_key = object_key crockford (sid 5) (sid 70) ''a.pdf'', f_uploaded_by = ''s'', f_created = (0, 0)\<rparr>"

lemma failed_delete_loses_object:
  "\<exists>x w'. delete_attachment sample_attachments (sample_context (sid 5)) (id_str crockford (sid 70)) (sample_env\<lparr>db_fault := \<lambda>n. n = 3\<rparr>)
       (sample_world (sample_db\<lparr>card_attachments := [attached]\<rparr>)) = (Inl x, w')
     \<and> card_attachments (db w') = [attached] \<and> sent w' = [(''DELETE'', object_url (as_config sample_attachments) (f_s3_key attached))]"
  by (simp add: evals request_evals sample_evals delete_attachment_def attachment_of_checked_card_def find_attachment_def attachment_is_def
    attached_def delete_object_def clock_secs_def send_def record_sent_def Let_def sample_attachments_def sample_store_def mark_failed_def)


theorem attachment_access_witness:
  "\<exists>resp w'. request_presigned_upload sample_attachments (sample_context (sid 5)) sample_upload sample_env (sample_world sample_db) = (Inr resp, w')
     \<and> prefix (''kanban/cards/'' @ id_str crockford (sid 5) @ ''/'') (ur_s3_key resp)"
proof -
  obtain resp w' where run: "request_presigned_upload sample_attachments (sample_context (sid 5)) sample_upload sample_env (sample_world sample_db) = (Inr resp, w')"
    using sample_upload_runs by blast
  from attachment_access [OF sample_attachment_facts(1,2) sample_caller_attachment sample_attachment_facts(3), THEN conjunct1] run
  obtain cid where "id_from_str (codec sample_env) (id_str crockford (sid 5)) = Inr cid"
    "prefix (''kanban/cards/'' @ id_str (codec sample_env) cid @ ''/'') (ur_s3_key resp)" by blast
  with run show ?thesis by (auto simp: crockford.id_from_str_show)
qed

end
