(* ===== verification/Github.thy ===== *)
theory Github
  imports Attachments Card_Functional
begin

text \<open>
  \<open>src/services/github.rs\<close>: links from cards to GitHub issues and pull requests. The GitHub API is the parameter
  \<open>api_get\<close>: the answer to the n-th external request, a transport error, or a status and the decoded JSON body.
\<close>

section \<open>Constants and mappings\<close>

definition KIND_ISSUE :: string where
  "KIND_ISSUE = ''issue''"

definition KIND_PULL_REQUEST :: string where
  "KIND_PULL_REQUEST = ''pull_request''"

definition DEFAULT_SEARCH_LIMIT :: int where
  "DEFAULT_SEARCH_LIMIT = 20"

definition MAX_SEARCH_LIMIT :: int where
  "MAX_SEARCH_LIMIT = 50"

definition USER_AGENT :: string where
  "USER_AGENT = ''sunbeam-kanban''"

definition split_once :: "char \<Rightarrow> string \<Rightarrow> (string \<times> string) option" where
  "split_once c s = (if c \<in> set s then Some (takeWhile ((\<noteq>) c) s, tl (dropWhile ((\<noteq>) c) s)) else None)"

definition split_repo :: "string \<Rightarrow> string \<times> string" where
  "split_repo repo = (case split_once (CHR ''/'') repo of Some p \<Rightarrow> p | None \<Rightarrow> (repo, ''''))"

text \<open>\<open>str::trim\<close> on Unicode white space.\<close>

definition trim_utf8 :: "string \<Rightarrow> string" where
  "trim_utf8 s = concat (rev (dropWhile is_white (rev (dropWhile is_white (utf8_chars s)))))"

definition build_search_query :: "string \<Rightarrow> string \<Rightarrow> string \<Rightarrow> string" where
  "build_search_query repo_owner repo_name query =
     (let scope = (if repo_name \<noteq> '''' then ''repo:'' @ repo_owner @ ''/'' @ repo_name
        else if repo_owner \<noteq> '''' then ''user:'' @ repo_owner else '''')
      in trim_utf8 (trim_utf8 query @ '' '' @ scope))"

record issue_info =
  in_kind :: string
  in_title :: "string option"
  in_state :: string
  in_url :: "string option"

definition str_field :: "json \<Rightarrow> string \<Rightarrow> string option" where
  "str_field v key = Option.bind (json_get v key) as_str"

definition parse_issue_json :: "json \<Rightarrow> issue_info" where
  "parse_issue_json v = \<lparr>in_kind = (if json_get v ''pull_request'' \<noteq> None then KIND_PULL_REQUEST else KIND_ISSUE),
     in_title = str_field v ''title'', in_state = (case str_field v ''state'' of Some s \<Rightarrow> s | None \<Rightarrow> ''open''),
     in_url = str_field v ''html_url''\<rparr>"

record github_issue_result =
  gi_repo_owner :: string
  gi_repo_name :: string
  gi_number :: int
  gi_kind :: string
  gi_title :: string
  gi_state :: string
  gi_url :: string

text \<open>\<open>rsplit(pat).next()\<close>: what follows the last occurrence, or everything.\<close>

fun after_last :: "string \<Rightarrow> string \<Rightarrow> string" where
  "after_last pat [] = []"
| "after_last pat (c # cs) =
     (if contains_str pat cs then after_last pat cs
      else case strip_prefix pat (c # cs) of Some r \<Rightarrow> r | None \<Rightarrow> c # cs)"

definition parse_search_item :: "json \<Rightarrow> github_issue_result" where
  "parse_search_item item =
     (let (owner, name) = (case str_field item ''repository_url'' of Some u \<Rightarrow> split_repo (after_last ''/repos/'' u) | None \<Rightarrow> ('''', ''''));
          info = parse_issue_json item
      in \<lparr>gi_repo_owner = owner, gi_repo_name = name,
          gi_number = as_i32 (case Option.bind (json_get item ''number'') as_i64 of Some n \<Rightarrow> n | None \<Rightarrow> 0),
          gi_kind = in_kind info, gi_title = (case in_title info of Some s \<Rightarrow> s | None \<Rightarrow> ''''), gi_state = in_state info,
          gi_url = (case in_url info of Some s \<Rightarrow> s | None \<Rightarrow> '''')\<rparr>)"

definition fallback_url :: "string \<Rightarrow> string \<Rightarrow> int \<Rightarrow> string" where
  "fallback_url repo_owner repo_name number = ''https://github.com/'' @ repo_owner @ ''/'' @ repo_name @ ''/issues/'' @ show_int number"

record github_link_detail =
  gd_id :: string
  gd_card_id :: string
  gd_repo_owner :: string
  gd_repo_name :: string
  gd_number :: int
  gd_kind :: string
  gd_title :: string
  gd_state :: string
  gd_url :: string
  gd_last_synced_at :: timestamp

definition to_detail :: "ulid_codec \<Rightarrow> github_row \<Rightarrow> github_link_detail" where
  "to_detail u r = (let (owner, name) = split_repo (g_repo r) in
     \<lparr>gd_id = id_str u (g_id r), gd_card_id = id_str u (g_card r), gd_repo_owner = owner, gd_repo_name = name, gd_number = g_issue r,
      gd_kind = g_kind r, gd_title = (case g_title r of Some s \<Rightarrow> s | None \<Rightarrow> ''''), gd_state = g_state r, gd_url = g_url r,
      gd_last_synced_at = to_proto_ts (g_synced r)\<rparr>)"

section \<open>The GitHub API\<close>

record github_get =
  gg_url :: string
  gg_headers :: "(string \<times> string) list"
  gg_query :: "(string \<times> string) list"

record github_reply =
  gr_status :: nat
  gr_json :: "json option"

record github_service =
  api_base_url :: string
  api_token :: string
  api_get :: "nat \<Rightarrow> github_get \<Rightarrow> string + github_reply"

definition github_request :: "github_service \<Rightarrow> string \<Rightarrow> (string \<times> string) list \<Rightarrow> github_get" where
  "github_request svc url query = \<lparr>gg_url = url,
     gg_headers = [(''user-agent'', USER_AGENT), (''accept'', ''application/vnd.github+json'')]
       @ (if api_token svc \<noteq> '''' then [(''authorization'', ''Bearer '' @ api_token svc)] else []),
     gg_query = query\<rparr>"

text \<open>Send, check the status, decode the body: with the three error texts of the caller.\<close>

definition get_json :: "github_service \<Rightarrow> github_get \<Rightarrow> string \<Rightarrow> string \<Rightarrow> string \<Rightarrow> (cerr, json) act" where
  "get_json svc req failed refused undecoded =
     bnd (internal failed (outside (\<lambda>n. api_get svc n req))) (\<lambda>resp.
     bnd (require (200 \<le> gr_status resp \<and> gr_status resp < 300) (Internal, refused)) (\<lambda>_.
     ok_or (Internal, undecoded) (gr_json resp)))"

definition fetch_issue :: "github_service \<Rightarrow> string \<Rightarrow> string \<Rightarrow> int \<Rightarrow> (cerr, issue_info) act" where
  "fetch_issue svc repo_owner repo_name number =
     bnd (get_json svc (github_request svc (trim_end_char (CHR ''/'') (api_base_url svc) @ ''/repos/'' @ repo_owner @ ''/'' @ repo_name
         @ ''/issues/'' @ show_int number) [])
       ''github api request failed'' ''github api returned a non-success status'' ''failed to decode github api response'') (\<lambda>body.
     ret (parse_issue_json body))"

definition card_board_id :: "ident \<Rightarrow> string \<Rightarrow> (cerr, ident) act" where
  "card_board_id cid tenant =
     bnd (internal ''failed to fetch card'' (select (find_card cid tenant))) (\<lambda>r.
     bnd (ok_or (NotFound, ''card not found'') r) (\<lambda>row. ret (c_board row)))"

definition checked_card_id :: "request_context \<Rightarrow> (cerr, ident) act" where
  "checked_card_id ctx = bnd (checked_object_id ctx) (parse_id ''invalid card_id'')"


section \<open>Statements\<close>

definition link_is :: "ident \<Rightarrow> ident \<Rightarrow> string \<Rightarrow> github_row \<Rightarrow> bool" where
  "link_is i cid tenant r \<longleftrightarrow> g_id r = i \<and> g_card r = cid \<and> g_tenant r = tenant"

definition find_link :: "ident \<Rightarrow> ident \<Rightarrow> string \<Rightarrow> db \<Rightarrow> github_row option" where
  "find_link i cid tenant d = List.find (link_is i cid tenant) (github_links d)"

definition insert_link_sql :: "(datetime \<Rightarrow> github_row) \<Rightarrow> datetime \<Rightarrow> db \<Rightarrow> (github_row option \<times> db) option" where
  "insert_link_sql mk now d = (let row = mk now in
     if g_id row \<in> g_id ` set (github_links d) \<or> \<not> card_exists (g_card row) d then None
     else Some (Some row, d\<lparr>github_links := github_links d @ [row]\<rparr>))"

definition delete_link_sql :: "ident \<Rightarrow> ident \<Rightarrow> string \<Rightarrow> datetime \<Rightarrow> db \<Rightarrow> (nat \<times> db) option" where
  "delete_link_sql i cid tenant now d =
     Some (cnt_rows (link_is i cid tenant) (github_links d), d\<lparr>github_links := del_rows (link_is i cid tenant) (github_links d)\<rparr>)"

definition refreshed :: "issue_info \<Rightarrow> string \<Rightarrow> datetime \<Rightarrow> github_row \<Rightarrow> github_row" where
  "refreshed info url now r = r\<lparr>g_state := in_state info, g_title := in_title info, g_kind := in_kind info, g_url := url, g_synced := now\<rparr>"

definition update_link_sql ::
  "ident \<Rightarrow> ident \<Rightarrow> string \<Rightarrow> issue_info \<Rightarrow> string \<Rightarrow> datetime \<Rightarrow> db \<Rightarrow> (github_row option \<times> db) option" where
  "update_link_sql i cid tenant info url now d =
     Some (map_option (refreshed info url now) (find_link i cid tenant d),
       d\<lparr>github_links := upd_rows (link_is i cid tenant) (refreshed info url now) (github_links d)\<rparr>)"

section \<open>Handlers\<close>

record link_issue_request =
  li_repo_owner :: string
  li_repo_name :: string
  li_number :: int

text \<open>The row of a new link: what GitHub answered, or the defaults when the fetch failed.\<close>

definition new_link :: "link_issue_request \<Rightarrow> issue_info option \<Rightarrow> ident \<Rightarrow> string \<Rightarrow> ident \<Rightarrow> datetime \<Rightarrow> github_row" where
  "new_link req info i tenant cid now =
     \<lparr>g_id = i, g_tenant = tenant, g_card = cid, g_repo = li_repo_owner req @ ''/'' @ li_repo_name req, g_issue = li_number req,
      g_state = (case info of Some x \<Rightarrow> in_state x | None \<Rightarrow> ''open''),
      g_title = Option.bind info in_title,
      g_url = (case Option.bind info in_url of Some x \<Rightarrow> x | None \<Rightarrow> fallback_url (li_repo_owner req) (li_repo_name req) (li_number req)),
      g_kind = (case info of Some x \<Rightarrow> in_kind x | None \<Rightarrow> KIND_ISSUE), g_synced = now, g_created = now\<rparr>"

definition link_issue_tx ::
  "link_issue_request \<Rightarrow> issue_info option \<Rightarrow> ident \<Rightarrow> string \<Rightarrow> ident \<Rightarrow> ident \<Rightarrow> (cerr, github_row) act" where
  "link_issue_tx req info i tenant cid bid =
     bnd (internal ''failed to insert github link'' (fetch_one (insert_link_sql (new_link req info i tenant cid)))) (\<lambda>link.
     bnd (ask codec) (\<lambda>u.
     bnd (insert_board_event tenant bid ''GitHubLinkAdded''
       (JObj [jstr ''card_id'' (id_str u cid), jstr ''link_id'' (id_str u i), jstr ''board_id'' (id_str u bid)])) (\<lambda>_.
     ret link)))"

definition link_issue :: "github_service \<Rightarrow> request_context \<Rightarrow> link_issue_request \<Rightarrow> (cerr, github_link_detail) act" where
  "link_issue svc ctx req =
     bnd (checked_card_id ctx) (\<lambda>cid.
     bnd (tenant_id_from_request ctx) (\<lambda>tenant.
     bnd (require (li_repo_owner req \<noteq> '''' \<and> li_repo_name req \<noteq> '''') (InvalidArgument, ''repo_owner and repo_name are required'')) (\<lambda>_.
     bnd (require (CHR ''/'' \<notin> set (li_repo_owner req) \<and> CHR ''/'' \<notin> set (li_repo_name req))
       (InvalidArgument, ''repo_owner and repo_name must not contain '' @ [CHR 0x27, CHR ''/'', CHR 0x27])) (\<lambda>_.
     bnd (require (0 < li_number req) (InvalidArgument, ''number must be a positive issue/PR number'')) (\<lambda>_.
     bnd (card_board_id cid tenant) (\<lambda>bid.
     bnd (attempt (fetch_issue svc (li_repo_owner req) (li_repo_name req) (li_number req))) (\<lambda>fetched.
     let info = (case fetched of Inr x \<Rightarrow> Some x | Inl _ \<Rightarrow> None) in
     bnd new_id (\<lambda>i.
     bnd (in_tx (link_issue_tx req info i tenant cid bid)) (\<lambda>link.
     bnd (ask codec) (\<lambda>u. ret (to_detail u link)))))))))))"

definition unlink_issue :: "request_context \<Rightarrow> string \<Rightarrow> (cerr, unit) act" where
  "unlink_issue ctx req_link_id =
     bnd (checked_card_id ctx) (\<lambda>cid.
     bnd (tenant_id_from_request ctx) (\<lambda>tenant.
     bnd (parse_id ''invalid link_id'' req_link_id) (\<lambda>i.
     bnd (internal ''failed to delete github link'' (stmt (delete_link_sql i cid tenant))) (\<lambda>n.
     require (n \<noteq> 0) (NotFound, ''github link not found'')))))"

definition list_links_by_card :: "request_context \<Rightarrow> (cerr, github_link_detail list) act" where
  "list_links_by_card ctx =
     bnd (checked_card_id ctx) (\<lambda>cid.
     bnd (tenant_id_from_request ctx) (\<lambda>tenant.
     bnd (internal ''failed to list github links'' (select (\<lambda>d. sort_rows (\<lambda>a b. dt_le (g_created a) (g_created b))
       (filter (\<lambda>r. g_card r = cid \<and> g_tenant r = tenant) (github_links d))))) (\<lambda>rows.
     bnd (ask codec) (\<lambda>u. ret (map (to_detail u) rows)))))"

record search_issues_request =
  si_repo_owner :: string
  si_repo_name :: string
  si_query :: string
  si_limit :: int

definition search_issues_limit :: "int \<Rightarrow> int" where
  "search_issues_limit n = (if n \<le> 0 then DEFAULT_SEARCH_LIMIT else max 1 (min MAX_SEARCH_LIMIT n))"

definition search_github_issues ::
  "github_service \<Rightarrow> request_context \<Rightarrow> search_issues_request \<Rightarrow> (cerr, github_issue_result list) act" where
  "search_github_issues svc ctx req =
     bnd (checked_card_id ctx) (\<lambda>_.
     bnd (get_json svc (github_request svc (trim_end_char (CHR ''/'') (api_base_url svc) @ ''/search/issues'')
         [(''q'', build_search_query (si_repo_owner req) (si_repo_name req) (si_query req)),
          (''per_page'', show_int (search_issues_limit (si_limit req)))])
       ''github search request failed'' ''github search returned a non-success status'' ''failed to decode github search response'') (\<lambda>body.
     ret (case Option.bind (json_get body ''items'') as_array of Some items \<Rightarrow> map parse_search_item items | None \<Rightarrow> [])))"

definition resync_link_tx :: "issue_info \<Rightarrow> string \<Rightarrow> ident \<Rightarrow> string \<Rightarrow> ident \<Rightarrow> ident \<Rightarrow> (cerr, github_row) act" where
  "resync_link_tx info url i tenant cid bid =
     bnd (internal ''failed to update github link'' (fetch_one (update_link_sql i cid tenant info url))) (\<lambda>updated.
     bnd (ask codec) (\<lambda>u.
     bnd (insert_board_event tenant bid ''GitHubLinkRefreshed''
       (JObj [jstr ''card_id'' (id_str u cid), jstr ''link_id'' (id_str u i), jstr ''board_id'' (id_str u bid),
              jstr ''new_state'' (in_state info)])) (\<lambda>_.
     ret updated)))"

definition resync_link :: "github_service \<Rightarrow> request_context \<Rightarrow> string \<Rightarrow> (cerr, github_link_detail) act" where
  "resync_link svc ctx req_link_id =
     bnd (checked_card_id ctx) (\<lambda>cid.
     bnd (tenant_id_from_request ctx) (\<lambda>tenant.
     bnd (parse_id ''invalid link_id'' req_link_id) (\<lambda>i.
     bnd (internal ''failed to fetch github link'' (select (find_link i cid tenant))) (\<lambda>r.
     bnd (ok_or (NotFound, ''github link not found'') r) (\<lambda>link.
     let (repo_owner, repo_name) = split_repo (g_repo link) in
     bnd (fetch_issue svc repo_owner repo_name (g_issue link)) (\<lambda>info.
     bnd (card_board_id cid tenant) (\<lambda>bid.
     let url = (case in_url info of Some x \<Rightarrow> x | None \<Rightarrow> fallback_url repo_owner repo_name (g_issue link)) in
     bnd (in_tx (resync_link_tx info url i tenant cid bid)) (\<lambda>updated.
     bnd (ask codec) (\<lambda>u. ret (to_detail u updated))))))))))"

end
