(* ===== verification/Github_Links.thy ===== *)
theory Github_Links
  imports Github
begin

text \<open>
  What the GitHub handlers do: a new link and its event, links confined to the card that was checked, and what
  is left of the service while GitHub is down.
\<close>

section \<open>Repository names\<close>

lemma split_repo_join: "CHR ''/'' \<notin> set owner \<Longrightarrow> split_repo (owner @ CHR ''/'' # name) = (owner, name)"
proof -
  assume "CHR ''/'' \<notin> set owner"
  then have "takeWhile ((\<noteq>) (CHR ''/'')) (owner @ CHR ''/'' # name) = owner" "dropWhile ((\<noteq>) (CHR ''/'')) (owner @ CHR ''/'' # name) = CHR ''/'' # name"
    by (induction owner) auto
  then show ?thesis by (simp add: split_repo_def split_once_def)
qed

section \<open>A new link\<close>

definition added_payload :: "ulid_codec \<Rightarrow> ident \<Rightarrow> ident \<Rightarrow> ident \<Rightarrow> (string \<times> json) list" where
  "added_payload u cid i bid = [jstr ''card_id'' (id_str u cid), jstr ''link_id'' (id_str u i), jstr ''board_id'' (id_str u bid)]"

lemma link_issue_tx_ok:
  assumes run: "link_issue_tx req info i t cid bid e w = (Inr link, w')" and now: "tx_now w = Some now"
  shows "link = new_link req info i t cid now \<and> i \<notin> g_id ` set (github_links (db w)) \<and> \<not> aborted w'
    \<and> (\<exists>ev. emit_board bid (ev, t, ''GitHubLinkAdded'', added_payload (codec e) cid i bid, now)
         ((db w)\<lparr>github_links := github_links (db w) @ [link]\<rparr>) = Some (db w'))"
proof -
  from run now obtain d where ins: "insert_link_sql (new_link req info i t cid) now (db w) = Some (Some link, d)"
    and ev: "insert_board_event t bid ''GitHubLinkAdded'' (JObj (added_payload (codec e) cid i bid)) e ((tick w)\<lparr>db := d\<rparr>) = (Inr (), w')"
    by (auto simp: link_issue_tx_def ok_iffs sql_now_def added_payload_def)
  from ins have "link = new_link req info i t cid now" "i \<notin> g_id ` set (github_links (db w))"
    "d = (db w)\<lparr>github_links := github_links (db w) @ [link]\<rparr>"
    by (auto simp: insert_link_sql_def Let_def new_link_def split: if_split_asm)
  with insert_board_event_emit [OF ev, of now] now show ?thesis by auto
qed

lemma quiet_github [quiet_intros]:
  "quiet (get_json svc r a b c)" "quiet (fetch_issue svc owner name n)" "quiet (card_board_id cid t)" "quiet (checked_card_id ctx)"
  unfolding get_json_def fetch_issue_def card_board_id_def checked_card_id_def by (intro quiet_intros)+

lemma checked_card_id_ok [ok_iffs]:
  "checked_card_id ctx e w = (Inr cid, w') \<longleftrightarrow> (\<exists>c. checked_ext ctx = Some c \<and> id_from_str (codec e) c = Inr cid \<and> w' = w)"
  by (auto simp: checked_card_id_def ok_iffs)

lemma card_board_id_ok:
  "card_board_id cid t e w = (Inr bid, w') \<Longrightarrow> \<exists>cur. find_card cid t (db w) = Some cur \<and> bid = c_board cur \<and> db w' = db w"
  by (auto simp: card_board_id_def ok_iffs)

text \<open>
  C36. LinkIssue appends one link to the checked card and one event, GitHubLinkAdded, to the log of the card's
  board, and changes nothing else. The answer names the owner, the repository and the number of the request,
  with title, state and kind from GitHub's answer, or without one an untitled open issue at the address GitHub
  would redirect.
\<close>

theorem link_issue_effect:
  assumes run: "link_issue svc ctx req e w = (Inr m, w')"
    and ctx: "Option.bind (auth_ext ctx) auth_tenant_id = Some t" "checked_ext ctx = Some c"
  shows "\<exists>cid cur info i now ev. id_from_str (codec e) c = Inr cid \<and> find_card cid t (db w) = Some cur \<and> 0 < li_number req
    \<and> i \<notin> g_id ` set (github_links (db w))
    \<and> emit_board (c_board cur) (ev, t, ''GitHubLinkAdded'', added_payload (codec e) cid i (c_board cur), now)
         ((db w)\<lparr>github_links := github_links (db w) @ [new_link req info i t cid now]\<rparr>) = Some (db w')
    \<and> gd_card_id m = id_str (codec e) cid \<and> gd_repo_owner m = li_repo_owner req \<and> gd_repo_name m = li_repo_name req
    \<and> gd_number m = li_number req
    \<and> (case info of Some x \<Rightarrow> gd_state m = in_state x \<and> gd_kind m = in_kind x
       | None \<Rightarrow> gd_state m = ''open'' \<and> gd_kind m = KIND_ISSUE \<and> gd_title m = ''''
           \<and> gd_url m = fallback_url (li_repo_owner req) (li_repo_name req) (li_number req))"
proof -
  from run ctx obtain cid bid w1 fetched w2 i link where cid: "id_from_str (codec e) c = Inr cid" and n: "0 < li_number req"
    and slash: "CHR ''/'' \<notin> set (li_repo_owner req)"
    and b: "card_board_id cid t e w = (Inr bid, w1)"
    and f: "fetch_issue svc (li_repo_owner req) (li_repo_name req) (li_number req) e w1 = (fetched, w2)"
    and tx: "in_tx (link_issue_tx req (case fetched of Inr x \<Rightarrow> Some x | Inl _ \<Rightarrow> None) i t cid bid) e (tick w2) = (Inr link, w')"
    and m: "m = to_detail (codec e) link"
    by (auto simp: link_issue_def Let_def ok_iffs simp del: in_tx_ok)
  define info where "info = (case fetched of Inr x \<Rightarrow> Some x | Inl _ \<Rightarrow> None)"
  from card_board_id_ok [OF b] obtain cur where cur: "find_card cid t (db w) = Some cur" "bid = c_board cur" "db w1 = db w" by blast
  have w2: "db w2 = db w" using quietD [OF quiet_github(2) f] cur(3) by simp
  define now where "now = now_at e (Suc (step w2))"
  from tx obtain w4 where body: "link_issue_tx req info i t cid bid e ((tick (tick w2))\<lparr>tx_now := Some now, aborted := False\<rparr>) = (Inr link, w4)"
    and w': "w' = (if aborted w4 then rollback (db (tick w2)) (tick w4) else (tick w4)\<lparr>tx_now := None\<rparr>)"
    by (auto simp: ok_iffs now_def info_def)
  from link_issue_tx_ok [OF body, of now] obtain ev where link: "link = new_link req info i t cid now" "i \<notin> g_id ` set (github_links (db w))"
    and em: "emit_board bid (ev, t, ''GitHubLinkAdded'', added_payload (codec e) cid i bid, now) ((db w)\<lparr>github_links := github_links (db w) @ [link]\<rparr>) = Some (db w4)"
    and na: "\<not> aborted w4" using w2 by auto
  have "db w' = db w4" using w' na by simp
  moreover have "gd_card_id m = id_str (codec e) cid \<and> gd_repo_owner m = li_repo_owner req \<and> gd_repo_name m = li_repo_name req
    \<and> gd_number m = li_number req
    \<and> (case info of Some x \<Rightarrow> gd_state m = in_state x \<and> gd_kind m = in_kind x
       | None \<Rightarrow> gd_state m = ''open'' \<and> gd_kind m = KIND_ISSUE \<and> gd_title m = ''''
           \<and> gd_url m = fallback_url (li_repo_owner req) (li_repo_name req) (li_number req))"
    by (simp add: m link(1) to_detail_def new_link_def split_repo_join [OF slash] split: option.split)
  ultimately show ?thesis
    using cid cur(1,2) n link em by (intro exI [of _ cid] exI [of _ cur] exI [of _ info] exI [of _ i] exI [of _ now] exI [of _ ev]) simp
qed

section \<open>Links of the checked card\<close>

lemma tidy_in_tx [tidy_intros]: "tidy (in_tx body)"
  by (auto simp: tidy_def in_tx_def split: if_splits prod.splits sum.splits)

lemma tidy_unlink: "tidy (bnd (internal msg (stmt (delete_link_sql i cid t))) (\<lambda>n. require (n \<noteq> 0) x))"
proof -
  have "del_rows (link_is i cid t) rs = rs" if "cnt_rows (link_is i cid t) rs = 0" for rs
    using that by (auto simp: cnt_rows_def del_rows_def filter_empty_conv filter_id_conv)
  then show ?thesis
    by (auto simp: tidy_def bnd_def internal_def map_err_def stmt_def delete_link_sql_def require_def ret_def raise_def split: if_splits)
qed

lemma tidy_prod [tidy_intros]: "(\<And>a b. tidy (f a b)) \<Longrightarrow> tidy (case p of (a, b) \<Rightarrow> f a b)"
  by (cases p) simp

lemma tidy_answer: "tidy m \<Longrightarrow> tidy (bnd m (\<lambda>x. bnd (ask f) (\<lambda>u. ret (g u x))))"
  by (rule tidy_then_sure) (simp_all add: bnd_def ask_def ret_def)

lemma tidy_github_calls:
  "tidy (link_issue svc ctx req)" "tidy (unlink_issue ctx l)" "tidy (resync_link svc ctx l)" "tidy (search_github_issues svc ctx q)"
proof -
  show "tidy (link_issue svc ctx req)" "tidy (resync_link svc ctx l)"
    unfolding link_issue_def resync_link_def Let_def by (intro tidy_answer tidy_in_tx tidy_bnd tidy_prod quiet_intros)+
  show "tidy (unlink_issue ctx l)"
    unfolding unlink_issue_def by (intro tidy_unlink tidy_bnd quiet_intros)
  show "tidy (search_github_issues svc ctx q)"
    unfolding search_github_issues_def by (intro tidy_quiet quiet_intros)
qed

definition refreshed_payload :: "ulid_codec \<Rightarrow> ident \<Rightarrow> ident \<Rightarrow> ident \<Rightarrow> string \<Rightarrow> (string \<times> json) list" where
  "refreshed_payload u cid i bid state = [jstr ''card_id'' (id_str u cid), jstr ''link_id'' (id_str u i), jstr ''board_id'' (id_str u bid),
     jstr ''new_state'' state]"

lemma resync_link_tx_ok:
  assumes run: "resync_link_tx info url i t cid bid e w = (Inr link, w')" and now: "tx_now w = Some now"
  shows "\<not> aborted w' \<and> (\<exists>ev. emit_board bid (ev, t, ''GitHubLinkRefreshed'', refreshed_payload (codec e) cid i bid (in_state info), now)
         ((db w)\<lparr>github_links := upd_rows (link_is i cid t) (refreshed info url now) (github_links (db w))\<rparr>) = Some (db w'))"
proof -
  from run now obtain d where upd: "update_link_sql i cid t info url now (db w) = Some (Some link, d)"
    and ev: "insert_board_event t bid ''GitHubLinkRefreshed'' (JObj (refreshed_payload (codec e) cid i bid (in_state info))) e ((tick w)\<lparr>db := d\<rparr>) = (Inr (), w')"
    by (auto simp: resync_link_tx_def ok_iffs sql_now_def refreshed_payload_def)
  from upd have "d = (db w)\<lparr>github_links := upd_rows (link_is i cid t) (refreshed info url now) (github_links (db w))\<rparr>"
    by (auto simp: update_link_sql_def)
  with insert_board_event_emit [OF ev, of now] now show ?thesis by auto
qed

text \<open>
  C19. A link is reached only through its card: UnlinkIssue and ResyncLink take the link's id from the body, but
  what they delete or rewrite is a link of the card that the permission check was about, in the caller's tenant.
  An unlink changes nothing but the links; a resync also logs one event for the board of the card. A GitHub call
  that fails changes nothing.
\<close>

theorem github_links_confined:
  assumes ctx: "Option.bind (auth_ext ctx) auth_tenant_id = Some t" "checked_ext ctx = Some c" "id_from_str (codec e) c = Inr cid"
  shows "(\<forall>l w'. unlink_issue ctx l e w = (Inr (), w') \<longrightarrow>
      (\<exists>i. id_from_str (codec e) l = Inr i \<and> (\<exists>g \<in> set (github_links (db w)). link_is i cid t g)
        \<and> db w' = (db w)\<lparr>github_links := filter (\<lambda>g. \<not> link_is i cid t g) (github_links (db w))\<rparr>))
    \<and> (\<forall>l m w'. resync_link svc ctx l e w = (Inr m, w') \<longrightarrow>
      (\<exists>i cur info url ev now. id_from_str (codec e) l = Inr i \<and> find_card cid t (db w) = Some cur \<and> find_link i cid t (db w) \<noteq> None
        \<and> emit_board (c_board cur) (ev, t, ''GitHubLinkRefreshed'', refreshed_payload (codec e) cid i (c_board cur) (in_state info), now)
            ((db w)\<lparr>github_links := upd_rows (link_is i cid t) (refreshed info url now) (github_links (db w))\<rparr>) = Some (db w')))
    \<and> (\<forall>l x w'. unlink_issue ctx l e w = (Inl x, w') \<or> resync_link svc ctx l e w = (Inl x, w') \<longrightarrow> db w' = db w)"
proof (intro conjI allI impI)
  fix l w' assume "unlink_issue ctx l e w = (Inr (), w')"
  with ctx show "\<exists>i. id_from_str (codec e) l = Inr i \<and> (\<exists>g \<in> set (github_links (db w)). link_is i cid t g)
        \<and> db w' = (db w)\<lparr>github_links := filter (\<lambda>g. \<not> link_is i cid t g) (github_links (db w))\<rparr>"
    by (auto simp: unlink_issue_def ok_iffs delete_link_sql_def del_rows_def cnt_rows_def filter_empty_conv)
next
  fix l m w' assume "resync_link svc ctx l e w = (Inr m, w')"
  with ctx obtain i g owner name info w1 bid w2 link where i: "id_from_str (codec e) l = Inr i" and g: "find_link i cid t (db w) = Some g"
    and f: "fetch_issue svc owner name (g_issue g) e (tick w) = (Inr info, w1)" and b: "card_board_id cid t e w1 = (Inr bid, w2)"
    and tx: "in_tx (resync_link_tx info (case in_url info of Some x \<Rightarrow> x | None \<Rightarrow> fallback_url owner name (g_issue g)) i t cid bid) e w2 = (Inr link, w')"
    by (auto simp: resync_link_def Let_def ok_iffs prod.case_eq_if simp del: in_tx_ok)
  from card_board_id_ok [OF b] obtain cur where cur: "find_card cid t (db w) = Some cur" "bid = c_board cur" and w2: "db w2 = db w"
    using quietD [OF quiet_github(2) f] by auto
  let ?url = "case in_url info of Some x \<Rightarrow> x | None \<Rightarrow> fallback_url owner name (g_issue g)"
  define now where "now = now_at e (step w2)"
  from tx obtain w4 where body: "resync_link_tx info ?url i t cid bid e ((tick w2)\<lparr>tx_now := Some now, aborted := False\<rparr>) = (Inr link, w4)"
    and w': "w' = (if aborted w4 then rollback (db w2) (tick w4) else (tick w4)\<lparr>tx_now := None\<rparr>)"
    by (auto simp: ok_iffs now_def)
  from resync_link_tx_ok [OF body, of now] obtain ev where em: "\<not> aborted w4"
    "emit_board bid (ev, t, ''GitHubLinkRefreshed'', refreshed_payload (codec e) cid i bid (in_state info), now)
      ((db w)\<lparr>github_links := upd_rows (link_is i cid t) (refreshed info ?url now) (github_links (db w))\<rparr>) = Some (db w4)" using w2 by auto
  then show "\<exists>i cur info url ev now. id_from_str (codec e) l = Inr i \<and> find_card cid t (db w) = Some cur \<and> find_link i cid t (db w) \<noteq> None
        \<and> emit_board (c_board cur) (ev, t, ''GitHubLinkRefreshed'', refreshed_payload (codec e) cid i (c_board cur) (in_state info), now)
            ((db w)\<lparr>github_links := upd_rows (link_is i cid t) (refreshed info url now) (github_links (db w))\<rparr>) = Some (db w')"
    using i g cur w' by (intro exI [of _ i] exI [of _ cur] exI [of _ info] exI [of _ ?url] exI [of _ ev] exI [of _ now]) simp
next
  fix l x w' assume "unlink_issue ctx l e w = (Inl x, w') \<or> resync_link svc ctx l e w = (Inl x, w')"
  then show "db w' = db w" using tidyD [OF tidy_github_calls(2)] tidyD [OF tidy_github_calls(3)] by blast
qed


section \<open>Without GitHub\<close>

text \<open>
  C37. A card is linked even while GitHub cannot be reached: where the database works and the card's board has not
  used up its revisions, LinkIssue with a valid request returns a link, an untitled open issue at its public
  address. ResyncLink and the issue search fail then, and change nothing.
\<close>

theorem link_without_github:
  assumes down: "api_get svc = (\<lambda>n req. Inl (reason n req))" and e: "calm e" and w: "\<not> aborted w"
    and ctx: "Option.bind (auth_ext ctx) auth_tenant_id = Some t" "checked_ext ctx = Some c" "id_from_str (codec e) c = Inr cid"
    and card: "find_card cid t (db w) = Some cur"
    and board: "List.find (\<lambda>b. b_id b = c_board cur) (boards (db w)) = Some b" "i64_ok (b_revision b + 1)"
    and fresh: "\<forall>n. Ident (new_ulid e n) Ulid \<notin> g_id ` set (github_links (db w)) \<union> e_id ` set (event_log (db w))"
    and req: "li_repo_owner req \<noteq> ''''" "li_repo_name req \<noteq> ''''" "CHR ''/'' \<notin> set (li_repo_owner req)" "CHR ''/'' \<notin> set (li_repo_name req)"
      "0 < li_number req"
  shows "(\<exists>m w'. link_issue svc ctx req e w = (Inr m, w') \<and> gd_state m = ''open''
      \<and> gd_url m = fallback_url (li_repo_owner req) (li_repo_name req) (li_number req))
    \<and> (\<forall>l r w'. resync_link svc ctx l e w = (r, w') \<longrightarrow> (\<exists>x. r = Inl x) \<and> db w' = db w)
    \<and> (\<forall>q r w'. search_github_issues svc ctx q e w = (r, w') \<longrightarrow> (\<exists>x. r = Inl x) \<and> db w' = db w)"
proof (intro conjI allI impI)
  have "card_exists cid (db w)" using card by (auto simp: card_exists_def find_card_def find_Some_iff card_key_def)
  moreover have "c_board cur \<in> b_id ` set (upd_rows P (\<lambda>r. r\<lparr>b_revision := b_revision r + 1\<rparr>) (boards (db w)))" for P
  proof -
    have "map b_id (upd_rows P (\<lambda>r. r\<lparr>b_revision := b_revision r + 1\<rparr>) (boards (db w))) = map b_id (boards (db w))" by (simp add: upd_rows_def)
    then have "b_id ` set (upd_rows P (\<lambda>r. r\<lparr>b_revision := b_revision r + 1\<rparr>) (boards (db w))) = b_id ` set (boards (db w))" by (metis set_map)
    then show ?thesis using board(1) by (auto simp: find_Some_iff) (metis imageI nth_mem)
  qed
  ultimately show "\<exists>m w'. link_issue svc ctx req e w = (Inr m, w') \<and> gd_state m = ''open''
      \<and> gd_url m = fallback_url (li_repo_owner req) (li_repo_name req) (li_number req)"
    using e w ctx card board fresh req
    by (simp add: evals event_evals link_issue_def checked_card_id_def checked_object_id_def parse_id_def tenant_id_from_request_def
        card_board_id_def fetch_issue_def get_json_def down link_issue_tx_def insert_link_sql_def new_link_def to_detail_def Let_def
        split_repo_join)
next
  have no: "get_json svc r x y z e w1 \<noteq> (Inr v, w2)" for r x y z w1 v w2
    by (simp add: get_json_def ok_iffs down)
  fix l r w' assume run: "resync_link svc ctx l e w = (r, w')"
  then show "\<exists>x. r = Inl x"
    by (cases r) (auto simp: resync_link_def fetch_issue_def ok_iffs no prod.case_eq_if Let_def simp del: in_tx_ok)
  with run show "db w' = db w" using tidyD [OF tidy_github_calls(3)] by blast
next
  have no: "get_json svc r x y z e w1 \<noteq> (Inr v, w2)" for r x y z w1 v w2
    by (simp add: get_json_def ok_iffs down)
  fix q r w' assume run: "search_github_issues svc ctx q e w = (r, w')"
  then show "\<exists>x. r = Inl x"
    by (cases r) (auto simp: search_github_issues_def ok_iffs no)
  with run show "db w' = db w" using tidyD [OF tidy_github_calls(4)] by blast
qed


section \<open>Witnesses\<close>

definition sample_github :: github_service where
  "sample_github = \<lparr>api_base_url = ''https://api.github.com/'', api_token = [], api_get = (\<lambda>n req. Inl ''unreachable'')\<rparr>"

definition sample_link :: link_issue_request where
  "sample_link = \<lparr>li_repo_owner = ''sunbeam'', li_repo_name = ''kanban'', li_number = 42\<rparr>"

lemma sample_link_card:
  "checked_ext (sample_context (sid 5)) = Some (id_str crockford (sid 5))" "id_from_str (codec sample_env) (id_str crockford (sid 5)) = Inr (sid 5)"
  by (simp_all add: sample_context_def crockford.id_from_str_show)

lemma sample_link_runs: "\<exists>m w'. link_issue sample_github (sample_context (sid 5)) sample_link sample_env (sample_world sample_db) = (Inr m, w')"
  by (simp add: evals request_evals sample_evals event_evals link_issue_def checked_card_id_def checked_object_id_def
      card_board_id_def fetch_issue_def get_json_def sample_github_def link_issue_tx_def insert_link_sql_def new_link_def to_detail_def
      Let_def find_card_def card_key_def card_exists_def sample_link_def)

theorem link_issue_effect_witness:
  "\<exists>m w'. link_issue sample_github (sample_context (sid 5)) sample_link sample_env (sample_world sample_db) = (Inr m, w')
     \<and> gd_repo_owner m = ''sunbeam'' \<and> gd_repo_name m = ''kanban'' \<and> gd_number m = 42"
proof -
  obtain m w' where run: "link_issue sample_github (sample_context (sid 5)) sample_link sample_env (sample_world sample_db) = (Inr m, w')"
    using sample_link_runs by blast
  from link_issue_effect [OF run sample_caller_attachment(1) sample_link_card(1)]
  have "gd_repo_owner m = li_repo_owner sample_link \<and> gd_repo_name m = li_repo_name sample_link \<and> gd_number m = li_number sample_link" by blast
  with run show ?thesis by (simp add: sample_link_def)
qed

theorem link_without_github_witness:
  "\<exists>m w'. link_issue sample_github (sample_context (sid 5)) sample_link sample_env (sample_world sample_db) = (Inr m, w')
     \<and> gd_url m = fallback_url ''sunbeam'' ''kanban'' 42"
proof -
  have down: "api_get sample_github = (\<lambda>n req. Inl ((\<lambda>n req. ''unreachable'') n req))" by (simp add: sample_github_def)
  have "\<exists>cur b. find_card (sid 5) ''t'' (db (sample_world sample_db)) = Some cur
      \<and> List.find (\<lambda>b. b_id b = c_board cur) (boards (db (sample_world sample_db))) = Some b \<and> i64_ok (b_revision b + 1)"
    by (simp add: sample_evals find_card_def card_key_def i64_ok_def)
  then obtain cur b where cur: "find_card (sid 5) ''t'' (db (sample_world sample_db)) = Some cur"
    "List.find (\<lambda>b. b_id b = c_board cur) (boards (db (sample_world sample_db))) = Some b" "i64_ok (b_revision b + 1)" by blast
  have rest: "\<not> aborted (sample_world sample_db)"
    "\<forall>n. Ident (new_ulid sample_env n) Ulid \<notin> g_id ` set (github_links (db (sample_world sample_db))) \<union> e_id ` set (event_log (db (sample_world sample_db)))"
    "li_repo_owner sample_link \<noteq> []" "li_repo_name sample_link \<noteq> []" "CHR ''/'' \<notin> set (li_repo_owner sample_link)"
    "CHR ''/'' \<notin> set (li_repo_name sample_link)" "0 < li_number sample_link"
    by (simp_all add: sample_evals sample_link_def)
  from link_without_github [OF down sample_env_calm rest(1) sample_caller_attachment(1) sample_link_card cur rest(2-)]
  obtain m w' where "link_issue sample_github (sample_context (sid 5)) sample_link sample_env (sample_world sample_db) = (Inr m, w')"
    "gd_url m = fallback_url (li_repo_owner sample_link) (li_repo_name sample_link) (li_number sample_link)" by blast
  then show ?thesis by (auto simp: sample_link_def)
qed

definition linked_world :: world where
  "linked_world = sample_world (sample_db\<lparr>github_links := [new_link sample_link None (sid 60) ''t'' (sid 5) (0, 0), new_link sample_link None (sid 61) ''t'' (sid 6) (0, 0)]\<rparr>)"

theorem github_links_confined_witness:
  "\<exists>w'. unlink_issue (sample_context (sid 5)) (id_str crockford (sid 60)) sample_env linked_world = (Inr (), w')
     \<and> map g_id (github_links (db w')) = [sid 61]"
proof -
  have "\<exists>w'. unlink_issue (sample_context (sid 5)) (id_str crockford (sid 60)) sample_env linked_world = (Inr (), w')"
    by (simp add: evals request_evals sample_evals unlink_issue_def checked_card_id_def checked_object_id_def delete_link_sql_def
        linked_world_def cnt_rows_def link_is_def new_link_def)
  then obtain w' where run: "unlink_issue (sample_context (sid 5)) (id_str crockford (sid 60)) sample_env linked_world = (Inr (), w')" by blast
  from github_links_confined [OF sample_caller_attachment(1) sample_link_card, THEN conjunct1] run
  obtain i where "id_from_str (codec sample_env) (id_str crockford (sid 60)) = Inr i"
    and d: "db w' = (db linked_world)\<lparr>github_links := filter (\<lambda>g. \<not> link_is i (sid 5) ''t'' g) (github_links (db linked_world))\<rparr>" by blast
  then have "i = sid 60" by (simp add: crockford.id_from_str_show)
  with d run show ?thesis by (simp add: linked_world_def link_is_def new_link_def)
qed

end
