(* ===== verification/Public_Boards.thy ===== *)
theory Public_Boards
  imports Board_Access
begin

text \<open>
  \<open>src/services/public_boards.rs\<close>: the endpoint without authentication. What it answers depends on the public
  boards alone.
\<close>

definition get_public_board :: "string \<Rightarrow> (cerr, board_msg) act" where
  "get_public_board req_board_id =
     bnd (parse_id ''invalid board_id'' req_board_id) (\<lambda>i.
     bnd (internal ''failed to fetch board'' (select (\<lambda>d. List.find (\<lambda>b. b_id b = i) (boards d)))) (\<lambda>r.
     bnd (ok_or (NotFound, ''board not found'') r) (\<lambda>row.
     bnd (require (is_public (b_visibility row)) (NotFound, ''board not found'')) (\<lambda>_.
     bnd (fetch_columns_count i None) (\<lambda>nk.
     bnd (fetch_cards_count i None) (\<lambda>nc.
     bnd (ask codec) (\<lambda>u. ret (board_from_row u row nk nc))))))))"

definition with_public_counts :: "board_row \<Rightarrow> (cerr, board_msg) act" where
  "with_public_counts b =
     bnd (fetch_columns_count (b_id b) None) (\<lambda>nk.
     bnd (fetch_cards_count (b_id b) None) (\<lambda>nc.
     bnd (ask codec) (\<lambda>u. ret (board_from_row u b nk nc))))"

definition list_public_boards :: "string \<Rightarrow> (cerr, board_msg list) act" where
  "list_public_boards req_project_id =
     bnd (parse_id ''invalid project_id'' req_project_id) (\<lambda>p.
     bnd (internal ''failed to list public boards'' (select (\<lambda>d. sort_rows (\<lambda>a b. dt_le (b_created a) (b_created b))
       (filter (\<lambda>b. b_project b = p \<and> b_visibility b = ''public'') (boards d))))) (\<lambda>rows.
     each with_public_counts rows))"

section \<open>What the endpoint can tell\<close>

text \<open>The part of the database that is meant for everybody.\<close>

definition public_part :: "db \<Rightarrow> board_row list \<times> column_row list \<times> card_row list" where
  "public_part d = (let ps = filter (\<lambda>b. is_public (b_visibility b)) (boards d) in
     (ps, filter (\<lambda>k. k_board k \<in> b_id ` set ps) (columns d), filter (\<lambda>c. c_board c \<in> b_id ` set ps) (cards d)))"

definition look_alike :: "db \<Rightarrow> db \<Rightarrow> bool" where
  "look_alike d d' \<longleftrightarrow> public_part d = public_part d' \<and> distinct (map b_id (boards d)) \<and> distinct (map b_id (boards d'))"

lemma look_alike_sym: "look_alike d d' \<Longrightarrow> look_alike d' d"
  by (auto simp: look_alike_def)

lemma cnt_agree:
  assumes "filter Q rs = filter Q rs'" and sub: "\<And>x. P x \<Longrightarrow> Q x"
  shows "cnt_rows P rs = cnt_rows P rs'"
proof -
  have "filter P xs = filter P (filter Q xs)" for xs unfolding filter_filter using sub by (intro filter_cong) auto
  then show ?thesis unfolding cnt_rows_def by (metis assms(1))
qed

lemma look_alikeD:
  assumes "look_alike d d'"
  shows "filter (\<lambda>b. is_public (b_visibility b)) (boards d) = filter (\<lambda>b. is_public (b_visibility b)) (boards d')"
    "filter (\<lambda>k. k_board k \<in> b_id ` set (filter (\<lambda>b. is_public (b_visibility b)) (boards d'))) (columns d)
      = filter (\<lambda>k. k_board k \<in> b_id ` set (filter (\<lambda>b. is_public (b_visibility b)) (boards d'))) (columns d')"
    "filter (\<lambda>c. c_board c \<in> b_id ` set (filter (\<lambda>b. is_public (b_visibility b)) (boards d'))) (cards d)
      = filter (\<lambda>c. c_board c \<in> b_id ` set (filter (\<lambda>b. is_public (b_visibility b)) (boards d'))) (cards d')"
    "distinct (map b_id (boards d))" "distinct (map b_id (boards d'))"
  using assms unfolding look_alike_def public_part_def Let_def prod.inject by metis+

lemma look_alike_member:
  assumes la: "look_alike d d'" and b: "b \<in> set (boards d)" "is_public (b_visibility b)"
  shows "b \<in> set (boards d')"
proof -
  have "b \<in> set (filter (\<lambda>b. is_public (b_visibility b)) (boards d))" using b by simp
  then show ?thesis unfolding look_alikeD(1) [OF la] by simp
qed

lemma look_alike_counts:
  assumes la: "look_alike d d'" and b: "b \<in> set (boards d)" "is_public (b_visibility b)"
  shows "cnt_rows (\<lambda>k. k_board k = b_id b) (columns d) = cnt_rows (\<lambda>k. k_board k = b_id b) (columns d')"
    "cnt_rows (\<lambda>c. c_board c = b_id b) (cards d) = cnt_rows (\<lambda>c. c_board c = b_id b) (cards d')"
proof -
  let ?ids = "b_id ` set (filter (\<lambda>b. is_public (b_visibility b)) (boards d'))"
  have "b_id b \<in> ?ids" using look_alike_member [OF assms] b(2) by auto
  then have k: "\<And>k. k_board k = b_id b \<Longrightarrow> k_board k \<in> ?ids" "\<And>c. c_board c = b_id b \<Longrightarrow> c_board c \<in> ?ids" by simp_all
  show "cnt_rows (\<lambda>k. k_board k = b_id b) (columns d) = cnt_rows (\<lambda>k. k_board k = b_id b) (columns d')"
    by (rule cnt_agree [OF look_alikeD(2) [OF la]]) (rule k(1))
  show "cnt_rows (\<lambda>c. c_board c = b_id b) (cards d) = cnt_rows (\<lambda>c. c_board c = b_id b) (cards d')"
    by (rule cnt_agree [OF look_alikeD(3) [OF la]]) (rule k(2))
qed

lemma look_alike_find:
  assumes la: "look_alike d d'" and f: "List.find (\<lambda>b. b_id b = i) (boards d) = Some b" "is_public (b_visibility b)"
  shows "List.find (\<lambda>b. b_id b = i) (boards d') = Some b"
proof -
  have b: "b \<in> set (boards d)" "b_id b = i" using f(1) by (auto simp: find_Some_iff)
  show ?thesis
    by (rule find_distinct_key [where p = "\<lambda>b. b_id b = i" and c = i, OF look_alikeD(5) [OF la] look_alike_member [OF la b(1) f(2)] b(2)])
qed

text \<open>An action that answers the same on both databases, and leaves either as it was.\<close>

definition blind :: "db \<Rightarrow> db \<Rightarrow> ('e, 'a) act \<Rightarrow> bool" where
  "blind d d' m \<longleftrightarrow> (\<forall>e w. db w = d \<longrightarrow> db (snd (m e w)) = d \<and> m e (w\<lparr>db := d'\<rparr>) = (fst (m e w), (snd (m e w))\<lparr>db := d'\<rparr>))"

lemma blind_fst: "blind d d' m \<Longrightarrow> db w = d \<Longrightarrow> fst (m e (w\<lparr>db := d'\<rparr>)) = fst (m e w)"
  unfolding blind_def by (metis fst_conv)

lemma blind_pure:
  "blind d d' (ret a)" "blind d d' (raise x)" "blind d d' (ask f)" "blind d d' (require b x)" "blind d d' (ok_or x r)"
  by (auto simp: blind_def ret_def raise_def ask_def require_def ok_or_def split: option.split)

lemma blind_bnd:
  assumes "blind d d' m" "\<And>a. blind d d' (f a)"
  shows "blind d d' (bnd m f)"
  unfolding blind_def
proof (intro allI impI)
  fix e :: env and w :: world assume "db w = d"
  with assms(1) have m: "db (snd (m e w)) = d" "m e (w\<lparr>db := d'\<rparr>) = (fst (m e w), (snd (m e w))\<lparr>db := d'\<rparr>)" unfolding blind_def by blast+
  show "db (snd (bnd m f e w)) = d \<and> bnd m f e (w\<lparr>db := d'\<rparr>) = (fst (bnd m f e w), (snd (bnd m f e w))\<lparr>db := d'\<rparr>)"
    using m assms(2) [unfolded blind_def, rule_format, OF m(1)] by (cases "m e w") (auto simp: bnd_def split: sum.split)
qed

lemma blind_then:
  assumes "blind d d' m" "db w = d" "\<And>a w1. db w1 = d \<Longrightarrow> fst (f a e (w1\<lparr>db := d'\<rparr>)) = fst (f a e w1)"
  shows "fst (bnd m f e (w\<lparr>db := d'\<rparr>)) = fst (bnd m f e w)"
proof -
  have m: "db (snd (m e w)) = d" "m e (w\<lparr>db := d'\<rparr>) = (fst (m e w), (snd (m e w))\<lparr>db := d'\<rparr>)" using assms(1,2) unfolding blind_def by blast+
  show ?thesis using m assms(3) [OF m(1)] by (cases "m e w") (auto simp: bnd_def split: sum.split)
qed

lemma blind_map_err: "blind d d' m \<Longrightarrow> blind d d' (map_err g m)"
  unfolding blind_def map_err_def by (auto split: prod.split sum.split) (metis snd_conv)+

lemma blind_select: "f d = f d' \<Longrightarrow> blind d d' (select f)"
  by (auto simp: blind_def select_def stmt_def mark_failed_def tick_def)

lemma blind_or_default: "blind d d' m \<Longrightarrow> blind d d' (or_default x m)"
  unfolding or_default_def
  by (intro blind_bnd blind_pure) (auto simp: blind_def attempt_def split: prod.split, metis snd_conv)

lemma blind_parse_id: "blind d d' (parse_id msg s)"
  unfolding parse_id_def by (intro blind_bnd blind_pure) (auto split: sum.split invalid_id.split intro: blind_pure)

lemma blind_counts:
  assumes "look_alike d d'" "b \<in> set (boards d)" "is_public (b_visibility b)"
  shows "blind d d' (fetch_columns_count (b_id b) None)" "blind d d' (fetch_cards_count (b_id b) None)"
  unfolding fetch_columns_count_def fetch_cards_count_def
  by (intro blind_or_default blind_select; simp add: in_tenant_def look_alike_counts [OF assms])+

lemma blind_each: "(\<And>x. x \<in> set xs \<Longrightarrow> blind d d' (f x)) \<Longrightarrow> blind d d' (each f xs)"
  by (induction xs) (auto intro!: blind_pure blind_bnd)

lemma public_rows:
  assumes "look_alike d d'"
  shows "filter (\<lambda>b. b_project b = p \<and> b_visibility b = ''public'') (boards d) = filter (\<lambda>b. b_project b = p \<and> b_visibility b = ''public'') (boards d')"
proof -
  have eq: "filter (\<lambda>b. b_project b = p \<and> b_visibility b = ''public'') bs = filter (\<lambda>b. b_project b = p) (filter (\<lambda>b. is_public (b_visibility b)) bs)" for bs
    unfolding filter_filter by (rule filter_cong) (auto simp: is_public_def)
  show ?thesis by (simp only: eq look_alikeD(1) [OF assms])
qed

text \<open>
  C10. The endpoint without authentication tells nothing about boards that are not public: on two databases that
  agree on the public boards, their columns and their cards, GetPublicBoard and ListPublicBoards give the same
  answer to every request, errors included. So a private or internal board cannot be told from one that does not
  exist.
\<close>

theorem public_endpoint_blind:
  assumes "look_alike (db w) d'"
  shows "fst (get_public_board q e (w\<lparr>db := d'\<rparr>)) = fst (get_public_board q e w)
    \<and> fst (list_public_boards q e (w\<lparr>db := d'\<rparr>)) = fst (list_public_boards q e w)"
proof
  let ?d = "db w"
  define load :: "ident \<Rightarrow> (cerr, board_row) act" where
    "load i = bnd (internal ''failed to fetch board'' (select (\<lambda>d. List.find (\<lambda>b. b_id b = i) (boards d)))) (\<lambda>r.
       bnd (ok_or (NotFound, ''board not found'') r) (\<lambda>row.
       bnd (require (is_public (b_visibility row)) (NotFound, ''board not found'')) (\<lambda>_. ret row)))" for i
  define answer :: "ident \<Rightarrow> (cerr, board_msg) act" where
    "answer i = bnd (load i) (\<lambda>row. bnd (fetch_columns_count i None) (\<lambda>nk. bnd (fetch_cards_count i None) (\<lambda>nc.
       bnd (ask codec) (\<lambda>u. ret (board_from_row u row nk nc)))))" for i
  have "get_public_board q = bnd (parse_id ''invalid board_id'' q) answer"
    unfolding get_public_board_def answer_def load_def bnd_def ret_def by (intro ext) (simp split: prod.split sum.split)
  moreover have "fst (answer i e (w1\<lparr>db := d'\<rparr>)) = fst (answer i e w1)" if w1: "db w1 = ?d" for i w1
  proof (cases "\<exists>b. List.find (\<lambda>b. b_id b = i) (boards ?d) = Some b \<and> is_public (b_visibility b)")
    case True
    then obtain b where b: "List.find (\<lambda>b. b_id b = i) (boards ?d) = Some b" "is_public (b_visibility b)" by blast
    then have bd: "b \<in> set (boards ?d)" "b_id b = i" by (auto simp: find_Some_iff)
    have "List.find (\<lambda>b. b_id b = i) (boards ?d) = List.find (\<lambda>b. b_id b = i) (boards d')" using b look_alike_find [OF assms b] by simp
    then have "blind ?d d' (answer i)"
      unfolding answer_def load_def internal_def bd(2) [symmetric]
      by (intro blind_bnd blind_map_err blind_select blind_pure blind_counts [OF assms bd(1) b(2)])
    then show ?thesis by (rule blind_fst) (rule w1)
  next
    case False
    have none: "fst (answer i e w2) = (if aborted w2 \<or> db_fault e (step w2) then Inl (Internal, ''failed to fetch board'') else Inl (NotFound, ''board not found''))"
      if "\<nexists>b. List.find (\<lambda>b. b_id b = i) (boards (db w2)) = Some b \<and> is_public (b_visibility b)" for w2
      using that
      by (cases "List.find (\<lambda>b. b_id b = i) (boards (db w2))")
        (auto simp: answer_def load_def bnd_def internal_def map_err_def select_def stmt_def ok_or_def require_def raise_def ret_def)
    have "\<nexists>b. List.find (\<lambda>b. b_id b = i) (boards d') = Some b \<and> is_public (b_visibility b)"
      using False look_alike_find [OF look_alike_sym [OF assms]] by blast
    then show ?thesis using none [of "w1\<lparr>db := d'\<rparr>"] none [of w1] False w1 by simp
  qed
  ultimately show "fst (get_public_board q e (w\<lparr>db := d'\<rparr>)) = fst (get_public_board q e w)"
    using blind_then [OF blind_parse_id refl, where f = answer] by simp
next
  have rows: "filter (\<lambda>b. b_project b = p \<and> b_visibility b = ''public'') (boards (db w)) = filter (\<lambda>b. b_project b = p \<and> b_visibility b = ''public'') (boards d')" for p
    by (rule public_rows [OF assms])
  have counts: "blind (db w) d' (with_public_counts b)" if "b \<in> set (boards (db w))" "is_public (b_visibility b)" for b
    unfolding with_public_counts_def by (intro blind_bnd blind_pure blind_counts [OF assms that])
  let ?rows = "\<lambda>p d. sort_rows (\<lambda>a b. dt_le (b_created a) (b_created b)) (filter (\<lambda>b. b_project b = p \<and> b_visibility b = ''public'') (boards d))"
  have all: "blind (db w) d' (each with_public_counts (?rows p (db w)))" for p
    by (rule blind_each, rule counts) (auto simp: is_public_def)
  have sel: "blind (db w) d' (internal ''failed to list public boards'' (select (?rows p)))" for p
    unfolding internal_def by (intro blind_map_err blind_select) (simp add: rows)
  have "fst (bnd (internal ''failed to list public boards'' (select (?rows p))) (each with_public_counts) e (w1\<lparr>db := d'\<rparr>))
      = fst (bnd (internal ''failed to list public boards'' (select (?rows p))) (each with_public_counts) e w1)" if w1: "db w1 = db w" for w1 p
  proof (cases "aborted w1 \<or> db_fault e (step w1)")
    case True
    then show ?thesis by (auto simp: bnd_def internal_def map_err_def select_def stmt_def)
  next
    case False
    then show ?thesis
      using blind_fst [OF all [of p], of "(tick w1)\<lparr>db := db w\<rparr>" e] w1 rows
      by (simp add: bnd_def internal_def map_err_def select_def stmt_def tick_def)
  qed
  then show "fst (list_public_boards q e (w\<lparr>db := d'\<rparr>)) = fst (list_public_boards q e w)"
    unfolding list_public_boards_def by (intro blind_then [OF blind_parse_id refl])
qed


definition public_db :: "string \<Rightarrow> db" where
  "public_db visibility = sample_db\<lparr>boards := [(sample_board 2 1)\<lparr>b_visibility := ''public''\<rparr>, (sample_board 8 7)\<lparr>b_visibility := visibility, b_name := visibility\<rparr>]\<rparr>"

theorem public_endpoint_blind_witness:
  "fst (get_public_board (id_str crockford (sid 8)) sample_env (sample_world (public_db ''private''))) = fst (get_public_board (id_str crockford (sid 8)) sample_env (sample_world (public_db ''internal'')))"
proof -
  have "look_alike (db (sample_world (public_db ''internal''))) (public_db ''private'')"
    by (simp add: look_alike_def public_part_def public_db_def is_public_def sample_evals Let_def)
  from public_endpoint_blind [OF this, of "id_str crockford (sid 8)" sample_env] show ?thesis by (simp add: sample_world_def)
qed

end
