(* ===== verification/Session.thy ===== *)
theory Session
  imports Json
begin

text \<open>
  \<open>src/auth/session_client.rs\<close>: token introspection at the sso-gateway. The token provider of \<open>sunbeam_g2v\<close> (a
  state with the operations \<open>token\<close> and \<open>invalidate\<close>) and the gateway's answer to a POST are the parameters. A
  rejection is the failure class that is logged, with the error's text.
\<close>

datatype failure_class = MissingToken | ServiceToken | Timeout | Transport | GatewayError | BadResponse | Inactive

type_synonym rejection = "failure_class \<times> string"

record introspection_reply =
  ir_status :: nat
  ir_body :: "string + json"

datatype send_error = TimedOut string | SendFailed string

record 's session_client =
  provider_token :: "'s \<Rightarrow> (string + string) \<times> 's"
  provider_invalidate :: "'s \<Rightarrow> 's"
  post :: "nat \<Rightarrow> string \<Rightarrow> string \<Rightarrow> send_error + introspection_reply"

text \<open>The state of a call: the provider, and the service tokens that requests were sent with so far.\<close>

type_synonym 's calls = "'s \<times> string list"

definition introspect :: "'s session_client \<Rightarrow> string \<Rightarrow> 's calls \<Rightarrow> (rejection + introspection_reply) \<times> 's calls" where
  "introspect cl token st =
     (case st of (s, sent) \<Rightarrow>
      case provider_token cl s of
        (Inl err, s') \<Rightarrow> (Inl (ServiceToken, ''failed to fetch service token: '' @ err), (s', sent))
      | (Inr service_token, s') \<Rightarrow>
          ((case post cl (length sent) service_token token of
              Inl (TimedOut err) \<Rightarrow> Inl (Timeout, ''introspection request failed: '' @ err)
            | Inl (SendFailed err) \<Rightarrow> Inl (Transport, ''introspection request failed: '' @ err)
            | Inr reply \<Rightarrow> Inr reply), (s', sent @ [service_token])))"

text \<open>One retry with a fresh service token when the gateway answers 401.\<close>

definition introspect_retrying :: "'s session_client \<Rightarrow> string \<Rightarrow> 's calls \<Rightarrow> (rejection + introspection_reply) \<times> 's calls" where
  "introspect_retrying cl token st =
     (case introspect cl token st of
        (Inl x, st1) \<Rightarrow> (Inl x, st1)
      | (Inr reply, (s, sent)) \<Rightarrow>
          if ir_status reply = 401 then introspect cl token (provider_invalidate cl s, sent) else (Inr reply, (s, sent)))"

definition session_of_body :: "json \<Rightarrow> rejection + json" where
  "session_of_body body =
     (let active = (case Option.bind (json_get body ''active'') as_bool of Some b \<Rightarrow> b | None \<Rightarrow> False);
          subject = (case Option.bind (json_get body ''sub'') as_str of Some s \<Rightarrow> s | None \<Rightarrow> '''');
          tenant_id = (case Option.bind (json_get body ''tenant_id'') as_str of Some s \<Rightarrow> s | None \<Rightarrow> subject);
          scope = (case json_get body ''scope'' of Some v \<Rightarrow> v | None \<Rightarrow> JStr '''')
      in if \<not> active then Inl (Inactive, ''token inactive'')
         else if subject = '''' then Inl (BadResponse, ''introspection response missing sub'')
         else Inr (JObj [(''tenant_id'', JStr tenant_id), (''sub'', JStr subject), (''scope'', scope)]))"

definition session_of_reply :: "(nat \<Rightarrow> string) \<Rightarrow> introspection_reply \<Rightarrow> rejection + json" where
  "session_of_reply show_status reply =
     (if \<not> (200 \<le> ir_status reply \<and> ir_status reply < 300)
      then Inl (GatewayError, ''introspection returned '' @ show_status (ir_status reply))
      else case ir_body reply of
        Inl err \<Rightarrow> Inl (BadResponse, ''invalid introspection response: '' @ err)
      | Inr body \<Rightarrow> session_of_body body)"

definition to_session ::
  "'s session_client \<Rightarrow> (nat \<Rightarrow> string) \<Rightarrow> string option \<Rightarrow> string option \<Rightarrow> 's calls \<Rightarrow> (rejection + json) \<times> 's calls" where
  "to_session cl show_status cookie token st =
     (case token of
        None \<Rightarrow> (Inl (MissingToken, ''missing token''), st)
      | Some tk \<Rightarrow>
          (case introspect_retrying cl tk st of
             (Inl x, st1) \<Rightarrow> (Inl x, st1)
           | (Inr reply, st1) \<Rightarrow> (session_of_reply show_status reply, st1)))"

section \<open>What a session rests on\<close>

lemma introspect_cases:
  assumes "introspect cl tk (s, sent) = (r, s', sent')"
  shows "(sent' = sent \<and> (\<exists>x. r = Inl x)) \<or> (\<exists>st. sent' = sent @ [st] \<and> (\<forall>reply. r = Inr reply \<longrightarrow> post cl (length sent) st tk = Inr reply))"
  using assms by (auto simp: introspect_def split: prod.splits sum.splits send_error.splits)

lemma introspect_retrying_cases:
  assumes "introspect_retrying cl tk (s, []) = (r, s', sent)"
  shows "length sent \<le> 2 \<and> (length sent = 2 \<longrightarrow> (\<exists>reply. post cl 0 (sent ! 0) tk = Inr reply \<and> ir_status reply = 401))
    \<and> (\<forall>reply. r = Inr reply \<longrightarrow> sent \<noteq> [] \<and> post cl (length sent - 1) (last sent) tk = Inr reply)"
proof -
  obtain r1 s1 sent1 where i1: "introspect cl tk (s, []) = (r1, s1, sent1)" by (metis prod_cases3)
  note c1 = introspect_cases [OF i1]
  show ?thesis
  proof (cases "\<exists>reply. r1 = Inr reply \<and> ir_status reply = 401")
    case True
    then obtain reply where r1: "r1 = Inr reply" "ir_status reply = 401" by blast
    with c1 obtain st where st: "sent1 = [st]" "post cl 0 st tk = Inr reply" by auto
    from assms i1 r1 have i2: "introspect cl tk (provider_invalidate cl s1, sent1) = (r, s', sent)" by (simp add: introspect_retrying_def)
    from introspect_cases [OF i2] st r1(2) show ?thesis by (auto simp: nth_append)
  next
    case False
    with assms i1 have "r = r1" "sent = sent1" by (auto simp: introspect_retrying_def split: sum.splits if_splits)
    with c1 show ?thesis by auto
  qed
qed

lemma session_of_reply_ok:
  assumes "session_of_reply sh reply = Inr v"
  obtains body sub where "200 \<le> ir_status reply" "ir_status reply < 300" "ir_body reply = Inr body" "json_get body ''active'' = Some (JBool True)"
    "json_get body ''sub'' = Some (JStr sub)" "sub \<noteq> []" "json_get v ''sub'' = Some (JStr sub)"
    "json_get v ''tenant_id'' = Some (case json_get body ''tenant_id'' of Some (JStr t) \<Rightarrow> JStr t | _ \<Rightarrow> JStr sub)"
proof -
  from assms obtain body where b: "200 \<le> ir_status reply" "ir_status reply < 300" "ir_body reply = Inr body" "session_of_body body = Inr v"
    by (auto simp: session_of_reply_def split: if_split_asm sum.splits)
  from b(4) have a: "json_get body ''active'' = Some (JBool True)"
    by (cases "json_get body ''active''"; simp add: session_of_body_def Let_def split: if_split_asm; case_tac "a") (auto split: if_split_asm)
  from b(4) obtain sub where s: "json_get body ''sub'' = Some (JStr sub)" "sub \<noteq> []"
    by (cases "json_get body ''sub''"; simp add: session_of_body_def Let_def split: if_split_asm; case_tac "a") (auto split: if_split_asm)
  have "v = JObj [(''tenant_id'', case json_get body ''tenant_id'' of Some (JStr t) \<Rightarrow> JStr t | _ \<Rightarrow> JStr sub), (''sub'', JStr sub),
      (''scope'', case json_get body ''scope'' of Some v \<Rightarrow> v | None \<Rightarrow> JStr [])]"
    using b(4) a s by (auto simp: session_of_body_def Let_def split: option.split json.split)
  with that b a s show thesis by simp
qed

text \<open>
  C38. A session is opened only for a token that the gateway says is active: to_session returns one only if a
  token was presented and the gateway answered the last introspection of it with a success status and a JSON
  object that says \<open>active: true\<close> and names a subject; the session carries this subject, and as tenant the
  gateway's \<open>tenant_id\<close> or else the subject. At most two introspections are sent for a call, a second one only
  after the first was answered with 401, and none without a token.
\<close>

theorem session_needs_active_token:
  assumes run: "to_session cl show_status cookie token (s, []) = (r, s', sent)"
  shows "length sent \<le> 2 \<and> (token = None \<longrightarrow> sent = [])
    \<and> (length sent = 2 \<longrightarrow> (\<exists>tk reply. token = Some tk \<and> post cl 0 (sent ! 0) tk = Inr reply \<and> ir_status reply = 401))
    \<and> (\<forall>v. r = Inr v \<longrightarrow> (\<exists>tk reply body sub. token = Some tk \<and> sent \<noteq> [] \<and> post cl (length sent - 1) (last sent) tk = Inr reply
         \<and> 200 \<le> ir_status reply \<and> ir_status reply < 300 \<and> ir_body reply = Inr body
         \<and> json_get body ''active'' = Some (JBool True) \<and> json_get body ''sub'' = Some (JStr sub) \<and> sub \<noteq> []
         \<and> json_get v ''sub'' = Some (JStr sub)
         \<and> json_get v ''tenant_id'' = Some (case json_get body ''tenant_id'' of Some (JStr t) \<Rightarrow> JStr t | _ \<Rightarrow> JStr sub)))"
proof (cases token)
  case None
  with run show ?thesis by (auto simp: to_session_def)
next
  case (Some tk)
  obtain r1 s1 sent1 where i: "introspect_retrying cl tk (s, []) = (r1, s1, sent1)" by (metis prod_cases3)
  with run Some have sent: "sent1 = sent" and r: "r = (case r1 of Inl x \<Rightarrow> Inl x | Inr reply \<Rightarrow> session_of_reply show_status reply)"
    by (auto simp: to_session_def split: sum.splits)
  note c = introspect_retrying_cases [OF i, unfolded sent]
  have "\<exists>tk' reply body sub. token = Some tk' \<and> sent \<noteq> [] \<and> post cl (length sent - 1) (last sent) tk' = Inr reply
         \<and> 200 \<le> ir_status reply \<and> ir_status reply < 300 \<and> ir_body reply = Inr body
         \<and> json_get body ''active'' = Some (JBool True) \<and> json_get body ''sub'' = Some (JStr sub) \<and> sub \<noteq> []
         \<and> json_get v ''sub'' = Some (JStr sub)
         \<and> json_get v ''tenant_id'' = Some (case json_get body ''tenant_id'' of Some (JStr t) \<Rightarrow> JStr t | _ \<Rightarrow> JStr sub)" if "r = Inr v" for v
  proof -
    from that r obtain reply where reply: "r1 = Inr reply" "session_of_reply show_status reply = Inr v" by (auto split: sum.splits)
    from session_of_reply_ok [OF reply(2)] c reply(1) Some show ?thesis by metis
  qed
  with c Some show ?thesis by blast
qed

text \<open>A provider that counts how often it was asked, and a gateway that wants the second token.\<close>

definition sample_session_client :: "nat session_client" where
  "sample_session_client = \<lparr>provider_token = (\<lambda>s. (Inr (show_nat s), s)), provider_invalidate = Suc,
     post = (\<lambda>n st tk. if st = ''0'' then Inr \<lparr>ir_status = 401, ir_body = Inl ''no body''\<rparr>
       else Inr \<lparr>ir_status = 200, ir_body = Inr (JObj [(''active'', JBool True), (''sub'', JStr ''ada'')])\<rparr>)\<rparr>"

theorem session_needs_active_token_witness:
  "\<exists>v s'. to_session sample_session_client show_nat None (Some ''tk'') (0, []) = (Inr v, s', [''0'', ''1''])
     \<and> json_get v ''sub'' = Some (JStr ''ada'') \<and> json_get v ''tenant_id'' = Some (JStr ''ada'')"
proof -
  have "show_nat 0 = ''0''" "show_nat 1 = ''1''" by code_simp+
  then have "\<exists>v s'. to_session sample_session_client show_nat None (Some ''tk'') (0, []) = (Inr v, s', [''0'', ''1''])"
    by (simp add: to_session_def introspect_retrying_def introspect_def sample_session_client_def session_of_reply_def session_of_body_def Let_def)
  then obtain v s' where run: "to_session sample_session_client show_nat None (Some ''tk'') (0, []) = (Inr v, s', [''0'', ''1''])" by blast
  from session_needs_active_token [OF run] obtain tk reply body sub where
    "post sample_session_client 1 ''1'' tk = Inr reply" "ir_body reply = Inr body" "json_get body ''sub'' = Some (JStr sub)"
    "json_get v ''sub'' = Some (JStr sub)"
    "json_get v ''tenant_id'' = Some (case json_get body ''tenant_id'' of Some (JStr t) \<Rightarrow> JStr t | _ \<Rightarrow> JStr sub)" by auto
  with run show ?thesis by (auto simp: sample_session_client_def)
qed

end
