(* ===== verification/Migration_Runner.thy ===== *)
theory Migration_Runner
  imports Kanban_Prelude
begin

text \<open>
  \<open>src/system_migrations/\<close>: the runner of the startup migrations and its ledger, the table \<open>system_migrations\<close>. What
  a migration does to its context is the parameter \<open>mg_run\<close>; the n-th statement on the ledger fails if \<open>fault n\<close>.
\<close>

record 'x migration =
  mg_name :: string
  mg_run :: "'x \<Rightarrow> (string + unit) \<times> 'x"

text \<open>\<open>ledger\<close> is \<open>None\<close> before the table exists; \<open>started\<close> lists the migrations that were started, for the theorems.\<close>

record 'x runner_state =
  ledger :: "string list option"
  resources :: 'x
  statements :: nat
  started :: "string list"

definition next_statement :: "'x runner_state \<Rightarrow> 'x runner_state" where
  "next_statement st = st\<lparr>statements := Suc (statements st)\<rparr>"

definition ensure_migrations_table :: "(nat \<Rightarrow> bool) \<Rightarrow> 'x runner_state \<Rightarrow> (string + unit) \<times> 'x runner_state" where
  "ensure_migrations_table fault st =
     (if fault (statements st) then (Inl ''failed to create system_migrations table'', next_statement st)
      else (Inr (), (next_statement st)\<lparr>ledger := Some (case ledger st of Some l \<Rightarrow> l | None \<Rightarrow> [])\<rparr>))"

definition is_applied :: "(nat \<Rightarrow> bool) \<Rightarrow> string \<Rightarrow> 'x runner_state \<Rightarrow> (string + bool) \<times> 'x runner_state" where
  "is_applied fault name st =
     (if fault (statements st) \<or> ledger st = None then (Inl (''failed to check ledger for '' @ name), next_statement st)
      else (Inr (0 < length (filter ((=) name) (the (ledger st)))), next_statement st))"

text \<open>The name is the primary key.\<close>

definition record_applied :: "(nat \<Rightarrow> bool) \<Rightarrow> string \<Rightarrow> 'x runner_state \<Rightarrow> (string + unit) \<times> 'x runner_state" where
  "record_applied fault name st =
     (case ledger st of
        Some l \<Rightarrow> if fault (statements st) \<or> name \<in> set l then (Inl (''failed to record system migration '' @ name), next_statement st)
          else (Inr (), (next_statement st)\<lparr>ledger := Some (l @ [name])\<rparr>)
      | None \<Rightarrow> (Inl (''failed to record system migration '' @ name), next_statement st))"

definition run_migration :: "'x migration \<Rightarrow> 'x runner_state \<Rightarrow> (string + unit) \<times> 'x runner_state" where
  "run_migration m st =
     (case mg_run m (resources st) of
        (Inl x, r) \<Rightarrow> (Inl (''system migration '' @ mg_name m @ '' failed''), st\<lparr>resources := r, started := started st @ [mg_name m]\<rparr>)
      | (Inr _, r) \<Rightarrow> (Inr (), st\<lparr>resources := r, started := started st @ [mg_name m]\<rparr>))"

fun run_pending :: "(nat \<Rightarrow> bool) \<Rightarrow> 'x migration list \<Rightarrow> 'x runner_state \<Rightarrow> (string + unit) \<times> 'x runner_state" where
  "run_pending fault [] st = (Inr (), st)"
| "run_pending fault (m # ms) st =
     (case is_applied fault (mg_name m) st of
        (Inl x, st1) \<Rightarrow> (Inl x, st1)
      | (Inr True, st1) \<Rightarrow> run_pending fault ms st1
      | (Inr False, st1) \<Rightarrow>
          (case run_migration m st1 of
             (Inl x, st2) \<Rightarrow> (Inl x, st2)
           | (Inr _, st2) \<Rightarrow>
               (case record_applied fault (mg_name m) st2 of
                  (Inl x, st3) \<Rightarrow> (Inl x, st3)
                | (Inr _, st3) \<Rightarrow> run_pending fault ms st3)))"

definition run_all :: "(nat \<Rightarrow> bool) \<Rightarrow> 'x migration list \<Rightarrow> 'x runner_state \<Rightarrow> (string + unit) \<times> 'x runner_state" where
  "run_all fault ms st =
     (case ensure_migrations_table fault st of (Inl x, st1) \<Rightarrow> (Inl x, st1) | (Inr _, st1) \<Rightarrow> run_pending fault ms st1)"

section \<open>At most once, in order\<close>

definition applied :: "'x runner_state \<Rightarrow> string set" where
  "applied st = (case ledger st of Some l \<Rightarrow> set l | None \<Rightarrow> {})"

text \<open>The migrations that are still to be run, each name once, in the order of their registration.\<close>

fun pending :: "string set \<Rightarrow> 'x migration list \<Rightarrow> 'x migration list" where
  "pending seen [] = []"
| "pending seen (m # ms) = (if mg_name m \<in> seen then pending seen ms else m # pending (insert (mg_name m) seen) ms)"

text \<open>What the runs of migrations one after the other come to, and what they leave.\<close>

fun outcomes :: "'x migration list \<Rightarrow> 'x \<Rightarrow> (string + unit) list" where
  "outcomes [] x = []"
| "outcomes (m # ms) x = fst (mg_run m x) # outcomes ms (snd (mg_run m x))"

fun after :: "'x migration list \<Rightarrow> 'x \<Rightarrow> 'x" where
  "after [] x = x"
| "after (m # ms) x = after ms (snd (mg_run m x))"

lemma pending_names: "mg_name ` set (pending seen ms) = mg_name ` set ms - seen"
  by (induction seen ms rule: pending.induct) auto

lemma pending_distinct: "distinct (map mg_name (pending seen ms))"
  by (induction seen ms rule: pending.induct) (simp_all add: pending_names)

text \<open>
  How far a pass over the pending migrations \<open>todo\<close> got: the first \<open>n\<close> were started, the first \<open>k\<close> of them recorded.
\<close>

definition got_to :: "'x migration list \<Rightarrow> bool \<Rightarrow> string + unit \<Rightarrow> 'x runner_state \<Rightarrow> 'x runner_state \<Rightarrow> nat \<Rightarrow> nat \<Rightarrow> bool" where
  "got_to todo well r st st' n k \<longleftrightarrow> k \<le> n \<and> n \<le> Suc k \<and> n \<le> length todo
     \<and> started st' = started st @ map mg_name (take n todo)
     \<and> resources st' = after (take n todo) (resources st)
     \<and> applied st' = applied st \<union> mg_name ` set (take k todo)
     \<and> (\<forall>i < k. outcomes todo (resources st) ! i = Inr ())
     \<and> (\<forall>i < n. outcomes todo (resources st) ! i \<noteq> Inr () \<longrightarrow> n = Suc k \<and> r \<noteq> Inr ())
     \<and> (r = Inr () \<longrightarrow> k = length todo)
     \<and> (well \<longrightarrow> r \<noteq> Inr () \<longrightarrow> n = Suc k \<and> outcomes todo (resources st) ! k \<noteq> Inr ())"

lemma got_to_start:
  assumes "started st' = started st" "applied st' = applied st" "resources st' = resources st"
    "r = Inr () \<Longrightarrow> todo = []" "well \<Longrightarrow> r = Inr ()"
  shows "got_to todo well r st st' 0 0"
  using assms by (auto simp: got_to_def)

lemma got_to_step:
  assumes "got_to todo well r st1 st' n k" "started st1 = started st @ [mg_name m]"
    "applied st1 = insert (mg_name m) (applied st)" "mg_run m (resources st) = (Inr u, resources st1)"
  shows "got_to (m # todo) well r st st' (Suc n) (Suc k)"
  using assms by (auto simp: got_to_def less_Suc_eq_0_disj)

lemma got_to_same: "got_to todo well r st1 st' n k \<Longrightarrow> started st1 = started st \<Longrightarrow> applied st1 = applied st \<Longrightarrow>
    resources st1 = resources st \<Longrightarrow> got_to todo well r st st' n k"
  by (simp add: got_to_def)

text \<open>A migration was started and not recorded.\<close>

lemma got_to_begun:
  assumes "started st' = started st @ [mg_name m]" "applied st' = applied st" "resources st' = snd (mg_run m (resources st))"
    "r \<noteq> Inr ()" "well \<Longrightarrow> fst (mg_run m (resources st)) \<noteq> Inr ()"
  shows "got_to (m # todo) well r st st' 1 0"
  using assms by (auto simp: got_to_def)

lemma run_pending_got_to:
  "run_pending fault ms st = (r, st') \<Longrightarrow>
   \<exists>n k. got_to (pending (applied st) ms) ((\<forall>i. \<not> fault i) \<and> ledger st \<noteq> None) r st st' n k"
proof (induction fault ms st rule: run_pending.induct)
  case (1 fault st)
  then have "got_to (pending (applied st) []) ((\<forall>i. \<not> fault i) \<and> ledger st \<noteq> None) r st st' 0 0"
    by (intro got_to_start) auto
  then show ?case by blast
next
  case (2 fault m ms st)
  let ?well = "\<lambda>st. (\<forall>i. \<not> fault i) \<and> ledger (st :: 'a runner_state) \<noteq> None"
  obtain a st1 where a: "is_applied fault (mg_name m) st = (a, st1)" by fastforce
  have st1: "st1 = next_statement st" using a by (auto simp: is_applied_def split: if_split_asm)
  then have same: "started st1 = started st" "applied st1 = applied st" "ledger st1 = ledger st" "resources st1 = resources st"
    by (simp_all add: next_statement_def applied_def)
  show ?case
  proof (cases a)
    case (Inl x)
    then have "r = Inl x" "st' = st1" "\<not> ?well st" using "2.prems" a by (auto simp: is_applied_def split: if_split_asm)
    then have "got_to (pending (applied st) (m # ms)) (?well st) r st st' 0 0" using same by (intro got_to_start) auto
    then show ?thesis by blast
  next
    case (Inr known)
    then have known: "known \<longleftrightarrow> mg_name m \<in> applied st"
      using a by (auto simp: is_applied_def applied_def filter_empty_conv split: if_split_asm)
    show ?thesis
    proof (cases known)
      case True
      then have "run_pending fault ms st1 = (r, st')" using "2.prems" a Inr by simp
      with "2.IH"(1) [OF a [symmetric] Inr] True obtain n k where "got_to (pending (applied st1) ms) (?well st1) r st1 st' n k"
        by blast
      then have "got_to (pending (applied st) ms) (?well st) r st st' n k"
        using got_to_same [of _ _ r st1 st' n k st] same by simp
      then show ?thesis using known True by auto
    next
      case False
      obtain b st2 where b: "run_migration m st1 = (b, st2)" by fastforce
      then have st2: "started st2 = started st @ [mg_name m]" "applied st2 = applied st" "ledger st2 = ledger st"
        "mg_run m (resources st) = (fst (mg_run m (resources st)), resources st2)" "b = Inr () \<longleftrightarrow> fst (mg_run m (resources st)) = Inr ()"
        using same by (auto simp: run_migration_def applied_def split: prod.splits sum.splits)
      have todo: "pending (applied st) (m # ms) = m # pending (insert (mg_name m) (applied st)) ms"
        using known False by simp
      show ?thesis
      proof (cases b)
        case (Inl x)
        with "2.prems" a \<open>a = Inr known\<close> False b have "r = Inl x" "st' = st2" by simp_all
        then have "got_to (m # pending (insert (mg_name m) (applied st)) ms) (?well st) r st st' 1 0"
          using st2 Inl by (intro got_to_begun) (auto dest: arg_cong [of _ _ snd])
        then show ?thesis unfolding todo by blast
      next
        case ok: (Inr u)
        obtain c st3 where c: "record_applied fault (mg_name m) st2 = (c, st3)" by fastforce
        show ?thesis
        proof (cases c)
          case (Inl x)
          with "2.prems" a \<open>a = Inr known\<close> False b ok c have "r = Inl x" "st' = st3" by simp_all
          moreover have "started st3 = started st2" "applied st3 = applied st2" "resources st3 = resources st2"
            using c Inl by (auto simp: record_applied_def applied_def next_statement_def split: option.splits if_split_asm)
          moreover have "\<not> ?well st"
            using c Inl known False st2(2,3) by (auto simp: record_applied_def applied_def split: option.splits if_split_asm)
          ultimately have "got_to (m # pending (insert (mg_name m) (applied st)) ms) (?well st) r st st' 1 0"
            using st2 by (intro got_to_begun) (auto dest: arg_cong [of _ _ snd])
          then show ?thesis unfolding todo by blast
        next
          case (Inr v)
          then have st3: "started st3 = started st2" "applied st3 = insert (mg_name m) (applied st2)" "resources st3 = resources st2"
            "ledger st3 \<noteq> None"
            using c by (auto simp: record_applied_def applied_def next_statement_def split: option.splits if_split_asm)
          have "run_pending fault ms st3 = (r, st')"
            using "2.prems" a \<open>a = Inr known\<close> False b ok c Inr by simp
          with "2.IH"(2) [OF a [symmetric] \<open>a = Inr known\<close> _ b [symmetric] ok c [symmetric] Inr] False
          obtain n k where "got_to (pending (applied st3) ms) (?well st3) r st3 st' n k" by blast
          then have "got_to (pending (insert (mg_name m) (applied st)) ms) (?well st3) r st3 st' n k"
            using st2 st3 by simp
          moreover have "?well st \<Longrightarrow> ?well st3" using st3(4) by simp
          ultimately have "got_to (pending (insert (mg_name m) (applied st)) ms) (?well st) r st3 st' n k"
            by (auto simp: got_to_def)
          moreover have "mg_run m (resources st) = (Inr u, resources st3)"
            using st2(4,5) st3(3) ok by (cases "mg_run m (resources st)") auto
          ultimately have "got_to (m # pending (insert (mg_name m) (applied st)) ms) (?well st) r st st' (Suc n) (Suc k)"
            by (intro got_to_step [of _ _ _ st3]) (use st2 st3 in simp_all)
          then show ?thesis unfolding todo by blast
        qed
      qed
    qed
  qed
qed

lemma run_all_got_to:
  assumes "run_all fault ms st = (r, st')"
  shows "\<exists>n k. got_to (pending (applied st) ms) (\<forall>i. \<not> fault i) r st st' n k"
proof (cases "fault (statements st)")
  case True
  then have "got_to (pending (applied st) ms) (\<forall>i. \<not> fault i) r st st' 0 0" using assms
    by (intro got_to_start) (auto simp: run_all_def ensure_migrations_table_def next_statement_def applied_def)
  then show ?thesis by blast
next
  case False
  define st1 where "st1 = (next_statement st)\<lparr>ledger := Some (case ledger st of Some l \<Rightarrow> l | None \<Rightarrow> [])\<rparr>"
  have same: "applied st1 = applied st" "started st1 = started st" "resources st1 = resources st" "ledger st1 \<noteq> None"
    by (auto simp: st1_def next_statement_def applied_def split: option.split)
  have "run_pending fault ms st1 = (r, st')" using assms False by (simp add: run_all_def ensure_migrations_table_def st1_def)
  from run_pending_got_to [OF this] obtain n k where "got_to (pending (applied st) ms) (\<forall>i. \<not> fault i) r st1 st' n k"
    using same(1,4) by auto
  then have "got_to (pending (applied st) ms) (\<forall>i. \<not> fault i) r st st' n k"
    by (rule got_to_same) (use same in simp_all)
  then show ?thesis by blast
qed

text \<open>
  C39. Every startup migration is run at most once as long as its run can be recorded. A pass starts a beginning of the
  migrations that are not in the ledger, each once, in the order of registration, and their effects are those of
  running these migrations one after the other; it records all that it started but perhaps the last. A migration is recorded
  only if its run succeeded, and one whose run fails is the last that is started, is not recorded, and fails the pass. A pass
  that succeeds has run and recorded all that were pending, and a later pass starts nothing; where the
  ledger works, a pass fails only because the run of the last migration it started failed.
\<close>

theorem migrations_run_once:
  assumes run: "run_all fault ms st = (r, st')" and todo: "todo = pending (applied st) ms"
  shows "distinct (map mg_name todo) \<and> mg_name ` set todo = mg_name ` set ms - applied st
    \<and> (\<exists>n k. k \<le> n \<and> n \<le> Suc k \<and> n \<le> length todo
       \<and> started st' = started st @ map mg_name (take n todo)
       \<and> resources st' = after (take n todo) (resources st)
       \<and> applied st' = applied st \<union> mg_name ` set (take k todo)
       \<and> (\<forall>i < k. outcomes todo (resources st) ! i = Inr ())
       \<and> (\<forall>i < n. outcomes todo (resources st) ! i \<noteq> Inr () \<longrightarrow> n = Suc k \<and> r \<noteq> Inr ())
       \<and> (r = Inr () \<longrightarrow> k = length todo)
       \<and> ((\<forall>i. \<not> fault i) \<longrightarrow> r \<noteq> Inr () \<longrightarrow> n = Suc k \<and> outcomes todo (resources st) ! k \<noteq> Inr ()))
    \<and> (r = Inr () \<longrightarrow> (\<forall>fault' r2 st2. run_all fault' ms st' = (r2, st2) \<longrightarrow> started st2 = started st' \<and> resources st2 = resources st'))"
proof -
  from run_all_got_to [OF run] obtain n k where got: "got_to todo (\<forall>i. \<not> fault i) r st st' n k" unfolding todo by blast
  have again: "started st2 = started st' \<and> resources st2 = resources st'" if ok: "r = Inr ()" and again: "run_all fault' ms st' = (r2, st2)"
    for fault' r2 st2
  proof -
    have "applied st' = applied st \<union> mg_name ` set todo" using got ok by (simp add: got_to_def)
    then have "mg_name ` set (pending (applied st') ms) = {}" unfolding pending_names todo by auto
    then have "pending (applied st') ms = []" by simp
    with run_all_got_to [OF again] show ?thesis by (auto simp: got_to_def)
  qed
  have names: "distinct (map mg_name todo)" "mg_name ` set todo = mg_name ` set ms - applied st"
    unfolding todo by (simp_all add: pending_distinct pending_names)
  from got have "\<exists>n k. got_to todo (\<forall>i. \<not> fault i) r st st' n k" by blast
  note far = this [unfolded got_to_def]
  show ?thesis by (intro conjI names far impI allI again)
qed

definition sample_migrations :: "nat migration list" where
  "sample_migrations = [\<lparr>mg_name = ''0001'', mg_run = (\<lambda>n. (Inr (), Suc n))\<rparr>, \<lparr>mg_name = ''0002'', mg_run = (\<lambda>n. (Inl ''no gateway'', n + 2))\<rparr>,
     \<lparr>mg_name = ''0003'', mg_run = (\<lambda>n. (Inr (), n + 7))\<rparr>]"

definition fresh_runner :: "nat runner_state" where
  "fresh_runner = \<lparr>ledger = None, resources = 0, statements = 0, started = []\<rparr>"

theorem migrations_run_once_witness:
  "\<exists>r st'. run_all (\<lambda>_. False) sample_migrations fresh_runner = (r, st') \<and> r \<noteq> Inr ()
     \<and> started st' = [''0001'', ''0002''] \<and> applied st' = {''0001''} \<and> resources st' = 3"
proof -
  obtain r st' where run: "run_all (\<lambda>_. False) sample_migrations fresh_runner = (r, st')" by fastforce
  have todo: "sample_migrations = pending (applied fresh_runner) sample_migrations"
    by (simp add: applied_def fresh_runner_def sample_migrations_def)
  have len: "length sample_migrations = 3" and out: "outcomes sample_migrations (resources fresh_runner) = [Inr (), Inl ''no gateway'', Inr ()]"
    by (simp_all add: sample_migrations_def fresh_runner_def)
  from migrations_run_once [OF run todo] obtain n k where
    nk: "k \<le> n" "n \<le> Suc k" "n \<le> 3" "started st' = map mg_name (take n sample_migrations)"
      "resources st' = after (take n sample_migrations) 0" "applied st' = mg_name ` set (take k sample_migrations)"
    and rec: "\<forall>i < k. outcomes sample_migrations (resources fresh_runner) ! i = Inr ()"
    and full: "r = Inr () \<longrightarrow> k = 3"
    and fail: "r \<noteq> Inr () \<longrightarrow> n = Suc k \<and> outcomes sample_migrations (resources fresh_runner) ! k \<noteq> Inr ()"
    unfolding len by (auto simp: fresh_runner_def applied_def)
  have "k \<le> 1" using rec [rule_format, of 1] by (simp add: out) (metis One_nat_def not_less)
  then have bad: "r \<noteq> Inr ()" using full by auto
  have "k \<noteq> 0" using fail bad by (cases k) (auto simp: out)
  then have "k = 1" "n = 2" using \<open>k \<le> 1\<close> fail bad by auto
  with run bad nk show ?thesis by (simp add: sample_migrations_def numeral_2_eq_2)
qed

end
