(* ===== verification/Coverage_Tool.thy ===== *)
theory Coverage_Tool
  imports Dispatch Object_Store
begin

text \<open>
  \<open>src/bin/permission-coverage.rs\<close>: the check that the dispatch matrix names every RPC of the proto files, and no
  other. The directory is a parameter: its files, each with its extension and its lines.
\<close>

section \<open>The scanner\<close>

definition first_word :: "string \<Rightarrow> string" where
  "first_word s = takeWhile (\<lambda>c. \<not> ws_char c) (dropWhile ws_char s)"

definition rpc_path :: "string \<Rightarrow> string \<Rightarrow> string" where
  "rpc_path svc rpc = ''/sunbeam.kanban.v1.'' @ svc @ ''/'' @ rpc"

definition scan_line :: "string \<Rightarrow> string option \<times> string set \<Rightarrow> string option \<times> string set" where
  "scan_line line st =
     (let (current_service, methods) = st; trimmed = trim line in
      case strip_prefix ''service '' trimmed of
        Some rest \<Rightarrow> (Some (trim (trim_end_char (CHR ''{'') (first_word rest))), methods)
      | None \<Rightarrow>
          if trimmed = ''}'' then (None, methods)
          else (case (current_service, strip_prefix ''rpc '' trimmed) of
              (Some svc, Some rest) \<Rightarrow>
                let rpc_name = trim (hd (split_on (CHR ''('') rest)) in
                (current_service, if rpc_name \<noteq> '''' then insert (rpc_path svc rpc_name) methods else methods)
            | _ \<Rightarrow> (current_service, methods)))"

type_synonym proto_dir = "(string option \<times> string list) list"

definition scan_file :: "string option \<times> string list \<Rightarrow> string set \<Rightarrow> string set" where
  "scan_file file methods = (if fst file = Some ''proto'' then snd (fold scan_line (snd file) (None, methods)) else methods)"

definition scan_proto_methods :: "proto_dir \<Rightarrow> string set" where
  "scan_proto_methods dir = fold scan_file dir {}"

text \<open>The exit code.\<close>

definition coverage_run :: "proto_dir \<Rightarrow> int" where
  "coverage_run dir =
     (let expected = {m \<in> scan_proto_methods dir. m \<notin> set BYPASSED_METHODS}; actual = set (map de_method MATRIX);
          missing = expected - actual; extra = actual - expected
      in if missing = {} \<and> extra = {} then 0 else 1)"

section \<open>Proto files\<close>

text \<open>
  A proto file as the repository writes them: a service is its opening line, its RPCs with one RPC to a line, any blank
  lines and comments before, between and after them, and the closing brace; outside the services are
  any lines that start no service.
\<close>

datatype service_line = Note string | Rpc string string

datatype proto_item = Other string | Service string "service_line list"

primrec service_text :: "service_line \<Rightarrow> string" where
  "service_text (Note l) = l"
| "service_text (Rpc name signature) = ''  rpc '' @ name @ ''('' @ signature"

primrec item_lines :: "proto_item \<Rightarrow> string list" where
  "item_lines (Other l) = [l]"
| "item_lines (Service name ls) = (''service '' @ name @ '' {'') # map service_text ls @ [''}'']"

definition word :: "string \<Rightarrow> bool" where
  "word s \<longleftrightarrow> s \<noteq> [] \<and> (\<forall>c \<in> set s. \<not> ws_char c \<and> c \<noteq> CHR ''('' \<and> c \<noteq> CHR ''{'')"

definition blank_or_comment :: "string \<Rightarrow> bool" where
  "blank_or_comment l \<longleftrightarrow> trim l = '''' \<or> strip_prefix ''//'' (trim l) \<noteq> None"

primrec proper_line :: "service_line \<Rightarrow> bool" where
  "proper_line (Note l) = blank_or_comment l"
| "proper_line (Rpc name signature) = word name"

primrec proper_item :: "proto_item \<Rightarrow> bool" where
  "proper_item (Other l) = (strip_prefix ''service '' (trim l) = None)"
| "proper_item (Service name ls) = (word name \<and> (\<forall>l \<in> set ls. proper_line l))"

primrec declared :: "proto_item \<Rightarrow> string set" where
  "declared (Other l) = {}"
| "declared (Service name ls) = {rpc_path name rpc | rpc signature. Rpc rpc signature \<in> set ls}"

section \<open>The scanner reads what is declared\<close>

lemma trim_solid: "s \<noteq> [] \<Longrightarrow> \<not> ws_char (hd s) \<Longrightarrow> \<not> ws_char (last s) \<Longrightarrow> trim s = s"
proof -
  assume s: "s \<noteq> []" "\<not> ws_char (hd s)" "\<not> ws_char (last s)"
  then have "dropWhile ws_char s = s" "dropWhile ws_char (rev s) = rev s" by (simp_all add: dropWhile_eq_self_iff hd_rev)
  then show ?thesis by (simp add: trim_def)
qed

lemma trim_after: "\<not> ws_char c \<Longrightarrow> \<not> ws_char (hd (p @ [c])) \<Longrightarrow> trim (p @ c # s) = p @ c # rev (dropWhile ws_char (rev s))"
proof -
  assume c: "\<not> ws_char c" and h: "\<not> ws_char (hd (p @ [c]))"
  have "dropWhile ws_char (p @ c # s) = p @ c # s" using h by (cases p) auto
  moreover have "dropWhile ws_char (rev s @ c # rev p) = dropWhile ws_char (rev s) @ c # rev p" using c by (rule dropWhile_append3)
  ultimately show ?thesis by (simp add: trim_def)
qed

lemma trim_indent: "trim (CHR '' '' # s) = trim s"
  by (simp add: trim_def ws_char_def)

lemma ws_samples:
  "\<not> ws_char (CHR ''s'')" "\<not> ws_char (CHR ''{'')" "\<not> ws_char (CHR ''}'')" "\<not> ws_char (CHR ''/'')" "\<not> ws_char (CHR ''r'')" "\<not> ws_char (CHR ''('')"
  "ws_char (CHR '' '')"
  by (simp_all add: ws_char_def)

lemma word_ends: "word s \<Longrightarrow> s \<noteq> [] \<and> \<not> ws_char (hd s) \<and> \<not> ws_char (last s) \<and> CHR ''('' \<notin> set s \<and> CHR ''{'' \<notin> set s"
  by (auto simp: word_def)

lemma trim_word: "word s \<Longrightarrow> trim s = s"
  using word_ends [of s] by (intro trim_solid) simp_all

lemma scan_service: "word name \<Longrightarrow> scan_line (''service '' @ name @ '' {'') (svc, ms) = (Some name, ms)"
proof -
  assume w: "word name"
  have t: "trim (''service '' @ name @ '' {'') = ''service '' @ name @ '' {''" by (rule trim_solid) (simp_all add: ws_samples)
  have "dropWhile ws_char (name @ '' {'') = name @ '' {''" using word_ends [OF w] by (cases name) auto
  moreover have "takeWhile (\<lambda>c. \<not> ws_char c) (name @ '' {'') = name" using w by (simp add: word_def takeWhile_append2 ws_samples)
  ultimately have f: "first_word (name @ '' {'') = name" by (simp add: first_word_def)
  have "dropWhile ((=) (CHR ''{'')) (rev name) = rev name"
    using word_ends [OF w] by (simp add: dropWhile_eq_self_iff hd_rev) (metis last_in_set)
  then have "trim (trim_end_char (CHR ''{'') name) = name" using trim_word [OF w] by (simp add: trim_end_char_def)
  with t f show ?thesis unfolding scan_line_def by (simp add: Let_def)
qed

lemma scan_close: "scan_line ''}'' (svc, ms) = (None, ms)"
proof -
  have "trim ''}'' = ''}''" by (rule trim_solid) (simp_all add: ws_samples)
  then show ?thesis by (simp add: scan_line_def)
qed

lemma scan_note: "blank_or_comment l \<Longrightarrow> scan_line l (svc, ms) = (svc, ms)"
  by (cases svc) (auto simp: scan_line_def blank_or_comment_def Let_def strip_prefix_Some split: option.split)

lemma scan_rpc: "word rpc \<Longrightarrow> scan_line (''  rpc '' @ rpc @ ''('' @ sg) (Some svc, ms) = (Some svc, insert (rpc_path svc rpc) ms)"
proof -
  assume w: "word rpc"
  have "trim (''  rpc '' @ rpc @ ''('' @ sg) = trim ((''rpc '' @ rpc) @ CHR ''('' # sg)" by (simp add: trim_indent)
  also have "\<dots> = (''rpc '' @ rpc) @ CHR ''('' # rev (dropWhile ws_char (rev sg))" by (rule trim_after) (simp_all add: ws_samples)
  finally have t: "trim (''  rpc '' @ rpc @ ''('' @ sg) = ''rpc '' @ (rpc @ CHR ''('' # rev (dropWhile ws_char (rev sg)))" by simp
  have "hd (split_on (CHR ''('') (rpc @ CHR ''('' # rev (dropWhile ws_char (rev sg)))) = rpc" using word_ends [OF w] by (simp add: split_on_append)
  with t trim_word [OF w] word_ends [OF w] show ?thesis unfolding scan_line_def by (simp add: Let_def)
qed

lemma scan_other: "strip_prefix ''service '' (trim l) = None \<Longrightarrow> scan_line l (None, ms) = (None, ms)"
  by (simp add: scan_line_def Let_def split: option.split)

lemma scan_rpcs: "\<forall>l \<in> set ls. proper_line l \<Longrightarrow>
  fold scan_line (map service_text ls) (Some svc, ms) = (Some svc, ms \<union> {rpc_path svc rpc | rpc signature. Rpc rpc signature \<in> set ls})"
proof (induction ls arbitrary: ms)
  case (Cons l ls)
  show ?case
  proof (cases l)
    case (Note n)
    with Cons.prems have "scan_line (service_text l) (Some svc, ms) = (Some svc, ms)" by (simp add: scan_note)
    moreover have "{rpc_path svc rpc | rpc signature. Rpc rpc signature \<in> set (l # ls)} = {rpc_path svc rpc | rpc signature. Rpc rpc signature \<in> set ls}"
      using Note by auto
    ultimately show ?thesis using Cons by simp
  next
    case (Rpc r sg)
    with Cons.prems have "scan_line (service_text l) (Some svc, ms) = (Some svc, insert (rpc_path svc r) ms)"
      by (simp add: scan_rpc del: append_Cons)
    moreover have "{rpc_path svc rpc | rpc signature. Rpc rpc signature \<in> set (l # ls)}
        = insert (rpc_path svc r) {rpc_path svc rpc | rpc signature. Rpc rpc signature \<in> set ls}"
      using Rpc by auto
    ultimately show ?thesis using Cons by simp
  qed
qed simp

lemma scan_item: "proper_item it \<Longrightarrow> fold scan_line (item_lines it) (None, ms) = (None, ms \<union> declared it)"
  by (cases it) (simp_all add: scan_other scan_service scan_rpcs scan_close del: append_Cons)


lemma scan_items: "\<forall>it \<in> set items. proper_item it \<Longrightarrow>
  fold scan_line (concat (map item_lines items)) (None, ms) = (None, ms \<union> \<Union> (declared ` set items))"
  by (induction items arbitrary: ms) (auto simp: scan_item)

definition proto_files :: "(string option \<times> proto_item list) list \<Rightarrow> proto_dir" where
  "proto_files files = map (\<lambda>(ext, items). (ext, concat (map item_lines items))) files"

definition declared_methods :: "(string option \<times> proto_item list) list \<Rightarrow> string set" where
  "declared_methods files = (\<Union>(ext, items) \<in> set files. if ext = Some ''proto'' then \<Union> (declared ` set items) else {})"

lemma scan_files:
  assumes "\<forall>(ext, items) \<in> set files. \<forall>it \<in> set items. proper_item it"
  shows "fold scan_file (proto_files files) ms = ms \<union> declared_methods files"
  using assms
proof (induction files arbitrary: ms)
  case (Cons f files)
  then show ?case by (cases f) (auto simp: proto_files_def declared_methods_def scan_file_def scan_items)
qed (simp add: proto_files_def declared_methods_def)

text \<open>
  C40. The coverage check decides what it is meant to decide: on proto files as the repository writes them, with any
  blank lines and comments inside a service and any other declarations between the services, the scanner reads back
  exactly the declared RPCs, and the exit code is 0 if and only if the dispatch matrix has an entry for every
  declared RPC that is not bypassed, and no other.
\<close>

theorem coverage_check_exact:
  assumes "\<forall>(ext, items) \<in> set files. \<forall>it \<in> set items. proper_item it"
  shows "scan_proto_methods (proto_files files) = declared_methods files
    \<and> (coverage_run (proto_files files) = 0 \<longleftrightarrow> set (map de_method MATRIX) = declared_methods files - set BYPASSED_METHODS)"
proof -
  have scan: "scan_proto_methods (proto_files files) = declared_methods files"
    using scan_files [OF assms, of "{}"] by (simp add: scan_proto_methods_def)
  then show ?thesis by (auto simp: coverage_run_def Let_def)
qed

definition sample_proto :: "proto_item list" where
  "sample_proto = [Other ''syntax = proto3;'', Other '''', Service ''LabelService''
     [Note ''  // Requires view.'', Rpc ''ListLabels'' ''A) returns (B);'', Note '''', Note ''  // Requires manage.'',
      Rpc ''CreateLabel'' ''C) returns (D);'', Note ''''], Other ''message A {'', Other ''}'']"

theorem coverage_check_exact_witness:
  "scan_proto_methods [(Some ''proto'', [''syntax = proto3;'', '''', ''service LabelService {'', ''  // Requires view.'',
       ''  rpc ListLabels(A) returns (B);'', '''', ''  // Requires manage.'', ''  rpc CreateLabel(C) returns (D);'', '''', ''}'', ''message A {'', ''}'']),
      (Some ''md'', [''notes''])]
     = {''/sunbeam.kanban.v1.LabelService/ListLabels'', ''/sunbeam.kanban.v1.LabelService/CreateLabel''}"
proof -
  let ?files = "[(Some ''proto'', sample_proto), (Some ''md'', [Other ''notes''])]"
  have "list_all (\<lambda>(ext, items). list_all proper_item items) ?files" by code_simp
  then have "\<forall>(ext, items) \<in> set ?files. \<forall>it \<in> set items. proper_item it" by (simp add: list_all_iff)
  from coverage_check_exact [OF this]
  have "scan_proto_methods (proto_files ?files) = {''/sunbeam.kanban.v1.LabelService/ListLabels'', ''/sunbeam.kanban.v1.LabelService/CreateLabel''}"
    by (auto simp: declared_methods_def sample_proto_def rpc_path_def)
  then show ?thesis by (simp add: proto_files_def sample_proto_def)
qed

end
