(* ===== verification/Spec2Isabelle.thy ===== *)
theory Spec2Isabelle
  imports Visibility Cutover Board_Stream Card_Properties Card_Functional Dispatch Event_Stream Board_Access Registry Membership Aggregated_View Search Template_Access Github_Links Public_Boards Session Migration_Runner Coverage_Tool
begin

text \<open>
  A verification library for the Kanban service: a Rust service (\<open>src/src\<close>) over Postgres
  (\<open>src/migrations\<close>), a NATS JetStream event stream, an OpenSearch index and a single sign-on gateway
  that keeps permissions and users. Clients call unary RPCs; a middleware authorises each of them; the
  handler changes the database in a transaction that also appends an event to \<open>event_log\<close>; a dispatcher
  publishes the events; subscriptions replay a snapshot and then follow the stream.

  \<^bold>\<open>How the program is modelled.\<close> A handler is a function of the outside world (\<open>Effects.env\<close>: the
  clock, the ULIDs, which statement or call fails, what the gateway answers) and of the service's state
  (\<open>Effects.world\<close>: the database, the open transaction, the tuple store, the caches) to a result or an
  error and the new state. SQL statements are functions on \<open>Db.db\<close> (one list of rows per table) that are
  \<open>None\<close> where Postgres rejects them; \<open>in_tx\<close> rolls back on an error and refuses to commit after a failed
  statement. A Rust \<open>Result\<close> is a sum, an \<open>Option\<close> an option, an \<open>i32\<close> an integer with its range checked
  or wrapped where the code does, a 128-bit ULID a word. Handlers run one at a time.

  \<^bold>\<open>Parts and theories.\<close>
  \<^item> \<open>Kanban_Prelude\<close>: strings, integer widths, tables as lists, the theorem collections.
  \<^item> \<open>Ids\<close> (\<open>src/id.rs\<close>), \<open>Visibility\<close> (\<open>services/visibility.rs\<close>), \<open>Json\<close>, \<open>Db\<close> (\<open>migrations/*.sql\<close>).
  \<^item> \<open>Effects\<close>, \<open>Triples\<close>: the effects of handlers and the rules to reason about them (\<open>keeps\<close>: a
    database property survives an action however it ends; \<open>upholds\<close>, \<open>ensures\<close>: inside a transaction;
    \<open>ok_iffs\<close>: what a successful run implies; \<open>evals\<close>: running a handler on a concrete world).
  \<^item> \<open>Permission\<close> (\<open>auth/permission_client.rs\<close>, \<open>permission_retry.rs\<close>, \<open>permission_expand.rs\<close>),
    \<open>Identity\<close> (\<open>auth/identity_client.rs\<close>), \<open>Dispatch\<close> (\<open>auth/permission_dispatch.rs\<close>: the matrix, the
    check and its composition with the card service).
  \<^item> \<open>Event_Log\<close> (\<open>event_log.rs\<close>): revisions and log of a board or aggregated board, as one locale with
    two interpretations.
  \<^item> \<open>Card_Types\<close>, \<open>Card_Sql\<close>, \<open>Card_Reads\<close>, \<open>Card_Writes\<close>, \<open>Card_Moves\<close>, \<open>Card_Items\<close>, \<open>Comments\<close>: every
    handler of \<open>services/cards.rs\<close>; \<open>Card_Service\<close> puts them together and holds the sample database of
    the witnesses. \<open>Card_Steps\<close> is the abstract specification (the kinds of step a request may take on the
    database, and the invariant \<open>well_formed\<close>), \<open>Card_Refinement\<close> shows that every handler is a sequence of
    such steps, \<open>Card_Properties\<close>, \<open>Card_Isolation\<close> and \<open>Card_Functional\<close> draw the consequences.
  \<^item> \<open>Board_Sql\<close>, \<open>Boards\<close>, \<open>Columns\<close>: the unary handlers of \<open>services/boards.rs\<close>. \<open>Column_Order\<close> and
    \<open>Column_Edits\<close> relate the stored positions to the list of a board's columns.
  \<^item> \<open>Event_Payloads\<close>, \<open>Outbox\<close> (\<open>realtime/outbox.rs\<close>, the subjects of \<open>realtime/jetstream_bootstrap.rs\<close>,
    \<open>search_indexing.rs\<close>): one pass of the dispatcher. \<open>Delivery\<close> (at least once, and exactly
    once where the broker refuses every repeated id), \<open>Backlog\<close> (progress) and
    \<open>Event_Stream\<close> (from a handler's event to the published message) are about it. The stream of the model is the history
    of the messages that the broker accepted, whether it still keeps them or not.
  \<^item> \<open>Cutover\<close> (\<open>realtime/cutover.rs\<close>): the state machine of a subscription, with the sliding window it
    implements.
  \<^item> \<open>Quiet\<close>: actions that only read, and what a permission check finds out. \<open>Board_Access\<close>: who sees a
    board, who changes its visibility, what its deletion takes along.
  \<^item> \<open>Registry\<close> (\<open>realtime/registry.rs\<close>): the shared live channels of a process under every interleaving of
    subscribe calls, drops and pumps that end by themselves, with the race of two first subscribers.
  \<^item> \<open>Projects\<close>, \<open>Membership\<close>: the unary handlers of \<open>services/projects.rs\<close>, and the agreement of the roles
    in the permission backend with their mirror.
  \<^item> \<open>Labels\<close>, \<open>Milestones\<close>, \<open>Catalogs\<close>: \<open>services/labels.rs\<close> and \<open>services/milestones.rs\<close> in full;
    who writes a label, and that milestones count their cards exactly.
  \<^item> \<open>Aggregated\<close>, \<open>Source_Order\<close>, \<open>Aggregated_View\<close>: the unary handlers of
    \<open>services/aggregated_boards.rs\<close>, the order of the source boards as edits of one list, and what a
    caller sees of a board that spans boards of several projects.
  \<^item> \<open>Board_Stream\<close>: SubscribeBoard of \<open>services/boards.rs\<close>: the snapshot that opens a stream, the cutover and
    the live tail, with what a subscriber receives and how long a private stream outlives its permission.
  \<^item> \<open>Base64\<close>, \<open>Search\<close>: \<open>services/search.rs\<close>, the query, the cursor with its hand-written base64 and the
    filter of the hits by visibility; the engine is a parameter.
  \<^item> \<open>Templates\<close>, \<open>Template_Access\<close>: \<open>services/templates.rs\<close>, board and card templates over one
    \<open>template_table\<close>, with a locale of the laws of such a table; who writes and who sees a template.
  \<^item> \<open>Object_Store\<close> (\<open>integrations/s3.rs\<close>: request signing, presigned URLs, the four calls) and \<open>Attachments\<close>
    (\<open>services/attachments.rs\<close>) on top of it. The requests it sends are logged in \<open>sent\<close>, a field of
    \<open>Effects.world\<close> that no code reads: it lets a theorem speak of what was asked of the store.
  \<^item> \<open>Github\<close>, \<open>Github_Links\<close> (\<open>services/github.rs\<close>), \<open>Public_Boards\<close> (\<open>services/public_boards.rs\<close>),
    \<open>Session\<close> (\<open>auth/session_client.rs\<close>), \<open>Migration_Runner\<close> (\<open>system_migrations/runner.rs\<close>) and
    \<open>Coverage_Tool\<close> (\<open>bin/permission-coverage.rs\<close>).

  \<^bold>\<open>Bounds and fuel.\<close> \<open>page_fuel\<close> of the environment bounds the pages that a listing loop of the
  permission and identity clients follows: the code follows the tokens of the gateway for ever, so a
  property of such a loop either holds for every amount of fuel or assumes that the listing ends within
  it. The retry loop has the fuel of the code, \<open>MAX_RETRIES\<close> attempts. Nothing else is bounded: tables and
  requests have any size.

  \<^bold>\<open>Not modelled.\<close> The HTTP and database clients, the construction of the services and the command line
  (I/O and glue); the crate \<open>ulid\<close>, the collation of Postgres, the gateway, JetStream and OpenSearch
  (parameters, with what the code relies on as hypotheses); the interleaving of two handlers; strings
  beyond byte sequences (case and letters are those of ASCII).
  The merged live streams of SubscribeProject and SubscribeAggregatedBoard are not modelled, nor are
  the OpenSearch client, the creation of the stream, the two system migrations that the binary registers
  (the runner takes a migration as a parameter), generated code and tests.
\<close>

end
